(* ===== verification/Cpp_Double.thy ===== *)
theory Cpp_Double
  imports Complex_Main "HOL-Library.Log_Nat"
begin

section \<open>The C++ type double\<close>

text \<open>
  A \<open>double\<close> of the source is an IEEE-754 binary64 value. The model keeps the four kinds of
  value a comparison can tell apart: a finite number (a rational), the two infinities and NaN.
  Every arithmetic operation computes the exact rational result and rounds it once, to nearest
  with ties to even, into 53 significant bits with the exponent range of binary64, overflowing to
  an infinity. The sign of zero is the one thing left out: \<open>-0.0\<close> and \<open>0.0\<close> compare equal, and
  the sources divide only by a value they have just tested to be positive.
\<close>

named_theorems double_simps \<open>case equations of the arithmetic and comparison operators of double\<close>

subsection \<open>Rounding to binary64\<close>

abbreviation pow2 :: "int \<Rightarrow> rat" where
  "pow2 k \<equiv> 2 powi k"

definition ilog2 :: "rat \<Rightarrow> int" where
  "ilog2 x = (let (a, b) = quotient_of x; k = bitlen a - bitlen b
     in if pow2 k \<le> x then k else k - 1)"

definition ulp_exp :: "rat \<Rightarrow> int" where
  "ulp_exp x = max (ilog2 \<bar>x\<bar> - 52) (- 1074)"

definition round_even :: "rat \<Rightarrow> int" where
  "round_even y = (let f = \<lfloor>y\<rfloor>; d = y - of_int f
     in if d < 1 / 2 then f else if 1 / 2 < d then f + 1 else if even f then f else f + 1)"

definition rnd64 :: "rat \<Rightarrow> rat" where
  "rnd64 x = (if x = 0 then 0
     else of_int (round_even (x / pow2 (ulp_exp x))) * pow2 (ulp_exp x))"

text \<open>What the comparisons and the bookkeeping of the engine need of a rounding mode.\<close>

locale rounding =
  fixes rnd :: "rat \<Rightarrow> rat"
  assumes rnd_mono: "x \<le> y \<Longrightarrow> rnd x \<le> rnd y"
    and rnd_zero [simp]: "rnd 0 = 0"
    and rnd_neg: "rnd (- x) = - rnd x"
    and rnd_idem: "rnd (rnd x) = rnd x"
begin

lemma rnd_nonneg: "0 \<le> x \<Longrightarrow> 0 \<le> rnd x"
  using rnd_mono [of 0 x] by simp

lemma rnd_nonpos: "x \<le> 0 \<Longrightarrow> rnd x \<le> 0"
  using rnd_mono [of x 0] by simp

lemma rnd_ge_fixed: "rnd a = a \<Longrightarrow> a \<le> x \<Longrightarrow> a \<le> rnd x"
  using rnd_mono [of a x] by simp

lemma rnd_le_fixed: "rnd a = a \<Longrightarrow> x \<le> a \<Longrightarrow> rnd x \<le> a"
  using rnd_mono [of x a] by simp

lemma fixed_less_rnd: "rnd a = a \<Longrightarrow> a < rnd x \<Longrightarrow> a < x"
  using rnd_le_fixed [of a x] by linarith

lemma rnd_less_fixed: "rnd a = a \<Longrightarrow> rnd x < a \<Longrightarrow> x < a"
  using rnd_ge_fixed [of a x] by linarith

lemma fixed_neg: "rnd a = a \<Longrightarrow> rnd (- a) = - a"
  by (simp add: rnd_neg)

end

lemma pow2_pos [simp]: "0 < pow2 k"
  by simp

lemma pow2_add: "pow2 (i + j) = pow2 i * pow2 j"
  by (simp add: power_int_add)

lemma pow2_le_iff [simp]: "pow2 i \<le> pow2 j \<longleftrightarrow> i \<le> j"
  using power_int_strict_increasing [of j i "2::rat"] power_int_increasing [of i j "2::rat"]
  by (cases "i \<le> j") auto

lemma pow2_less_iff [simp]: "pow2 i < pow2 j \<longleftrightarrow> i < j"
  by (meson linorder_not_le pow2_le_iff)

lemma ilog2_bounds:
  assumes "0 < x"
  shows "pow2 (ilog2 x) \<le> x" and "x < pow2 (ilog2 x + 1)"
proof -
  obtain a b where q: "quotient_of x = (a, b)" by fastforce
  have b: "0 < b" using q by (rule quotient_of_denom_pos)
  have x: "x = of_int a / of_int b" using q by (rule quotient_of_div)
  with assms b have a: "0 < a" by (simp add: zero_less_divide_iff)
  have la: "0 < bitlen a" and lb: "0 < bitlen b"
    using a b bitlen_nonneg [of a] bitlen_nonneg [of b] bitlen_eq_zero_iff [of a]
      bitlen_eq_zero_iff [of b] by linarith+
  define k where "k = bitlen a - bitlen b"
  have A1: "pow2 (bitlen a - 1) \<le> of_int a" and A2: "of_int a < pow2 (bitlen a)"
    and B1: "pow2 (bitlen b - 1) \<le> of_int b" and B2: "of_int b < pow2 (bitlen b)"
  proof -
    have *: "pow2 (int n) = of_int (2 ^ n)" for n by simp
    from bitlen_bounds [OF a] la
    show "pow2 (bitlen a - 1) \<le> of_int a" "of_int a < pow2 (bitlen a)"
      using * [of "nat (bitlen a - 1)"] * [of "nat (bitlen a)"] by auto
    from bitlen_bounds [OF b] lb
    show "pow2 (bitlen b - 1) \<le> of_int b" "of_int b < pow2 (bitlen b)"
      using * [of "nat (bitlen b - 1)"] * [of "nat (bitlen b)"] by auto
  qed
  have rb: "(0::rat) < of_int b" using b by simp
  have up: "x < pow2 (k + 1)"
  proof -
    have "of_int a < pow2 (k + 1) * pow2 (bitlen b - 1)"
      using A2 by (simp add: k_def flip: pow2_add)
    also have "\<dots> \<le> pow2 (k + 1) * of_int b"
      using B1 by (intro mult_left_mono) simp_all
    finally show ?thesis using rb by (simp add: x divide_less_eq)
  qed
  have lo: "pow2 (k - 1) \<le> x"
  proof -
    have "pow2 (k - 1) * of_int b \<le> pow2 (k - 1) * pow2 (bitlen b)"
      using B2 by (intro mult_left_mono) simp_all
    also have "\<dots> \<le> of_int a"
      using A1 by (simp add: k_def algebra_simps flip: pow2_add)
    finally show ?thesis using rb by (simp add: x le_divide_eq)
  qed
  have eq: "ilog2 x = (if pow2 k \<le> x then k else k - 1)"
    by (simp add: ilog2_def q k_def Let_def)
  show "pow2 (ilog2 x) \<le> x" using lo by (simp add: eq)
  show "x < pow2 (ilog2 x + 1)" using up by (simp add: eq)
qed


lemma ilog2_unique:
  assumes "pow2 e \<le> x" "x < pow2 (e + 1)"
  shows "ilog2 x = e"
proof -
  have x: "0 < x" using assms(1) by (rule less_le_trans [OF pow2_pos])
  have "pow2 e < pow2 (ilog2 x + 1)" using assms(1) ilog2_bounds(2) [OF x] by linarith
  moreover have "pow2 (ilog2 x) < pow2 (e + 1)" using assms(2) ilog2_bounds(1) [OF x] by linarith
  ultimately show ?thesis by simp
qed

lemma ilog2_mono:
  assumes "0 < x" "x \<le> y"
  shows "ilog2 x \<le> ilog2 y"
proof -
  have "pow2 (ilog2 x) < pow2 (ilog2 y + 1)"
    using ilog2_bounds(1) [of x] ilog2_bounds(2) [of y] assms by linarith
  then show ?thesis by simp
qed

lemma round_even_mono: "x \<le> y \<Longrightarrow> round_even x \<le> round_even y"
proof -
  assume xy: "x \<le> y"
  then have fl: "\<lfloor>x\<rfloor> \<le> \<lfloor>y\<rfloor>" by (rule floor_mono)
  have up: "round_even x \<le> \<lfloor>x\<rfloor> + 1" and lo: "\<lfloor>y\<rfloor> \<le> round_even y"
    by (simp_all add: round_even_def Let_def)
  show ?thesis
  proof (cases "\<lfloor>x\<rfloor> = \<lfloor>y\<rfloor>")
    case True
    then show ?thesis using xy by (auto simp: round_even_def Let_def)
  next
    case False
    then show ?thesis using fl up lo by linarith
  qed
qed

lemma round_even_of_int [simp]: "round_even (of_int n) = n"
  by (simp add: round_even_def)

lemma round_even_neg: "round_even (- y) = - round_even y"
proof (cases "y = of_int \<lfloor>y\<rfloor>")
  case True
  then obtain n where "y = of_int n" by blast
  then show ?thesis using round_even_of_int [of n] round_even_of_int [of "- n"] by simp
next
  case False
  define f where "f = \<lfloor>y\<rfloor>"
  have d: "0 < y - of_int f" "y - of_int f < 1"
    using False floor_correct [of y] by (auto simp: f_def order.strict_iff_order)
  have "\<lfloor>- y\<rfloor> = - f - 1" using d by (intro floor_unique) auto
  then show ?thesis using d unfolding round_even_def Let_def f_def [symmetric] by auto
qed

lemma ulp_exp_minus [simp]: "ulp_exp (- x) = ulp_exp x"
  by (simp add: ulp_exp_def)

lemma ulp_exp_ge: "- 1074 \<le> ulp_exp x"
  by (simp add: ulp_exp_def)

lemma scaled_less:
  assumes "0 < x"
  shows "x / pow2 (ulp_exp x) < of_int (2 ^ 53)"
proof -
  have "x < pow2 (ilog2 x + 1)" using assms by (rule ilog2_bounds)
  also have "\<dots> \<le> pow2 (53 + ulp_exp x)" using assms by (simp add: ulp_exp_def)
  also have "\<dots> = of_int (2 ^ 53) * pow2 (ulp_exp x)" by (simp add: pow2_add)
  finally show ?thesis by (simp add: divide_less_eq)
qed

lemma scaled_ge:
  assumes "0 < x" "- 1074 < ulp_exp x"
  shows "of_int (2 ^ 52) \<le> x / pow2 (ulp_exp x)"
proof -
  have e: "ulp_exp x = ilog2 x - 52" using assms by (simp add: ulp_exp_def)
  have "of_int (2 ^ 52) * pow2 (ulp_exp x) = pow2 (52 + ulp_exp x)" by (simp add: pow2_add)
  also have "\<dots> \<le> x" using ilog2_bounds(1) [OF assms(1)] by (simp add: e)
  finally show ?thesis by (simp add: le_divide_eq)
qed

lemma rnd64_pos_mono:
  assumes "0 < x" "x \<le> y"
  shows "rnd64 x \<le> rnd64 y"
proof -
  have y: "0 < y" using assms by simp
  have le: "ulp_exp x \<le> ulp_exp y" using ilog2_mono [OF assms] assms y by (simp add: ulp_exp_def)
  show ?thesis
  proof (cases "ulp_exp x = ulp_exp y")
    case True
    have "x / pow2 (ulp_exp y) \<le> y / pow2 (ulp_exp y)" using assms(2) by (simp add: divide_right_mono)
    then have "of_int (round_even (x / pow2 (ulp_exp y))) \<le> (of_int (round_even (y / pow2 (ulp_exp y))) :: rat)"
      using round_even_mono by simp
    then show ?thesis using assms y True by (simp add: rnd64_def mult_right_mono)
  next
    case False
    with le have lt: "ulp_exp x + 1 \<le> ulp_exp y" by simp
    then have e1: "- 1074 < ulp_exp y" using ulp_exp_ge [of x] by linarith
    have "round_even (x / pow2 (ulp_exp x)) \<le> 2 ^ 53"
      using round_even_mono [OF less_imp_le [OF scaled_less [OF assms(1)]]] by (simp only: round_even_of_int)
    then have "of_int (round_even (x / pow2 (ulp_exp x))) \<le> (of_int (2 ^ 53) :: rat)"
      by (simp only: of_int_le_iff)
    then have "rnd64 x \<le> of_int (2 ^ 53) * pow2 (ulp_exp x)"
      using assms by (simp add: rnd64_def mult_right_mono)
    also have "\<dots> = of_int (2 ^ 52) * pow2 (ulp_exp x + 1)" by (simp add: pow2_add)
    also have "\<dots> \<le> of_int (2 ^ 52) * pow2 (ulp_exp y)" using lt by simp
    also have "\<dots> \<le> rnd64 y"
    proof -
      have "2 ^ 52 \<le> round_even (y / pow2 (ulp_exp y))"
        using round_even_mono [OF scaled_ge [OF y e1]] by (simp only: round_even_of_int)
      then have "of_int (2 ^ 52) \<le> (of_int (round_even (y / pow2 (ulp_exp y))) :: rat)"
        by (simp only: of_int_le_iff)
      then show ?thesis using y by (simp add: rnd64_def mult_right_mono)
    qed
    finally show ?thesis .
  qed
qed

lemma rnd64_neg: "rnd64 (- x) = - rnd64 x"
  by (simp add: rnd64_def round_even_neg)

lemma rnd64_nonneg: "0 \<le> x \<Longrightarrow> 0 \<le> rnd64 x"
  using round_even_mono [of 0 "x / pow2 (ulp_exp x)"] round_even_of_int [of 0]
  by (simp add: rnd64_def)

lemma rnd64_mono: "x \<le> y \<Longrightarrow> rnd64 x \<le> rnd64 y"
proof -
  assume xy: "x \<le> y"
  consider "0 < x" | "x \<le> 0" "0 \<le> y" | "y < 0" using xy by linarith
  then show ?thesis
  proof cases
    case 1
    then show ?thesis using xy by (rule rnd64_pos_mono)
  next
    case 2
    then show ?thesis using rnd64_nonneg [of "- x"] rnd64_nonneg [of y] by (simp add: rnd64_neg)
  next
    case 3
    then show ?thesis using rnd64_pos_mono [of "- y" "- x"] xy by (simp add: rnd64_neg)
  qed
qed

text \<open>Every integer multiple of a binary64 grid step with at most 53 significant bits is a fixed point.\<close>

lemma rnd64_grid_pos:
  assumes "0 < m" "m < 2 ^ 53" "- 1074 \<le> e"
  shows "rnd64 (of_int m * pow2 e) = of_int m * pow2 e"
proof -
  define r where "r = of_int m * pow2 e"
  have r: "0 < r" using assms by (simp add: r_def)
  have "r < of_int (2 ^ 53) * pow2 e" unfolding r_def using assms(2) by simp
  also have "\<dots> = pow2 (e + 53)" by (simp add: pow2_add)
  finally have "pow2 (ilog2 r) < pow2 (e + 53)" using ilog2_bounds(1) [OF r] by linarith
  then have le: "ulp_exp r \<le> e" using r assms(3) by (simp add: ulp_exp_def)
  define d where "d = nat (e - ulp_exp r)"
  have "r / pow2 (ulp_exp r) = of_int (m * 2 ^ d)"
  proof -
    have "pow2 e = pow2 (int d + ulp_exp r)" using le by (simp add: d_def)
    then have "pow2 e = 2 ^ d * pow2 (ulp_exp r)" by (simp only: pow2_add power_int_of_nat)
    then have "r = of_int (m * 2 ^ d) * pow2 (ulp_exp r)"
      using r_def by (metis mult.assoc of_int_mult of_int_numeral of_int_power)
    then show ?thesis by (metis nonzero_eq_divide_eq less_irrefl pow2_pos)
  qed
  then have "rnd64 r = r / pow2 (ulp_exp r) * pow2 (ulp_exp r)"
    using r unfolding rnd64_def by (metis less_irrefl round_even_of_int)
  then show ?thesis by (simp add: r_def)
qed

lemma rnd64_grid:
  assumes "\<bar>m\<bar> \<le> 2 ^ 53" "- 1074 \<le> e"
  shows "rnd64 (of_int m * pow2 e) = of_int m * pow2 e"
proof -
  have pos: "rnd64 (of_int k * pow2 e) = of_int k * pow2 e" if "0 < k" "k \<le> 2 ^ 53" for k
  proof (cases "k = 2 ^ 53")
    case True
    have "of_int k * pow2 e = of_int (2 ^ 52) * pow2 (e + 1)" by (simp add: True pow2_add)
    then show ?thesis using rnd64_grid_pos [of "2 ^ 52" "e + 1"] assms(2) by simp
  next
    case False
    then show ?thesis using rnd64_grid_pos that assms(2) by simp
  qed
  consider "m = 0" | "0 < m" | "m < 0" by linarith
  then show ?thesis
  proof cases
    case 1
    then show ?thesis by (simp add: rnd64_def)
  next
    case 2
    then show ?thesis using pos assms(1) by simp
  next
    case 3
    then show ?thesis using pos [of "- m"] assms(1) by (simp add: rnd64_neg)
  qed
qed

lemma rnd64_idem: "rnd64 (rnd64 x) = rnd64 x"
proof -
  have pos: "rnd64 (rnd64 y) = rnd64 y" if y: "0 < y" for y
  proof -
    have "0 \<le> round_even (y / pow2 (ulp_exp y))"
      using round_even_mono [of 0 "y / pow2 (ulp_exp y)"] round_even_of_int [of 0] y by simp
    moreover have "round_even (y / pow2 (ulp_exp y)) \<le> 2 ^ 53"
      using round_even_mono [OF less_imp_le [OF scaled_less [OF y]]] by (simp only: round_even_of_int)
    ultimately show ?thesis using rnd64_grid [OF _ ulp_exp_ge] y by (simp add: rnd64_def [of y])
  qed
  consider "x = 0" | "0 < x" | "x < 0" by linarith
  then show ?thesis
  proof cases
    case 1
    then show ?thesis by (simp add: rnd64_def)
  next
    case 2
    then show ?thesis by (rule pos)
  next
    case 3
    then show ?thesis using pos [of "- x"] by (simp add: rnd64_neg)
  qed
qed

interpretation b64: rounding rnd64
  by unfold_locales (simp_all add: rnd64_mono rnd64_neg rnd64_idem, simp add: rnd64_def)


subsection \<open>Values and operators\<close>

datatype double = Fin rat | PInf | NInf | NaN

definition to_double :: "rat \<Rightarrow> double" where
  "to_double x = (let r = rnd64 x
     in if 2 ^ 1024 \<le> r then PInf else if r \<le> - (2 ^ 1024) then NInf else Fin r)"

instantiation double :: "{zero, one, uminus, plus, minus, times, divide, abs, ord}"
begin

definition zero_double :: double where
  "zero_double = Fin 0"

definition one_double :: double where
  "one_double = Fin 1"

fun uminus_double :: "double \<Rightarrow> double" where
  "- Fin a = Fin (- a)"
| "- PInf = NInf"
| "- NInf = PInf"
| "- NaN = NaN"

fun plus_double :: "double \<Rightarrow> double \<Rightarrow> double" where
  "Fin a + Fin b = to_double (a + b)"
| "NaN + _ = NaN"
| "_ + NaN = NaN"
| "PInf + NInf = NaN"
| "NInf + PInf = NaN"
| "PInf + _ = PInf"
| "_ + PInf = PInf"
| "NInf + _ = NInf"
| "_ + NInf = NInf"

definition minus_double :: "double \<Rightarrow> double \<Rightarrow> double" where
  "minus_double x y = x + - y"

definition inf_of_sign :: "rat \<Rightarrow> double" where
  "inf_of_sign a = (if 0 < a then PInf else if a < 0 then NInf else NaN)"

fun times_double :: "double \<Rightarrow> double \<Rightarrow> double" where
  "Fin a * Fin b = to_double (a * b)"
| "NaN * _ = NaN"
| "_ * NaN = NaN"
| "PInf * Fin b = inf_of_sign b"
| "NInf * Fin b = inf_of_sign (- b)"
| "Fin a * PInf = inf_of_sign a"
| "Fin a * NInf = inf_of_sign (- a)"
| "PInf * PInf = PInf"
| "NInf * NInf = PInf"
| "PInf * NInf = NInf"
| "NInf * PInf = NInf"

fun divide_double :: "double \<Rightarrow> double \<Rightarrow> double" where
  "divide_double (Fin a) (Fin b) = (if b = 0 then inf_of_sign a else to_double (a / b))"
| "divide_double NaN _ = NaN"
| "divide_double _ NaN = NaN"
| "divide_double (Fin a) PInf = Fin 0"
| "divide_double (Fin a) NInf = Fin 0"
| "divide_double PInf (Fin b) = (if b < 0 then NInf else PInf)"
| "divide_double NInf (Fin b) = (if b < 0 then PInf else NInf)"
| "divide_double _ _ = NaN"

fun abs_double :: "double \<Rightarrow> double" where
  "\<bar>Fin a\<bar> = Fin \<bar>a\<bar>"
| "\<bar>PInf\<bar> = PInf"
| "\<bar>NInf\<bar> = PInf"
| "\<bar>NaN\<bar> = NaN"

fun less_double :: "double \<Rightarrow> double \<Rightarrow> bool" where
  "Fin a < Fin b \<longleftrightarrow> a < b"
| "NInf < Fin b \<longleftrightarrow> True"
| "NInf < PInf \<longleftrightarrow> True"
| "Fin a < PInf \<longleftrightarrow> True"
| "(_::double) < _ \<longleftrightarrow> False"

definition less_eq_double :: "double \<Rightarrow> double \<Rightarrow> bool" where
  "less_eq_double x y \<longleftrightarrow> x < y \<or> x = y \<and> x \<noteq> NaN"

instance ..

end

lemmas [double_simps] = zero_double_def one_double_def minus_double_def

text \<open>
  \<open>==\<close> on doubles is false on NaN; \<open>std::max\<close>, \<open>std::min\<close> and \<open>std::clamp\<close> are written out in terms
  of \<open><\<close> exactly as the standard defines them, which fixes what they do with NaN.
\<close>

instantiation double :: inverse
begin

definition inverse_double :: "double \<Rightarrow> double" where
  "inverse_double x = divide 1 x"

instance ..

end

definition double_eq :: "double \<Rightarrow> double \<Rightarrow> bool" where
  "double_eq x y \<longleftrightarrow> x = y \<and> x \<noteq> NaN"

definition std_max :: "double \<Rightarrow> double \<Rightarrow> double" where
  "std_max a b = (if a < b then b else a)"

definition std_min :: "double \<Rightarrow> double \<Rightarrow> double" where
  "std_min a b = (if b < a then b else a)"

definition std_clamp :: "double \<Rightarrow> double \<Rightarrow> double \<Rightarrow> double" where
  "std_clamp v lo hi = (if v < lo then lo else if hi < v then hi else v)"

subsection \<open>The order on doubles\<close>

lemma double_less_irrefl [simp]: "\<not> (x::double) < x"
  by (cases x) auto

lemma double_less_trans: "(x::double) < y \<Longrightarrow> y < z \<Longrightarrow> x < z"
  by (cases x; cases y; cases z) auto

lemma double_less_asym: "(x::double) < y \<Longrightarrow> \<not> y < x"
  by (cases x; cases y) auto

lemma double_le_refl [simp]: "(x::double) \<le> x \<longleftrightarrow> x \<noteq> NaN"
  by (simp add: less_eq_double_def)

lemma double_less_imp_le: "(x::double) < y \<Longrightarrow> x \<le> y"
  by (simp add: less_eq_double_def)

lemma double_le_trans: "(x::double) \<le> y \<Longrightarrow> y \<le> z \<Longrightarrow> x \<le> z"
  by (auto simp: less_eq_double_def intro: double_less_trans)

lemma double_le_less_trans: "(x::double) \<le> y \<Longrightarrow> y < z \<Longrightarrow> x < z"
  by (auto simp: less_eq_double_def intro: double_less_trans)

lemma double_less_le_trans: "(x::double) < y \<Longrightarrow> y \<le> z \<Longrightarrow> x < z"
  by (auto simp: less_eq_double_def intro: double_less_trans)

lemma double_le_antisym: "(x::double) \<le> y \<Longrightarrow> y \<le> x \<Longrightarrow> x = y"
  by (auto simp: less_eq_double_def dest: double_less_asym)

lemma double_total: "x \<noteq> NaN \<Longrightarrow> y \<noteq> NaN \<Longrightarrow> x < y \<or> x = y \<or> y < (x::double)"
  by (cases x; cases y) auto

lemma double_not_less: "x \<noteq> NaN \<Longrightarrow> y \<noteq> NaN \<Longrightarrow> \<not> x < y \<longleftrightarrow> y \<le> (x::double)"
  using double_total [of x y] by (auto simp: less_eq_double_def dest: double_less_asym)

lemma double_not_le: "x \<noteq> NaN \<Longrightarrow> y \<noteq> NaN \<Longrightarrow> \<not> x \<le> y \<longleftrightarrow> y < (x::double)"
  using double_not_less [of y x] by blast

lemma double_less_not_NaN: "(x::double) < y \<Longrightarrow> x \<noteq> NaN \<and> y \<noteq> NaN"
  by (cases x; cases y) auto

lemma double_le_not_NaN: "(x::double) \<le> y \<Longrightarrow> x \<noteq> NaN \<and> y \<noteq> NaN"
  by (auto simp: less_eq_double_def dest: double_less_not_NaN)

lemma NaN_less [simp]: "\<not> NaN < x" "\<not> x < NaN" "\<not> NaN \<le> x" "\<not> x \<le> NaN"
  by (cases x; simp add: less_eq_double_def)+

lemma Fin_le [simp]: "Fin a \<le> Fin b \<longleftrightarrow> a \<le> b"
  by (auto simp: less_eq_double_def)

lemma inf_le [simp]:
  "x \<le> PInf \<longleftrightarrow> x \<noteq> NaN" "NInf \<le> x \<longleftrightarrow> x \<noteq> NaN" "PInf \<le> x \<longleftrightarrow> x = PInf" "x \<le> NInf \<longleftrightarrow> x = NInf"
  by (cases x; auto simp: less_eq_double_def)+

lemmas double_order_trans =
  double_less_trans double_le_trans double_le_less_trans double_less_le_trans

lemma std_max_0_not_NaN [simp]: "std_max 0 x \<noteq> NaN"
  by (cases x) (simp_all add: std_max_def zero_double_def)

lemma std_max_0_nonneg [simp]: "0 \<le> std_max 0 x"
  by (simp add: std_max_def double_less_imp_le, simp add: zero_double_def)

lemma std_min_le: "a \<noteq> NaN \<Longrightarrow> b \<noteq> NaN \<Longrightarrow> std_min a b \<le> a \<and> std_min a b \<le> b"
  by (auto simp: std_min_def double_not_less double_less_imp_le)

lemma std_min_cases: "std_min a b = a \<or> std_min a b = b"
  by (simp add: std_min_def)

subsection \<open>Values that binary64 represents\<close>

definition valid_double :: "double \<Rightarrow> bool" where
  "valid_double x \<longleftrightarrow> (case x of Fin r \<Rightarrow> rnd64 r = r \<and> \<bar>r\<bar> < 2 ^ 1024 | _ \<Rightarrow> True)"

lemma valid_to_double [simp]: "valid_double (to_double x)"
  by (auto simp: valid_double_def to_double_def Let_def rnd64_idem abs_less_iff not_le)

lemma valid_double_simps [simp]:
  "valid_double PInf" "valid_double NInf" "valid_double NaN"
  "valid_double (Fin r) \<longleftrightarrow> rnd64 r = r \<and> \<bar>r\<bar> < 2 ^ 1024"
  by (simp_all add: valid_double_def)

lemma to_double_valid: "rnd64 r = r \<Longrightarrow> \<bar>r\<bar> < 2 ^ 1024 \<Longrightarrow> to_double r = Fin r"
  by (auto simp: to_double_def Let_def abs_less_iff)

lemma valid_inf_of_sign [simp]: "valid_double (inf_of_sign a)"
  by (simp add: inf_of_sign_def)

lemma valid_plus [simp]: "valid_double (x + y)"
  by (cases x; cases y) simp_all

lemma valid_minus [simp]: "valid_double (x - y)"
  by (simp add: minus_double_def)

lemma valid_times [simp]: "valid_double (x * y)"
  by (cases x; cases y) simp_all

lemma valid_uminus [simp]: "valid_double x \<Longrightarrow> valid_double (- x)"
  by (cases x) (simp_all add: rnd64_neg)

lemma valid_std_max: "valid_double a \<Longrightarrow> valid_double b \<Longrightarrow> valid_double (std_max a b)"
  by (simp add: std_max_def)

lemma valid_std_min: "valid_double a \<Longrightarrow> valid_double b \<Longrightarrow> valid_double (std_min a b)"
  by (simp add: std_min_def)

lemma to_double_of_int:
  assumes "\<bar>n\<bar> \<le> 2 ^ 53"
  shows "to_double (of_int n) = Fin (of_int n)"
proof (rule to_double_valid)
  show "rnd64 (of_int n) = of_int n" using rnd64_grid [OF assms, of 0] by simp
  have "(of_int \<bar>n\<bar> :: rat) \<le> of_int (2 ^ 53)" using assms by (simp only: of_int_le_iff)
  also have "\<dots> < 2 ^ 1024" by simp
  finally show "\<bar>of_int n :: rat\<bar> < 2 ^ 1024" by simp
qed

lemma to_double_small [simp]:
  "to_double 0 = Fin 0" "to_double 1 = Fin 1" "to_double (- 1) = Fin (- 1)"
  using to_double_of_int [of 0] to_double_of_int [of 1] to_double_of_int [of "- 1"] by simp_all

lemma to_double_numeral [simp]:
  "(numeral n :: int) \<le> 9007199254740992 \<Longrightarrow> to_double (numeral n) = Fin (numeral n)"
  "(numeral n :: int) \<le> 9007199254740992 \<Longrightarrow> to_double (- numeral n) = Fin (- numeral n)"
  using to_double_of_int [of "numeral n"] to_double_of_int [of "- numeral n"] by simp_all


subsection \<open>Arithmetic facts the bookkeeping rests on\<close>

lemma double_diff_self: "x \<noteq> NaN \<Longrightarrow> x - x = 0 \<or> x - x = NaN"
  by (cases x) (simp_all add: double_simps)

lemma std_max_0_diff_self [simp]: "std_max 0 (x - x) = 0"
  by (cases x) (simp_all add: double_simps std_max_def)

lemma double_diff_zero: "valid_double x \<Longrightarrow> x - 0 = x"
  by (cases x) (auto simp: double_simps to_double_valid)

lemma to_double_less_eq: "x \<le> y \<Longrightarrow> to_double x \<le> to_double y"
  using rnd64_mono [of x y] by (auto simp: to_double_def Let_def less_eq_double_def)

lemma to_double_le_Fin: "valid_double (Fin a) \<Longrightarrow> x \<le> a \<Longrightarrow> to_double x \<le> Fin a"
  using to_double_less_eq [of x a] by (simp add: to_double_valid)

lemma to_double_ge_Fin: "valid_double (Fin a) \<Longrightarrow> a \<le> x \<Longrightarrow> Fin a \<le> to_double x"
  using to_double_less_eq [of a x] by (simp add: to_double_valid)

lemma to_double_not_NaN [simp]: "to_double x \<noteq> NaN"
  by (simp add: to_double_def Let_def)

lemma double_diff_nonneg:
  "(y::double) \<le> x \<Longrightarrow> 0 \<le> x - y \<or> x - y = NaN"
  using to_double_less_eq [of 0] by (cases x; cases y) (auto simp: double_simps)

lemma double_diff_le:
  assumes "valid_double x" "0 \<le> y" "x - y \<noteq> NaN"
  shows "x - y \<le> x"
  using assms by (cases x; cases y)
    (auto simp: double_simps intro!: to_double_le_Fin simp del: valid_double_simps)

text \<open>
  A threshold test made on a rounded difference settles the exact one: when \<open>y < x - t\<close> holds after
  rounding, the other rounded difference \<open>x - y\<close> is at least \<open>t\<close>.
\<close>

lemma double_diff_threshold:
  assumes "valid_double y" "valid_double t" "0 \<le> y" "y < x - t" "t \<noteq> PInf"
  shows "t \<le> x - y"
proof (cases x; cases y; cases t)
  fix a b c assume eqs: "x = Fin a" "y = Fin b" "t = Fin c"
  have "Fin b < to_double (a - c)" using assms(4) eqs by (simp add: double_simps)
  then have "b < a - c"
    using assms(1) eqs to_double_le_Fin [of b "a - c"]
    by (metis double_less_asym double_less_le_trans double_less_irrefl linorder_not_less)
  then have "c \<le> a - b" by simp
  then show ?thesis using assms(2) eqs to_double_ge_Fin [of c "a - b"] by (simp add: double_simps)
qed (use assms in \<open>auto simp: double_simps\<close>)

subsection \<open>The tolerance of the execution components\<close>

definition kQuantityTolerance :: double where
  "kQuantityTolerance = to_double (1 / 10 ^ 9)"

lemma rnd64_unique:
  assumes "pow2 e \<le> x" "x < pow2 (e + 1)" "- 1022 \<le> e" "\<bar>x / pow2 (e - 52) - of_int m\<bar> < 1 / 2"
  shows "rnd64 x = of_int m * pow2 (e - 52)"
proof -
  have x: "0 < x" using assms(1) by (rule less_le_trans [OF pow2_pos])
  have u: "ulp_exp x = e - 52" using ilog2_unique [OF assms(1,2)] x assms(3) by (simp add: ulp_exp_def)
  define y where "y = x / pow2 (e - 52)"
  have near: "of_int m - 1 / 2 < y" "y < of_int m + 1 / 2"
    using assms(4) unfolding y_def abs_less_iff by linarith+
  have "round_even y = m"
  proof (cases "of_int m \<le> y")
    case True
    then have "\<lfloor>y\<rfloor> = m" using near by (intro floor_unique) auto
    then show ?thesis using near by (simp add: round_even_def)
  next
    case False
    then have "\<lfloor>y\<rfloor> = m - 1" using near by (intro floor_unique) auto
    then show ?thesis using near by (simp add: round_even_def)
  qed
  then show ?thesis using x by (simp add: rnd64_def u y_def)
qed

lemma kQuantityTolerance_val: "kQuantityTolerance = Fin (4835703278458517 / 2 ^ 82)"
proof -
  have "rnd64 (1 / 10 ^ 9) = of_int 4835703278458517 * pow2 (- 30 - 52)"
    by (rule rnd64_unique) (simp_all add: power_int_minus divide_simps abs_less_iff)
  then have "rnd64 (1 / 10 ^ 9) = 4835703278458517 / 2 ^ 82"
    by (simp add: power_int_minus divide_simps)
  then show ?thesis by (simp add: kQuantityTolerance_def to_double_def)
qed

lemma tolerance_simps [simp]:
  "kQuantityTolerance \<noteq> NaN" "kQuantityTolerance \<noteq> PInf" "valid_double kQuantityTolerance"
  "0 < kQuantityTolerance" "0 \<le> kQuantityTolerance" "\<not> kQuantityTolerance < 0" "\<not> kQuantityTolerance \<le> 0"
proof -
  show "valid_double kQuantityTolerance" by (simp add: kQuantityTolerance_def)
qed (simp_all add: kQuantityTolerance_val zero_double_def)

lemma tolerance_numeral [simp]:
  "kQuantityTolerance < Fin 1" "kQuantityTolerance < Fin (numeral n)"
  "kQuantityTolerance \<le> Fin 1" "kQuantityTolerance \<le> Fin (numeral n)"
  "\<not> Fin 1 \<le> kQuantityTolerance" "\<not> Fin (numeral n) \<le> kQuantityTolerance"
  "\<not> Fin 1 < kQuantityTolerance" "\<not> Fin (numeral n) < kQuantityTolerance"
  "\<not> kQuantityTolerance < Fin 0" "\<not> kQuantityTolerance \<le> Fin 0"
  "Fin 0 \<le> kQuantityTolerance" "Fin 0 < kQuantityTolerance"
proof -
  have n: "(1::rat) \<le> numeral n" by simp
  have lt: "(4835703278458517 / 2 ^ 82 :: rat) < 1" by simp
  show "kQuantityTolerance < Fin 1" "kQuantityTolerance < Fin (numeral n)"
    "kQuantityTolerance \<le> Fin 1" "kQuantityTolerance \<le> Fin (numeral n)"
    "\<not> Fin 1 \<le> kQuantityTolerance" "\<not> Fin (numeral n) \<le> kQuantityTolerance"
    "\<not> Fin 1 < kQuantityTolerance" "\<not> Fin (numeral n) < kQuantityTolerance"
    using n less_le_trans [OF lt n] by (simp_all add: kQuantityTolerance_val)
qed (simp_all add: kQuantityTolerance_val)

lemma double_le_plus_tolerance:
  assumes "valid_double x" "x \<noteq> NaN"
  shows "x \<le> x + kQuantityTolerance"
proof (cases x)
  case (Fin a)
  then have "Fin a \<le> to_double (a + 4835703278458517 / 2 ^ 82)"
    using assms(1) by (intro to_double_ge_Fin) simp_all
  then show ?thesis by (simp add: Fin kQuantityTolerance_val)
qed (use assms in \<open>simp_all add: kQuantityTolerance_val\<close>)

text \<open>Between integers the tolerance never matters, whatever the rounding of the difference.\<close>

lemma int_minus_tolerance:
  assumes "a < b" "\<bar>b\<bar> \<le> 2 ^ 50"
  shows "Fin (of_int a) < Fin (of_int b) - kQuantityTolerance"
proof -
  let ?h = "of_int b - 1 / 2 :: rat"
  have h: "?h = of_int (2 * b - 1) * pow2 (- 1)" by (simp add: algebra_simps)
  have r: "rnd64 ?h = ?h" unfolding h using assms(2) by (intro rnd64_grid) auto
  have "(of_int \<bar>b\<bar> :: rat) \<le> of_int (2 ^ 50)" using assms(2) by (simp only: of_int_le_iff)
  then have "(\<bar>of_int b\<bar> :: rat) \<le> 2 ^ 50" by simp
  then have "\<bar>?h\<bar> < 2 ^ 1024" by simp
  then have v: "valid_double (Fin ?h)" using r by (simp add: valid_double_def)
  have "Fin ?h \<le> to_double (of_int b - 4835703278458517 / 2 ^ 82)" by (rule to_double_ge_Fin [OF v]) simp
  moreover have "Fin (of_int a) < Fin ?h"
  proof -
    have "(of_int a :: rat) \<le> of_int (b - 1)" using assms(1) by (simp only: of_int_le_iff)
    then show ?thesis by simp
  qed
  ultimately have "Fin (of_int a) < to_double (of_int b - 4835703278458517 / 2 ^ 82)"
    using double_less_le_trans by blast
  then show ?thesis by (simp add: double_simps kQuantityTolerance_val)
qed

lemma numeral_minus_tolerance:
  assumes "(numeral b :: int) \<le> 2 ^ 50"
  shows "\<not> Fin (numeral b) - kQuantityTolerance \<le> Fin 0"
    "a < numeral b \<Longrightarrow> \<not> Fin (numeral b) - kQuantityTolerance \<le> Fin (of_int a)"
proof -
  show *: "\<not> Fin (numeral b) - kQuantityTolerance \<le> Fin (of_int a)" if "a < numeral b" for a :: int
    using int_minus_tolerance [OF that] assms
    by (metis double_le_less_trans double_less_irrefl of_int_numeral abs_numeral)
  show "\<not> Fin (numeral b) - kQuantityTolerance \<le> Fin 0" using * [of 0] by simp
qed

lemma plus_tolerance_not_less:
  assumes "valid_double x" "y \<le> x"
  shows "\<not> x + kQuantityTolerance < y"
proof
  assume "x + kQuantityTolerance < y"
  then have "x + kQuantityTolerance < x" using assms(2) by (rule double_less_le_trans)
  moreover have "x \<le> x + kQuantityTolerance"
    using assms by (intro double_le_plus_tolerance) (auto dest: double_le_not_NaN)
  ultimately have "x < x" using double_le_less_trans by blast
  then show False by simp
qed

lemma numeral_plus_tolerance:
  assumes "(numeral b :: int) \<le> 2 ^ 50" "a \<le> numeral b"
  shows "\<not> Fin (numeral b) + kQuantityTolerance < Fin a"
proof (rule plus_tolerance_not_less)
  have "(2 ^ 50 :: int) \<le> 2 ^ 53" by simp
  then have "\<bar>numeral b :: int\<bar> \<le> 2 ^ 53" using assms(1) order_trans by (simp only: abs_numeral)
  then have "to_double (numeral b) = Fin (numeral b)" using to_double_of_int [of "numeral b"] by simp
  then show "valid_double (Fin (numeral b))" by (metis valid_to_double)
qed (use assms(2) in simp)

lemma double_diff_Fin: "Fin a - Fin b = to_double (a - b)"
  by (simp add: double_simps)

text \<open>Rules that evaluate the model on integral doubles.\<close>

lemmas double_eval = zero_double_def one_double_def double_diff_Fin numeral_minus_tolerance(1) numeral_plus_tolerance
  std_max_def std_min_def

lemma zero_not_NaN [simp]: "(0::double) \<noteq> NaN"
  by (simp add: zero_double_def)

lemma double_diff_pos:
  assumes "0 < a - (b::double)"
  shows "b < a"
proof (cases a; cases b)
  fix x y assume eqs: "a = Fin x" "b = Fin y"
  show "b < a"
  proof (rule ccontr)
    assume "\<not> b < a"
    then have "to_double (x - y) \<le> to_double 0" using eqs by (intro to_double_less_eq) simp
    then have "a - b \<le> 0" using eqs by (simp add: double_simps)
    then have "0 < (0::double)" using assms double_less_le_trans by blast
    then show False by simp
  qed
qed (use assms in \<open>auto simp: double_simps\<close>)

end
