(* ===== verification/Prelude.thy ===== *)
theory Prelude
  imports Cpp_Double
    "HOL-Library.AList"
    "HOL-Library.List_Lexorder"
    "HOL-Library.Char_ord"
    "HOL-Library.Word"
begin

section \<open>Shared vocabulary of the development\<close>

text \<open>
  The pieces of the C++ language and standard library that several components use:
  \<open>std::to_string\<close> on sizes and integers, the first-match update loop, sorting and deduplicating a
  vector, and \<open>std::unordered_map\<close>. A map the code never iterates is a HOL map; one the
  code iterates is an association list with distinct keys, whose list order stands for the
  unspecified iteration order. Timestamps and other \<open>std::int64_t\<close> values are integers: signed
  overflow is undefined behaviour in the source. Counters that only grow by one per operation are
  natural numbers.
\<close>

named_theorems model_defs \<open>definitions of the model that component proofs unfold\<close>
named_theorems inv_defs \<open>definitions of the components' invariants\<close>

type_synonym int64 = int
type_synonym size_t = "64 word"
type_synonym ('k, 'v) umap = "('k \<times> 'v) list"

subsection \<open>Decimal strings\<close>

definition digit_char :: "nat \<Rightarrow> char" where
  "digit_char d = char_of (48 + d)"

fun show_nat :: "nat \<Rightarrow> string" where
  "show_nat n = (if n < 10 then [digit_char n] else show_nat (n div 10) @ [digit_char (n mod 10)])"

declare show_nat.simps [simp del]

definition show_int :: "int \<Rightarrow> string" where
  "show_int i = (if i < 0 then CHR ''-'' # show_nat (nat (- i)) else show_nat (nat i))"

definition read_digits :: "string \<Rightarrow> nat" where
  "read_digits s = foldl (\<lambda>n c. 10 * n + (of_char c - 48)) 0 s"

lemma of_char_digit: "d < 10 \<Longrightarrow> (of_char (digit_char d) :: nat) = 48 + d"
  by (simp add: digit_char_def of_char_of)

lemma read_digits_snoc: "read_digits (s @ [c]) = 10 * read_digits s + (of_char c - 48)"
  by (simp add: read_digits_def)

lemma read_show_nat: "read_digits (show_nat n) = n"
proof (induction n rule: show_nat.induct)
  case (1 n)
  show ?case
  proof (cases "n < 10")
    case True
    then show ?thesis by (subst show_nat.simps) (simp add: read_digits_def of_char_digit)
  next
    case False
    then show ?thesis
      using 1 by (subst show_nat.simps) (simp add: read_digits_snoc of_char_digit)
  qed
qed

lemma show_nat_inj [simp]: "show_nat m = show_nat n \<longleftrightarrow> m = n"
  by (metis read_show_nat)

lemma show_nat_one: "show_nat (Suc 0) = ''1''"
  by code_simp

lemma show_nat_not_Nil [simp]: "show_nat n \<noteq> []"
  by (subst show_nat.simps) simp

subsection \<open>First-match update of a vector\<close>

text \<open>The loop that scans a vector, rewrites the first matching element and returns.\<close>

fun update_first :: "('a \<Rightarrow> bool) \<Rightarrow> ('a \<Rightarrow> 'a) \<Rightarrow> 'a list \<Rightarrow> 'a list option" where
  "update_first p f [] = None"
| "update_first p f (x # xs) =
     (if p x then Some (f x # xs) else map_option ((#) x) (update_first p f xs))"

lemma update_first_None: "update_first p f xs = None \<longleftrightarrow> (\<forall>x \<in> set xs. \<not> p x)"
  by (induction xs) auto

lemma update_first_map:
  "update_first p f xs = Some ys \<Longrightarrow> (\<And>x. p x \<Longrightarrow> g (f x) = g x) \<Longrightarrow> map g ys = map g xs"
  by (induction xs arbitrary: ys) (auto split: if_splits)

lemma update_first_Some:
  "update_first p f xs = Some ys \<Longrightarrow>
     \<exists>us x vs. xs = us @ x # vs \<and> ys = us @ f x # vs \<and> p x \<and> (\<forall>u \<in> set us. \<not> p u)"
proof (induction xs arbitrary: ys)
  case (Cons x xs)
  show ?case
  proof (cases "p x")
    case True
    then show ?thesis using Cons.prems by force
  next
    case False
    then obtain zs where zs: "update_first p f xs = Some zs" "ys = x # zs" using Cons.prems by auto
    from Cons.IH [OF zs(1)] obtain us w vs where
      "xs = us @ w # vs" "zs = us @ f w # vs" "p w" "\<forall>u \<in> set us. \<not> p u" by blast
    then show ?thesis using False zs(2) by (intro exI [of _ "x # us"] exI [of _ w] exI [of _ vs]) simp
  qed
qed simp

subsection \<open>std::sort followed by std::unique and erase\<close>

definition sort_unique :: "string list \<Rightarrow> string list" where
  "sort_unique xs = remdups_adj (sort xs)"

lemma set_sort_unique [simp]: "set (sort_unique xs) = set xs"
  by (simp add: sort_unique_def)

lemma sorted_sort_unique: "sorted (sort_unique xs)"
  by (simp add: sort_unique_def sorted_remdups_adj)

lemma sorted_distinct_adj: "sorted (xs::'a::linorder list) \<Longrightarrow> distinct_adj xs \<Longrightarrow> distinct xs"
proof (induction xs)
  case (Cons x xs)
  show ?case
  proof (cases xs)
    case (Cons y ys)
    then have "x < y" using Cons.prems by (simp add: order.strict_iff_order)
    then show ?thesis using Cons.prems Cons.IH Cons by (auto simp: not_le)
  qed simp
qed simp

lemma distinct_sort_unique: "distinct (sort_unique xs)"
  by (simp add: sort_unique_def sorted_distinct_adj)

end
