(* ===== verification/Core_Types.thy ===== *)
theory Core_Types
  imports Prelude
begin

section \<open>Core domain types, clocks and the event dispatcher\<close>

text \<open>
  The structs and enums of \<open>include/core/types.hpp\<close>, one record or datatype each with the fields in
  the source's order (a prefix per struct keeps field names apart), the clocks of
  \<open>include/core/clock.hpp\<close> and the dispatcher of \<open>include/core/event_dispatcher.hpp\<close>.
\<close>

subsection \<open>Enums\<close>

text \<open>
  The underlying type of an enum is \<open>int\<close>, and the replay log casts any integer it reads to a
  \<open>MarketEventType\<close>: a value that is none of the enumerators is \<open>Unlisted_type\<close>.
\<close>

datatype market_event_type = Book_snapshot | Trade | Ticker | Timer | Unlisted_type int

datatype order_side = Buy | Sell

datatype order_type = Market | Limit

datatype order_status =
    Created | Pending_submit | Acknowledged | Partially_filled | Filled
  | Pending_cancel | Canceled | Rejected | Expired

subsection \<open>Structs\<close>

record instrument =
  instrument_id :: string
  exchange :: string
  symbol :: string
  base_asset :: string
  quote_asset :: string
  tick_size :: double
  lot_size :: double

record book_level =
  bl_price :: double
  bl_quantity :: double

record market_event =
  me_event_id :: string
  me_type :: market_event_type
  me_instrument :: instrument
  me_price :: double
  me_quantity :: double
  me_bid_price :: "double option"
  me_ask_price :: "double option"
  me_bid_levels :: "book_level list"
  me_ask_levels :: "book_level list"
  me_exchange_timestamp :: int64
  me_receive_timestamp :: int64
  me_process_timestamp :: int64

record order_request =
  rq_request_id :: string
  rq_strategy_id :: string
  rq_instrument :: instrument
  rq_side :: order_side
  rq_type :: order_type
  rq_quantity :: double
  rq_price :: "double option"

record order_update =
  ou_order_id :: string
  ou_client_order_id :: string
  ou_status :: order_status
  ou_filled_quantity :: double
  ou_reason :: "string option"

record fill_event =
  fl_fill_id :: string
  fl_order_id :: string
  fl_instrument :: instrument
  fl_side :: order_side
  fl_price :: double
  fl_quantity :: double
  fl_fee :: double

record position =
  po_position_id :: string
  po_instrument :: instrument
  po_net_quantity :: double
  po_average_entry_price :: double
  po_realized_pnl :: double
  po_unrealized_pnl :: double

record balance_snapshot =
  ba_asset :: string
  ba_total_balance :: double
  ba_available_balance :: double

record timer_event =
  tm_timer_id :: string
  tm_timestamp :: int64

record transaction_command =
  tx_transaction_id :: string
  tx_user_id :: string
  tx_account_id :: string
  tx_command_type :: string
  tx_instrument_symbol :: string
  tx_quantity :: double
  tx_price :: "double option"
  tx_kafka_topic :: string
  tx_kafka_partition :: int
  tx_kafka_offset :: int64

datatype engine_event =
    MarketEvent market_event
  | TimerEvent timer_event
  | TransactionCommand transaction_command

text \<open>The value of \<open>Instrument {}\<close> and of \<open>Position {}\<close>, \<open>BalanceSnapshot {}\<close>: every member initializer.\<close>

definition default_instrument :: instrument where
  "default_instrument = \<lparr>instrument_id = '''', exchange = '''', symbol = '''', base_asset = '''',
     quote_asset = '''', tick_size = 0, lot_size = 0\<rparr>"

definition default_position :: position where
  "default_position = \<lparr>po_position_id = '''', po_instrument = default_instrument,
     po_net_quantity = 0, po_average_entry_price = 0, po_realized_pnl = 0, po_unrealized_pnl = 0\<rparr>"

definition default_balance :: balance_snapshot where
  "default_balance = \<lparr>ba_asset = '''', ba_total_balance = 0, ba_available_balance = 0\<rparr>"

subsection \<open>Clocks\<close>

text \<open>
  An \<open>IClock\<close> is read with \<open>now_ms\<close>. Components that read the clock take the current reading
  as an argument \<open>now\<close>; \<open>FixedClock\<close> is the clock whose reading is its state.
\<close>

record fixed_clock =
  fc_now_ms :: int64

definition fixed_clock_set_now_ms :: "int64 \<Rightarrow> fixed_clock \<Rightarrow> fixed_clock" where
  "fixed_clock_set_now_ms t c = c\<lparr>fc_now_ms := t\<rparr>"

subsection \<open>Event dispatcher\<close>

text \<open>
  A handler may change whatever its closure captured by reference: it is a function on the state
  \<open>'s\<close> that the handlers share.
\<close>

type_synonym 's handler = "engine_event \<Rightarrow> 's \<Rightarrow> 's"
type_synonym 's event_dispatcher = "'s handler list"

definition dispatcher_subscribe :: "'s handler \<Rightarrow> 's event_dispatcher \<Rightarrow> 's event_dispatcher" where
  "dispatcher_subscribe h hs = hs @ [h]"

fun dispatcher_publish :: "'s event_dispatcher \<Rightarrow> engine_event \<Rightarrow> 's \<Rightarrow> 's" where
  "dispatcher_publish [] e s = s"
| "dispatcher_publish (h # hs) e s = dispatcher_publish hs e (h e s)"

lemma dispatcher_publish_append:
  "dispatcher_publish (hs @ hs') e s = dispatcher_publish hs' e (dispatcher_publish hs e s)"
  by (induction hs arbitrary: s) auto

end
