(* ===== verification/Storage.thy ===== *)
theory Storage
  imports Core_Types
begin

section \<open>Storage records and the in-memory repositories\<close>

text \<open>
  \<open>include/storage/storage_interfaces.hpp\<close> and \<open>src/storage/storage_interfaces.cpp\<close>: the persisted
  records, the abstract repositories as locales that state what their clients rely on, and the
  in-memory implementations, which interpret them. \<open>InMemoryOrderRepository\<close> and the position and
  balance repositories iterate their \<open>unordered_map\<close>, so they are association lists with distinct keys.
\<close>

subsection \<open>Records\<close>

record transaction_record =
  tr_transaction_id :: string
  tr_status :: string
  tr_kafka_topic :: string
  tr_kafka_partition :: int
  tr_kafka_offset :: int64

record kafka_checkpoint =
  kc_topic :: string
  kc_partition :: int
  kc_offset :: int64

record order_intent_record =
  oi_request_id :: string
  oi_strategy_id :: string
  oi_instrument_id :: string
  oi_side :: order_side
  oi_order_type :: order_type
  oi_quantity :: double
  oi_price :: "double option"

record execution_report_record =
  er_report_id :: string
  er_order_id :: string
  er_client_order_id :: string
  er_instrument_id :: string
  er_side :: order_side
  er_status :: order_status
  er_cumulative_filled_quantity :: double
  er_last_fill_price :: "double option"
  er_last_fill_fee :: double
  er_reason :: "string option"
  er_exchange_timestamp :: int64

record order_record =
  or_order_id :: string
  or_client_order_id :: string
  or_strategy_id :: string
  or_instrument_id :: string
  or_side :: order_side
  or_order_type :: order_type
  or_status :: order_status
  or_quantity :: double
  or_price :: "double option"
  or_filled_quantity :: double

record market_snapshot =
  ms_instrument_id :: string
  ms_best_bid :: "double option"
  ms_best_ask :: "double option"
  ms_last_trade_price :: "double option"
  ms_last_trade_quantity :: "double option"
  ms_last_process_timestamp :: int64

subsection \<open>Transactions\<close>

record transaction_repository =
  tx_records :: "transaction_record list"
  tx_checkpoints :: "kafka_checkpoint list"

definition transaction_repository_new :: transaction_repository where
  "transaction_repository_new = \<lparr>tx_records = [], tx_checkpoints = []\<rparr>"

definition save_received :: "transaction_command \<Rightarrow> transaction_repository \<Rightarrow> transaction_repository" where
  "save_received c s = s\<lparr>tx_records := tx_records s @
     [\<lparr>tr_transaction_id = tx_transaction_id c, tr_status = ''received'', tr_kafka_topic = tx_kafka_topic c,
       tr_kafka_partition = tx_kafka_partition c, tr_kafka_offset = tx_kafka_offset c\<rparr>]\<rparr>"

definition save_processed :: "string \<Rightarrow> string \<Rightarrow> transaction_repository \<Rightarrow> transaction_repository" where
  "save_processed transaction_id status s = s\<lparr>tx_records :=
     (case update_first (\<lambda>r. tr_transaction_id r = transaction_id) (\<lambda>r. r\<lparr>tr_status := status\<rparr>) (tx_records s) of
        Some rs \<Rightarrow> rs
      | None \<Rightarrow> tx_records s @ [\<lparr>tr_transaction_id = transaction_id, tr_status = status, tr_kafka_topic = '''',
          tr_kafka_partition = 0, tr_kafka_offset = 0\<rparr>])\<rparr>"

definition save_checkpoint :: "kafka_checkpoint \<Rightarrow> transaction_repository \<Rightarrow> transaction_repository" where
  "save_checkpoint c s = s\<lparr>tx_checkpoints :=
     (case update_first (\<lambda>e. kc_topic e = kc_topic c \<and> kc_partition e = kc_partition c)
          (\<lambda>e. e\<lparr>kc_offset := kc_offset c\<rparr>) (tx_checkpoints s) of
        Some cs \<Rightarrow> cs | None \<Rightarrow> tx_checkpoints s @ [c])\<rparr>"

definition all_records :: "transaction_repository \<Rightarrow> transaction_record list" where
  "all_records s = tx_records s"

definition all_checkpoints :: "transaction_repository \<Rightarrow> kafka_checkpoint list" where
  "all_checkpoints s = tx_checkpoints s"

type_synonym transaction_cache = "(string \<times> string) list"

definition set_status :: "string \<Rightarrow> string \<Rightarrow> transaction_cache \<Rightarrow> transaction_cache" where
  "set_status transaction_id status c =
     (case update_first (\<lambda>e. fst e = transaction_id) (\<lambda>e. (fst e, status)) c of
        Some c' \<Rightarrow> c' | None \<Rightarrow> c @ [(transaction_id, status)])"

definition get_status :: "string \<Rightarrow> transaction_cache \<Rightarrow> string" where
  "get_status transaction_id c = (case map_of c transaction_id of Some status \<Rightarrow> status | None \<Rightarrow> '''')"

subsection \<open>Orders\<close>

type_synonym order_repository = "(string, order_record) umap"

definition order_record_of :: "order_request \<Rightarrow> string \<Rightarrow> string \<Rightarrow> order_record" where
  "order_record_of rq order_id client_order_id = \<lparr>or_order_id = order_id, or_client_order_id = client_order_id,
     or_strategy_id = rq_strategy_id rq, or_instrument_id = instrument_id (rq_instrument rq),
     or_side = rq_side rq, or_order_type = rq_type rq, or_status = Created, or_quantity = rq_quantity rq,
     or_price = rq_price rq, or_filled_quantity = 0\<rparr>"

definition save_order :: "order_request \<Rightarrow> string \<Rightarrow> string \<Rightarrow> order_repository \<Rightarrow> order_repository" where
  "save_order rq order_id client_order_id s = AList.update order_id (order_record_of rq order_id client_order_id) s"

definition save_order_update :: "order_update \<Rightarrow> order_repository \<Rightarrow> order_repository" where
  "save_order_update u s =
     (case map_of s (ou_order_id u) of
        Some r \<Rightarrow> AList.update (ou_order_id u) (r\<lparr>or_client_order_id := ou_client_order_id u,
          or_status := ou_status u, or_filled_quantity := ou_filled_quantity u\<rparr>) s
      | None \<Rightarrow> AList.update (ou_order_id u) \<lparr>or_order_id = ou_order_id u, or_client_order_id = ou_client_order_id u,
          or_strategy_id = '''', or_instrument_id = '''', or_side = Buy, or_order_type = Limit,
          or_status = ou_status u, or_quantity = 0, or_price = None, or_filled_quantity = ou_filled_quantity u\<rparr> s)"

definition get_order :: "string \<Rightarrow> order_repository \<Rightarrow> order_record option" where
  "get_order order_id s = map_of s order_id"

fun is_open_status :: "order_status \<Rightarrow> bool" where
  "is_open_status Created = True"
| "is_open_status Pending_submit = True"
| "is_open_status Acknowledged = True"
| "is_open_status Partially_filled = True"
| "is_open_status Pending_cancel = True"
| "is_open_status Filled = False"
| "is_open_status Canceled = False"
| "is_open_status Rejected = False"
| "is_open_status Expired = False"

definition all_open_orders :: "order_repository \<Rightarrow> order_record list" where
  "all_open_orders s = filter (\<lambda>r. is_open_status (or_status r)) (map snd s)"

subsection \<open>Append-only repositories\<close>

definition append_fill :: "fill_event \<Rightarrow> fill_event list \<Rightarrow> fill_event list" where
  "append_fill f s = s @ [f]"

definition append_intent :: "order_intent_record \<Rightarrow> order_intent_record list \<Rightarrow> order_intent_record list" where
  "append_intent i s = s @ [i]"

definition append_report :: "execution_report_record \<Rightarrow> execution_report_record list \<Rightarrow> execution_report_record list" where
  "append_report r s = s @ [r]"

subsection \<open>Keyed repositories\<close>

definition save_position :: "position \<Rightarrow> (string, position) umap \<Rightarrow> (string, position) umap" where
  "save_position p s = AList.update (instrument_id (po_instrument p)) p s"

definition get_position :: "string \<Rightarrow> (string, position) umap \<Rightarrow> position option" where
  "get_position iid s = map_of s iid"

definition all_positions :: "(string, position) umap \<Rightarrow> position list" where
  "all_positions s = map snd s"

definition save_balance :: "balance_snapshot \<Rightarrow> (string, balance_snapshot) umap \<Rightarrow> (string, balance_snapshot) umap" where
  "save_balance x s = AList.update (ba_asset x) x s"

definition get_balance :: "string \<Rightarrow> (string, balance_snapshot) umap \<Rightarrow> balance_snapshot option" where
  "get_balance asset s = map_of s asset"

definition all_balances :: "(string, balance_snapshot) umap \<Rightarrow> balance_snapshot list" where
  "all_balances s = map snd s"

definition upsert_snapshot :: "market_snapshot \<Rightarrow> (string \<rightharpoonup> market_snapshot) \<Rightarrow> (string \<rightharpoonup> market_snapshot)" where
  "upsert_snapshot x s = s(ms_instrument_id x \<mapsto> x)"

definition get_snapshot :: "string \<Rightarrow> (string \<rightharpoonup> market_snapshot) \<Rightarrow> market_snapshot option" where
  "get_snapshot iid s = s iid"

subsection \<open>Keyed association lists\<close>

text \<open>An \<open>unordered_map\<close> whose entries are stored under their own key.\<close>

definition keyed_inv :: "('v \<Rightarrow> string) \<Rightarrow> (string, 'v) umap \<Rightarrow> bool" where
  "keyed_inv key s \<longleftrightarrow> distinct (map fst s) \<and> (\<forall>(k, v) \<in> set s. key v = k)"

lemma set_update_alist:
  "distinct (map fst s) \<Longrightarrow> set (AList.update k v s) = insert (k, v) {e \<in> set s. fst e \<noteq> k}"
  by (induction s) (auto simp: image_iff)

lemma keyed_inv_Nil [simp]: "keyed_inv key []"
  by (simp add: keyed_inv_def)

lemma keyed_inv_update: "keyed_inv key s \<Longrightarrow> key v = k \<Longrightarrow> keyed_inv key (AList.update k v s)"
  by (auto simp: keyed_inv_def set_update_alist AList.distinct_update)

lemma keyed_inv_lookup: "keyed_inv key s \<Longrightarrow> map_of s k = Some v \<Longrightarrow> key v = k"
  by (auto simp: keyed_inv_def dest: map_of_SomeD)

lemma keyed_inv_entry: "keyed_inv key s \<Longrightarrow> v \<in> snd ` set s \<longleftrightarrow> map_of s (key v) = Some v"
  by (force simp: keyed_inv_def)

lemma keyed_inv_keys:
  assumes "keyed_inv key s"
  shows "distinct (map key (map snd s))"
proof -
  have eq: "map key (map snd s) = map fst s" using assms by (auto simp: keyed_inv_def)
  show ?thesis using assms unfolding eq keyed_inv_def by blast
qed

subsection \<open>What clients rely on: the order repository\<close>

text \<open>The effect of one lifecycle update on a stored record.\<close>

definition apply_order_update :: "order_update \<Rightarrow> order_record \<Rightarrow> order_record" where
  "apply_order_update u r = r\<lparr>or_client_order_id := ou_client_order_id u, or_status := ou_status u,
     or_filled_quantity := ou_filled_quantity u\<rparr>"

definition blank_order :: "string \<Rightarrow> order_record" where
  "blank_order i = \<lparr>or_order_id = i, or_client_order_id = '''', or_strategy_id = '''', or_instrument_id = '''',
     or_side = Buy, or_order_type = Limit, or_status = Created, or_quantity = 0, or_price = None,
     or_filled_quantity = 0\<rparr>"

locale order_store =
  fixes save :: "order_request \<Rightarrow> string \<Rightarrow> string \<Rightarrow> 's \<Rightarrow> 's"
    and save_update :: "order_update \<Rightarrow> 's \<Rightarrow> 's"
    and lookup :: "string \<Rightarrow> 's \<Rightarrow> order_record option"
    and open_orders :: "'s \<Rightarrow> order_record list"
    and inv :: "'s \<Rightarrow> bool"
  assumes inv_save: "inv s \<Longrightarrow> inv (save rq i c s)"
    and inv_update: "inv s \<Longrightarrow> inv (save_update u s)"
    and lookup_save: "inv s \<Longrightarrow>
      lookup j (save rq i c s) = (if j = i then Some (order_record_of rq i c) else lookup j s)"
    and lookup_update: "inv s \<Longrightarrow> lookup j (save_update u s) =
      (if j = ou_order_id u
       then Some (apply_order_update u (case lookup j s of Some r \<Rightarrow> r | None \<Rightarrow> blank_order j))
       else lookup j s)"
    and lookup_id: "inv s \<Longrightarrow> lookup j s = Some r \<Longrightarrow> or_order_id r = j"
    and open_iff: "inv s \<Longrightarrow> r \<in> set (open_orders s) \<longleftrightarrow>
      lookup (or_order_id r) s = Some r \<and> is_open_status (or_status r)"
    and open_distinct: "inv s \<Longrightarrow> distinct (map or_order_id (open_orders s))"
begin

lemma inv_updates: "inv s \<Longrightarrow> inv (fold save_update us s)"
  by (induction us arbitrary: s) (auto intro: inv_update)

lemma lookup_updates_other:
  "inv s \<Longrightarrow> \<forall>u \<in> set us. ou_order_id u \<noteq> j \<Longrightarrow> lookup j (fold save_update us s) = lookup j s"
  by (induction us arbitrary: s) (auto simp: lookup_update inv_update)

text \<open>The last update of an order decides its stored status and filled quantity.\<close>

lemma lookup_updates_last:
  assumes "inv s" "us \<noteq> []" "\<forall>u \<in> set us. ou_order_id u = j"
  shows "lookup j (fold save_update us s) =
    Some (apply_order_update (last us) (case lookup j s of Some r \<Rightarrow> r | None \<Rightarrow> blank_order j))"
  using assms
proof (induction us rule: rev_induct)
  case (snoc u us)
  then have "ou_order_id u = j" by simp
  then show ?case using snoc
    by (cases "us = []") (auto simp: lookup_update inv_updates apply_order_update_def split: option.splits)
qed simp

text \<open>An order whose last update is terminal is not handed to recovery; one whose last update is open is.\<close>

lemma open_after_updates:
  assumes "inv s" "us \<noteq> []" "\<forall>u \<in> set us. ou_order_id u = j"
  shows "j \<in> or_order_id ` set (open_orders (fold save_update us s)) \<longleftrightarrow> is_open_status (ou_status (last us))"
proof -
  let ?s = "fold save_update us s"
  have i: "inv ?s" using assms(1) by (rule inv_updates)
  obtain r where r: "lookup j ?s = Some r" "or_status r = ou_status (last us)"
    using lookup_updates_last [OF assms] by (auto simp: apply_order_update_def)
  have "or_order_id r = j" using lookup_id [OF i r(1)] .
  then show ?thesis using open_iff [OF i] r by (auto simp: image_iff)
qed

end

interpretation in_memory_orders: order_store save_order save_order_update get_order all_open_orders
  "keyed_inv or_order_id"
proof unfold_locales
  fix s :: order_repository and u assume "keyed_inv or_order_id s"
  then show "keyed_inv or_order_id (save_order_update u s)"
    using keyed_inv_lookup [of or_order_id s "ou_order_id u"]
    by (auto simp: save_order_update_def intro!: keyed_inv_update split: option.splits)
next
  fix s :: order_repository and r assume "keyed_inv or_order_id s"
  then show "r \<in> set (all_open_orders s) \<longleftrightarrow> get_order (or_order_id r) s = Some r \<and> is_open_status (or_status r)"
    using keyed_inv_entry [of or_order_id s r] by (auto simp: all_open_orders_def get_order_def)
next
  fix s :: order_repository assume "keyed_inv or_order_id s"
  then show "distinct (map or_order_id (all_open_orders s))"
    unfolding all_open_orders_def using keyed_inv_keys distinct_map_filter by blast
qed (auto simp: save_order_def save_order_update_def get_order_def order_record_of_def apply_order_update_def
    blank_order_def update_conv' keyed_inv_update keyed_inv_lookup split: option.splits)

subsection \<open>What clients rely on: keyed repositories\<close>

locale keyed_store =
  fixes key :: "'v \<Rightarrow> string"
    and save :: "'v \<Rightarrow> 's \<Rightarrow> 's"
    and lookup :: "string \<Rightarrow> 's \<Rightarrow> 'v option"
    and entries :: "'s \<Rightarrow> 'v list"
    and inv :: "'s \<Rightarrow> bool"
  assumes inv_save: "inv s \<Longrightarrow> inv (save v s)"
    and lookup_save: "inv s \<Longrightarrow> lookup k (save v s) = (if k = key v then Some v else lookup k s)"
    and entries_iff: "inv s \<Longrightarrow> v \<in> set (entries s) \<longleftrightarrow> lookup (key v) s = Some v"
    and entries_distinct: "inv s \<Longrightarrow> distinct (map key (entries s))"
begin

lemma inv_saves: "inv s \<Longrightarrow> inv (fold save vs s)"
  by (induction vs arbitrary: s) (auto intro: inv_save)

text \<open>Saving a batch with distinct keys stores all of it.\<close>

lemma lookup_saves:
  assumes "inv s" "distinct (map key vs)"
  shows "lookup k (fold save vs s) = (case find (\<lambda>v. key v = k) vs of Some v \<Rightarrow> Some v | None \<Rightarrow> lookup k s)"
  using assms
proof (induction vs arbitrary: s)
  case (Cons v vs)
  have "find (\<lambda>w. key w = key v) vs = None" using Cons.prems(2) by (auto simp: find_None_iff image_iff)
  then show ?case using Cons by (auto simp: inv_save lookup_save split: option.splits)
qed simp

end

lemma keyed_store_alist: "keyed_store key (\<lambda>v. AList.update (key v) v) (\<lambda>k s. map_of s k) (map snd) (keyed_inv key)"
  by unfold_locales (auto simp: update_conv' keyed_inv_update keyed_inv_keys [unfolded map_map] simp flip: keyed_inv_entry)

interpretation in_memory_positions: keyed_store "\<lambda>p. instrument_id (po_instrument p)" save_position get_position
  all_positions "keyed_inv (\<lambda>p. instrument_id (po_instrument p))"
  unfolding save_position_def [abs_def] get_position_def [abs_def] all_positions_def [abs_def]
  by (rule keyed_store_alist)

interpretation in_memory_balances: keyed_store ba_asset save_balance get_balance all_balances "keyed_inv ba_asset"
  unfolding save_balance_def [abs_def] get_balance_def [abs_def] all_balances_def [abs_def]
  by (rule keyed_store_alist)

end
