(* ===== verification/Monitoring.thy ===== *)
theory Monitoring
  imports Core_Types
begin

section \<open>Health status and metrics\<close>

text \<open>
  \<open>include/monitoring/health_status.hpp\<close>, \<open>include/monitoring/metrics.hpp\<close> and their source files.
  The array of component states is a list of length four; the collectors' maps are never iterated.
\<close>

datatype runtime_component = Ingestion | Market_data | Risk | Execution

datatype health_status = Unknown | Healthy | Degraded | Unavailable

type_synonym runtime_health_status = "health_status list"

definition runtime_health_status_new :: runtime_health_status where
  "runtime_health_status_new = [Unknown, Unknown, Unknown, Unknown]"

fun component_index :: "runtime_component \<Rightarrow> nat" where
  "component_index Ingestion = 0"
| "component_index Market_data = 1"
| "component_index Risk = 2"
| "component_index Execution = 3"

definition health_set_status :: "runtime_component \<Rightarrow> health_status \<Rightarrow> runtime_health_status \<Rightarrow> runtime_health_status" where
  "health_set_status c s h = h[component_index c := s]"

definition health_get_status :: "runtime_component \<Rightarrow> runtime_health_status \<Rightarrow> health_status" where
  "health_get_status c h = h ! component_index c"

fun overall_loop :: "bool \<Rightarrow> bool \<Rightarrow> health_status list \<Rightarrow> health_status" where
  "overall_loop has_unknown has_degraded [] =
     (if has_degraded then Degraded else if has_unknown then Unknown else Healthy)"
| "overall_loop has_unknown has_degraded (s # ss) =
     (if s = Unavailable then Unavailable
      else overall_loop (has_unknown \<or> s = Unknown) (has_degraded \<or> s = Degraded) ss)"

definition overall_status :: "runtime_health_status \<Rightarrow> health_status" where
  "overall_status h = overall_loop False False h"

fun health_to_string :: "health_status \<Rightarrow> string" where
  "health_to_string Unknown = ''unknown''"
| "health_to_string Healthy = ''healthy''"
| "health_to_string Degraded = ''degraded''"
| "health_to_string Unavailable = ''unavailable''"

record latency_metric =
  lm_sample_count :: int64
  lm_total_ms :: int64
  lm_max_ms :: int64

record metrics =
  mt_counters :: "string \<rightharpoonup> int64"
  mt_latencies :: "string \<rightharpoonup> latency_metric"

definition metrics_new :: metrics where
  "metrics_new = \<lparr>mt_counters = Map.empty, mt_latencies = Map.empty\<rparr>"

definition counter :: "string \<Rightarrow> metrics \<Rightarrow> int64" where
  "counter name m = (case mt_counters m name of Some v \<Rightarrow> v | None \<Rightarrow> 0)"

definition latency :: "string \<Rightarrow> metrics \<Rightarrow> latency_metric" where
  "latency name m = (case mt_latencies m name of Some v \<Rightarrow> v
     | None \<Rightarrow> \<lparr>lm_sample_count = 0, lm_total_ms = 0, lm_max_ms = 0\<rparr>)"

definition increment :: "string \<Rightarrow> int64 \<Rightarrow> metrics \<Rightarrow> metrics" where
  "increment name delta m = m\<lparr>mt_counters := (mt_counters m)(name \<mapsto> counter name m + delta)\<rparr>"

definition observe_latency :: "string \<Rightarrow> int64 \<Rightarrow> metrics \<Rightarrow> metrics" where
  "observe_latency name duration m =
     (let l = latency name m
      in m\<lparr>mt_latencies := (mt_latencies m)(name \<mapsto>
        \<lparr>lm_sample_count = lm_sample_count l + 1, lm_total_ms = lm_total_ms l + duration,
         lm_max_ms = max (lm_max_ms l) duration\<rparr>)\<rparr>)"

subsection \<open>The roll-up\<close>

text \<open>How bad a state is, for the roll-up: degraded outranks unknown.\<close>

fun severity :: "health_status \<Rightarrow> nat" where
  "severity Healthy = 0"
| "severity Unknown = 1"
| "severity Degraded = 2"
| "severity Unavailable = 3"

lemma severity_inj [simp]: "severity a = severity b \<longleftrightarrow> a = b"
  by (cases a; cases b) auto

lemma overall_loop_severity:
  "severity (overall_loop u d ss) = fold max (map severity ss) (if d then 2 else if u then 1 else 0)"
proof (induction u d ss rule: overall_loop.induct)
  case (2 u d s ss)
  have ge: "x \<le> fold max ys x" for x :: nat and ys by (induction ys arbitrary: x) (auto, meson max.bounded_iff)
  have le: "severity s \<le> 3" for s by (cases s) auto
  have "fold max (map severity ss) 3 \<le> 3" by (induction ss) (use le in auto)
  then have "fold max (map severity ss) 3 = 3" using ge [of 3 "map severity ss"] by simp
  then show ?case using 2 by (cases s) (auto simp: numeral_2_eq_2)
qed simp

text \<open>
  The overall health of the runtime is the worst of its components' states, in the order healthy,
  unknown, degraded, unavailable; in particular it is healthy only when every component is.
\<close>

theorem overall_status_worst:
  "severity (overall_status h) = fold max (map severity h) 0 \<and>
   (overall_status h = Healthy \<longleftrightarrow> set h \<subseteq> {Healthy})"
proof -
  have *: "severity (overall_status h) = fold max (map severity h) 0"
    by (simp add: overall_status_def overall_loop_severity)
  have "fold max xs a = 0 \<longleftrightarrow> a = 0 \<and> set xs \<subseteq> {0}" for xs :: "nat list" and a
    by (induction xs arbitrary: a) auto
  moreover have "severity s = 0 \<longleftrightarrow> s = Healthy" for s by (cases s) auto
  ultimately show ?thesis using * severity_inj [of "overall_status h" Healthy] by (auto simp: image_subset_iff)
qed

lemma health_get_set:
  "length h = 4 \<Longrightarrow> health_get_status c (health_set_status c' s h) = (if c = c' then s else health_get_status c h)"
  by (cases c; cases c') (auto simp: health_get_status_def health_set_status_def)

lemma counter_increment: "counter n (increment m d s) = (if n = m then counter n s + d else counter n s)"
  by (simp add: counter_def increment_def)

lemma counter_observe [simp]: "counter n (observe_latency m d s) = counter n s"
  by (simp add: counter_def observe_latency_def Let_def)

end
