(* ===== verification/Actions.thy ===== *)
theory Actions
  imports Prelude
begin

section \<open>Calls that may throw\<close>

text \<open>
  A call through an interface returns a value or throws, and in both cases leaves the object in some
  state: an action maps a state to an optional result and the state after it, where \<open>None\<close> is an
  exception. \<open>bindA\<close> sequences and lets exceptions propagate, \<open>rethrowing\<close> is
  \<open>try { ... } catch (...) { handler; throw; }\<close>, and \<open>on_part\<close> runs an action of a component inside the
  object that refers to it.
\<close>

type_synonym ('a, 's) action = "'s \<Rightarrow> 'a option \<times> 's"

definition ret :: "'a \<Rightarrow> ('a, 's) action" where
  "ret a s = (Some a, s)"

definition bindA :: "('a, 's) action \<Rightarrow> ('a \<Rightarrow> ('b, 's) action) \<Rightarrow> ('b, 's) action" where
  "bindA m f s = (case m s of (None, s') \<Rightarrow> (None, s') | (Some a, s') \<Rightarrow> f a s')"

definition rethrowing :: "('s \<Rightarrow> 's) \<Rightarrow> ('a, 's) action \<Rightarrow> ('a, 's) action" where
  "rethrowing handler m s = (case m s of (None, s') \<Rightarrow> (None, handler s') | (Some a, s') \<Rightarrow> (Some a, s'))"

definition on_part :: "('s \<Rightarrow> 'c) \<Rightarrow> ('c \<Rightarrow> 's \<Rightarrow> 's) \<Rightarrow> ('a, 'c) action \<Rightarrow> ('a, 's) action" where
  "on_part get put m s = (case m (get s) of (r, c) \<Rightarrow> (r, put c s))"

definition total :: "('s \<Rightarrow> 's) \<Rightarrow> (unit, 's) action" where
  "total f s = (Some (), f s)"

lemmas action_defs = ret_def bindA_def rethrowing_def on_part_def total_def

lemma bindA_eq_Some:
  "bindA m f s = (Some b, s') \<longleftrightarrow> (\<exists>a s1. m s = (Some a, s1) \<and> f a s1 = (Some b, s'))"
  by (auto simp: bindA_def split: prod.splits option.splits)

lemma bindA_eq_None:
  "bindA m f s = (None, s') \<longleftrightarrow> m s = (None, s') \<or> (\<exists>a s1. m s = (Some a, s1) \<and> f a s1 = (None, s'))"
  by (auto simp: bindA_def split: prod.splits option.splits)

end
