(* ===== verification/Ingestion.thy ===== *)
theory Ingestion
  imports Storage Monitoring Actions
begin

section \<open>Transaction ingestion\<close>

text \<open>
  \<open>include/ingestion\<close> and \<open>src/ingestion\<close>: the mock consumer and the ingestor. The ingestor is written
  over the interfaces it is built from, so that a repository, a cache, a consumer or an event handler may
  throw at any call.
\<close>

subsection \<open>The mock consumer\<close>

record mock_transaction_consumer =
  mc_commands :: "transaction_command list"
  mc_committed :: "transaction_command list"
  mc_next_index :: nat

definition mock_transaction_consumer_new :: "transaction_command list \<Rightarrow> mock_transaction_consumer" where
  "mock_transaction_consumer_new cmds = \<lparr>mc_commands = cmds, mc_committed = [], mc_next_index = 0\<rparr>"

definition mock_poll :: "mock_transaction_consumer \<Rightarrow> transaction_command option \<times> mock_transaction_consumer" where
  "mock_poll c =
     (if length (mc_commands c) \<le> mc_next_index c then (None, c)
      else (Some (mc_commands c ! mc_next_index c), c\<lparr>mc_next_index := mc_next_index c + 1\<rparr>))"

definition mock_commit :: "transaction_command \<Rightarrow> mock_transaction_consumer \<Rightarrow> mock_transaction_consumer" where
  "mock_commit cmd c = c\<lparr>mc_committed := mc_committed c @ [cmd]\<rparr>"

subsection \<open>The ingestor\<close>

text \<open>
  The calls an ingestor makes, each on the state \<open>'s\<close> of all the objects it refers to; the metrics are behind a
  nullable pointer, \<open>ic_metrics\<close> changes them if they are there.
\<close>

record 's ingest_calls =
  ic_poll :: "(transaction_command option, 's) action"
  ic_commit :: "transaction_command \<Rightarrow> (unit, 's) action"
  ic_save_received :: "transaction_command \<Rightarrow> (unit, 's) action"
  ic_save_processed :: "string \<Rightarrow> string \<Rightarrow> (unit, 's) action"
  ic_set_status :: "string \<Rightarrow> string \<Rightarrow> (unit, 's) action"
  ic_publish :: "engine_event \<Rightarrow> (unit, 's) action"
  ic_metrics :: "(metrics \<Rightarrow> metrics) \<Rightarrow> 's \<Rightarrow> 's"

definition count_metric :: "'s ingest_calls \<Rightarrow> string \<Rightarrow> 's \<Rightarrow> 's" where
  "count_metric g name = ic_metrics g (increment name 1)"

text \<open>The optional clock is its readings at the start and at the end of the call.\<close>

definition latency_sample :: "'s ingest_calls \<Rightarrow> (int64 \<times> int64) option \<Rightarrow> 's \<Rightarrow> 's" where
  "latency_sample g clock s =
     (case clock of None \<Rightarrow> s
      | Some (started, finished) \<Rightarrow> ic_metrics g (observe_latency ''transaction_processing_latency_ms'' (finished - started)) s)"

definition is_valid :: "transaction_command \<Rightarrow> bool" where
  "is_valid c =
     (if tx_transaction_id c = '''' \<or> tx_kafka_topic c = '''' \<or> tx_kafka_offset c < 0 then False
      else if tx_account_id c = '''' \<or> tx_command_type c = '''' \<or> tx_instrument_symbol c = '''' then False
      else 0 < tx_quantity c)"

text \<open>Persist the outcome of a command, cache it, commit the offset and count: the end of both branches.\<close>

definition settle :: "'s ingest_calls \<Rightarrow> (int64 \<times> int64) option \<Rightarrow> transaction_command \<Rightarrow> string \<Rightarrow> string \<Rightarrow> (bool, 's) action" where
  "settle g clock c status metric =
     bindA (rethrowing (count_metric g ''persistence_failures'') (ic_save_processed g (tx_transaction_id c) status)) (\<lambda>_.
     bindA (ic_set_status g (tx_transaction_id c) status) (\<lambda>_.
     bindA (ic_commit g c) (\<lambda>_.
     bindA (total (count_metric g metric)) (\<lambda>_.
     bindA (total (latency_sample g clock)) (\<lambda>_.
     ret True)))))"

definition process_next :: "'s ingest_calls \<Rightarrow> (int64 \<times> int64) option \<Rightarrow> (bool, 's) action" where
  "process_next g clock =
     bindA (ic_poll g) (\<lambda>command. case command of None \<Rightarrow> ret False
     | Some c \<Rightarrow>
       bindA (rethrowing (count_metric g ''persistence_failures'') (ic_save_received g c)) (\<lambda>_.
       bindA (ic_set_status g (tx_transaction_id c) ''received'') (\<lambda>_.
       bindA (total (count_metric g ''transactions_received'')) (\<lambda>_.
       if \<not> is_valid c then settle g clock c ''rejected'' ''transactions_rejected''
       else bindA (ic_publish g (TransactionCommand c)) (\<lambda>_.
            settle g clock c ''processed'' ''transactions_processed'')))))"

subsection \<open>Separate objects\<close>

text \<open>An ingestor whose consumer, repository, cache and handlers share no state, each with its methods.\<close>

record ('c, 'r, 'k, 'd) ingestor =
  in_consumer :: 'c
  in_repository :: 'r
  in_cache :: 'k
  in_runtime :: 'd
  in_metrics :: "metrics option"

record ('c, 'r, 'k, 'd) ingest_ports =
  ip_poll :: "(transaction_command option, 'c) action"
  ip_commit :: "transaction_command \<Rightarrow> (unit, 'c) action"
  ip_save_received :: "transaction_command \<Rightarrow> (unit, 'r) action"
  ip_save_processed :: "string \<Rightarrow> string \<Rightarrow> (unit, 'r) action"
  ip_set_status :: "string \<Rightarrow> string \<Rightarrow> (unit, 'k) action"
  ip_publish :: "engine_event \<Rightarrow> (unit, 'd) action"

abbreviation on_consumer :: "('a, 'c) action \<Rightarrow> ('a, ('c, 'r, 'k, 'd) ingestor) action" where
  "on_consumer \<equiv> on_part in_consumer (\<lambda>c. in_consumer_update (\<lambda>_. c))"

abbreviation on_repository :: "('a, 'r) action \<Rightarrow> ('a, ('c, 'r, 'k, 'd) ingestor) action" where
  "on_repository \<equiv> on_part in_repository (\<lambda>r. in_repository_update (\<lambda>_. r))"

abbreviation on_cache :: "('a, 'k) action \<Rightarrow> ('a, ('c, 'r, 'k, 'd) ingestor) action" where
  "on_cache \<equiv> on_part in_cache (\<lambda>k. in_cache_update (\<lambda>_. k))"

abbreviation on_runtime :: "('a, 'd) action \<Rightarrow> ('a, ('c, 'r, 'k, 'd) ingestor) action" where
  "on_runtime \<equiv> on_part in_runtime (\<lambda>d. in_runtime_update (\<lambda>_. d))"

definition of_ports :: "('c, 'r, 'k, 'd) ingest_ports \<Rightarrow> ('c, 'r, 'k, 'd) ingestor ingest_calls" where
  "of_ports p = \<lparr>ic_poll = on_consumer (ip_poll p), ic_commit = \<lambda>c. on_consumer (ip_commit p c),
     ic_save_received = \<lambda>c. on_repository (ip_save_received p c), ic_save_processed = \<lambda>i st. on_repository (ip_save_processed p i st),
     ic_set_status = \<lambda>i st. on_cache (ip_set_status p i st), ic_publish = \<lambda>e. on_runtime (ip_publish p e),
     ic_metrics = \<lambda>f s. s\<lparr>in_metrics := map_option f (in_metrics s)\<rparr>\<rparr>"

lemma of_ports_simps [simp]:
  "ic_poll (of_ports p) = on_consumer (ip_poll p)" "ic_commit (of_ports p) c = on_consumer (ip_commit p c)"
  "ic_save_received (of_ports p) c = on_repository (ip_save_received p c)"
  "ic_save_processed (of_ports p) i st = on_repository (ip_save_processed p i st)"
  "ic_set_status (of_ports p) i st = on_cache (ip_set_status p i st)" "ic_publish (of_ports p) e = on_runtime (ip_publish p e)"
  "ic_metrics (of_ports p) f s = s\<lparr>in_metrics := map_option f (in_metrics s)\<rparr>"
  by (simp_all add: of_ports_def)

subsection \<open>The contract of a consumer\<close>

text \<open>
  A consumer delivers its pending commands in order, remembers what was committed, and its commit does
  not throw. Nothing is assumed of the repository, the cache and the handlers: each of their calls may
  throw and leave any state behind.
\<close>

locale transaction_consumer =
  fixes poll :: "(transaction_command option, 'c) action"
    and commit :: "transaction_command \<Rightarrow> (unit, 'c) action"
    and pending :: "'c \<Rightarrow> transaction_command list"
    and committed :: "'c \<Rightarrow> transaction_command list"
  assumes poll_empty: "pending c = [] \<Longrightarrow> poll c = (Some None, c)"
    and poll_next: "pending c = x # xs \<Longrightarrow> \<exists>c'. poll c = (Some (Some x), c') \<and> pending c' = xs \<and> committed c' = committed c"
    and commit_ok: "\<exists>c'. commit x c = (Some (), c') \<and> pending c' = pending c \<and> committed c' = committed c @ [x]"
begin

abbreviation ports where
  "ports sr sp ss pub \<equiv> of_ports \<lparr>ip_poll = poll, ip_commit = commit, ip_save_received = sr, ip_save_processed = sp,
     ip_set_status = ss, ip_publish = pub\<rparr>"

lemma settle_commits:
  assumes "settle (ports sr sp ss pub) clock c status metric s = (r, s')"
  shows "in_runtime s' = in_runtime s \<and> pending (in_consumer s') = pending (in_consumer s) \<and>
    (if r = None then committed (in_consumer s') = committed (in_consumer s)
     else r = Some True \<and> committed (in_consumer s') = committed (in_consumer s) @ [c] \<and>
       sp (tx_transaction_id c) status (in_repository s) = (Some (), in_repository s') \<and>
       ss (tx_transaction_id c) status (in_cache s) = (Some (), in_cache s'))"
proof -
  obtain c' where commit: "commit c (in_consumer s) = (Some (), c')" "pending c' = pending (in_consumer s)"
      "committed c' = committed (in_consumer s) @ [c]" using commit_ok by metis
  obtain x r1 where sp: "sp (tx_transaction_id c) status (in_repository s) = (x, r1)" by force
  obtain y k1 where ss: "ss (tx_transaction_id c) status (in_cache s) = (y, k1)" by force
  have frame: "in_consumer (latency_sample (of_ports p) clock t) = in_consumer t"
    "in_repository (latency_sample (of_ports p) clock t) = in_repository t"
    "in_cache (latency_sample (of_ports p) clock t) = in_cache t" "in_runtime (latency_sample (of_ports p) clock t) = in_runtime t"
    for t :: "('c, 'e, 'f, 'g) ingestor" and p
    by (simp_all add: latency_sample_def split: option.split prod.split)
  show ?thesis
  proof (cases x)
    case None
    then show ?thesis using assms sp by (auto simp: settle_def action_defs count_metric_def)
  next
    case (Some u)
    then show ?thesis using assms sp ss commit by (cases y) (auto simp: settle_def action_defs count_metric_def frame)
  qed
qed

lemma process_next_empty:
  "pending (in_consumer s) = [] \<Longrightarrow> process_next (ports sr sp ss pub) clock s = (Some False, s)"
  by (simp add: process_next_def action_defs poll_empty)

lemma process_next_step:
  assumes "process_next (ports sr sp ss pub) clock s = (r, s')" "pending (in_consumer s) = c # cs"
  shows "pending (in_consumer s') = cs \<and>
    (if r = None then committed (in_consumer s') = committed (in_consumer s)
     else r = Some True \<and> committed (in_consumer s') = committed (in_consumer s) @ [c] \<and>
       (\<exists>r1 k1. sr c (in_repository s) = (Some (), r1) \<and> ss (tx_transaction_id c) ''received'' (in_cache s) = (Some (), k1) \<and>
         (let status = (if is_valid c then ''processed'' else ''rejected'')
          in sp (tx_transaction_id c) status r1 = (Some (), in_repository s') \<and>
             ss (tx_transaction_id c) status k1 = (Some (), in_cache s')) \<and>
         (if is_valid c then pub (TransactionCommand c) (in_runtime s) = (Some (), in_runtime s') else in_runtime s' = in_runtime s)))"
proof -
  obtain c1 where poll: "poll (in_consumer s) = (Some (Some c), c1)" "pending c1 = cs" "committed c1 = committed (in_consumer s)"
    using poll_next [OF assms(2)] by auto
  show ?thesis
  proof (cases "sr c (in_repository s)")
    case (Pair x r1)
    note sr = Pair
    show ?thesis
    proof (cases x)
      case None
      then show ?thesis using assms(1) poll sr by (auto simp: process_next_def action_defs count_metric_def)
    next
      case (Some u)
      obtain y k1 where ss: "ss (tx_transaction_id c) ''received'' (in_cache s) = (y, k1)" by force
      show ?thesis
      proof (cases y)
        case None
        then show ?thesis using assms(1) poll sr ss Some by (auto simp: process_next_def action_defs)
      next
        case (Some v)
        define s1 where "s1 = count_metric (ports sr sp ss pub) ''transactions_received'' (s\<lparr>in_consumer := c1, in_repository := r1, in_cache := k1\<rparr>)"
        have s1: "in_consumer s1 = c1" "in_repository s1 = r1" "in_cache s1 = k1" "in_runtime s1 = in_runtime s"
          by (simp_all add: s1_def count_metric_def)
        have step: "process_next (ports sr sp ss pub) clock s =
          (if \<not> is_valid c then settle (ports sr sp ss pub) clock c ''rejected'' ''transactions_rejected'' s1
           else bindA (on_runtime (pub (TransactionCommand c))) (\<lambda>_. settle (ports sr sp ss pub) clock c ''processed'' ''transactions_processed'') s1)"
          using poll sr ss \<open>x = Some u\<close> Some by (simp add: process_next_def bindA_def on_part_def rethrowing_def total_def s1_def)
        show ?thesis
        proof (cases "is_valid c")
          case False
          then show ?thesis
            using assms(1) settle_commits [of sr sp ss pub clock c "''rejected''" "''transactions_rejected''" s1 r s'] poll sr ss s1 \<open>x = Some u\<close> Some
            by (auto simp: step Let_def)
        next
          case True
          obtain z d1 where pub: "pub (TransactionCommand c) (in_runtime s) = (z, d1)" by force
          then show ?thesis
            using True assms(1) poll sr ss s1 \<open>x = Some u\<close> Some
              settle_commits [of sr sp ss pub clock c "''processed''" "''transactions_processed''" "s1\<lparr>in_runtime := d1\<rparr>" r s']
            by (cases z) (auto simp: step Let_def bindA_def on_part_def)
        qed
      qed
    qed
  qed
qed

end

subsection \<open>The mock consumer keeps the contract\<close>

definition mock_poll_action :: "(transaction_command option, mock_transaction_consumer) action" where
  "mock_poll_action c = (case mock_poll c of (r, c') \<Rightarrow> (Some r, c'))"

definition mock_commit_action :: "transaction_command \<Rightarrow> (unit, mock_transaction_consumer) action" where
  "mock_commit_action x = total (mock_commit x)"

definition mock_pending :: "mock_transaction_consumer \<Rightarrow> transaction_command list" where
  "mock_pending c = drop (mc_next_index c) (mc_commands c)"

interpretation mock: transaction_consumer mock_poll_action mock_commit_action mock_pending mc_committed
proof
  fix c :: mock_transaction_consumer and x xs
  show "mock_pending c = [] \<Longrightarrow> mock_poll_action c = (Some None, c)"
    by (simp add: mock_pending_def mock_poll_action_def mock_poll_def)
  assume p: "mock_pending c = x # xs"
  then have "mc_next_index c < length (mc_commands c)" by (auto simp: mock_pending_def not_le intro: ccontr)
  then show "\<exists>c'. mock_poll_action c = (Some (Some x), c') \<and> mock_pending c' = xs \<and> mc_committed c' = mc_committed c"
    using p Cons_nth_drop_Suc [of "mc_next_index c" "mc_commands c"]
    by (simp add: mock_poll_action_def mock_poll_def mock_pending_def)
next
  fix x c
  show "\<exists>c'. mock_commit_action x c = (Some (), c') \<and> mock_pending c' = mock_pending c \<and> mc_committed c' = mc_committed c @ [x]"
    by (simp add: mock_commit_action_def total_def mock_commit_def mock_pending_def)
qed

definition mock_ports ::
  "(transaction_command \<Rightarrow> (unit, 'r) action) \<Rightarrow> (string \<Rightarrow> string \<Rightarrow> (unit, 'r) action) \<Rightarrow> (string \<Rightarrow> string \<Rightarrow> (unit, 'k) action) \<Rightarrow>
   (engine_event \<Rightarrow> (unit, 'd) action) \<Rightarrow> (mock_transaction_consumer, 'r, 'k, 'd) ingestor ingest_calls" where
  "mock_ports sr sp ss pub = of_ports \<lparr>ip_poll = mock_poll_action, ip_commit = mock_commit_action, ip_save_received = sr,
     ip_save_processed = sp, ip_set_status = ss, ip_publish = pub\<rparr>"

text \<open>
  C29. An offset is committed only after the outcome is durable, whatever throws. One call of
  \<open>process_next\<close> commits at most the command it polled; it does so exactly when it returns true, and then
  receipt and outcome were stored successfully, in this order, the outcome is "processed" for a valid and
  "rejected" for an invalid command, and the command was published to the handlers exactly when it is
  valid. A call that throws commits nothing, so the command is redelivered.
\<close>

theorem commit_after_persist:
  "case process_next (mock_ports sr sp ss pub) clock s of (r, s') \<Rightarrow>
     (case mock_poll (in_consumer s) of
        (None, c1) \<Rightarrow> r = Some False \<and> s' = s
      | (Some c, c1) \<Rightarrow>
          if r = None then mc_committed (in_consumer s') = mc_committed (in_consumer s)
          else r = Some True \<and> mc_committed (in_consumer s') = mc_committed (in_consumer s) @ [c] \<and>
            (\<exists>r1. sr c (in_repository s) = (Some (), r1) \<and>
              sp (tx_transaction_id c) (if is_valid c then ''processed'' else ''rejected'') r1 = (Some (), in_repository s')) \<and>
            (if is_valid c then pub (TransactionCommand c) (in_runtime s) = (Some (), in_runtime s')
             else in_runtime s' = in_runtime s))"
proof -
  obtain r s' where step: "process_next (mock_ports sr sp ss pub) clock s = (r, s')" by force
  show ?thesis
  proof (cases "mock_pending (in_consumer s)")
    case Nil
    then have "mock_poll (in_consumer s) = (None, in_consumer s)"
      by (simp add: mock_pending_def mock_poll_def)
    then show ?thesis
      using step mock.process_next_empty [OF Nil, of sr sp ss pub clock] by (simp add: mock_ports_def)
  next
    case (Cons c cs)
    obtain c1 where "mock_poll (in_consumer s) = (Some c, c1)"
      using mock.poll_next [OF Cons] by (auto simp: mock_poll_action_def split: prod.splits)
    then show ?thesis
      using step mock.process_next_step [OF _ Cons, of sr sp ss pub clock r s'] by (auto simp: mock_ports_def Let_def)
  qed
qed

subsection \<open>Draining a consumer into the in-memory stores\<close>

definition in_memory_ports ::
  "'d event_dispatcher \<Rightarrow> (mock_transaction_consumer, transaction_repository, transaction_cache, 'd) ingestor ingest_calls" where
  "in_memory_ports hs = mock_ports (\<lambda>c. total (save_received c)) (\<lambda>i st. total (save_processed i st))
     (\<lambda>i st. total (set_status i st)) (\<lambda>e. total (dispatcher_publish hs e))"

fun ingest_steps :: "'d event_dispatcher \<Rightarrow> (int64 \<times> int64) option \<Rightarrow> nat \<Rightarrow>
    (mock_transaction_consumer, transaction_repository, transaction_cache, 'd) ingestor \<Rightarrow>
    (mock_transaction_consumer, transaction_repository, transaction_cache, 'd) ingestor" where
  "ingest_steps hs clock 0 s = s"
| "ingest_steps hs clock (Suc n) s = snd (process_next (in_memory_ports hs) clock (ingest_steps hs clock n s))"

definition outcome :: "transaction_command \<Rightarrow> string" where
  "outcome c = (if is_valid c then ''processed'' else ''rejected'')"

definition ingestor_start ::
  "transaction_command list \<Rightarrow> 'd \<Rightarrow> metrics option \<Rightarrow> (mock_transaction_consumer, transaction_repository, transaction_cache, 'd) ingestor" where
  "ingestor_start cmds d m = \<lparr>in_consumer = mock_transaction_consumer_new cmds, in_repository = transaction_repository_new,
     in_cache = [], in_runtime = d, in_metrics = m\<rparr>"

lemma in_memory_never_throws: "fst (process_next (in_memory_ports hs) clock s) \<noteq> None"
  by (auto simp: process_next_def settle_def action_defs in_memory_ports_def mock_ports_def mock_poll_action_def
      mock_commit_action_def split: prod.splits option.splits)

lemma in_memory_step:
  assumes "mock_pending (in_consumer s) = c # cs"
  obtains s' where "process_next (in_memory_ports hs) clock s = (Some True, s')" "mock_pending (in_consumer s') = cs"
    "mc_committed (in_consumer s') = mc_committed (in_consumer s) @ [c]"
    "in_repository s' = save_processed (tx_transaction_id c) (outcome c) (save_received c (in_repository s))"
    "in_runtime s' = (if is_valid c then dispatcher_publish hs (TransactionCommand c) (in_runtime s) else in_runtime s)"
proof -
  obtain r s' where step: "process_next (in_memory_ports hs) clock s = (r, s')" by force
  have "r \<noteq> None" using in_memory_never_throws [of hs clock s] step by simp
  then show thesis
    using step mock.process_next_step [OF _ assms, of "\<lambda>c. total (save_received c)" "\<lambda>i st. total (save_processed i st)"
        "\<lambda>i st. total (set_status i st)" "\<lambda>e. total (dispatcher_publish hs e)" clock r s']
    by (intro that [of s']) (auto simp: in_memory_ports_def mock_ports_def total_def outcome_def Let_def split: if_splits)
qed

lemma update_first_append:
  "\<forall>x \<in> set xs. \<not> p x \<Longrightarrow> update_first p f (xs @ ys) = map_option ((@) xs) (update_first p f ys)"
  by (induction xs; cases "update_first p f ys") auto

lemma save_fresh:
  assumes "tx_transaction_id c \<notin> tr_transaction_id ` set (tx_records R)"
  shows "tx_records (save_processed (tx_transaction_id c) st (save_received c R)) = tx_records R @
    [\<lparr>tr_transaction_id = tx_transaction_id c, tr_status = st, tr_kafka_topic = tx_kafka_topic c,
      tr_kafka_partition = tx_kafka_partition c, tr_kafka_offset = tx_kafka_offset c\<rparr>]"
proof -
  have "\<forall>r \<in> set (tx_records R). \<not> tr_transaction_id r = tx_transaction_id c" using assms by force
  then show ?thesis by (simp add: save_processed_def save_received_def update_first_append)
qed

lemma ingest_steps_state:
  assumes "n \<le> length cmds"
  shows "let s = ingest_steps hs clock n (ingestor_start cmds d m) in
    mock_pending (in_consumer s) = drop n cmds \<and> mc_committed (in_consumer s) = take n cmds \<and>
    in_runtime s = fold (\<lambda>c. dispatcher_publish hs (TransactionCommand c)) (filter is_valid (take n cmds)) d \<and>
    (distinct (map tx_transaction_id cmds) \<longrightarrow>
       map (\<lambda>r. (tr_transaction_id r, tr_status r)) (all_records (in_repository s)) = map (\<lambda>c. (tx_transaction_id c, outcome c)) (take n cmds))"
  using assms
proof (induction n)
  case 0
  then show ?case
    by (simp add: ingestor_start_def mock_pending_def mock_transaction_consumer_new_def all_records_def transaction_repository_new_def)
next
  case (Suc n)
  define s where "s = ingest_steps hs clock n (ingestor_start cmds d m)"
  have n: "n < length cmds" using Suc.prems by simp
  have IH: "mock_pending (in_consumer s) = cmds ! n # drop (Suc n) cmds" "mc_committed (in_consumer s) = take n cmds"
    "in_runtime s = fold (\<lambda>c. dispatcher_publish hs (TransactionCommand c)) (filter is_valid (take n cmds)) d"
    "distinct (map tx_transaction_id cmds) \<Longrightarrow>
       map (\<lambda>r. (tr_transaction_id r, tr_status r)) (tx_records (in_repository s)) = map (\<lambda>c. (tx_transaction_id c, outcome c)) (take n cmds)"
    using Suc.IH n by (simp_all add: Let_def s_def all_records_def Cons_nth_drop_Suc)
  obtain s' where s': "process_next (in_memory_ports hs) clock s = (Some True, s')" "mock_pending (in_consumer s') = drop (Suc n) cmds"
    "mc_committed (in_consumer s') = mc_committed (in_consumer s) @ [cmds ! n]"
    "in_repository s' = save_processed (tx_transaction_id (cmds ! n)) (outcome (cmds ! n)) (save_received (cmds ! n) (in_repository s))"
    "in_runtime s' = (if is_valid (cmds ! n) then dispatcher_publish hs (TransactionCommand (cmds ! n)) (in_runtime s) else in_runtime s)"
    by (rule in_memory_step [OF IH(1)])
  have steps: "ingest_steps hs clock (Suc n) (ingestor_start cmds d m) = s'" using s'(1) by (simp add: s_def)
  have take: "take (Suc n) cmds = take n cmds @ [cmds ! n]" using n by (simp add: take_Suc_conv_app_nth)
  have records: "map (\<lambda>r. (tr_transaction_id r, tr_status r)) (tx_records (in_repository s')) = map (\<lambda>c. (tx_transaction_id c, outcome c)) (take (Suc n) cmds)"
    if dist: "distinct (map tx_transaction_id cmds)"
  proof -
    have "map tr_transaction_id (tx_records (in_repository s)) = map tx_transaction_id (take n cmds)"
      using arg_cong [OF IH(4) [OF dist], of "map fst"] by (simp add: comp_def)
    then have ids: "tr_transaction_id ` set (tx_records (in_repository s)) = tx_transaction_id ` set (take n cmds)"
      by (metis list.set_map)
    have "distinct (map tx_transaction_id (take (Suc n) cmds))" using distinct_take [OF dist, of "Suc n"] by (simp add: take_map)
    then have "tx_transaction_id (cmds ! n) \<notin> tr_transaction_id ` set (tx_records (in_repository s))"
      unfolding ids take by simp
    then show ?thesis using IH(4) [OF dist] by (simp add: s'(4) save_fresh take)
  qed
  show ?case using s' IH(2,3) records unfolding steps take Let_def all_records_def by simp
qed

text \<open>
  C30. Draining: on the in-memory stores the n-th call of \<open>process_next\<close> handles the n-th command. It
  returns true exactly while commands remain; after n calls the first n commands are committed in order,
  the handlers have seen exactly the valid ones in order, and, when transaction ids are distinct, the
  repository holds one record per command with its outcome.
\<close>

theorem ingestion_drains:
  assumes "distinct (map tx_transaction_id cmds)"
  shows "let s = ingest_steps hs clock n (ingestor_start cmds d m) in
    fst (process_next (in_memory_ports hs) clock s) = Some (n < length cmds) \<and>
    mc_committed (in_consumer s) = take n cmds \<and>
    in_runtime s = fold (\<lambda>c. dispatcher_publish hs (TransactionCommand c)) (filter is_valid (take n cmds)) d \<and>
    map (\<lambda>r. (tr_transaction_id r, tr_status r)) (all_records (in_repository s)) = map (\<lambda>c. (tx_transaction_id c, outcome c)) (take n cmds)"
proof -
  have empty: "process_next (in_memory_ports hs) clock s = (Some False, s)" if "mock_pending (in_consumer s) = []"
    for s :: "(mock_transaction_consumer, transaction_repository, transaction_cache, 'a) ingestor"
    using mock.process_next_empty [OF that] by (simp add: in_memory_ports_def mock_ports_def)
  show ?thesis
  proof (cases "n < length cmds")
    case True
    define s where "s = ingest_steps hs clock n (ingestor_start cmds d m)"
    have st: "mock_pending (in_consumer s) = cmds ! n # drop (Suc n) cmds"
      using ingest_steps_state [of n cmds hs clock d m] True by (simp add: s_def Let_def Cons_nth_drop_Suc)
    have "fst (process_next (in_memory_ports hs) clock s) = Some True"
      by (rule in_memory_step [OF st, of hs clock]) simp
    then show ?thesis using ingest_steps_state [of n cmds hs clock d m] True assms by (simp add: s_def Let_def)
  next
    case False
    define s where "s = ingest_steps hs clock (length cmds) (ingestor_start cmds d m)"
    have s: "mock_pending (in_consumer s) = []" using ingest_steps_state [of "length cmds" cmds hs clock d m] by (simp add: s_def Let_def)
    have "ingest_steps hs clock (length cmds + k) (ingestor_start cmds d m) = s" for k
      by (induction k) (simp_all add: s_def [symmetric] empty [OF s])
    then have "ingest_steps hs clock n (ingestor_start cmds d m) = s" using False by (metis le_add_diff_inverse not_le)
    then show ?thesis
      using ingest_steps_state [of "length cmds" cmds hs clock d m] False assms empty [OF s] by (simp add: s_def [symmetric] Let_def)
  qed
qed

definition sample_command :: "string \<Rightarrow> double \<Rightarrow> transaction_command" where
  "sample_command i q = \<lparr>tx_transaction_id = i, tx_user_id = ''u'', tx_account_id = ''a'', tx_command_type = ''place'',
     tx_instrument_symbol = ''BTC'', tx_quantity = q, tx_price = None, tx_kafka_topic = ''t'', tx_kafka_partition = 0, tx_kafka_offset = 7\<rparr>"

theorem ingestion_drains_witness:
  "let s = ingest_steps [\<lambda>e seen. e # seen] None 2 (ingestor_start [sample_command ''t1'' 1, sample_command ''t2'' 0] [] None) in
    fst (process_next (in_memory_ports [\<lambda>e seen. e # seen]) None s) = Some False \<and>
    in_runtime s = [TransactionCommand (sample_command ''t1'' 1)] \<and>
    map (\<lambda>r. (tr_transaction_id r, tr_status r)) (all_records (in_repository s)) = [(''t1'', ''processed''), (''t2'', ''rejected'')]"
  using ingestion_drains [of "[sample_command ''t1'' 1, sample_command ''t2'' 0]" "[\<lambda>e seen. e # seen]" None 2 "[]" None]
  by (simp add: sample_command_def is_valid_def outcome_def Let_def double_simps)

end
