(* ===== verification/Cpp_Strings.thy ===== *)
theory Cpp_Strings
  imports Prelude
begin

section \<open>Strings, streams and numeric conversions of the C++ library\<close>

text \<open>
  What the parsers and printers of the repository use of the standard library: the \<open>std::getline\<close>
  loop with a delimiter, \<open>find\<close> and \<open>substr\<close> at a separator, \<open>find_first_not_of\<close> trimming,
  \<open>std::stod\<close>, \<open>std::stoi\<close> and \<open>std::stoll\<close> in the "C" locale with their two exceptions,
  \<open>std::to_string\<close> and \<open>operator<<\<close> on numbers. The sign of a zero and of a NaN is not modelled, and
  \<open>stod\<close> reports \<open>out_of_range\<close> on underflow when the rounded result is subnormal and inexact.
\<close>

datatype std_exception = Invalid_argument | Out_of_range | Runtime_error string

text \<open>Statements in sequence, the first of which may throw.\<close>

definition bindE :: "'e + 'a \<Rightarrow> ('a \<Rightarrow> 'e + 'b) \<Rightarrow> 'e + 'b" where
  "bindE m f = (case m of Inl e \<Rightarrow> Inl e | Inr x \<Rightarrow> f x)"

lemma bindE_simps [simp]: "bindE (Inl e) f = Inl e" "bindE (Inr x) f = f x"
  by (simp_all add: bindE_def)

lemma bindE_Inr: "bindE m f = Inr y \<longleftrightarrow> (\<exists>x. m = Inr x \<and> f x = Inr y)"
  by (cases m) simp_all

subsection \<open>Splitting\<close>

text \<open>
  The loop \<open>while (std::getline(stream, field, d))\<close> yields the fields between the delimiters, but no
  field after a final delimiter and none for the empty string.
\<close>

function getline_split :: "char \<Rightarrow> string \<Rightarrow> string list" where
  "getline_split d s =
     (if s = [] then []
      else takeWhile (\<lambda>x. x \<noteq> d) s # getline_split d (tl (dropWhile (\<lambda>x. x \<noteq> d) s)))"
  by auto
termination
proof (relation "measure (\<lambda>(d, s). length s)")
  fix d :: char and s :: string
  assume "s \<noteq> []"
  then show "((d, tl (dropWhile (\<lambda>x. x \<noteq> d) s)), d, s) \<in> measure (\<lambda>(d, s). length s)"
    using length_dropWhile_le [of "\<lambda>x. x \<noteq> d" s] by (cases s) auto
qed simp

declare getline_split.simps [simp del]

fun join_with :: "char \<Rightarrow> string list \<Rightarrow> string" where
  "join_with d [] = []"
| "join_with d [x] = x"
| "join_with d (x # y # zs) = x @ d # join_with d (y # zs)"

definition split_at_char :: "char \<Rightarrow> string \<Rightarrow> (string \<times> string) option" where
  "split_at_char d s =
     (if d \<in> set s then Some (takeWhile (\<lambda>x. x \<noteq> d) s, tl (dropWhile (\<lambda>x. x \<noteq> d) s)) else None)"

definition trim_chars :: "char \<Rightarrow> bool" where
  "trim_chars c \<longleftrightarrow> c = CHR '' '' \<or> c = CHR 0x09 \<or> c = CHR 0x0D \<or> c = CHR 0x0A"

definition trim :: "string \<Rightarrow> string" where
  "trim s = rev (dropWhile trim_chars (rev (dropWhile trim_chars s)))"

lemma getline_split_Nil [simp]: "getline_split d [] = []"
  by (simp add: getline_split.simps)

lemma getline_split_last: "d \<notin> set s \<Longrightarrow> s \<noteq> [] \<Longrightarrow> getline_split d s = [s]"
proof -
  assume "d \<notin> set s" "s \<noteq> []"
  then have "takeWhile (\<lambda>x. x \<noteq> d) s = s" "dropWhile (\<lambda>x. x \<noteq> d) s = []"
    by (auto simp: takeWhile_eq_all_conv dropWhile_eq_Nil_conv)
  with \<open>s \<noteq> []\<close> show "getline_split d s = [s]"
    by (subst getline_split.simps) (simp only: if_False list.sel getline_split_Nil)
qed

lemma takeWhile_delim: "d \<notin> set x \<Longrightarrow> takeWhile (\<lambda>c. c \<noteq> d) (x @ d # s) = x"
  by (induction x) auto

lemma dropWhile_delim: "d \<notin> set x \<Longrightarrow> dropWhile (\<lambda>c. c \<noteq> d) (x @ d # s) = d # s"
  by (induction x) auto

lemma getline_split_field: "d \<notin> set x \<Longrightarrow> getline_split d (x @ d # s) = x # getline_split d s"
  by (subst getline_split.simps) (simp add: takeWhile_delim dropWhile_delim)

lemma split_at_char_append: "d \<notin> set x \<Longrightarrow> split_at_char d (x @ d # s) = Some (x, s)"
  by (simp add: split_at_char_def takeWhile_delim dropWhile_delim)

lemma split_at_char_None: "split_at_char d s = None \<longleftrightarrow> d \<notin> set s"
  by (simp add: split_at_char_def)

text \<open>Splitting what was joined gives the fields back, when no field has the delimiter and the last is not empty.\<close>

lemma getline_split_join:
  assumes "\<forall>x \<in> set xs. d \<notin> set x" "xs \<noteq> []" "last xs \<noteq> []"
  shows "getline_split d (join_with d xs) = xs"
  using assms by (induction d xs rule: join_with.induct) (auto simp: getline_split_field getline_split_last)

text \<open>An empty last field is lost.\<close>

lemma getline_split_join_empty:
  assumes "\<forall>x \<in> set xs. d \<notin> set x"
  shows "getline_split d (join_with d (xs @ [[]])) = xs"
  using assms
proof (induction d xs rule: join_with.induct)
  case (3 d x y zs)
  then show ?case by (simp add: getline_split_field)
qed (use getline_split_field [of _ _ "[]"] in auto)

lemma join_with_no_delim: "(\<forall>x \<in> set xs. c \<notin> set x) \<Longrightarrow> c \<noteq> d \<Longrightarrow> c \<notin> set (join_with d xs)"
  by (induction d xs rule: join_with.induct) auto

subsection \<open>Numeric conversions\<close>

definition is_space :: "char \<Rightarrow> bool" where
  "is_space c \<longleftrightarrow> c \<in> set [CHR '' '', CHR 0x09, CHR 0x0A, CHR 0x0B, CHR 0x0C, CHR 0x0D]"

definition is_digit :: "char \<Rightarrow> bool" where
  "is_digit c \<longleftrightarrow> c \<in> set ''0123456789''"

definition hex_digit :: "char \<Rightarrow> nat option" where
  "hex_digit c = map_of (zip ''0123456789abcdefABCDEF'' [0, 1, 2, 3, 4, 5, 6, 7, 8, 9, 10, 11, 12, 13, 14, 15, 10, 11, 12, 13, 14, 15]) c"

definition read_hex :: "string \<Rightarrow> nat" where
  "read_hex s = foldl (\<lambda>n c. 16 * n + the (hex_digit c)) 0 s"

definition to_lower :: "char \<Rightarrow> char" where
  "to_lower c = (if 65 \<le> (of_char c :: nat) \<and> (of_char c :: nat) \<le> 90 then char_of ((of_char c :: nat) + 32) else c)"

definition to_upper :: "char \<Rightarrow> char" where
  "to_upper c = (if 97 \<le> (of_char c :: nat) \<and> (of_char c :: nat) \<le> 122 then char_of ((of_char c :: nat) - 32) else c)"

definition read_sign :: "string \<Rightarrow> bool \<times> string" where
  "read_sign s = (case s of [] \<Rightarrow> (False, [])
     | c # cs \<Rightarrow> if c = CHR ''-'' then (True, cs) else if c = CHR ''+'' then (False, cs) else (False, c # cs))"

text \<open>The digits of a mantissa with an optional point: integer digits, fraction digits and the rest.\<close>

definition read_mantissa :: "(char \<Rightarrow> bool) \<Rightarrow> string \<Rightarrow> string \<times> string \<times> string" where
  "read_mantissa p s =
     (let ip = takeWhile p s; r = dropWhile p s
      in case r of c # r' \<Rightarrow> if c = CHR ''.'' then (ip, takeWhile p r', dropWhile p r') else (ip, [], r) | [] \<Rightarrow> (ip, [], []))"

definition read_exponent :: "char \<Rightarrow> string \<Rightarrow> int \<times> string" where
  "read_exponent e s =
     (case s of [] \<Rightarrow> (0, [])
      | c # r \<Rightarrow>
        if to_lower c \<noteq> e then (0, s)
        else let (neg, u) = read_sign r; ds = takeWhile is_digit u
             in if ds = [] then (0, s)
                else ((if neg then - 1 else 1) * int (read_digits ds), dropWhile is_digit u))"

definition read_decimal :: "string \<Rightarrow> (rat \<times> string) option" where
  "read_decimal s =
     (let (ip, fp, r) = read_mantissa is_digit s
      in if ip = [] \<and> fp = [] then None
         else let (e, r') = read_exponent CHR ''e'' r
              in Some (of_nat (read_digits (ip @ fp)) * (10::rat) powi (e - int (length fp)), r'))"

definition read_hex_float :: "string \<Rightarrow> (rat \<times> string) option" where
  "read_hex_float s =
     (if map to_lower (take 2 s) \<noteq> ''0x'' then None
      else let (ip, fp, r) = read_mantissa (\<lambda>c. hex_digit c \<noteq> None) (drop 2 s)
           in if ip = [] \<and> fp = [] then None
              else let (e, r') = read_exponent CHR ''p'' r
                   in Some (of_nat (read_hex (ip @ fp)) * (2::rat) powi (e - 4 * int (length fp)), r'))"

definition nan_suffix :: "string \<Rightarrow> string" where
  "nan_suffix s =
     (case s of c # r \<Rightarrow>
        if c = CHR ''('' then
          (case dropWhile (\<lambda>x. is_digit x \<or> to_lower x \<in> set ''abcdefghijklmnopqrstuvwxyz_'') r of
             c' # r' \<Rightarrow> if c' = CHR '')'' then r' else s
           | [] \<Rightarrow> s)
        else s
      | [] \<Rightarrow> s)"

definition out_of_double_range :: "rat \<Rightarrow> bool" where
  "out_of_double_range x \<longleftrightarrow> to_double x = PInf \<or> to_double x = NInf \<or>
     (\<bar>rnd64 x\<bar> < 1 / 2 ^ 1022 \<and> rnd64 x \<noteq> x)"

definition stod_pos :: "string \<Rightarrow> std_exception + double \<times> nat" where
  "stod_pos s =
     (let (neg, u) = read_sign (dropWhile is_space s);
          done = (\<lambda>v r. Inr (v, length s - length r))
      in if map to_lower (take 8 u) = ''infinity'' then done (if neg then NInf else PInf) (drop 8 u)
         else if map to_lower (take 3 u) = ''inf'' then done (if neg then NInf else PInf) (drop 3 u)
         else if map to_lower (take 3 u) = ''nan'' then done NaN (nan_suffix (drop 3 u))
         else case (case read_hex_float u of None \<Rightarrow> read_decimal u | Some v \<Rightarrow> Some v) of
           None \<Rightarrow> Inl Invalid_argument
         | Some (v, r) \<Rightarrow>
           let x = (if neg then - v else v)
           in if out_of_double_range x then Inl Out_of_range else done (to_double x) r)"

definition stod :: "string \<Rightarrow> std_exception + double" where
  "stod s = map_sum id fst (stod_pos s)"

text \<open>\<open>std::stoll\<close> and \<open>std::stoi\<close> differ in the range they check.\<close>

definition stoi_range :: "int \<Rightarrow> int \<Rightarrow> string \<Rightarrow> std_exception + int \<times> nat" where
  "stoi_range lo hi s =
     (let (neg, u) = read_sign (dropWhile is_space s); ds = takeWhile is_digit u;
          x = (if neg then - int (read_digits ds) else int (read_digits ds))
      in if ds = [] then Inl Invalid_argument
         else if x < lo \<or> hi < x then Inl Out_of_range
         else Inr (x, length s - length (dropWhile is_digit u)))"

definition stoll_pos :: "string \<Rightarrow> std_exception + int64 \<times> nat" where
  "stoll_pos = stoi_range (- (2 ^ 63)) (2 ^ 63 - 1)"

definition stoll :: "string \<Rightarrow> std_exception + int64" where
  "stoll s = map_sum id fst (stoll_pos s)"

definition stoi_pos :: "string \<Rightarrow> std_exception + int \<times> nat" where
  "stoi_pos = stoi_range (- (2 ^ 31)) (2 ^ 31 - 1)"

definition stoi :: "string \<Rightarrow> std_exception + int" where
  "stoi s = map_sum id fst (stoi_pos s)"

lemma is_digit_digit_char: "d < 10 \<Longrightarrow> is_digit (digit_char d)"
proof -
  have "\<forall>d < 10. is_digit (digit_char d)" by code_simp
  then show "d < 10 \<Longrightarrow> ?thesis" by blast
qed

lemma show_nat_digits: "c \<in> set (show_nat n) \<Longrightarrow> is_digit c"
proof (induction n rule: show_nat.induct)
  case (1 n)
  show ?case
    using 1 by (subst (asm) (2) show_nat.simps) (auto simp: is_digit_digit_char split: if_splits)
qed

lemma is_digit_not:
  "is_digit c \<Longrightarrow> \<not> is_space c \<and> c \<noteq> CHR ''-'' \<and> c \<noteq> CHR ''+'' \<and> c \<noteq> CHR 0x09 \<and> c \<noteq> CHR 0x0A \<and> c \<noteq> CHR ''.'' \<and> c \<noteq> CHR '':'' \<and> c \<noteq> CHR '',''"
  by (auto simp: is_digit_def is_space_def)

lemma span_digits:
  assumes "\<forall>c \<in> set ds. p c" "\<And>c r. rest = c # r \<Longrightarrow> \<not> p c"
  shows "takeWhile p (ds @ rest) = ds" "dropWhile p (ds @ rest) = rest"
  using assms by (cases rest; induction ds; simp)+

lemma stoi_range_show_int:
  assumes "lo \<le> i" "i \<le> hi"
  shows "stoi_range lo hi (show_int i) = Inr (i, length (show_int i))"
proof (cases "i < 0")
  case True
  have span: "takeWhile is_digit (show_nat (nat (- i))) = show_nat (nat (- i))" "dropWhile is_digit (show_nat (nat (- i))) = []"
    by (simp_all add: takeWhile_eq_all_conv dropWhile_eq_Nil_conv show_nat_digits)
  show ?thesis
    using True assms
    by (simp add: stoi_range_def show_int_def is_space_def read_sign_def span read_show_nat Let_def)
next
  case False
  obtain c cs where first: "show_nat (nat i) = c # cs" by (cases "show_nat (nat i)") auto
  have dig: "is_digit c" using show_nat_digits [of c "nat i"] first by simp
  have span: "takeWhile is_digit (show_nat (nat i)) = show_nat (nat i)" "dropWhile is_digit (show_nat (nat i)) = []"
    by (simp_all add: takeWhile_eq_all_conv dropWhile_eq_Nil_conv show_nat_digits)
  have "read_sign (dropWhile is_space (show_nat (nat i))) = (False, show_nat (nat i))"
    using is_digit_not [OF dig] by (simp add: first read_sign_def)
  then show ?thesis
    using False assms by (simp add: stoi_range_def show_int_def span read_show_nat Let_def)
qed

lemma stoll_show_int: "- (2 ^ 63) \<le> i \<Longrightarrow> i < 2 ^ 63 \<Longrightarrow> stoll (show_int i) = Inr i"
  by (simp add: stoll_def stoll_pos_def stoi_range_show_int)

lemma stoi_show_int: "- (2 ^ 31) \<le> i \<Longrightarrow> i < 2 ^ 31 \<Longrightarrow> stoi (show_int i) = Inr i"
  by (simp add: stoi_def stoi_pos_def stoi_range_show_int)

lemma show_int_not_Nil [simp]: "show_int i \<noteq> []"
  by (simp add: show_int_def)

lemma show_int_plain: "c \<in> set (show_int i) \<Longrightarrow> c \<noteq> CHR 0x09 \<and> c \<noteq> CHR 0x0A"
  by (auto simp: show_int_def split: if_splits dest: show_nat_digits is_digit_not)

end
