(* ===== verification/Cpp_Format.thy ===== *)
theory Cpp_Format
  imports Cpp_Strings
begin

section \<open>Printing doubles, and reading them back\<close>

text \<open>
  \<open>operator<<\<close> on a double prints six significant digits (the \<open>%g\<close> format), or \<open>p\<close> of them after
  \<open>std::setprecision(p)\<close>; \<open>std::to_string\<close> prints six decimals (the \<open>%f\<close> format). All round the exact
  binary value to the nearest decimal, ties to even. The development's round trips through logs, files
  and messages rest on two facts: \<open>stod_show_double\<close>, a double that is nearest to a decimal of at most
  six significant digits is read back unchanged, and \<open>stod_show_exact\<close>, after \<open>std::setprecision(17)\<close>
  every double is, subnormal numbers apart.
\<close>

abbreviation pow10 :: "int \<Rightarrow> rat" where
  "pow10 k \<equiv> 10 powi k"

definition dec_log :: "rat \<Rightarrow> int" where
  "dec_log x = (let (a, b) = quotient_of x; k = int (length (show_nat (nat a))) - int (length (show_nat (nat b)))
     in if pow10 k \<le> x then k else k - 1)"

definition digits_prec :: "nat \<Rightarrow> rat \<Rightarrow> nat \<times> int" where
  "digits_prec p x = (let e = dec_log x; m = nat (round_even (x * pow10 (int p - 1 - e)))
     in if m = 10 ^ p then (10 ^ (p - 1), e + 1) else (m, e))"

abbreviation digits6 :: "rat \<Rightarrow> nat \<times> int" where
  "digits6 \<equiv> digits_prec 6"

definition rstrip_zeros :: "string \<Rightarrow> string" where
  "rstrip_zeros s = rev (dropWhile (\<lambda>c. c = CHR ''0'') (rev s))"

definition with_fraction :: "string \<Rightarrow> string \<Rightarrow> string" where
  "with_fraction ip fp = (let f = rstrip_zeros fp in if f = [] then ip else ip @ CHR ''.'' # f)"

definition show_exponent :: "int \<Rightarrow> string" where
  "show_exponent e = CHR ''e'' # (if e < 0 then CHR ''-'' else CHR ''+'') #
     (let ds = show_nat (nat \<bar>e\<bar>) in if length ds < 2 then CHR ''0'' # ds else ds)"

definition show_positive_prec :: "nat \<Rightarrow> rat \<Rightarrow> string" where
  "show_positive_prec p x = (let (m, e) = digits_prec p x; ds = show_nat m
     in if - 4 \<le> e \<and> e < int p
        then if 0 \<le> e then with_fraction (take (nat e + 1) ds) (drop (nat e + 1) ds)
             else with_fraction ''0'' (replicate (nat (- e) - 1) CHR ''0'' @ ds)
        else with_fraction (take 1 ds) (drop 1 ds) @ show_exponent e)"

abbreviation show_positive :: "rat \<Rightarrow> string" where
  "show_positive \<equiv> show_positive_prec 6"

fun show_double_prec :: "nat \<Rightarrow> double \<Rightarrow> string" where
  "show_double_prec p (Fin x) =
     (if x = 0 then ''0'' else if x < 0 then CHR ''-'' # show_positive_prec p (- x) else show_positive_prec p x)"
| "show_double_prec p PInf = ''inf''"
| "show_double_prec p NInf = ''-inf''"
| "show_double_prec p NaN = ''nan''"

abbreviation show_double :: "double \<Rightarrow> string" where
  "show_double \<equiv> show_double_prec 6"

definition show_fixed6 :: "rat \<Rightarrow> string" where
  "show_fixed6 x = (let n = nat (round_even (x * 10 ^ 6)); f = show_nat (n mod 10 ^ 6)
     in show_nat (n div 10 ^ 6) @ CHR ''.'' # replicate (6 - length f) CHR ''0'' @ f)"

fun to_string_double :: "double \<Rightarrow> string" where
  "to_string_double (Fin x) = (if x < 0 then CHR ''-'' # show_fixed6 (- x) else show_fixed6 x)"
| "to_string_double PInf = ''inf''"
| "to_string_double NInf = ''-inf''"
| "to_string_double NaN = ''nan''"

subsection \<open>Decimal digits\<close>

lemma foldl_digits:
  fixes f :: "'a \<Rightarrow> nat"
  shows "foldl (\<lambda>n c. 10 * n + f c) k t = k * 10 ^ length t + foldl (\<lambda>n c. 10 * n + f c) 0 t"
proof (induction t arbitrary: k)
  case (Cons c t)
  show ?case
    unfolding foldl_Cons Cons.IH [of "10 * k + f c"] Cons.IH [of "10 * 0 + f c"] by (simp add: distrib_right)
qed simp

lemma read_digits_append: "read_digits (s @ t) = read_digits s * 10 ^ length t + read_digits t"
  unfolding read_digits_def foldl_append by (rule foldl_digits)

lemma read_digits_zeros: "read_digits (replicate k CHR ''0'') = 0"
  by (induction k) (auto simp: read_digits_def)

lemma show_nat_length: "n < 10 ^ length (show_nat n) \<and> (0 < n \<longrightarrow> 10 ^ (length (show_nat n) - 1) \<le> n)"
proof (induction n rule: show_nat.induct)
  case (1 n)
  show ?case
  proof (cases "n < 10")
    case True
    then show ?thesis by (subst (1 2) show_nat.simps) auto
  next
    case False
    then have ih: "n div 10 < 10 ^ length (show_nat (n div 10))" "10 ^ (length (show_nat (n div 10)) - 1) \<le> n div 10"
      using 1 by auto
    have len: "length (show_nat n) = Suc (length (show_nat (n div 10)))"
      using False by (subst show_nat.simps) simp
    have "length (show_nat (n div 10)) \<noteq> 0" by simp
    then obtain l where l: "length (show_nat (n div 10)) = Suc l" by (meson not0_implies_Suc)
    show ?thesis using ih unfolding len l by auto
  qed
qed

lemma show_nat_length_eq:
  assumes "10 ^ k \<le> n" "n < 10 ^ Suc k"
  shows "length (show_nat n) = Suc k"
proof -
  have len: "n < 10 ^ length (show_nat n)" "10 ^ (length (show_nat n) - 1) \<le> n"
    using show_nat_length [of n] assms(1) by (auto intro: gr0I)
  have "k < length (show_nat n)" using assms(1) len(1) by (meson le_less_trans power_less_imp_less_exp one_less_numeral_iff semiring_norm(76))
  moreover have "length (show_nat n) - 1 < Suc k" using assms(2) len(2) by (meson le_less_trans power_less_imp_less_exp one_less_numeral_iff semiring_norm(76))
  ultimately show ?thesis by linarith
qed

lemma rstrip_zeros: "\<exists>k. s = rstrip_zeros s @ replicate k CHR ''0''"
proof -
  have "set (takeWhile (\<lambda>c. c = CHR ''0'') (rev s)) \<subseteq> {CHR ''0''}" by (auto dest: set_takeWhileD)
  then have "takeWhile (\<lambda>c. c = CHR ''0'') (rev s) = replicate (length (takeWhile (\<lambda>c. c = CHR ''0'') (rev s))) CHR ''0''"
    by (intro replicate_eqI) auto
  then have "rev s = replicate (length (takeWhile (\<lambda>c. c = CHR ''0'') (rev s))) CHR ''0'' @ rev (rstrip_zeros s)"
    unfolding rstrip_zeros_def rev_rev_ident by (metis takeWhile_dropWhile_id)
  then have "s = rstrip_zeros s @ replicate (length (takeWhile (\<lambda>c. c = CHR ''0'') (rev s))) CHR ''0''"
    by (metis rev_append rev_replicate rev_rev_ident)
  then show ?thesis by blast
qed

subsection \<open>Decimal exponents and rounding\<close>

lemma pow10_pos [simp]: "0 < pow10 k"
  by simp

lemma pow10_add: "pow10 (i + j) = pow10 i * pow10 j"
  by (simp add: power_int_add)

lemma pow10_le_iff [simp]: "pow10 i \<le> pow10 j \<longleftrightarrow> i \<le> j"
  using power_int_strict_increasing [of j i "10::rat"] power_int_increasing [of i j "10::rat"]
  by (cases "i \<le> j") auto

lemma pow10_less_iff [simp]: "pow10 i < pow10 j \<longleftrightarrow> i < j"
  by (meson linorder_not_le pow10_le_iff)

lemma show_nat_bounds:
  assumes "0 < a"
  shows "pow10 (int (length (show_nat (nat a))) - 1) \<le> of_int a" "of_int a < pow10 (int (length (show_nat (nat a))))"
proof -
  define n where "n = nat a"
  have a: "of_int a = (of_nat n :: rat)" using assms by (simp add: n_def)
  have len: "int (length (show_nat n)) - 1 = int (length (show_nat n) - 1)"
    by (simp add: of_nat_diff Suc_le_eq)
  have b: "n < 10 ^ length (show_nat n)" "10 ^ (length (show_nat n) - 1) \<le> n"
    using show_nat_length [of n] assms by (auto simp: n_def)
  have "of_nat n < (of_nat (10 ^ length (show_nat n)) :: rat)" using b(1) by (simp only: of_nat_less_iff)
  then show "of_int a < pow10 (int (length (show_nat (nat a))))" by (simp add: a flip: n_def)
  have "(of_nat (10 ^ (length (show_nat n) - 1)) :: rat) \<le> of_nat n" using b(2) by (simp only: of_nat_le_iff)
  then show "pow10 (int (length (show_nat (nat a))) - 1) \<le> of_int a"
    unfolding n_def [symmetric] len a power_int_of_nat by simp
qed

lemma dec_log_bounds:
  assumes "0 < x"
  shows "pow10 (dec_log x) \<le> x" "x < pow10 (dec_log x + 1)"
proof -
  obtain a b where q: "quotient_of x = (a, b)" by force
  have b: "0 < b" using q by (rule quotient_of_denom_pos)
  have x: "x = of_int a / of_int b" using q by (rule quotient_of_div)
  have a: "0 < a" using assms b by (simp add: x zero_less_divide_iff)
  define i j where "i = int (length (show_nat (nat a)))" and "j = int (length (show_nat (nat b)))"
  note na = show_nat_bounds [OF a, folded i_def] and nb = show_nat_bounds [OF b, folded j_def]
  have "pow10 (i - 1 - j) = pow10 (i - 1) / pow10 j" by (simp add: power_int_diff)
  also have "\<dots> \<le> x" unfolding x using na(1) nb(2) a b by (intro frac_le) auto
  finally have lo: "pow10 (i - j - 1) \<le> x" by (simp add: algebra_simps)
  have "x < pow10 i / pow10 (j - 1)" unfolding x using na(2) nb(1) a by (intro frac_less) auto
  also have "\<dots> = pow10 (i - j + 1)" by (simp add: power_int_diff power_int_add)
  finally have hi: "x < pow10 (i - j + 1)" .
  have "dec_log x = (if pow10 (i - j) \<le> x then i - j else i - j - 1)"
    by (simp add: dec_log_def q i_def j_def Let_def)
  then show "pow10 (dec_log x) \<le> x" "x < pow10 (dec_log x + 1)" using lo hi by auto
qed

lemma dec_log_unique: "pow10 e \<le> x \<Longrightarrow> x < pow10 (e + 1) \<Longrightarrow> dec_log x = e"
proof -
  assume x: "pow10 e \<le> x" "x < pow10 (e + 1)"
  then have "0 < x" by (meson less_le_trans pow10_pos)
  note l = dec_log_bounds [OF this]
  have "pow10 e < pow10 (dec_log x + 1)" "pow10 (dec_log x) < pow10 (e + 1)" using x l by linarith+
  then show ?thesis by simp
qed

lemma round_even_near: "\<bar>y - of_int m\<bar> < 1 / 2 \<Longrightarrow> round_even y = m"
proof -
  assume near: "\<bar>y - of_int m\<bar> < 1 / 2"
  show ?thesis
  proof (cases "of_int m \<le> y")
    case True
    then have "\<lfloor>y\<rfloor> = m" using near by linarith
    moreover have "y - of_int m < 1 / 2" using near by linarith
    ultimately show ?thesis by (simp add: round_even_def Let_def)
  next
    case False
    then have "\<lfloor>y\<rfloor> = m - 1" using near by linarith
    moreover have "1 / 2 < y - of_int (m - 1)" using near by linarith
    ultimately show ?thesis by (simp add: round_even_def Let_def)
  qed
qed

lemma round_even_error: "\<bar>of_int (round_even y) - y\<bar> \<le> 1 / 2"
proof -
  define f d where "f = \<lfloor>y\<rfloor>" and "d = y - of_int f"
  have d: "0 \<le> d" "d < 1" unfolding d_def f_def by linarith+
  have y: "y = of_int f + d" by (simp add: d_def)
  have "round_even y = (if d < 1 / 2 then f else if 1 / 2 < d then f + 1 else if even f then f else f + 1)"
    unfolding round_even_def Let_def f_def [symmetric] d_def [symmetric] ..
  then show ?thesis using d unfolding y by auto
qed

lemma rnd64_error:
  assumes "0 < d" "- 1022 \<le> ilog2 d"
  shows "\<bar>rnd64 d - d\<bar> \<le> d / 2 ^ 53"
proof -
  define u where "u = pow2 (ilog2 d - 52)"
  have ulp: "ulp_exp d = ilog2 d - 52" using assms by (simp add: ulp_exp_def)
  have u: "0 < u" by (simp add: u_def)
  have "rnd64 d - d = (of_int (round_even (d / u)) - d / u) * u"
    using assms(1) u by (simp add: rnd64_def ulp u_def field_simps)
  then have "\<bar>rnd64 d - d\<bar> \<le> 1 / 2 * u"
    using round_even_error [of "d / u"] u by (simp add: abs_mult mult_right_mono)
  also have "1 / 2 * u = pow2 (ilog2 d) / 2 ^ 53"
    by (simp add: u_def power_int_diff)
  also have "\<dots> \<le> d / 2 ^ 53" using ilog2_bounds(1) [OF assms(1)] by (simp add: divide_right_mono)
  finally show ?thesis .
qed

lemma ilog2_normal:
  assumes "0 < d" "pow2 (- 1022) \<le> d"
  shows "- 1022 \<le> ilog2 d"
proof -
  have "ilog2 (pow2 (- 1022)) = - 1022" by (rule ilog2_unique) simp_all
  then show ?thesis using ilog2_mono [of "pow2 (- 1022)" d] assms by simp
qed

text \<open>A decimal \<open>m * 10 ^ (e - 5)\<close> of six significant digits; \<open>dec6 m e\<close> names its value.\<close>

definition dec6 :: "nat \<Rightarrow> int \<Rightarrow> rat" where
  "dec6 m e = of_nat m * pow10 (e - 5)"

lemma dec6_pos: "10 ^ 5 \<le> m \<Longrightarrow> 0 < dec6 m e"
  by (simp add: dec6_def zero_less_mult_iff)

lemma dec6_bounds:
  assumes "10 ^ 5 \<le> m" "m < 10 ^ 6"
  shows "pow10 e \<le> dec6 m e" "dec6 m e < pow10 (e + 1)"
proof -
  have "(of_nat (10 ^ 5) :: rat) \<le> of_nat m" "(of_nat m :: rat) < of_nat (10 ^ 6)"
    using assms by (simp_all only: of_nat_le_iff of_nat_less_iff)
  then have m: "(10 ^ 5 :: rat) \<le> of_nat m" "(of_nat m :: rat) < 10 ^ 6" by simp_all
  have p: "pow10 e = 10 ^ 5 * pow10 (e - 5)" "pow10 (e + 1) = 10 ^ 6 * pow10 (e - 5)"
    by (simp_all add: power_int_diff power_int_add)
  show "pow10 e \<le> dec6 m e" unfolding dec6_def p(1) using m(1) by (simp only: mult_right_mono less_imp_le [OF pow10_pos])
  show "dec6 m e < pow10 (e + 1)" unfolding dec6_def p(2) using m(2) by (simp only: mult_strict_right_mono pow10_pos)
qed

lemma dec6_normal:
  assumes "10 ^ 5 \<le> m" "m < 10 ^ 6" "- 300 \<le> e" "e \<le> 300"
  shows "pow2 (- 1022) \<le> dec6 m e" "dec6 m e < 2 ^ 1023"
proof -
  have "pow2 (- 1022) \<le> pow10 (- 300)" by (simp add: power_int_minus divide_simps)
  also have "\<dots> \<le> pow10 e" using assms(3) by (simp only: pow10_le_iff)
  also have "\<dots> \<le> dec6 m e" using assms(1,2) by (rule dec6_bounds)
  finally show "pow2 (- 1022) \<le> dec6 m e" .
  have "dec6 m e < pow10 (e + 1)" using assms(1,2) by (rule dec6_bounds)
  also have "\<dots> \<le> pow10 301" using assms(4) by (simp only: pow10_le_iff)
  also have "\<dots> \<le> 2 ^ 1023" by simp
  finally show "dec6 m e < 2 ^ 1023" .
qed

lemma rnd64_dec6_error:
  assumes "10 ^ 5 \<le> m" "m < 10 ^ 6" "- 300 \<le> e" "e \<le> 300"
  shows "\<bar>rnd64 (dec6 m e) - dec6 m e\<bar> \<le> dec6 m e / 2 ^ 53"
  using dec6_pos [OF assms(1)] ilog2_normal [OF dec6_pos [OF assms(1)] dec6_normal(1) [OF assms]]
  by (rule rnd64_error)

text \<open>Scaled to an integer, the error is far below one half.\<close>

lemma scaled_near:
  fixes x d s :: rat
  assumes "\<bar>x - d\<bar> \<le> d / 2 ^ 53" "0 < s" "d * s \<le> 10 ^ 15"
  shows "\<bar>x * s - d * s\<bar> < 1 / 2"
proof -
  have "\<bar>x * s - d * s\<bar> = \<bar>x - d\<bar> * s" using assms(2) by (simp add: abs_mult flip: left_diff_distrib)
  also have "\<dots> \<le> d / 2 ^ 53 * s" using assms(1,2) by (intro mult_right_mono) auto
  also have "\<dots> = d * s / 2 ^ 53" by simp
  also have "\<dots> \<le> 10 ^ 15 / 2 ^ 53" using assms(3) by (intro divide_right_mono) auto
  also have "\<dots> < 1 / 2" by simp
  finally show ?thesis .
qed

lemma digits6_def: "digits6 x = (let e = dec_log x; m = nat (round_even (x * pow10 (5 - e)))
     in if m = 10 ^ 6 then (10 ^ 5, e + 1) else (m, e))"
  by (simp add: digits_prec_def cong: if_cong)

lemma digits6_dec6:
  assumes "10 ^ 5 \<le> m" "m < 10 ^ 6" "- 300 \<le> e" "e \<le> 300"
  shows "digits6 (rnd64 (dec6 m e)) = (m, e)"
proof -
  define d x where "d = dec6 m e" and "x = rnd64 d"
  have err: "\<bar>x - d\<bar> \<le> d / 2 ^ 53" using rnd64_dec6_error [OF assms] by (simp add: x_def d_def)
  have d: "pow10 e \<le> d" "d < pow10 (e + 1)" using dec6_bounds [OF assms(1,2)] by (simp_all add: d_def)
  have d0: "0 < d" using dec6_pos [OF assms(1)] by (simp add: d_def)
  have ds: "d * pow10 (5 - e) = of_nat m" by (simp add: d_def dec6_def flip: power_int_add)
  have m6: "(of_nat m :: rat) < 10 ^ 6" using assms(2) of_nat_less_iff [of m "10 ^ 6", where 'a=rat] by simp
  have near: "\<bar>x * pow10 (5 - e) - of_nat m\<bar> < 1 / 2"
    using scaled_near [OF err, of "pow10 (5 - e)"] m6 by (simp add: ds)
  then have r: "round_even (x * pow10 (5 - e)) = int m" by (intro round_even_near) simp
  show ?thesis
  proof (cases "pow10 e \<le> x")
    case True
    have "x * pow10 (5 - e) < 10 ^ 6"
    proof -
      have "(of_nat m :: rat) \<le> of_nat (10 ^ 6 - 1)" using assms(2) by (simp only: of_nat_le_iff)
      then have "(of_nat m :: rat) \<le> 10 ^ 6 - 1" by simp
      then show ?thesis using near by linarith
    qed
    moreover have "pow10 (e + 1) * pow10 (5 - e) = 10 ^ 6" by (simp flip: power_int_add)
    ultimately have "x * pow10 (5 - e) < pow10 (e + 1) * pow10 (5 - e)" by simp
    then have "x < pow10 (e + 1)" by (simp only: mult_less_cancel_right_pos [OF pow10_pos])
    then have "dec_log x = e" using True by (intro dec_log_unique)
    then show ?thesis using r assms(2) by (simp add: digits6_def Let_def x_def d_def)
  next
    case False
    then have x: "x < pow10 e" by simp
    have "d \<le> 2 * x"
    proof -
      have "d / 2 ^ 53 \<le> d / 2" using d0 by (intro divide_left_mono) auto
      with err have "\<bar>x - d\<bar> \<le> d / 2" by (rule order_trans)
      then show ?thesis by linarith
    qed
    have m5: "m = 10 ^ 5"
    proof (rule ccontr)
      assume "m \<noteq> 10 ^ 5"
      then have "(of_nat (10 ^ 5 + 1) :: rat) \<le> of_nat m" using assms(1) by (simp only: of_nat_le_iff)
      then have "(10 ^ 5 + 1 :: rat) \<le> of_nat m" by simp
      then have "10 ^ 5 < x * pow10 (5 - e)" using near by linarith
      moreover have "pow10 e * pow10 (5 - e) = 10 ^ 5" by (simp flip: power_int_add)
      ultimately have "pow10 e * pow10 (5 - e) < x * pow10 (5 - e)" by simp
      then have "pow10 e < x" by (simp only: mult_less_cancel_right_pos [OF pow10_pos])
      then show False using x by simp
    qed
    have de: "d = pow10 e" by (simp add: d_def dec6_def m5 power_int_diff)
    have "pow10 (e - 1) = pow10 e / 10" by (simp add: power_int_diff)
    then have "pow10 (e - 1) \<le> x"
      using \<open>d \<le> 2 * x\<close> pow10_pos [of e] unfolding de by linarith
    then have log: "dec_log x = e - 1" using x by (intro dec_log_unique) simp_all
    have ds': "d * pow10 (5 - (e - 1)) = 10 ^ 6" by (simp add: de flip: power_int_add)
    have "\<bar>x * pow10 (5 - (e - 1)) - of_int (10 ^ 6)\<bar> < 1 / 2"
      using scaled_near [OF err, of "pow10 (5 - (e - 1))"] unfolding ds' by simp
    then have "round_even (x * pow10 (5 - dec_log x)) = 10 ^ 6" unfolding log by (rule round_even_near)
    then have "digits6 x = (10 ^ 5, e)" by (simp add: digits6_def Let_def log)
    then show ?thesis unfolding x_def d_def by (simp only: m5)
  qed
qed

subsection \<open>Reading printed doubles\<close>

definition num_char :: "char \<Rightarrow> bool" where
  "num_char c \<longleftrightarrow> is_digit c \<or> c \<in> set ''.e+-''"

lemma num_char_to_lower:
  assumes "num_char c"
  shows "to_lower c \<noteq> CHR ''x'' \<and> to_lower c \<noteq> CHR ''n'' \<and> to_lower c \<noteq> CHR ''i''"
proof -
  have "\<forall>c \<in> set ''0123456789.e+-''. to_lower c \<noteq> CHR ''x'' \<and> to_lower c \<noteq> CHR ''n'' \<and> to_lower c \<noteq> CHR ''i''" by code_simp
  then show ?thesis using assms by (auto simp: num_char_def is_digit_def)
qed

lemma no_hex:
  assumes "\<forall>c \<in> set s. num_char c"
  shows "read_hex_float s = None"
proof (cases s rule: remdups_adj.cases)
  case (3 a b t)
  have "to_lower b \<noteq> CHR ''x''" using assms num_char_to_lower [of b] 3 by simp
  then show ?thesis by (simp add: 3 read_hex_float_def)
qed (simp_all add: read_hex_float_def)

lemma stod_pos_digits:
  assumes "\<forall>c \<in> set (d # s). num_char c" "is_digit d" "read_decimal (d # s) = Some (v, r)"
  shows "\<not> out_of_double_range v \<Longrightarrow> stod_pos (d # s) = Inr (to_double v, length (d # s) - length r)"
    "\<not> out_of_double_range (- v) \<Longrightarrow> stod_pos (CHR ''-'' # d # s) = Inr (to_double (- v), length (CHR ''-'' # d # s) - length r)"
proof -
  have lower: "to_lower d \<noteq> CHR ''i''" "to_lower d \<noteq> CHR ''n''"
    using assms(1) num_char_to_lower [of d] by simp_all
  have "\<not> is_space d" "read_sign (d # s) = (False, d # s)" "\<not> is_space CHR ''-''"
    using is_digit_not [OF assms(2)] by (simp_all add: read_sign_def is_space_def)
  moreover have "read_sign (CHR ''-'' # d # s) = (True, d # s)" by (simp add: read_sign_def)
  ultimately show "\<not> out_of_double_range v \<Longrightarrow> stod_pos (d # s) = Inr (to_double v, length (d # s) - length r)"
    "\<not> out_of_double_range (- v) \<Longrightarrow> stod_pos (CHR ''-'' # d # s) = Inr (to_double (- v), length (CHR ''-'' # d # s) - length r)"
    using lower assms(3) no_hex [OF assms(1)]
    by (simp_all add: stod_pos_def Let_def take_Cons')
qed

lemma stod_of_pos: "stod_pos s = Inr (x, n) \<Longrightarrow> stod s = Inr x"
  by (simp add: stod_def)

text \<open>What the sign and the digits of a number denote, for the three printing formats at once.\<close>

lemma stod_pos_signed:
  assumes "s = c # t" "is_digit c" "\<forall>c \<in> set s. num_char c" "read_decimal s = Some (d, [])"
    and "to_double d = Fin r" "\<not> out_of_double_range d"
  shows "stod_pos s = Inr (Fin r, length s)" "stod_pos (CHR ''-'' # s) = Inr (Fin (- r), length (CHR ''-'' # s))"
proof -
  show "stod_pos s = Inr (Fin r, length s)"
    using stod_pos_digits(1) [of c t d "[]"] assms by simp
  have "to_double (- d) = Fin (- r)" "\<not> out_of_double_range (- d)"
    using assms(5,6) by (auto simp: to_double_def out_of_double_range_def rnd64_neg Let_def split: if_splits)
  then show "stod_pos (CHR ''-'' # s) = Inr (Fin (- r), length (CHR ''-'' # s))"
    using stod_pos_digits(2) [of c t d "[]"] assms by simp
qed

text \<open>The decimal \<open>ip.fp\<close>, with or without an exponent, reads as the number its digits denote.\<close>

lemma read_mantissa_digits:
  assumes "\<forall>c \<in> set ip. is_digit c" "\<forall>c \<in> set fp. is_digit c" "\<And>c t. r = c # t \<Longrightarrow> \<not> is_digit c \<and> c \<noteq> CHR ''.''"
  shows "read_mantissa is_digit (ip @ CHR ''.'' # fp @ r) = (ip, fp, r)" "read_mantissa is_digit (ip @ r) = (ip, [], r)"
proof -
  have dot: "\<not> is_digit CHR ''.''" by (simp add: is_digit_def)
  show "read_mantissa is_digit (ip @ CHR ''.'' # fp @ r) = (ip, fp, r)"
    using span_digits [of ip is_digit "CHR ''.'' # fp @ r"] span_digits [of fp is_digit r] assms dot
    by (auto simp: read_mantissa_def Let_def)
  show "read_mantissa is_digit (ip @ r) = (ip, [], r)"
    using span_digits [of ip is_digit r] assms by (auto simp: read_mantissa_def Let_def split: list.splits)
qed

lemma read_with_fraction:
  assumes ip: "\<forall>c \<in> set ip. is_digit c" "ip \<noteq> []" and fp: "\<forall>c \<in> set fp. is_digit c"
    and r: "\<And>c t. r = c # t \<Longrightarrow> \<not> is_digit c \<and> c \<noteq> CHR ''.''" and e: "read_exponent CHR ''e'' r = (e, r')"
  shows "read_decimal (with_fraction ip fp @ r) = Some (of_nat (read_digits (ip @ fp)) * pow10 (e - int (length fp)), r')"
proof -
  obtain k where k: "fp = rstrip_zeros fp @ replicate k CHR ''0''" using rstrip_zeros by blast
  define f where "f = rstrip_zeros fp"
  have fk: "fp = f @ replicate k CHR ''0''" using k by (simp add: f_def)
  have f: "\<forall>c \<in> set f. is_digit c" using fp by (simp add: fk)
  have mant: "read_mantissa is_digit (with_fraction ip fp @ r) = (ip, f, r)"
    using read_mantissa_digits [OF ip(1) f r] by (simp add: with_fraction_def Let_def flip: f_def)
  have "read_digits (ip @ fp) = read_digits (ip @ f) * 10 ^ k"
    using read_digits_append [of "ip @ f" "replicate k CHR ''0''"] by (simp add: fk read_digits_zeros)
  then have "of_nat (read_digits (ip @ fp)) * pow10 (e - int (length fp)) = of_nat (read_digits (ip @ f)) * (10 ^ k * pow10 (e - int (length f) - int k))"
    by (simp add: fk algebra_simps)
  also have "10 ^ k * pow10 (e - int (length f) - int k) = pow10 (e - int (length f))"
    by (simp add: power_int_diff)
  finally show ?thesis using ip(2) e by (simp add: read_decimal_def mant)
qed

lemma read_exponent_Nil: "read_exponent CHR ''e'' [] = (0, [])"
  by (simp add: read_exponent_def)

lemma read_show_exponent: "read_exponent CHR ''e'' (show_exponent e) = (e, [])"
proof -
  define ds where "ds = (let ds = show_nat (nat \<bar>e\<bar>) in if length ds < 2 then CHR ''0'' # ds else ds)"
  have dig: "\<forall>c \<in> set ds. is_digit c"
    using show_nat_digits by (auto simp: ds_def Let_def is_digit_def)
  have val: "int (read_digits ds) = \<bar>e\<bar>"
    using read_digits_append [of "[CHR ''0'']" "show_nat (nat \<bar>e\<bar>)"]
    by (simp add: ds_def Let_def read_show_nat) (simp add: read_digits_def)
  have span: "takeWhile is_digit ds = ds" "dropWhile is_digit ds = []"
    using dig by (simp_all add: takeWhile_eq_all_conv dropWhile_eq_Nil_conv)
  have "ds \<noteq> []" by (simp add: ds_def Let_def)
  moreover have "to_lower CHR ''e'' = CHR ''e''" by code_simp
  moreover have "show_exponent e = CHR ''e'' # (if e < 0 then CHR ''-'' else CHR ''+'') # ds"
    by (simp add: show_exponent_def ds_def)
  ultimately show ?thesis
    using val by (simp add: read_exponent_def read_sign_def span Let_def)
qed

text \<open>The digits of a number of \<open>p\<close> significant digits and its value.\<close>

lemma show_nat_prec:
  assumes "10 ^ (p - 1) \<le> m" "m < 10 ^ p" "0 < p"
  shows "length (show_nat m) = p"
  using show_nat_length_eq [of "p - 1" m] assms by simp

lemma read_show_positive_prec:
  assumes d6: "digits_prec p x = (m, e)" and m: "10 ^ (p - 1) \<le> m" "m < 10 ^ p" "0 < p"
  shows "read_decimal (show_positive_prec p x) = Some (of_nat m * pow10 (e - (int p - 1)), [])"
proof -
  define ds where "ds = show_nat m"
  have len: "length ds = p" unfolding ds_def using m by (rule show_nat_prec)
  have dig: "\<forall>c \<in> set ds. is_digit c" by (simp add: ds_def show_nat_digits)
  have val: "read_digits ds = m" by (simp add: ds_def read_show_nat)
  have part: "\<forall>c \<in> set (take i ds). is_digit c" "\<forall>c \<in> set (drop i ds). is_digit c" for i
    using dig by (auto dest: in_set_takeD in_set_dropD)
  have nonempty: "take (Suc i) ds \<noteq> []" for i using len m(3) by auto
  have zero: "is_digit CHR ''0''" and exp_char: "\<And>c t. show_exponent e = c # t \<Longrightarrow> \<not> is_digit c \<and> c \<noteq> CHR ''.''"
    by (auto simp: show_exponent_def is_digit_def)
  consider "0 \<le> e" "e < int p" | "- 4 \<le> e" "e < 0" | "e < - 4 \<or> int p \<le> e" by linarith
  then show ?thesis
  proof cases
    case 1
    have "read_decimal (with_fraction (take (nat e + 1) ds) (drop (nat e + 1) ds) @ []) =
        Some (of_nat (read_digits (take (nat e + 1) ds @ drop (nat e + 1) ds)) * pow10 (0 - int (length (drop (nat e + 1) ds))), [])"
      using part nonempty read_exponent_Nil by (intro read_with_fraction) auto
    moreover have "0 - int (length (drop (nat e + 1) ds)) = e - (int p - 1)" using 1 len by simp
    ultimately show ?thesis
      using 1 by (simp add: show_positive_prec_def d6 val flip: ds_def)
  next
    case 2
    have zeros: "read_digits (''0'' @ replicate k CHR ''0'' @ ds) = m" for k
      using read_digits_append [of "''0'' @ replicate k CHR ''0''" ds] read_digits_zeros [of "Suc k"] by (simp add: val)
    have "read_decimal (with_fraction ''0'' (replicate (nat (- e) - 1) CHR ''0'' @ ds) @ []) =
        Some (of_nat (read_digits (''0'' @ replicate (nat (- e) - 1) CHR ''0'' @ ds)) *
          pow10 (0 - int (length (replicate (nat (- e) - 1) CHR ''0'' @ ds))), [])"
      using dig zero read_exponent_Nil by (intro read_with_fraction) auto
    moreover have "0 - int (length (replicate (nat (- e) - 1) CHR ''0'' @ ds)) = e - (int p - 1)" using 2 len by simp
    ultimately have "read_decimal (with_fraction ''0'' (replicate (nat (- e) - 1) CHR ''0'' @ ds)) = Some (of_nat m * pow10 (e - (int p - 1)), [])"
      unfolding zeros by (simp only: append_Nil2)
    then show ?thesis using 2 by (simp add: show_positive_prec_def d6 flip: ds_def)
  next
    case 3
    have "read_decimal (with_fraction (take 1 ds) (drop 1 ds) @ show_exponent e) =
        Some (of_nat (read_digits (take 1 ds @ drop 1 ds)) * pow10 (e - int (length (drop 1 ds))), [])"
      using part nonempty [of 0] read_show_exponent exp_char by (intro read_with_fraction) auto
    moreover have "show_positive_prec p x = with_fraction (take 1 ds) (drop 1 ds) @ show_exponent e"
      using 3 by (auto simp: show_positive_prec_def d6 Let_def ds_def)
    moreover have "e - int (length (drop 1 ds)) = e - (int p - 1)" using len m(3) by simp
    ultimately show ?thesis by (simp only: append_take_drop_id val)
  qed
qed

lemma show_positive_chars:
  assumes "digits_prec p x = (m, e)" "10 ^ (p - 1) \<le> m" "m < 10 ^ p" "0 < p"
  shows "\<exists>c s. show_positive_prec p x = c # s \<and> is_digit c \<and> (\<forall>c \<in> set (show_positive_prec p x). num_char c)"
proof -
  define ds where "ds = show_nat m"
  have len: "length ds = p" unfolding ds_def using assms(2-4) by (rule show_nat_prec)
  have dig: "c \<in> set ds \<Longrightarrow> is_digit c" for c by (simp add: ds_def show_nat_digits)
  have zero: "is_digit CHR ''0''" by (simp add: is_digit_def)
  have num: "num_char CHR ''.''" "num_char CHR ''e''" "num_char CHR ''+''" "num_char CHR ''-''" by (simp_all add: num_char_def)
  have strip: "c \<in> set (rstrip_zeros s) \<Longrightarrow> c \<in> set s" for c s
    by (auto simp: rstrip_zeros_def dest: set_dropWhileD)
  have frac: "\<exists>c s. with_fraction ip fp @ r = c # s \<and> is_digit c \<and> (\<forall>c \<in> set (with_fraction ip fp @ r). num_char c)"
    if "\<forall>c \<in> set ip. is_digit c" "ip \<noteq> []" "\<forall>c \<in> set fp. is_digit c" "\<forall>c \<in> set r. num_char c" for ip fp r
    using that num strip by (cases ip) (auto simp: with_fraction_def Let_def num_char_def)
  have exp: "\<forall>c \<in> set (show_exponent e). num_char c"
    using num zero show_nat_digits by (auto simp: show_exponent_def Let_def num_char_def)
  have part: "\<forall>c \<in> set (take i ds). is_digit c" "\<forall>c \<in> set (drop i ds). is_digit c" "take (Suc i) ds \<noteq> []" for i
    using dig len assms(4) by (auto dest: in_set_takeD in_set_dropD)
  have zeros: "\<forall>c \<in> set (replicate k CHR ''0'' @ ds). is_digit c" for k using zero dig by auto
  show ?thesis
    using frac [OF part(1) [of "Suc (nat e)"] part(3) [of "nat e"] part(2) [of "Suc (nat e)"], of "[]"]
      frac [OF _ _ zeros, of "''0''" "[]" "nat (- e) - 1"] zero
      frac [OF part(1) [of "Suc 0"] part(3) [of 0] part(2) [of "Suc 0"] exp]
    by (simp add: show_positive_prec_def assms(1) flip: ds_def)
qed

definition six_digit_decimal :: "double \<Rightarrow> bool" where
  "six_digit_decimal x \<longleftrightarrow> x = 0 \<or>
     (\<exists>m e. 10 ^ 5 \<le> m \<and> m < 10 ^ 6 \<and> - 300 \<le> e \<and> e \<le> 300 \<and> (x = Fin (rnd64 (dec6 m e)) \<or> x = - Fin (rnd64 (dec6 m e))))"

lemma dec6_in_range:
  assumes "10 ^ 5 \<le> m" "m < 10 ^ 6" "- 300 \<le> e" "e \<le> 300"
  shows "to_double (dec6 m e) = Fin (rnd64 (dec6 m e))" "\<not> out_of_double_range (dec6 m e)" "0 < rnd64 (dec6 m e)"
proof -
  note n = dec6_normal [OF assms]
  have exact: "rnd64 (pow2 (- 1022)) = pow2 (- 1022)" "rnd64 (2 ^ 1023) = 2 ^ 1023"
    using rnd64_grid [of 1 "- 1022"] rnd64_grid [of 1 1023] by simp_all
  have lo: "pow2 (- 1022) \<le> rnd64 (dec6 m e)" using rnd64_mono [OF n(1)] unfolding exact .
  have hi: "rnd64 (dec6 m e) \<le> 2 ^ 1023" using rnd64_mono [OF less_imp_le [OF n(2)]] unfolding exact .
  show pos: "0 < rnd64 (dec6 m e)" using lo pow2_pos [of "- 1022"] by linarith
  have "rnd64 (dec6 m e) < 2 ^ 1024" using hi by (rule le_less_trans) simp
  then show fin: "to_double (dec6 m e) = Fin (rnd64 (dec6 m e))"
    using pos by (simp add: to_double_def Let_def)
  have "pow2 (- 1022) = 1 / 2 ^ 1022" by (simp add: power_int_minus divide_simps)
  then show "\<not> out_of_double_range (dec6 m e)" using lo pos fin by (simp add: out_of_double_range_def)
qed

text \<open>
  \<open>std::stod\<close> reads back exactly what \<open>operator<<\<close> printed, for every double that is nearest to a
  decimal of at most six significant digits; zero included.
\<close>

lemma stod_pos_zero: "stod_pos ''0'' = Inr (0, 1)"
proof -
  have "read_decimal ''0'' = Some (0, [])" by code_simp
  moreover have "\<not> out_of_double_range 0" "to_double 0 = 0"
    by (simp_all add: out_of_double_range_def to_double_def rnd64_def zero_double_def)
  ultimately show ?thesis
    using stod_pos_digits(1) [of "CHR ''0''" "[]" 0 "[]"] by (simp add: num_char_def is_digit_def)
qed

text \<open>A double whose printed digits denote a decimal that rounds to it is read back.\<close>

lemma stod_pos_show_prec:
  assumes "digits_prec p x = (m, e)" "10 ^ (p - 1) \<le> m" "m < 10 ^ p" "0 < p" "0 < x"
    and "to_double (of_nat m * pow10 (e - (int p - 1))) = Fin x" "\<not> out_of_double_range (of_nat m * pow10 (e - (int p - 1)))"
  shows "stod_pos (show_double_prec p (Fin x)) = Inr (Fin x, length (show_double_prec p (Fin x)))"
    "stod_pos (show_double_prec p (Fin (- x))) = Inr (Fin (- x), length (show_double_prec p (Fin (- x))))"
proof -
  obtain c s where s: "show_positive_prec p x = c # s" "is_digit c" "\<forall>c \<in> set (show_positive_prec p x). num_char c"
    using show_positive_chars [OF assms(1-4)] by metis
  note read = stod_pos_signed [OF s read_show_positive_prec [OF assms(1-4)] assms(6,7)]
  show "stod_pos (show_double_prec p (Fin x)) = Inr (Fin x, length (show_double_prec p (Fin x)))"
    "stod_pos (show_double_prec p (Fin (- x))) = Inr (Fin (- x), length (show_double_prec p (Fin (- x))))"
    using read assms(5) by simp_all
qed

lemma stod_pos_show_double:
  "six_digit_decimal x \<Longrightarrow> stod_pos (show_double x) = Inr (x, length (show_double x))"
proof (unfold six_digit_decimal_def, elim disjE exE conjE)
  assume "x = 0"
  then show ?thesis using stod_pos_zero by (simp add: zero_double_def)
next
  fix m :: nat and e :: int
  assume m: "10 ^ 5 \<le> m" "m < 10 ^ 6" "- 300 \<le> e" "e \<le> 300"
  note range = dec6_in_range [OF m] and d6 = digits6_dec6 [OF m]
  have "stod_pos (show_double (Fin (rnd64 (dec6 m e)))) = Inr (Fin (rnd64 (dec6 m e)), length (show_double (Fin (rnd64 (dec6 m e)))))"
    "stod_pos (show_double (Fin (- rnd64 (dec6 m e)))) = Inr (Fin (- rnd64 (dec6 m e)), length (show_double (Fin (- rnd64 (dec6 m e)))))"
    using stod_pos_show_prec [OF d6 _ m(2) _ range(3)] m range by (simp_all add: dec6_def)
  then show "x = Fin (rnd64 (dec6 m e)) \<Longrightarrow> ?thesis" "x = - Fin (rnd64 (dec6 m e)) \<Longrightarrow> ?thesis" by simp_all
qed

lemma stod_show_double: "six_digit_decimal x \<Longrightarrow> stod (show_double x) = Inr x"
  by (rule stod_of_pos [OF stod_pos_show_double])

lemma six_digit_nat:
  assumes "0 < n" "n < 10 ^ 6"
  shows "six_digit_decimal (Fin (of_nat n))"
proof -
  define k where "k = length (show_nat n) - 1"
  have len: "length (show_nat n) = Suc k" by (simp add: k_def)
  have lo: "10 ^ k \<le> n" and hi: "n < 10 ^ Suc k" using show_nat_length [of n] assms(1) by (auto simp: len)
  have "(10::nat) ^ k < 10 ^ 6" using lo assms(2) by (rule le_less_trans)
  then have k: "k \<le> 5" using power_less_imp_less_exp [of "10::nat" k 6] by simp
  define m where "m = n * 10 ^ (5 - k)"
  have p: "(10::nat) ^ k * 10 ^ (5 - k) = 10 ^ 5" "(10::nat) ^ Suc k * 10 ^ (5 - k) = 10 ^ 6"
    using k by (simp_all flip: power_add)
  have m: "10 ^ 5 \<le> m" "m < 10 ^ 6"
    using mult_le_mono1 [OF lo, of "10 ^ (5 - k)"] mult_strict_right_mono [OF hi, of "10 ^ (5 - k)"]
    unfolding p by (simp_all add: m_def)
  have "dec6 m (int k) = of_nat n * (10 ^ (5 - k) * pow10 (int k - 5))" by (simp add: dec6_def m_def)
  also have "(10::rat) ^ (5 - k) * pow10 (int k - 5) = pow10 (int (5 - k) + (int k - 5))"
    by (subst power_int_add) simp_all
  also have "\<dots> = 1" using k by simp
  finally have d: "dec6 m (int k) = of_nat n" by simp
  have "rnd64 (of_int (int n) * pow2 0) = of_int (int n) * pow2 0"
    using assms(2) by (intro rnd64_grid) simp_all
  then have "rnd64 (of_nat n) = of_nat n" by simp
  then show ?thesis
    using m k d by (auto simp: six_digit_decimal_def intro!: exI [of _ m] exI [of _ "int k"])
qed

lemma six_digit_zero [simp]: "six_digit_decimal 0"
  by (simp add: six_digit_decimal_def)

lemma six_digit_numeral: "numeral n < (10 ^ 6 :: nat) \<Longrightarrow> six_digit_decimal (Fin (numeral n))"
  using six_digit_nat [of "numeral n"] by simp

text \<open>A printed number has no character that separates fields, and is not empty.\<close>

lemma show_positive_plain: "c \<in> set (show_positive_prec p x) \<Longrightarrow> num_char c"
proof -
  obtain m e where d: "digits_prec p x = (m, e)" by force
  have dig: "c \<in> set (show_nat n) \<Longrightarrow> num_char c" for n c by (simp add: num_char_def show_nat_digits)
  have const: "num_char CHR ''0''" "num_char CHR ''.''" "num_char CHR ''e''" "num_char CHR ''+''" "num_char CHR ''-''"
    by (simp_all add: num_char_def is_digit_def)
  have frac: "c \<in> set (with_fraction ip fp) \<Longrightarrow> c \<in> set ip \<or> c \<in> set fp \<or> c = CHR ''.''" for c ip fp
    by (auto simp: with_fraction_def Let_def rstrip_zeros_def split: if_splits dest: set_dropWhileD)
  have exp: "c \<in> set (show_exponent e) \<Longrightarrow> num_char c" for c
    using const dig by (auto simp: show_exponent_def Let_def split: if_splits)
  assume "c \<in> set (show_positive_prec p x)"
  then show ?thesis
    using dig const exp by (auto simp: show_positive_prec_def d Let_def split: if_splits dest!: frac dest: in_set_takeD in_set_dropD)
qed

lemma show_double_plain: "c \<in> set (show_double_prec p x) \<Longrightarrow> num_char c \<or> c \<in> set ''infa''"
  by (cases x) (auto simp: num_char_def is_digit_def split: if_splits dest!: show_positive_plain)

lemma plain_not_separator:
  "num_char c \<or> c \<in> set ''infa'' \<Longrightarrow> c \<noteq> CHR 0x09 \<and> c \<noteq> CHR 0x0A \<and> c \<noteq> CHR '';'' \<and> c \<noteq> CHR ''='' \<and> c \<noteq> CHR '','' \<and> c \<noteq> CHR '':''"
  by (auto simp: num_char_def is_digit_def)

lemma stod_not_Nil: "stod s = Inr x \<Longrightarrow> s \<noteq> []"
  by (auto simp: stod_def stod_pos_def read_sign_def read_decimal_def read_mantissa_def read_hex_float_def)

lemma show_double_not_Nil: "six_digit_decimal x \<Longrightarrow> show_double x \<noteq> []"
  by (rule stod_not_Nil [OF stod_show_double])

subsection \<open>Seventeen digits\<close>

text \<open>
  Every double above the smallest normal number, of either sign, and zero, the infinities and NaN.
\<close>

definition normal_double :: "double \<Rightarrow> bool" where
  "normal_double x \<longleftrightarrow> valid_double x \<and> (\<forall>r. x = Fin r \<longrightarrow> r = 0 \<or> 1 / 2 ^ 1022 < \<bar>r\<bar>)"

text \<open>A double is the nearest one to every rational closer than a quarter of its unit in the last place.\<close>

lemma rnd64_nearest:
  assumes "rnd64 x = x" "1 / 2 ^ 1022 < x" "\<bar>d - x\<bar> < x / 2 ^ 54"
  shows "rnd64 d = x"
proof -
  define k where "k = ilog2 x"
  define u where "u = pow2 (k - 52)"
  have low: "pow2 (- 1022) = 1 / 2 ^ 1022" by (simp add: power_int_minus divide_simps)
  have x: "0 < x" using assms(2) by (rule less_trans [rotated]) simp
  have k: "- 1022 \<le> k" unfolding k_def using x assms(2) low by (intro ilog2_normal) simp_all
  have bounds: "pow2 k \<le> x" "x < pow2 (k + 1)" using ilog2_bounds [OF x] by (simp_all add: k_def)
  have u: "0 < u" "pow2 k = 2 ^ 52 * u" "pow2 (k + 1) = 2 ^ 53 * u"
    by (simp_all add: u_def power_int_diff power_int_add)
  define n where "n = round_even (x / u)"
  have "ulp_exp x = k - 52" using x k by (simp add: ulp_exp_def k_def)
  then have xn: "x = of_int n * u" using assms(1) x by (simp add: rnd64_def n_def u_def)
  have "(2 ^ 52 :: rat) \<le> of_int n" "(of_int n :: rat) < 2 ^ 53"
    using bounds u(1) by (simp_all add: xn u(2,3))
  then have "(of_int (2 ^ 52) :: rat) \<le> of_int n" "(of_int n :: rat) < of_int (2 ^ 53)" by simp_all
  then have n: "2 ^ 52 \<le> n" "n \<le> 2 ^ 53 - 1" by (simp_all only: of_int_le_iff of_int_less_iff zle_diff1_eq)
  have "x / 2 ^ 54 < u / 2" using bounds(2) by (simp add: u(3))
  then have near: "\<bar>d - x\<bar> < u / 2" using assms(3) by linarith
  have "(of_int n :: rat) \<le> of_int (2 ^ 53 - 1)" using n(2) by (simp only: of_int_le_iff)
  then have "x \<le> (2 ^ 53 - 1) * u" using u(1) by (simp add: xn mult_right_mono)
  then have top: "x + u \<le> pow2 (k + 1)" unfolding u(3) by (simp add: algebra_simps)
  then have hi: "d < pow2 (k + 1)" using near u(1) by linarith
  show ?thesis
  proof (cases "pow2 k \<le> d")
    case True
    have "\<bar>d / u - of_int n\<bar> < 1 / 2"
    proof -
      have "d / u - of_int n = (d - x) / u" using u(1) by (simp add: xn diff_divide_distrib)
      then show ?thesis using near u(1) by (simp add: abs_divide divide_less_eq)
    qed
    then show ?thesis using rnd64_unique [OF True hi k] by (simp add: xn u_def)
  next
    case False
    have "n = 2 ^ 52"
    proof (rule ccontr)
      assume "n \<noteq> 2 ^ 52"
      then have "(of_int (2 ^ 52 + 1) :: rat) \<le> of_int n" using n(1) by (simp only: of_int_le_iff)
      then have "(2 ^ 52 + 1) * u \<le> x" using u(1) by (simp add: xn mult_right_mono)
      then have "pow2 k + u \<le> x" by (simp add: u(2) algebra_simps)
      then show False using near False u(1) by linarith
    qed
    then have xk: "x = pow2 k" by (simp add: xn u(2))
    then have k': "- 1022 \<le> k - 1"
      using assms(2) unfolding low [symmetric] xk pow2_less_iff by simp
    have half: "pow2 (k - 1) = pow2 k / 2" "pow2 (k - 53) = pow2 k / 2 ^ 53" by (simp_all add: power_int_diff)
    have near': "\<bar>d - pow2 k\<bar> < pow2 k / 2 ^ 54" using assms(3) by (simp only: xk)
    have "pow2 k / 2 ^ 54 \<le> pow2 k / 2" by (simp add: divide_left_mono)
    then have "pow2 (k - 1) \<le> d" using near' unfolding half by linarith
    moreover have "d < pow2 (k - 1 + 1)" using False by simp
    moreover have "\<bar>d / pow2 (k - 1 - 52) - of_int (2 ^ 53)\<bar> < 1 / 2"
    proof -
      have "d / pow2 (k - 53) - 2 ^ 53 = (d - pow2 k) / pow2 (k - 53)" by (simp add: half diff_divide_distrib)
      then have "\<bar>d / pow2 (k - 53) - 2 ^ 53\<bar> = \<bar>d - pow2 k\<bar> / pow2 (k - 53)" by (simp add: abs_divide)
      also have "\<dots> < pow2 k / 2 ^ 54 / pow2 (k - 53)" using near' by (rule divide_strict_right_mono) simp
      also have "\<dots> = 1 / 2" by (simp add: half)
      finally show ?thesis by simp
    qed
    ultimately have "rnd64 d = of_int (2 ^ 53) * pow2 (k - 1 - 52)" using k' by (intro rnd64_unique)
    then show ?thesis by (simp add: xk half)
  qed
qed

lemma digits17_near:
  assumes "0 < x" "digits_prec 17 x = (m, e)"
  shows "10 ^ 16 \<le> m" "m < 10 ^ 17" "\<bar>of_nat m * pow10 (e - 16) - x\<bar> < x / 2 ^ 54"
proof -
  define f where "f = dec_log x"
  define n where "n = round_even (x * pow10 (16 - f))"
  note log = dec_log_bounds [OF assms(1), folded f_def]
  have scale: "pow10 f * pow10 (16 - f) = 10 ^ 16" "pow10 (f + 1) * pow10 (16 - f) = 10 ^ 17" "pow10 (16 - f) * pow10 (f - 16) = 1"
    by (simp_all flip: power_int_add)
  have "of_int (10 ^ 16) \<le> x * pow10 (16 - f)" "x * pow10 (16 - f) \<le> of_int (10 ^ 17)"
    using mult_right_mono [OF log(1), of "pow10 (16 - f)"] mult_right_mono [OF less_imp_le [OF log(2)], of "pow10 (16 - f)"]
    by (simp_all add: scale)
  then have n: "10 ^ 16 \<le> n" "n \<le> 10 ^ 17"
    using round_even_mono [of "of_int (10 ^ 16)" "x * pow10 (16 - f)"] round_even_mono [of "x * pow10 (16 - f)" "of_int (10 ^ 17)"]
    unfolding round_even_of_int n_def by blast+
  have "\<bar>of_int n * pow10 (f - 16) - x\<bar> = \<bar>(of_int n - x * pow10 (16 - f)) * pow10 (f - 16)\<bar>"
    by (simp add: left_diff_distrib mult.assoc scale)
  also have "\<dots> \<le> 1 / 2 * pow10 (f - 16)"
    using round_even_error [of "x * pow10 (16 - f)"] by (simp add: abs_mult mult_right_mono flip: n_def)
  also have "\<dots> = pow10 f / (2 * 10 ^ 16)" by (simp add: power_int_diff)
  also have "\<dots> \<le> x / (2 * 10 ^ 16)" using log(1) by (simp add: divide_right_mono)
  also have "\<dots> < x / 2 ^ 54" using assms(1) by (intro divide_strict_left_mono) simp_all
  finally have near: "\<bar>of_int n * pow10 (f - 16) - x\<bar> < x / 2 ^ 54" .
  have me: "(m, e) = (if nat n = 10 ^ 17 then (10 ^ 16, f + 1) else (nat n, f))"
    using assms(2) by (simp add: digits_prec_def Let_def f_def n_def cong: if_cong)
  have "of_nat m * pow10 (e - 16) = of_int n * pow10 (f - 16) \<and> 10 ^ 16 \<le> m \<and> m < 10 ^ 17"
  proof (cases "n = 10 ^ 17")
    case True
    then show ?thesis using me by (simp add: power_int_diff power_int_add)
  next
    case False
    then have "m = nat n" "e = f" using me n(1) by (simp_all add: nat_eq_iff split: if_splits)
    then show ?thesis using n False by (simp add: nat_less_iff le_nat_iff)
  qed
  then show "10 ^ 16 \<le> m" "m < 10 ^ 17" "\<bar>of_nat m * pow10 (e - 16) - x\<bar> < x / 2 ^ 54" using near by simp_all
qed

text \<open>
  \<open>std::stod\<close> reads back exactly what \<open>operator<<\<close> printed after \<open>std::setprecision(17)\<close>.
\<close>

lemma stod_show_exact_pos:
  assumes "valid_double (Fin x)" "1 / 2 ^ 1022 < x"
  shows "stod (show_double_prec 17 (Fin x)) = Inr (Fin x)" "stod (show_double_prec 17 (Fin (- x))) = Inr (Fin (- x))"
proof -
  obtain m e where d: "digits_prec 17 x = (m, e)" by force
  have x: "0 < x" using assms(2) by (rule less_trans [rotated]) simp
  note near = digits17_near [OF x d]
  have valid: "rnd64 x = x" "\<bar>x\<bar> < 2 ^ 1024" using assms(1) by (simp_all add: valid_double_def)
  have r: "rnd64 (of_nat m * pow10 (e - 16)) = x" using valid(1) assms(2) near(3) by (rule rnd64_nearest)
  then have "to_double (of_nat m * pow10 (e - 16)) = Fin x" using valid(2) x by (simp add: to_double_def Let_def)
  moreover from this have "\<not> out_of_double_range (of_nat m * pow10 (e - 16))"
    using r assms(2) x by (simp add: out_of_double_range_def)
  ultimately show "stod (show_double_prec 17 (Fin x)) = Inr (Fin x)" "stod (show_double_prec 17 (Fin (- x))) = Inr (Fin (- x))"
    using stod_pos_show_prec [OF d _ near(2) _ x] near(1) by (auto intro!: stod_of_pos)
qed

lemma stod_show_exact: "normal_double x \<Longrightarrow> stod (show_double_prec 17 x) = Inr x"
proof (cases x)
  case (Fin r)
  assume n: "normal_double x"
  consider "r = 0" | "1 / 2 ^ 1022 < r" | "1 / 2 ^ 1022 < - r" using n Fin by (fastforce simp: normal_double_def abs_if split: if_splits)
  then show ?thesis
  proof cases
    case 1
    then show ?thesis using stod_of_pos [OF stod_pos_zero] by (simp add: Fin zero_double_def)
  next
    case 2
    then show ?thesis using n Fin stod_show_exact_pos(1) [of r] by (simp add: normal_double_def)
  next
    case 3
    then show ?thesis using n Fin stod_show_exact_pos(2) [of "- r"] valid_uminus [of "Fin r"] by (simp add: normal_double_def)
  qed
next
  case PInf
  have "stod ''inf'' = Inr PInf" by code_simp
  then show ?thesis by (simp add: PInf)
next
  case NInf
  have "stod ''-inf'' = Inr NInf" by code_simp
  then show ?thesis by (simp add: NInf)
next
  case NaN
  have "stod ''nan'' = Inr NaN" by code_simp
  then show ?thesis by (simp add: NaN)
qed

subsection \<open>Six decimals\<close>

definition six_decimals :: "double \<Rightarrow> bool" where
  "six_decimals x \<longleftrightarrow> (\<exists>k \<le> 10 ^ 15. x = Fin (rnd64 (of_nat k / 10 ^ 6)) \<or> x = - Fin (rnd64 (of_nat k / 10 ^ 6)))"

lemma show_nat_zero: "show_nat 0 = ''0''"
  by code_simp

lemma read_show_fixed6:
  assumes "round_even (x * 10 ^ 6) = int k"
  shows "read_decimal (show_fixed6 x) = Some (of_nat k / 10 ^ 6, []) \<and> (\<exists>c s. show_fixed6 x = c # s \<and> is_digit c \<and> (\<forall>c \<in> set (show_fixed6 x). num_char c))"
proof -
  define f where "f = show_nat (k mod 10 ^ 6)"
  define fp where "fp = replicate (6 - length f) CHR ''0'' @ f"
  have "k mod 10 ^ 6 < 10 ^ 6" by simp
  then have "length f \<le> 6"
  proof -
    have "10 ^ (length f - 1) < (10 ^ 6 :: nat) \<or> k mod 10 ^ 6 = 0"
      using show_nat_length [of "k mod 10 ^ 6"] \<open>k mod 10 ^ 6 < 10 ^ 6\<close> by (auto simp: f_def intro: le_less_trans)
    then show ?thesis
    proof
      assume "10 ^ (length f - 1) < (10 ^ 6 :: nat)"
      then have "length f - 1 < 6" by (rule power_less_imp_less_exp [rotated]) simp
      then show ?thesis by simp
    next
      assume "k mod 10 ^ 6 = 0"
      then have "f = ''0''" by (simp only: f_def show_nat_zero)
      then show ?thesis by simp
    qed
  qed
  then have len: "length fp = 6" by (simp add: fp_def)
  have zero: "is_digit CHR ''0''" by (simp add: is_digit_def)
  have fdig: "\<forall>c \<in> set fp. is_digit c" using zero by (auto simp: fp_def f_def show_nat_digits)
  have fval: "read_digits fp = k mod 10 ^ 6"
    using read_digits_append [of "replicate (6 - length f) CHR ''0''" f] by (simp add: fp_def f_def read_show_nat read_digits_zeros)
  have str: "show_fixed6 x = show_nat (k div 10 ^ 6) @ CHR ''.'' # fp @ []"
    using assms by (simp add: show_fixed6_def Let_def f_def fp_def)
  have "read_mantissa is_digit (show_fixed6 x) = (show_nat (k div 10 ^ 6), fp, [])"
    unfolding str using fdig by (intro read_mantissa_digits) (auto simp: show_nat_digits)
  moreover have "read_digits (show_nat (k div 10 ^ 6) @ fp) = k"
    by (simp add: read_digits_append len fval read_show_nat)
  moreover have "pow10 (0 - int (length fp)) = 1 / 10 ^ 6" unfolding len by (simp add: power_int_minus divide_simps)
  ultimately have "read_decimal (show_fixed6 x) = Some (of_nat k / 10 ^ 6, [])"
    by (simp add: read_decimal_def read_exponent_Nil)
  moreover obtain c s where "show_nat (k div 10 ^ 6) = c # s" by (cases "show_nat (k div 10 ^ 6)") auto
  ultimately show ?thesis
    using fdig show_nat_digits [of _ "k div 10 ^ 6"] by (auto simp: str num_char_def)
qed

lemma micro_decimal:
  fixes k :: nat and d :: rat
  assumes "k \<le> 10 ^ 15" "d = of_nat k / 10 ^ 6"
  shows "rnd64 d < 2 ^ 1024" "0 \<le> rnd64 d" "\<not> (\<bar>rnd64 d\<bar> < 1 / 2 ^ 1022 \<and> rnd64 d \<noteq> d)"
    "round_even (rnd64 d * 10 ^ 6) = int k" "rnd64 d = 0 \<longleftrightarrow> k = 0"
proof -
  note d_def = assms(2)
  have kr: "(of_nat k :: rat) \<le> 10 ^ 15" using assms(1) of_nat_le_iff [of k "10 ^ 15", where 'a=rat] by simp
  have d1: "d \<le> 2 ^ 40" using kr by (simp add: d_def)
  have "rnd64 (2 ^ 40) = 2 ^ 40" using rnd64_grid [of 1 40] by simp
  then have "rnd64 d \<le> 2 ^ 40" using rnd64_mono [OF d1] by simp
  then show "rnd64 d < 2 ^ 1024" by (rule le_less_trans) simp
  show "0 \<le> rnd64 d" by (simp add: rnd64_nonneg d_def)
  have "k = 0 \<or> pow2 (- 1000) \<le> rnd64 d \<and> \<bar>rnd64 d * 10 ^ 6 - of_int (int k)\<bar> < 1 / 2"
  proof (cases "k = 0")
    case False
    then have "1 / 10 ^ 6 \<le> d" by (simp add: d_def divide_right_mono)
    moreover have "pow2 (- 1000) \<le> 1 / 10 ^ 6" by (simp add: power_int_minus divide_simps)
    ultimately have d0: "pow2 (- 1000) \<le> d" by simp
    then have pos: "0 < d" using pow2_pos [of "- 1000"] by linarith
    have "pow2 (- 1022) \<le> pow2 (- 1000)" by simp
    then have normal: "- 1022 \<le> ilog2 d" using d0 pos by (intro ilog2_normal) simp_all
    have "rnd64 (pow2 (- 1000)) = pow2 (- 1000)" using rnd64_grid [of 1 "- 1000"] by simp
    then have "pow2 (- 1000) \<le> rnd64 d" using rnd64_mono [OF d0] by simp
    moreover have "\<bar>rnd64 d * 10 ^ 6 - d * 10 ^ 6\<bar> < 1 / 2"
      using kr by (intro scaled_near [OF rnd64_error [OF pos normal]]) (simp_all add: d_def)
    ultimately show ?thesis by (simp add: d_def)
  qed simp
  moreover have "rnd64 0 = 0" by (simp add: rnd64_def)
  moreover have "1 / 2 ^ 1022 \<le> pow2 (- 1000)" by (simp add: power_int_minus divide_simps)
  moreover have "0 < pow2 (- 1000)" by (rule pow2_pos)
  moreover have "k = 0 \<Longrightarrow> d = 0" by (simp add: d_def)
  moreover have "round_even 0 = 0" using round_even_of_int [of 0] by simp
  ultimately show "\<not> (\<bar>rnd64 d\<bar> < 1 / 2 ^ 1022 \<and> rnd64 d \<noteq> d)" "round_even (rnd64 d * 10 ^ 6) = int k" "rnd64 d = 0 \<longleftrightarrow> k = 0"
    by (auto simp del: power_int_minus intro: round_even_near)
qed

text \<open>
  What a double becomes when it is printed with six decimals and read again: the nearest double to the
  nearest millionth.
\<close>

definition six_places :: "rat \<Rightarrow> rat" where
  "six_places x = rnd64 (of_int (round_even (x * 10 ^ 6)) / 10 ^ 6)"

lemma six_places_neg: "six_places (- x) = - six_places x"
  by (simp add: six_places_def round_even_neg rnd64_neg)

lemma stod_pos_to_string_double:
  assumes "round_even (\<bar>x\<bar> * 10 ^ 6) \<le> 10 ^ 15"
  shows "stod_pos (to_string_double (Fin x)) = Inr (Fin (six_places x), length (to_string_double (Fin x)))"
proof -
  have "0 \<le> round_even (\<bar>x\<bar> * 10 ^ 6)" using round_even_mono [of 0 "\<bar>x\<bar> * 10 ^ 6"] round_even_of_int [of 0] by simp
  then obtain k where k: "round_even (\<bar>x\<bar> * 10 ^ 6) = int k" "k \<le> 10 ^ 15"
    using assms by (metis nonneg_int_cases of_nat_le_iff of_nat_numeral of_nat_power)
  define d :: rat where "d = of_nat k / 10 ^ 6"
  note range = micro_decimal [OF k(2) d_def]
  obtain c s where cs: "show_fixed6 \<bar>x\<bar> = c # s" "is_digit c" "\<forall>c \<in> set (show_fixed6 \<bar>x\<bar>). num_char c"
    and read: "read_decimal (show_fixed6 \<bar>x\<bar>) = Some (d, [])"
    using read_show_fixed6 [OF k(1)] by (auto simp: d_def)
  have "to_double d = Fin (rnd64 d)" "\<not> out_of_double_range d"
    using range by (auto simp: to_double_def out_of_double_range_def Let_def)
  note signed = stod_pos_signed [OF cs read this]
  have "six_places \<bar>x\<bar> = rnd64 d" using k(1) by (simp add: six_places_def d_def)
  then have "six_places x = (if x < 0 then - rnd64 d else rnd64 d)" using six_places_neg [of x] by (auto simp: abs_if split: if_splits)
  then show ?thesis using signed by (auto simp: abs_if split: if_splits)
qed

lemma six_decimals_places:
  assumes "six_decimals x"
  obtains r where "x = Fin r" "six_places r = r" "round_even (\<bar>r\<bar> * 10 ^ 6) \<le> 10 ^ 15"
proof -
  obtain k :: nat where k: "k \<le> 10 ^ 15" and x: "x = Fin (rnd64 (of_nat k / 10 ^ 6)) \<or> x = - Fin (rnd64 (of_nat k / 10 ^ 6))"
    using assms by (auto simp: six_decimals_def)
  define d :: rat where "d = of_nat k / 10 ^ 6"
  note range = micro_decimal [OF k d_def]
  have "six_places (rnd64 d) = rnd64 d" using range(4) by (simp add: six_places_def d_def)
  moreover have "round_even (\<bar>rnd64 d\<bar> * 10 ^ 6) \<le> 10 ^ 15" using range(2,4) k of_nat_le_iff [of k "10 ^ 15", where 'a=int] by simp
  moreover have "x = Fin (rnd64 d) \<or> x = Fin (- rnd64 d)" using x by (simp add: d_def)
  ultimately show thesis using that [of "rnd64 d"] that [of "- rnd64 d"] by (auto simp: six_places_neg)
qed

lemma stod_to_string_double: "six_decimals x \<Longrightarrow> stod (to_string_double x) = Inr x"
  using stod_of_pos [OF stod_pos_to_string_double] by (auto elim!: six_decimals_places)

lemma six_places_normal:
  assumes "round_even (\<bar>x\<bar> * 10 ^ 6) \<le> 10 ^ 15"
  shows "normal_double (Fin (six_places x))"
proof -
  have "0 \<le> round_even (\<bar>x\<bar> * 10 ^ 6)" using round_even_mono [of 0 "\<bar>x\<bar> * 10 ^ 6"] round_even_of_int [of 0] by simp
  then obtain k where k: "round_even (\<bar>x\<bar> * 10 ^ 6) = int k" "k \<le> 10 ^ 15"
    using assms by (metis nonneg_int_cases of_nat_le_iff of_nat_numeral of_nat_power)
  define d :: rat where "d = of_nat k / 10 ^ 6"
  note range = micro_decimal [OF k(2) d_def]
  have big: "k = 0 \<or> 1 / 2 ^ 1022 < rnd64 d"
  proof (cases "k = 0")
    case False
    have "1 / 2 ^ 1000 \<le> d" using False by (simp add: d_def divide_simps)
    then have "rnd64 (1 / 2 ^ 1000) \<le> rnd64 d" by (rule rnd64_mono)
    moreover have "rnd64 (1 / 2 ^ 1000) = 1 / 2 ^ 1000" using rnd64_grid [of 1 "- 1000"] by (simp add: power_int_minus divide_simps)
    moreover have "(1::rat) / 2 ^ 1022 < 1 / 2 ^ 1000" by (simp add: divide_simps)
    ultimately show ?thesis by linarith
  qed simp
  have "six_places \<bar>x\<bar> = rnd64 d" using k(1) by (simp add: six_places_def d_def)
  then have "six_places x = (if x < 0 then - rnd64 d else rnd64 d)" using six_places_neg [of x] by (auto simp: abs_if split: if_splits)
  then show ?thesis
    using big range(1,2,5) by (auto simp: normal_double_def rnd64_neg rnd64_idem)
qed

end
