(* ===== verification/Benchmark.thy ===== *)
theory Benchmark
  imports Ingestion Cpp_Format "HOL-Library.Signed_Division"
begin

section \<open>The ingestion benchmark\<close>

text \<open>
  \<open>src/tools/benchmark_main.cpp\<close>: decorators around the mock consumer, the in-memory stores and an event handler
  measure what each step of \<open>process_next\<close> takes. All of them write to one recorder and read one steady clock, so
  they are calls on one state. \<open>now\<close> is the sequence of readings of the clock, in nanoseconds.
\<close>

subsection \<open>The recorder\<close>

record benchmark_step_stats =
  bk_call_count :: int64
  bk_total_duration :: int64
  bk_max_duration :: int64

definition no_calls :: benchmark_step_stats where
  "no_calls = \<lparr>bk_call_count = 0, bk_total_duration = 0, bk_max_duration = 0\<rparr>"

definition add_duration :: "int64 \<Rightarrow> benchmark_step_stats \<Rightarrow> benchmark_step_stats" where
  "add_duration duration s =
     \<lparr>bk_call_count = bk_call_count s + 1, bk_total_duration = bk_total_duration s + duration,
      bk_max_duration = (if bk_max_duration s < duration then duration else bk_max_duration s)\<rparr>"

type_synonym benchmark_recorder = "string \<rightharpoonup> benchmark_step_stats"

definition recorder_record :: "string \<Rightarrow> int64 \<Rightarrow> benchmark_recorder \<Rightarrow> benchmark_recorder" where
  "recorder_record step_name duration stats =
     stats(step_name \<mapsto> add_duration duration (case stats step_name of None \<Rightarrow> no_calls | Some s \<Rightarrow> s))"

text \<open>Exceptions of the benchmark: a \<open>runtime_error\<close> with its message, or one whose text the code leaves to a library.\<close>

datatype benchmark_failure = Message string | Other_exception

definition recorder_step :: "string \<Rightarrow> benchmark_recorder \<Rightarrow> benchmark_failure + benchmark_step_stats" where
  "recorder_step step_name stats =
     (case stats step_name of None \<Rightarrow> Inl (Message (''missing benchmark step: '' @ step_name)) | Some s \<Rightarrow> Inr s)"

subsection \<open>Timed calls\<close>

record benchmark_world =
  bw_recorder :: benchmark_recorder
  bw_readings :: nat
  bw_published :: nat
  bw_consumer :: mock_transaction_consumer
  bw_repository :: transaction_repository
  bw_cache :: transaction_cache

definition read_clock :: "(nat \<Rightarrow> int64) \<Rightarrow> benchmark_world \<Rightarrow> int64 \<times> benchmark_world" where
  "read_clock now w = (now (bw_readings w), w\<lparr>bw_readings := bw_readings w + 1\<rparr>)"

definition stop_clock :: "(nat \<Rightarrow> int64) \<Rightarrow> (int64 \<Rightarrow> benchmark_recorder \<Rightarrow> benchmark_recorder) \<Rightarrow> int64 \<Rightarrow> benchmark_world \<Rightarrow> benchmark_world" where
  "stop_clock now note_duration started w =
     (let (finished, w1) = read_clock now w in w1\<lparr>bw_recorder := note_duration (finished - started) (bw_recorder w1)\<rparr>)"

text \<open>A call between two readings; one that throws is not recorded.\<close>

definition timed ::
  "(nat \<Rightarrow> int64) \<Rightarrow> (int64 \<Rightarrow> benchmark_recorder \<Rightarrow> benchmark_recorder) \<Rightarrow> ('a, benchmark_world) action \<Rightarrow> ('a, benchmark_world) action" where
  "timed now note_duration m w =
     (let (started, w1) = read_clock now w
      in bindA m (\<lambda>r. bindA (total (stop_clock now note_duration started)) (\<lambda>_. ret r)) w1)"

abbreviation on_bw_consumer :: "('a, mock_transaction_consumer) action \<Rightarrow> ('a, benchmark_world) action" where
  "on_bw_consumer \<equiv> on_part bw_consumer (\<lambda>c. bw_consumer_update (\<lambda>_. c))"

abbreviation on_bw_repository :: "('a, transaction_repository) action \<Rightarrow> ('a, benchmark_world) action" where
  "on_bw_repository \<equiv> on_part bw_repository (\<lambda>r. bw_repository_update (\<lambda>_. r))"

abbreviation on_bw_cache :: "('a, transaction_cache) action \<Rightarrow> ('a, benchmark_world) action" where
  "on_bw_cache \<equiv> on_part bw_cache (\<lambda>k. bw_cache_update (\<lambda>_. k))"

definition bench_poll :: "(nat \<Rightarrow> int64) \<Rightarrow> (transaction_command option, benchmark_world) action" where
  "bench_poll now = timed now (recorder_record ''step_1_poll'') (on_bw_consumer mock_poll_action)"

definition bench_commit :: "(nat \<Rightarrow> int64) \<Rightarrow> transaction_command \<Rightarrow> (unit, benchmark_world) action" where
  "bench_commit now c = timed now (recorder_record ''step_5_commit'') (on_bw_consumer (mock_commit_action c))"

definition bench_save_received :: "(nat \<Rightarrow> int64) \<Rightarrow> transaction_command \<Rightarrow> (unit, benchmark_world) action" where
  "bench_save_received now c = timed now (recorder_record ''step_2_save_received'') (on_bw_repository (total (save_received c)))"

definition bench_save_processed :: "(nat \<Rightarrow> int64) \<Rightarrow> string \<Rightarrow> string \<Rightarrow> (unit, benchmark_world) action" where
  "bench_save_processed now i status =
     timed now (recorder_record ''step_5_save_processed'') (on_bw_repository (total (save_processed i status)))"

definition bench_set_status :: "(nat \<Rightarrow> int64) \<Rightarrow> string \<Rightarrow> string \<Rightarrow> (unit, benchmark_world) action" where
  "bench_set_status now i status =
     timed now
       (\<lambda>duration. if status = ''received'' then recorder_record ''step_2_cache_received'' duration
          else if status = ''processed'' \<or> status = ''rejected'' then recorder_record ''step_5_cache_final_status'' duration
          else id)
       (on_bw_cache (total (set_status i status)))"

text \<open>The one handler of the dispatcher.\<close>

definition bench_handler :: "(nat \<Rightarrow> int64) \<Rightarrow> engine_event \<Rightarrow> benchmark_world \<Rightarrow> benchmark_world" where
  "bench_handler now event w =
     (let (started, w1) = read_clock now w;
          w2 = (case event of TransactionCommand _ \<Rightarrow> w1\<lparr>bw_published := bw_published w1 + 1\<rparr> | _ \<Rightarrow> w1)
      in stop_clock now (recorder_record ''step_4_dispatch'') started w2)"

definition bench_calls :: "(nat \<Rightarrow> int64) \<Rightarrow> benchmark_world ingest_calls" where
  "bench_calls now = \<lparr>ic_poll = bench_poll now, ic_commit = bench_commit now, ic_save_received = bench_save_received now,
     ic_save_processed = bench_save_processed now, ic_set_status = bench_set_status now,
     ic_publish = \<lambda>e. total (dispatcher_publish [bench_handler now] e), ic_metrics = \<lambda>_ w. w\<rparr>"

subsection \<open>The benchmark\<close>

definition make_transaction :: "string \<Rightarrow> int64 \<Rightarrow> transaction_command" where
  "make_transaction i kafka_offset = \<lparr>tx_transaction_id = i, tx_user_id = ''user-1'', tx_account_id = ''account-1'',
     tx_command_type = ''place_order'', tx_instrument_symbol = ''BTCUSDT'', tx_quantity = Fin (3 / 2), tx_price = Some (Fin 42000),
     tx_kafka_topic = ''trading-transactions'', tx_kafka_partition = 0, tx_kafka_offset = kafka_offset\<rparr>"

definition bench_commands :: "nat \<Rightarrow> transaction_command list" where
  "bench_commands n = map (\<lambda>k. make_transaction (''bench-tx-'' @ show_nat (k + 1)) (int k)) [0..<n]"

definition benchmark_world_new :: "nat \<Rightarrow> benchmark_world" where
  "benchmark_world_new n = \<lparr>bw_recorder = (\<lambda>_. None), bw_readings = 0, bw_published = 0,
     bw_consumer = mock_transaction_consumer_new (bench_commands n), bw_repository = transaction_repository_new, bw_cache = []\<rparr>"

definition expect_true :: "bool \<Rightarrow> string \<Rightarrow> benchmark_failure + unit" where
  "expect_true condition message = (if condition then Inr () else Inl (Message message))"

definition bench_iteration :: "(nat \<Rightarrow> int64) \<Rightarrow> benchmark_world \<Rightarrow> (benchmark_failure + unit) \<times> benchmark_world" where
  "bench_iteration now w =
     (let (started, w1) = read_clock now w
      in case process_next (bench_calls now) None w1 of
           (None, w2) \<Rightarrow> (Inl Other_exception, w2)
         | (Some handled, w2) \<Rightarrow>
             (case expect_true handled ''benchmark iteration should process one transaction'' of
                Inl e \<Rightarrow> (Inl e, w2)
              | Inr _ \<Rightarrow> (Inr (), stop_clock now (recorder_record ''process_next_total'') started w2)))"

fun bench_loop :: "(nat \<Rightarrow> int64) \<Rightarrow> nat \<Rightarrow> benchmark_world \<Rightarrow> (benchmark_failure + unit) \<times> benchmark_world" where
  "bench_loop now 0 w = (Inr (), w)"
| "bench_loop now (Suc n) w =
     (case bench_iteration now w of (Inl e, w1) \<Rightarrow> (Inl e, w1) | (Inr _, w1) \<Rightarrow> bench_loop now n w1)"

text \<open>\<open>std::fixed\<close> with three decimals, on the conversion of an \<open>int64_t\<close> divided by a power of ten.\<close>

fun show_fixed3 :: "double \<Rightarrow> string" where
  "show_fixed3 (Fin x) =
     (let n = nat (round_even (\<bar>x\<bar> * 10 ^ 3)); f = show_nat (n mod 10 ^ 3)
      in (if x < 0 then ''-'' else '''') @ show_nat (n div 10 ^ 3) @ CHR ''.'' # replicate (3 - length f) CHR ''0'' @ f)"
| "show_fixed3 PInf = ''inf''"
| "show_fixed3 NInf = ''-inf''"
| "show_fixed3 NaN = ''nan''"

definition static_cast_double :: "int64 \<Rightarrow> double" where
  "static_cast_double i = to_double (of_int i)"

definition step_summary :: "string \<Rightarrow> benchmark_step_stats \<Rightarrow> string" where
  "step_summary step_name s =
     (let average_ns = (if 0 < bk_call_count s then bk_total_duration s sdiv bk_call_count s else 0)
      in ''[BENCH] '' @ step_name @ '' calls='' @ show_int (bk_call_count s) @
         '' avg_us='' @ show_fixed3 (static_cast_double average_ns / Fin 1000) @
         '' max_us='' @ show_fixed3 (static_cast_double (bk_max_duration s) / Fin 1000) @
         '' total_ms='' @ show_fixed3 (static_cast_double (bk_total_duration s) / Fin 1000000) @ [CHR 0x0A])"

fun print_steps :: "benchmark_recorder \<Rightarrow> string list \<Rightarrow> string \<Rightarrow> (benchmark_failure + unit) \<times> string" where
  "print_steps stats [] out = (Inr (), out)"
| "print_steps stats (step_name # names) out =
     (case recorder_step step_name stats of
        Inl e \<Rightarrow> (Inl e, out) | Inr s \<Rightarrow> print_steps stats names (out @ step_summary step_name s))"

definition summary_steps :: "string list" where
  "summary_steps = [''process_next_total'', ''step_1_poll'', ''step_2_save_received'', ''step_2_cache_received'',
     ''step_4_dispatch'', ''step_5_save_processed'', ''step_5_cache_final_status'', ''step_5_commit'']"

definition benchmark_header :: "nat \<Rightarrow> string" where
  "benchmark_header n = ''[BENCH] transaction_ingestor_step_benchmark iterations='' @ show_nat n @ [CHR 0x0A]"

text \<open>
  The result and what is on standard output. \<open>max_size\<close> is the limit of the library above which \<open>reserve\<close> throws
  \<open>length_error\<close>.
\<close>

definition run_benchmark :: "(nat \<Rightarrow> int64) \<Rightarrow> nat \<Rightarrow> nat \<Rightarrow> (benchmark_failure + unit) \<times> string" where
  "run_benchmark now max_size n =
     (if max_size < n then (Inl Other_exception, '''')
      else case bench_loop now n (benchmark_world_new n) of
        (Inl e, w) \<Rightarrow> (Inl e, '''')
      | (Inr _, w) \<Rightarrow>
          (case bindE (expect_true (bw_published w = n) ''every benchmark transaction should be dispatched'') (\<lambda>_.
                bindE (expect_true (length (mc_committed (bw_consumer w)) = n) ''every benchmark transaction should be committed'') (\<lambda>_.
                bindE (expect_true (length (tx_records (bw_repository w)) = n) ''every benchmark transaction should persist'') (\<lambda>_.
                expect_true (get_status ''bench-tx-1'' (bw_cache w) = ''processed'') ''benchmark cache should retain final status''))) of
             Inl e \<Rightarrow> (Inl e, '''')
           | Inr _ \<Rightarrow> print_steps (bw_recorder w) summary_steps (benchmark_header n)))"

text \<open>\<open>std::stoull\<close> negates modulo 2 to the 64.\<close>

definition stoull :: "string \<Rightarrow> std_exception + nat" where
  "stoull s =
     (let (neg, u) = read_sign (dropWhile is_space s); ds = takeWhile is_digit u; x = read_digits ds
      in if ds = [] then Inl Invalid_argument
         else if 2 ^ 64 \<le> x then Inl Out_of_range
         else Inr (if neg then (2 ^ 64 - x) mod 2 ^ 64 else x))"

text \<open>
  The exit status, standard output and the exception reported on standard error. An argument that is no number
  throws outside the \<open>try\<close>.
\<close>

definition benchmark_main :: "(nat \<Rightarrow> int64) \<Rightarrow> nat \<Rightarrow> string list \<Rightarrow> std_exception + nat \<times> string \<times> benchmark_failure option" where
  "benchmark_main now max_size args =
     bindE (case args of [] \<Rightarrow> Inr 2000 | a # _ \<Rightarrow> stoull a) (\<lambda>n.
     case run_benchmark now max_size n of
       (Inr _, out) \<Rightarrow> Inr (0, out, None)
     | (Inl e, out) \<Rightarrow> Inr (1, out, Some e))"

subsection \<open>One iteration\<close>

text \<open>The steps an iteration records, in this order, and the readings each lies between.\<close>

definition iteration_steps :: "(string \<times> nat \<times> nat) list" where
  "iteration_steps = [(''step_1_poll'', 1, 2), (''step_2_save_received'', 3, 4), (''step_2_cache_received'', 5, 6),
     (''step_4_dispatch'', 7, 8), (''step_5_save_processed'', 9, 10), (''step_5_cache_final_status'', 11, 12),
     (''step_5_commit'', 13, 14), (''process_next_total'', 0, 15)]"

definition record_iteration :: "(nat \<Rightarrow> int64) \<Rightarrow> nat \<Rightarrow> benchmark_recorder \<Rightarrow> benchmark_recorder" where
  "record_iteration now r stats = fold (\<lambda>(name, a, b). recorder_record name (now (r + b) - now (r + a))) iteration_steps stats"

lemma is_valid_make [simp]: "i \<noteq> [] \<Longrightarrow> 0 \<le> k \<Longrightarrow> is_valid (make_transaction i k)"
  by (simp add: is_valid_def make_transaction_def double_simps)

lemma bench_iteration_step:
  assumes "mc_next_index (bw_consumer w) < length (mc_commands (bw_consumer w))"
    and "c = mc_commands (bw_consumer w) ! mc_next_index (bw_consumer w)" and "is_valid c"
  shows "bench_iteration now w = (Inr (), w\<lparr>bw_recorder := record_iteration now (bw_readings w) (bw_recorder w),
    bw_readings := bw_readings w + 16, bw_published := bw_published w + 1,
    bw_consumer := mock_commit c (snd (mock_poll (bw_consumer w))),
    bw_repository := save_processed (tx_transaction_id c) ''processed'' (save_received c (bw_repository w)),
    bw_cache := set_status (tx_transaction_id c) ''processed'' (set_status (tx_transaction_id c) ''received'' (bw_cache w))\<rparr>)"
proof -
  define c1 where "c1 = (bw_consumer w)\<lparr>mc_next_index := mc_next_index (bw_consumer w) + 1\<rparr>"
  have poll: "mock_poll (bw_consumer w) = (Some c, c1)"
    using assms(1,2) by (simp add: mock_poll_def c1_def)
  show ?thesis
    using assms(3)
    by (simp add: bench_iteration_def process_next_def settle_def bench_calls_def bench_poll_def bench_commit_def bench_save_received_def
        bench_save_processed_def bench_set_status_def mock_poll_action_def mock_commit_action_def bench_handler_def expect_true_def
        action_defs poll timed_def count_metric_def latency_sample_def read_clock_def stop_clock_def record_iteration_def iteration_steps_def eval_nat_numeral)
qed

subsection \<open>All iterations\<close>

lemma get_set_status: "get_status i (set_status k st c) = (if i = k then st else get_status i c)"
proof (cases "update_first (\<lambda>e. fst e = k) (\<lambda>e. (fst e, st)) c")
  case None
  then have "map_of c k = None" by (auto simp: update_first_None map_of_eq_None_iff)
  then show ?thesis using None by (simp add: get_status_def set_status_def map_add_def split: option.split)
next
  case (Some c')
  then obtain us x vs where "c = us @ x # vs" "c' = us @ (fst x, st) # vs" "fst x = k" "\<forall>u \<in> set us. fst u \<noteq> k"
    using update_first_Some [OF Some] by auto
  moreover from this have "map_of us k = None" by (auto simp: map_of_eq_None_iff)
  ultimately show ?thesis using Some by (cases x) (auto simp: get_status_def set_status_def map_add_def split: option.split)
qed

lemma length_save_processed: "length (tx_records (save_processed (tx_transaction_id c) st (save_received c R))) = Suc (length (tx_records R))"
proof (cases "update_first (\<lambda>r. tr_transaction_id r = tx_transaction_id c) (\<lambda>r. r\<lparr>tr_status := st\<rparr>) (tx_records (save_received c R))")
  case None
  then show ?thesis unfolding update_first_None by (simp add: save_received_def)
next
  case (Some rs)
  have "length rs = length (tx_records (save_received c R))" using update_first_map [OF Some, of "\<lambda>_. ()"] map_eq_imp_length_eq by fastforce
  then show ?thesis using Some by (simp add: save_processed_def) (simp add: save_received_def)
qed

definition recorder_after :: "(nat \<Rightarrow> int64) \<Rightarrow> nat \<Rightarrow> benchmark_recorder" where
  "recorder_after now k = fold (\<lambda>i. record_iteration now (16 * i)) [0..<k] (\<lambda>_. None)"

definition bench_state :: "(nat \<Rightarrow> int64) \<Rightarrow> nat \<Rightarrow> nat \<Rightarrow> benchmark_world \<Rightarrow> bool" where
  "bench_state now n k w \<longleftrightarrow> bw_readings w = 16 * k \<and> bw_published w = k \<and> bw_recorder w = recorder_after now k \<and>
     bw_consumer w = \<lparr>mc_commands = bench_commands n, mc_committed = take k (bench_commands n), mc_next_index = k\<rparr> \<and>
     length (tx_records (bw_repository w)) = k \<and> get_status ''bench-tx-1'' (bw_cache w) = (if k = 0 then '''' else ''processed'')"

lemma show_one: "show_nat (Suc 0) = ''1''"
  by code_simp

lemma bench_state_step:
  assumes "bench_state now n k w" "k < n"
  obtains w' where "bench_iteration now w = (Inr (), w')" "bench_state now n (Suc k) w'"
proof -
  define c where "c = bench_commands n ! k"
  have c: "c = make_transaction (''bench-tx-'' @ show_nat (k + 1)) (int k)" using assms(2) by (simp add: c_def bench_commands_def)
  have len: "length (bench_commands n) = n" by (simp add: bench_commands_def)
  have consumer: "bw_consumer w = \<lparr>mc_commands = bench_commands n, mc_committed = take k (bench_commands n), mc_next_index = k\<rparr>"
    using assms(1) by (simp add: bench_state_def)
  have first: "tx_transaction_id c = ''bench-tx-1''" if "k = 0" using that by (simp add: c make_transaction_def show_one)
  have "bench_iteration now w = (Inr (), w\<lparr>bw_recorder := record_iteration now (bw_readings w) (bw_recorder w),
    bw_readings := bw_readings w + 16, bw_published := bw_published w + 1,
    bw_consumer := mock_commit c (snd (mock_poll (bw_consumer w))),
    bw_repository := save_processed (tx_transaction_id c) ''processed'' (save_received c (bw_repository w)),
    bw_cache := set_status (tx_transaction_id c) ''processed'' (set_status (tx_transaction_id c) ''received'' (bw_cache w))\<rparr>)"
    using assms(2) by (intro bench_iteration_step) (simp_all add: consumer len c_def [symmetric], simp add: c)
  then show thesis
    by (rule that)
      (use assms first in \<open>auto simp: c_def bench_state_def consumer get_set_status length_save_processed recorder_after_def mock_poll_def
         mock_commit_def len take_Suc_conv_app_nth\<close>)
qed

lemma bench_loop_state:
  "bench_state now n k w \<Longrightarrow> k + m \<le> n \<Longrightarrow> \<exists>w'. bench_loop now m w = (Inr (), w') \<and> bench_state now n (k + m) w'"
proof (induction m arbitrary: k w)
  case (Suc m)
  obtain w1 where "bench_iteration now w = (Inr (), w1)" "bench_state now n (Suc k) w1"
    using bench_state_step [OF Suc.prems(1)] Suc.prems(2) by auto
  then show ?case using Suc.IH [of "Suc k" w1] Suc.prems(2) by auto
qed auto

subsection \<open>What the benchmark reports\<close>

definition step_stats :: "(nat \<Rightarrow> int64) \<Rightarrow> nat \<Rightarrow> nat \<Rightarrow> nat \<Rightarrow> benchmark_step_stats" where
  "step_stats now n a b = fold add_duration (map (\<lambda>i. now (16 * i + b) - now (16 * i + a)) [0..<n]) no_calls"

lemma fold_recorder_other:
  "name \<notin> fst ` set xs \<Longrightarrow> fold (\<lambda>(name, a, b). recorder_record name (d a b)) xs stats name = stats name"
  by (induction xs arbitrary: stats) (auto simp: recorder_record_def)

lemma fold_recorder_at:
  "distinct (map fst xs) \<Longrightarrow> (name, a, b) \<in> set xs \<Longrightarrow> fold (\<lambda>(name, a, b). recorder_record name (d a b)) xs stats name =
     Some (add_duration (d a b) (case stats name of None \<Rightarrow> no_calls | Some s \<Rightarrow> s))"
proof (induction xs arbitrary: stats)
  case (Cons x xs)
  obtain m p q where x: "x = (m, p, q)" by (cases x)
  show ?case
  proof (cases "m = name")
    case True
    then have "name \<notin> fst ` set xs" using Cons.prems(1) x by simp
    moreover from this have "x = (name, a, b)" using Cons.prems(2) by force
    ultimately show ?thesis
      using fold_recorder_other [of name xs d "recorder_record name (d a b) stats"] by (simp add: recorder_record_def [of name "d a b" stats])
  next
    case False
    then show ?thesis using Cons x by (simp add: recorder_record_def)
  qed
qed simp

lemma record_iteration_at:
  "(name, a, b) \<in> set iteration_steps \<Longrightarrow> record_iteration now r stats name =
     Some (add_duration (now (r + b) - now (r + a)) (case stats name of None \<Rightarrow> no_calls | Some s \<Rightarrow> s))"
  unfolding record_iteration_def
  by (rule fold_recorder_at [where d = "\<lambda>a b. now (r + b) - now (r + a)"]) (simp_all add: iteration_steps_def)

lemma recorder_after_at:
  assumes "(name, a, b) \<in> set iteration_steps"
  shows "recorder_after now n name = (if n = 0 then None else Some (step_stats now n a b))"
proof (induction n)
  case (Suc n)
  then show ?case
    using record_iteration_at [OF assms, of now "16 * n" "recorder_after now n"] by (simp add: recorder_after_def step_stats_def)
qed (simp add: recorder_after_def)

lemma step_stats_Suc: "step_stats now (Suc n) a b = add_duration (now (16 * n + b) - now (16 * n + a)) (step_stats now n a b)"
  by (simp add: step_stats_def)

lemma step_stats_count: "bk_call_count (step_stats now n a b) = int n"
  by (induction n) (simp_all add: step_stats_Suc add_duration_def, simp add: step_stats_def no_calls_def)

lemma step_stats_total: "bk_total_duration (step_stats now n a b) = (\<Sum>i<n. now (16 * i + b) - now (16 * i + a))"
  by (induction n) (simp_all add: step_stats_Suc add_duration_def, simp add: step_stats_def no_calls_def)

lemma step_stats_max:
  assumes "mono now" "a \<le> b"
  shows "0 \<le> bk_max_duration (step_stats now n a b) \<and> bk_max_duration (step_stats now n a b) \<le> bk_total_duration (step_stats now n a b)"
proof (induction n)
  case 0
  show ?case by (simp add: step_stats_def no_calls_def)
next
  case (Suc n)
  have "now (16 * n + a) \<le> now (16 * n + b)" using assms by (simp add: monoD)
  then show ?case using Suc by (auto simp: step_stats_Suc add_duration_def)
qed

lemma summary_step_recorded:
  assumes "name \<in> set summary_steps"
  obtains a b where "(name, a, b) \<in> set iteration_steps" "a \<le> b"
proof -
  have "list_all (\<lambda>name. case map_of iteration_steps name of None \<Rightarrow> False | Some (a, b) \<Rightarrow> a \<le> b) summary_steps" by code_simp
  then have "case map_of iteration_steps name of None \<Rightarrow> False | Some (a, b) \<Rightarrow> a \<le> b" using assms by (simp add: list_all_iff)
  then show thesis using that by (auto split: option.splits dest: map_of_SomeD)
qed

lemma print_steps_all:
  "(\<And>name. name \<in> set names \<Longrightarrow> stats name = Some (f name)) \<Longrightarrow>
     print_steps stats names out = (Inr (), out @ concat (map (\<lambda>name. step_summary name (f name)) names))"
  by (induction names arbitrary: out) (simp_all add: recorder_step_def)

lemma bench_loop_start:
  obtains w where "bench_loop now n (benchmark_world_new n) = (Inr (), w)" "bench_state now n n w"
proof -
  have "bench_state now n 0 (benchmark_world_new n)"
    by (simp add: bench_state_def benchmark_world_new_def recorder_after_def mock_transaction_consumer_new_def transaction_repository_new_def
        get_status_def)
  then show thesis using that bench_loop_state [of now n 0 "benchmark_world_new n" n] by auto
qed

lemma run_benchmark_output:
  assumes "n \<le> max_size"
  shows "run_benchmark now max_size n =
    (if n = 0 then (Inl (Message ''benchmark cache should retain final status''), '''')
     else (Inr (), benchmark_header n @ concat (map (\<lambda>name. step_summary name (the (recorder_after now n name))) summary_steps)))"
proof -
  obtain w where w: "bench_loop now n (benchmark_world_new n) = (Inr (), w)" "bench_state now n n w" by (rule bench_loop_start)
  have committed: "length (mc_committed (bw_consumer w)) = n" using w(2) by (simp add: bench_state_def bench_commands_def)
  have recorded: "bw_recorder w name = Some (the (recorder_after now n name))" if "name \<in> set summary_steps" "n \<noteq> 0" for name
  proof -
    obtain a b where "(name, a, b) \<in> set iteration_steps" using \<open>name \<in> set summary_steps\<close> by (rule summary_step_recorded)
    then show ?thesis using recorder_after_at [of name a b now n] w(2) that(2) by (simp add: bench_state_def)
  qed
  show ?thesis
    using assms w committed print_steps_all [of summary_steps "bw_recorder w" "\<lambda>name. the (recorder_after now n name)" "benchmark_header n"] recorded
    by (auto simp: run_benchmark_def expect_true_def bench_state_def)
qed

lemma inner_steps_within_iteration:
  assumes "mono (now :: nat \<Rightarrow> int64)"
  shows "(\<Sum>(name, a, b) \<leftarrow> butlast iteration_steps. now (r + b) - now (r + a)) \<le> now (r + 15) - now r"
proof -
  have "now (r + k) \<le> now (r + Suc k)" for k using assms by (simp add: monoD)
  from this [of 0] this [of 2] this [of 4] this [of 6] this [of 8] this [of 10] this [of 12] this [of 14]
  show ?thesis by (simp add: iteration_steps_def)
qed

lemma inner_steps_within_total:
  assumes "mono now"
  shows "(\<Sum>(name, a, b) \<leftarrow> butlast iteration_steps. bk_total_duration (step_stats now n a b)) \<le> bk_total_duration (step_stats now n 0 15)"
proof (induction n)
  case (Suc n)
  then show ?case
    using inner_steps_within_iteration [OF assms, of "16 * n"] by (simp add: step_stats_total iteration_steps_def)
qed (simp add: step_stats_total iteration_steps_def)

text \<open>
  The benchmark succeeds exactly when it is asked for at least one iteration. It then prints one line per step,
  each step having been called once per iteration; with a clock that never goes back, no step's longest call exceeds
  its total, and the totals of the seven inner steps together stay within the total of \<open>process_next\<close>.
\<close>

theorem benchmark_reports:
  assumes "mono now" "n \<le> max_size"
  shows "\<exists>stats. run_benchmark now max_size n =
      (if n = 0 then (Inl (Message ''benchmark cache should retain final status''), '''')
       else (Inr (), benchmark_header n @ concat (map (\<lambda>name. step_summary name (stats name)) summary_steps))) \<and>
    (\<forall>name \<in> set summary_steps. bk_call_count (stats name) = int n \<and> 0 \<le> bk_max_duration (stats name) \<and>
       bk_max_duration (stats name) \<le> bk_total_duration (stats name)) \<and>
    (\<Sum>name \<leftarrow> tl summary_steps. bk_total_duration (stats name)) \<le> bk_total_duration (stats (hd summary_steps))"
proof (cases "n = 0")
  case True
  then show ?thesis
    using run_benchmark_output [OF assms(2), of now] by (intro exI [of _ "\<lambda>_. no_calls"]) (simp add: no_calls_def summary_steps_def)
next
  case False
  define stats where "stats = (\<lambda>name. the (recorder_after now n name))"
  have stats: "stats name = step_stats now n a b" if "(name, a, b) \<in> set iteration_steps" for name a b
    using recorder_after_at [OF that, of now n] False by (simp add: stats_def)
  have each: "bk_call_count (stats name) = int n \<and> 0 \<le> bk_max_duration (stats name) \<and> bk_max_duration (stats name) \<le> bk_total_duration (stats name)"
    if "name \<in> set summary_steps" for name
  proof -
    obtain a b where "(name, a, b) \<in> set iteration_steps" "a \<le> b" using \<open>name \<in> set summary_steps\<close> by (rule summary_step_recorded)
    then show ?thesis using stats step_stats_count step_stats_max [OF assms(1)] by simp
  qed
  have "(\<Sum>name \<leftarrow> tl summary_steps. bk_total_duration (stats name)) \<le> bk_total_duration (stats (hd summary_steps))"
    using inner_steps_within_total [OF assms(1), of n] by (simp add: summary_steps_def stats iteration_steps_def)
  then show ?thesis
    using run_benchmark_output [OF assms(2), of now] False each by (intro exI [of _ stats]) (simp add: stats_def)
qed

theorem benchmark_reports_witness:
  "\<exists>stats. run_benchmark int 10 2 = (Inr (), benchmark_header 2 @ concat (map (\<lambda>name. step_summary name (stats name)) summary_steps)) \<and>
    bk_call_count (stats ''step_5_commit'') = 2"
  using benchmark_reports [of int 2 10] by (auto simp: mono_def summary_steps_def)

end
