(* ===== verification/Order_Book.thy ===== *)
theory Order_Book
  imports Core_Types
begin

section \<open>The limit order book\<close>

text \<open>
  \<open>include/execution/order_book.hpp\<close> and \<open>src/execution/order_book.cpp\<close>. A side of the book is a
  \<open>std::map\<close> from price to the queue of orders at that price, kept in iteration order: descending
  prices for bids (\<open>std::greater\<close>), ascending for asks (\<open>std::less\<close>). The map operations take the
  comparator, as the class template does, and are proved once for both in the locale
  \<open>price_ladder\<close>. The theory ends with the book's invariant, its preservation by the three
  operations that write the book, and the contract \<open>priority_side\<close> through which the matching engine
  uses a side.
\<close>

subsection \<open>Data\<close>

record order_book_level =
  obl_price :: double
  obl_total_quantity :: double
  obl_order_count :: nat

record resting_order =
  ro_order_id :: string
  ro_client_order_id :: string
  ro_request :: order_request
  ro_remaining_quantity :: double
  ro_sequence_number :: nat

record order_locator =
  loc_side :: order_side
  loc_price :: double

type_synonym levels = "(double \<times> resting_order list) list"

record order_book =
  ob_instrument :: instrument
  ob_bid_levels :: levels
  ob_ask_levels :: levels
  ob_order_index :: "string \<rightharpoonup> order_locator"
  ob_order_count :: size_t
  ob_next_sequence_number :: nat

definition order_book_new :: "instrument \<Rightarrow> order_book" where
  "order_book_new i = \<lparr>ob_instrument = i, ob_bid_levels = [], ob_ask_levels = [],
     ob_order_index = Map.empty, ob_order_count = 0, ob_next_sequence_number = 1\<rparr>"

subsection \<open>std::map with a price comparator\<close>

definition std_greater :: "double \<Rightarrow> double \<Rightarrow> bool" where
  "std_greater a b \<longleftrightarrow> b < a"

definition std_less :: "double \<Rightarrow> double \<Rightarrow> bool" where
  "std_less a b \<longleftrightarrow> a < b"

fun levels_find :: "(double \<Rightarrow> double \<Rightarrow> bool) \<Rightarrow> double \<Rightarrow> (double \<times> 'v) list \<Rightarrow> 'v option" where
  "levels_find cmp k [] = None"
| "levels_find cmp k ((k', v) # l) =
     (if cmp k' k then levels_find cmp k l else if cmp k k' then None else Some v)"

fun levels_push_back :: "(double \<Rightarrow> double \<Rightarrow> bool) \<Rightarrow> double \<Rightarrow> 'a \<Rightarrow> (double \<times> 'a list) list \<Rightarrow> (double \<times> 'a list) list" where
  "levels_push_back cmp k x [] = [(k, [x])]"
| "levels_push_back cmp k x ((k', v) # l) =
     (if cmp k' k then (k', v) # levels_push_back cmp k x l
      else if cmp k k' then (k, [x]) # (k', v) # l
      else (k', v @ [x]) # l)"

fun levels_set :: "(double \<Rightarrow> double \<Rightarrow> bool) \<Rightarrow> double \<Rightarrow> 'v \<Rightarrow> (double \<times> 'v) list \<Rightarrow> (double \<times> 'v) list" where
  "levels_set cmp k w [] = []"
| "levels_set cmp k w ((k', v) # l) =
     (if cmp k' k then (k', v) # levels_set cmp k w l else if cmp k k' then (k', v) # l else (k', w) # l)"

fun levels_erase :: "(double \<Rightarrow> double \<Rightarrow> bool) \<Rightarrow> double \<Rightarrow> (double \<times> 'v) list \<Rightarrow> (double \<times> 'v) list" where
  "levels_erase cmp k [] = []"
| "levels_erase cmp k ((k', v) # l) =
     (if cmp k' k then (k', v) # levels_erase cmp k l else if cmp k k' then (k', v) # l else l)"

subsection \<open>Operations of the book\<close>

definition is_request_compatible :: "order_book \<Rightarrow> order_request \<Rightarrow> string \<Rightarrow> string \<Rightarrow> double \<Rightarrow> bool" where
  "is_request_compatible b rq order_id client_order_id filled =
     (if order_id = '''' \<or> client_order_id = '''' then False
      else if instrument_id (rq_instrument rq) \<noteq> instrument_id (ob_instrument b) then False
      else if rq_type rq \<noteq> Limit then False
      else if (case rq_price rq of None \<Rightarrow> True | Some p \<Rightarrow> p \<le> 0) then False
      else if rq_quantity rq \<le> 0 \<or> filled < 0 \<or> rq_quantity rq - kQuantityTolerance \<le> filled then False
      else if ob_order_index b order_id \<noteq> None then False
      else True)"

definition add_order :: "order_book \<Rightarrow> order_request \<Rightarrow> string \<Rightarrow> string \<Rightarrow> double \<Rightarrow> bool \<times> order_book" where
  "add_order b rq order_id client_order_id filled =
     (if \<not> is_request_compatible b rq order_id client_order_id filled then (False, b)
      else
        let resting = \<lparr>ro_order_id = order_id, ro_client_order_id = client_order_id, ro_request = rq,
              ro_remaining_quantity = std_max 0 (rq_quantity rq - filled),
              ro_sequence_number = ob_next_sequence_number b\<rparr>;
            price = the (rq_price rq);
            b1 = b\<lparr>ob_next_sequence_number := ob_next_sequence_number b + 1\<rparr>;
            b2 = (if rq_side rq = Buy
              then b1\<lparr>ob_bid_levels := levels_push_back std_greater price resting (ob_bid_levels b1)\<rparr>
              else b1\<lparr>ob_ask_levels := levels_push_back std_less price resting (ob_ask_levels b1)\<rparr>)
        in (True, b2\<lparr>ob_order_index := (ob_order_index b2)(order_id \<mapsto> \<lparr>loc_side = rq_side rq, loc_price = price\<rparr>),
              ob_order_count := ob_order_count b2 + 1\<rparr>))"

fun erase_order :: "string \<Rightarrow> resting_order list \<Rightarrow> resting_order list option" where
  "erase_order order_id [] = None"
| "erase_order order_id (r # rs) =
     (if ro_order_id r = order_id then Some rs else map_option ((#) r) (erase_order order_id rs))"

definition erase_from_levels :: "(double \<Rightarrow> double \<Rightarrow> bool) \<Rightarrow> string \<Rightarrow> double \<Rightarrow> levels \<Rightarrow> levels option" where
  "erase_from_levels cmp order_id price levels =
     (case levels_find cmp price levels of None \<Rightarrow> None
      | Some orders \<Rightarrow> (case erase_order order_id orders of None \<Rightarrow> None
         | Some rest \<Rightarrow> Some (if rest = [] then levels_erase cmp price levels
                              else levels_set cmp price rest levels)))"

definition cancel_order :: "order_book \<Rightarrow> string \<Rightarrow> bool \<times> order_book" where
  "cancel_order b order_id =
     (case ob_order_index b order_id of None \<Rightarrow> (False, b)
      | Some loc \<Rightarrow>
        (case (if loc_side loc = Buy
            then map_option (\<lambda>l. b\<lparr>ob_bid_levels := l\<rparr>)
              (erase_from_levels std_greater order_id (loc_price loc) (ob_bid_levels b))
            else map_option (\<lambda>l. b\<lparr>ob_ask_levels := l\<rparr>)
              (erase_from_levels std_less order_id (loc_price loc) (ob_ask_levels b))) of
           None \<Rightarrow> (False, b)
         | Some b1 \<Rightarrow> (True, b1\<lparr>ob_order_index := (ob_order_index b1)(order_id := None),
                                ob_order_count := ob_order_count b1 - 1\<rparr>)))"

definition make_level :: "double \<times> resting_order list \<Rightarrow> order_book_level" where
  "make_level level = \<lparr>obl_price = fst level,
     obl_total_quantity = foldl (\<lambda>total r. total + ro_remaining_quantity r) 0 (snd level),
     obl_order_count = length (snd level)\<rparr>"

definition best_bid :: "order_book \<Rightarrow> order_book_level option" where
  "best_bid b = (case ob_bid_levels b of [] \<Rightarrow> None | l # _ \<Rightarrow> Some (make_level l))"

definition best_ask :: "order_book \<Rightarrow> order_book_level option" where
  "best_ask b = (case ob_ask_levels b of [] \<Rightarrow> None | l # _ \<Rightarrow> Some (make_level l))"

definition bid_levels :: "order_book \<Rightarrow> order_book_level list" where
  "bid_levels b = map make_level (ob_bid_levels b)"

definition ask_levels :: "order_book \<Rightarrow> order_book_level list" where
  "ask_levels b = map make_level (ob_ask_levels b)"

definition find_in_levels :: "(double \<Rightarrow> double \<Rightarrow> bool) \<Rightarrow> string \<Rightarrow> double \<Rightarrow> levels \<Rightarrow> resting_order option" where
  "find_in_levels cmp order_id price levels =
     (case levels_find cmp price levels of None \<Rightarrow> None
      | Some orders \<Rightarrow> find (\<lambda>r. ro_order_id r = order_id) orders)"

definition find_order :: "order_book \<Rightarrow> string \<Rightarrow> resting_order option" where
  "find_order b order_id =
     (case ob_order_index b order_id of None \<Rightarrow> None
      | Some loc \<Rightarrow> (if loc_side loc = Buy
          then find_in_levels std_greater order_id (loc_price loc) (ob_bid_levels b)
          else find_in_levels std_less order_id (loc_price loc) (ob_ask_levels b)))"

definition front_order :: "levels \<Rightarrow> resting_order option" where
  "front_order levels = (case levels of (_, r # _) # _ \<Rightarrow> Some r | _ \<Rightarrow> None)"

definition best_bid_order :: "order_book \<Rightarrow> resting_order option" where
  "best_bid_order b = front_order (ob_bid_levels b)"

definition best_ask_order :: "order_book \<Rightarrow> resting_order option" where
  "best_ask_order b = front_order (ob_ask_levels b)"

text \<open>
  The body of \<open>apply_fill_to_levels\<close>: \<open>None\<close> is the lambda's \<open>false\<close>; otherwise the queue after the
  fill and whether the order was consumed.
\<close>

fun fill_in_orders :: "string \<Rightarrow> double \<Rightarrow> resting_order list \<Rightarrow> (resting_order list \<times> bool) option" where
  "fill_in_orders order_id executed [] = None"
| "fill_in_orders order_id executed (r # rs) =
     (if ro_order_id r \<noteq> order_id
      then map_option (\<lambda>(rs', removed). (r # rs', removed)) (fill_in_orders order_id executed rs)
      else if ro_remaining_quantity r + kQuantityTolerance < executed then None
      else
        let remaining = std_max 0 (ro_remaining_quantity r - executed)
        in if remaining \<le> kQuantityTolerance then Some (rs, True)
           else Some (r\<lparr>ro_remaining_quantity := remaining\<rparr> # rs, False))"

definition apply_fill_to_levels ::
  "(double \<Rightarrow> double \<Rightarrow> bool) \<Rightarrow> string \<Rightarrow> double \<Rightarrow> double \<Rightarrow> levels \<Rightarrow> (levels \<times> bool) option" where
  "apply_fill_to_levels cmp order_id executed price levels =
     (case levels_find cmp price levels of None \<Rightarrow> None
      | Some orders \<Rightarrow> (case fill_in_orders order_id executed orders of None \<Rightarrow> None
         | Some (rest, removed) \<Rightarrow>
             Some (if removed \<and> rest = [] then levels_erase cmp price levels
                   else levels_set cmp price rest levels, removed)))"

definition apply_fill :: "order_book \<Rightarrow> string \<Rightarrow> double \<Rightarrow> bool \<times> order_book" where
  "apply_fill b order_id executed =
     (if executed \<le> kQuantityTolerance then (False, b)
      else case ob_order_index b order_id of None \<Rightarrow> (False, b)
      | Some loc \<Rightarrow>
        (case (if loc_side loc = Buy
            then map_option (\<lambda>(l, removed). (b\<lparr>ob_bid_levels := l\<rparr>, removed))
              (apply_fill_to_levels std_greater order_id executed (loc_price loc) (ob_bid_levels b))
            else map_option (\<lambda>(l, removed). (b\<lparr>ob_ask_levels := l\<rparr>, removed))
              (apply_fill_to_levels std_less order_id executed (loc_price loc) (ob_ask_levels b))) of
           None \<Rightarrow> (False, b)
         | Some (b1, removed) \<Rightarrow>
             (True, if removed
                    then b1\<lparr>ob_order_index := (ob_order_index b1)(order_id := None),
                            ob_order_count := ob_order_count b1 - 1\<rparr>
                    else b1)))"


subsection \<open>The price ladder, for either comparator\<close>

definition level_orders :: "levels \<Rightarrow> resting_order list" where
  "level_orders l = concat (map snd l)"

definition level_ok :: "order_side \<Rightarrow> double \<times> resting_order list \<Rightarrow> bool" where
  "level_ok side level \<longleftrightarrow> fst level \<noteq> NaN \<and> snd level \<noteq> [] \<and>
     (\<forall>r \<in> set (snd level). rq_side (ro_request r) = side \<and> rq_price (ro_request r) = Some (fst level)) \<and>
     sorted_wrt (<) (map ro_sequence_number (snd level))"

definition ladder_inv :: "(double \<Rightarrow> double \<Rightarrow> bool) \<Rightarrow> order_side \<Rightarrow> levels \<Rightarrow> bool" where
  "ladder_inv cmp side l \<longleftrightarrow> sorted_wrt cmp (map fst l) \<and> (\<forall>level \<in> set l. level_ok side level)"

lemma level_orders_simps [simp]:
  "level_orders [] = []" "level_orders ((p, rs) # l) = rs @ level_orders l"
  "level_orders (l @ l') = level_orders l @ level_orders l'"
  by (simp_all add: level_orders_def)

lemma front_order_hd:
  "(\<forall>level \<in> set l. level_ok side level) \<Longrightarrow>
     front_order l = (case level_orders l of [] \<Rightarrow> None | r # _ \<Rightarrow> Some r)"
  by (cases l) (auto simp: front_order_def level_ok_def neq_Nil_conv)

lemma erase_order_split:
  "erase_order i rs = Some rs' \<Longrightarrow>
     \<exists>A r B. rs = A @ r # B \<and> rs' = A @ B \<and> ro_order_id r = i \<and> i \<notin> ro_order_id ` set A"
proof (induction rs arbitrary: rs')
  case (Cons r rs)
  show ?case
  proof (cases "ro_order_id r = i")
    case True
    then show ?thesis using Cons.prems by (intro exI [of _ "[]"]) auto
  next
    case False
    then obtain rest where rest: "erase_order i rs = Some rest" "rs' = r # rest" using Cons.prems by auto
    from Cons.IH [OF rest(1)] obtain A q B where
      "rs = A @ q # B" "rest = A @ B" "ro_order_id q = i" "i \<notin> ro_order_id ` set A" by blast
    then show ?thesis using False rest(2) by (intro exI [of _ "r # A"] exI [of _ q] exI [of _ B]) auto
  qed
qed simp

lemma erase_order_None: "erase_order i rs = None \<longleftrightarrow> i \<notin> ro_order_id ` set rs"
  by (induction rs) auto

text \<open>What one successful fill leaves of the order it hits, and of the queue.\<close>

definition filled_remaining :: "resting_order \<Rightarrow> double \<Rightarrow> double" where
  "filled_remaining r x = std_max 0 (ro_remaining_quantity r - x)"

definition after_fill :: "resting_order \<Rightarrow> double \<Rightarrow> resting_order list" where
  "after_fill r x = (if filled_remaining r x \<le> kQuantityTolerance then []
     else [r\<lparr>ro_remaining_quantity := filled_remaining r x\<rparr>])"

lemma fill_in_orders_split:
  "fill_in_orders i x rs = Some (rs', removed) \<Longrightarrow>
     \<exists>A r B. rs = A @ r # B \<and> rs' = A @ after_fill r x @ B \<and> ro_order_id r = i \<and> i \<notin> ro_order_id ` set A
       \<and> removed = (after_fill r x = []) \<and> \<not> ro_remaining_quantity r + kQuantityTolerance < x"
proof (induction rs arbitrary: rs')
  case (Cons r rs)
  show ?case
  proof (cases "ro_order_id r = i")
    case True
    then show ?thesis using Cons.prems
      by (intro exI [of _ "[]"] exI [of _ r] exI [of _ rs])
        (auto simp: after_fill_def filled_remaining_def Let_def split: if_splits)
  next
    case False
    then obtain rest where rest: "fill_in_orders i x rs = Some (rest, removed)" "rs' = r # rest"
      using Cons.prems by auto
    from Cons.IH [OF rest(1)] obtain A q B where
      "rs = A @ q # B" "rest = A @ after_fill q x @ B" "ro_order_id q = i" "i \<notin> ro_order_id ` set A"
      "removed = (after_fill q x = [])" "\<not> ro_remaining_quantity q + kQuantityTolerance < x" by blast
    then show ?thesis using False rest(2) by (intro exI [of _ "r # A"] exI [of _ q] exI [of _ B]) auto
  qed
qed simp

lemma fill_in_orders_hd:
  "ro_order_id r = i \<Longrightarrow> \<not> ro_remaining_quantity r + kQuantityTolerance < x \<Longrightarrow>
     fill_in_orders i x (r # rs) = Some (after_fill r x @ rs, after_fill r x = [])"
  by (simp add: after_fill_def filled_remaining_def Let_def)

lemma after_fill_cases:
  "after_fill r x = [] \<or> after_fill r x = [r\<lparr>ro_remaining_quantity := filled_remaining r x\<rparr>]"
  by (simp add: after_fill_def)

locale price_ladder =
  fixes cmp :: "double \<Rightarrow> double \<Rightarrow> bool"
  assumes cmp_irrefl: "\<not> cmp x x"
    and cmp_trans: "cmp x y \<Longrightarrow> cmp y z \<Longrightarrow> cmp x z"
    and cmp_total: "x \<noteq> NaN \<Longrightarrow> y \<noteq> NaN \<Longrightarrow> x \<noteq> y \<Longrightarrow> cmp x y \<or> cmp y x"
begin

lemma cmp_asym: "cmp x y \<Longrightarrow> \<not> cmp y x"
  using cmp_irrefl cmp_trans by blast

text \<open>A lookup that succeeds splits the ladder at the level that the writing operations change.\<close>

lemma find_split:
  assumes "\<forall>k' \<in> fst ` set l. k' \<noteq> NaN" "k \<noteq> NaN" "levels_find cmp k l = Some v"
  shows "\<exists>l1 l2. l = l1 @ (k, v) # l2 \<and> (\<forall>w. levels_set cmp k w l = l1 @ (k, w) # l2)
    \<and> levels_erase cmp k l = l1 @ l2"
  using assms
proof (induction l)
  case (Cons a l)
  obtain k' u where a: "a = (k', u)" by force
  show ?case
  proof (cases "cmp k' k")
    case True
    then obtain l1 l2 where "l = l1 @ (k, v) # l2" "\<forall>w. levels_set cmp k w l = l1 @ (k, w) # l2"
      "levels_erase cmp k l = l1 @ l2"
      using Cons a by auto
    then show ?thesis using True a by (intro exI [of _ "a # l1"] exI [of _ l2]) simp
  next
    case False
    then have nc: "\<not> cmp k k'" using Cons.prems a by (auto split: if_splits)
    then have "k' = k" using False cmp_total [of k' k] Cons.prems a by auto
    moreover have "u = v" using False nc Cons.prems(3) a by simp
    ultimately show ?thesis using a cmp_irrefl by (intro exI [of _ "[]"] exI [of _ l]) simp
  qed
qed simp

lemma push_back_split:
  assumes "\<forall>k' \<in> fst ` set l. k' \<noteq> NaN" "k \<noteq> NaN"
  shows "(\<exists>l1 v l2. l = l1 @ (k, v) # l2 \<and> levels_push_back cmp k x l = l1 @ (k, v @ [x]) # l2)
    \<or> (\<exists>l1 l2. l = l1 @ l2 \<and> levels_push_back cmp k x l = l1 @ (k, [x]) # l2
         \<and> (\<forall>k' \<in> fst ` set l1. cmp k' k) \<and> (\<forall>k' \<in> fst ` set (take 1 l2). cmp k k'))"
  using assms
proof (induction l)
  case (Cons a l)
  obtain k' u where a: "a = (k', u)" by force
  show ?case
  proof (cases "cmp k' k")
    case True
    from Cons.IH Cons.prems consider
      (hit) l1 v l2 where "l = l1 @ (k, v) # l2" "levels_push_back cmp k x l = l1 @ (k, v @ [x]) # l2"
    | (miss) l1 l2 where "l = l1 @ l2" "levels_push_back cmp k x l = l1 @ (k, [x]) # l2"
        "\<forall>k' \<in> fst ` set l1. cmp k' k" "\<forall>k' \<in> fst ` set (take 1 l2). cmp k k'"
      by auto
    then show ?thesis
    proof cases
      case hit
      then show ?thesis using True a by (intro disjI1 exI [of _ "a # l1"] exI [of _ v] exI [of _ l2]) simp
    next
      case miss
      then show ?thesis using True a by (intro disjI2 exI [of _ "a # l1"] exI [of _ l2]) simp
    qed
  next
    case False
    show ?thesis
    proof (cases "cmp k k'")
      case True
      then show ?thesis using False a by (intro disjI2 exI [of _ "[]"] exI [of _ "a # l"]) simp
    next
      case nc: False
      then have "k' = k" using False cmp_total [of k' k] Cons.prems a by auto
      then show ?thesis using False nc a by (intro disjI1 exI [of _ "[]"] exI [of _ u] exI [of _ l]) simp
    qed
  qed
qed simp

lemma find_mem:
  assumes "sorted_wrt cmp (map fst l)" "(k, v) \<in> set l"
  shows "levels_find cmp k l = Some v"
  using assms
proof (induction l)
  case (Cons a l)
  obtain k' u where a: "a = (k', u)" by force
  show ?case
  proof (cases "a = (k, v)")
    case True
    then show ?thesis by (simp add: cmp_irrefl)
  next
    case False
    then have "cmp k' k" using Cons.prems a by force
    then show ?thesis using Cons a False by auto
  qed
qed simp

lemma ladder_keys: "ladder_inv cmp side l \<Longrightarrow> \<forall>k \<in> fst ` set l. k \<noteq> NaN"
  by (auto simp: ladder_inv_def level_ok_def)

lemma ladder_front: "ladder_inv cmp side l \<Longrightarrow>
    front_order l = (case level_orders l of [] \<Rightarrow> None | r # _ \<Rightarrow> Some r)"
  unfolding ladder_inv_def by (rule front_order_hd) blast

lemma ladder_member:
  assumes "ladder_inv cmp side l" "r \<in> set (level_orders l)"
  shows "rq_side (ro_request r) = side"
    and "\<exists>k rs. rq_price (ro_request r) = Some k \<and> k \<noteq> NaN \<and> (k, rs) \<in> set l \<and> r \<in> set rs \<and>
           levels_find cmp k l = Some rs"
proof -
  from assms(2) obtain k rs where kr: "(k, rs) \<in> set l" "r \<in> set rs" by (auto simp: level_orders_def)
  then have ok: "level_ok side (k, rs)" using assms(1) by (auto simp: ladder_inv_def)
  then show "rq_side (ro_request r) = side" using kr by (simp add: level_ok_def)
  have "levels_find cmp k l = Some rs"
    using find_mem [OF _ kr(1)] assms(1) by (simp add: ladder_inv_def)
  then show "\<exists>k rs. rq_price (ro_request r) = Some k \<and> k \<noteq> NaN \<and> (k, rs) \<in> set l \<and> r \<in> set rs \<and>
      levels_find cmp k l = Some rs"
    using ok kr by (auto simp: level_ok_def)
qed

lemma push_inv:
  assumes inv: "ladder_inv cmp side l" and k: "k \<noteq> NaN"
    and x: "rq_side (ro_request x) = side" "rq_price (ro_request x) = Some k"
    and seq: "\<forall>r \<in> set (level_orders l). ro_sequence_number r < ro_sequence_number x"
  shows "ladder_inv cmp side (levels_push_back cmp k x l) \<and>
    (\<exists>A B. level_orders l = A @ B \<and> level_orders (levels_push_back cmp k x l) = A @ x # B)"
  using push_back_split [OF ladder_keys [OF inv] k, of x]
proof (elim disjE exE conjE)
  fix l1 v l2
  assume l: "l = l1 @ (k, v) # l2" and p: "levels_push_back cmp k x l = l1 @ (k, v @ [x]) # l2"
  have "level_ok side (k, v @ [x])"
    using inv x seq l by (auto simp: ladder_inv_def level_ok_def sorted_wrt_append)
  then have "ladder_inv cmp side (l1 @ (k, v @ [x]) # l2)"
    using inv l by (simp add: ladder_inv_def)
  moreover have "level_orders l = (level_orders l1 @ v) @ level_orders l2"
    and "level_orders (l1 @ (k, v @ [x]) # l2) = (level_orders l1 @ v) @ x # level_orders l2"
    by (simp_all add: l)
  ultimately show ?thesis unfolding p by blast
next
  fix l1 l2
  assume l: "l = l1 @ l2" and p: "levels_push_back cmp k x l = l1 @ (k, [x]) # l2"
    and before: "\<forall>k' \<in> fst ` set l1. cmp k' k" and after: "\<forall>k' \<in> fst ` set (take 1 l2). cmp k k'"
  have "\<forall>k' \<in> fst ` set l2. cmp k k'"
    using after inv l by (cases l2) (auto simp: ladder_inv_def sorted_wrt_append intro: cmp_trans)
  then have "ladder_inv cmp side (l1 @ (k, [x]) # l2)"
    using inv before x k l by (auto simp: ladder_inv_def sorted_wrt_append level_ok_def)
  moreover have "level_orders l = level_orders l1 @ level_orders l2"
    and "level_orders (l1 @ (k, [x]) # l2) = level_orders l1 @ x # level_orders l2"
    by (simp_all add: l)
  ultimately show ?thesis unfolding p by blast
qed

text \<open>Replacing the queue of one level by a shorter or rewritten one, dropping the level when empty.\<close>

lemma replace_level_inv:
  assumes inv: "ladder_inv cmp side (l1 @ (k, A @ r # B) # l2)"
    and C: "C = [] \<or> C = [r\<lparr>ro_remaining_quantity := q\<rparr>]"
  shows "ladder_inv cmp side (if A @ C @ B = [] then l1 @ l2 else l1 @ (k, A @ C @ B) # l2)"
  using assms by (auto simp: ladder_inv_def level_ok_def sorted_wrt_append)

lemma erase_inv:
  assumes inv: "ladder_inv cmp side l" and k: "k \<noteq> NaN"
    and e: "erase_from_levels cmp i k l = Some l'"
  shows "ladder_inv cmp side l' \<and> (\<exists>A r B. level_orders l = A @ r # B \<and> level_orders l' = A @ B \<and>
    ro_order_id r = i)"
proof -
  from e obtain rs rs' where f: "levels_find cmp k l = Some rs" "erase_order i rs = Some rs'"
    and l': "l' = (if rs' = [] then levels_erase cmp k l else levels_set cmp k rs' l)"
    by (auto simp: erase_from_levels_def split: option.splits)
  from find_split [OF ladder_keys [OF inv] k f(1)] obtain l1 l2 where
    s: "l = l1 @ (k, rs) # l2" "\<forall>w. levels_set cmp k w l = l1 @ (k, w) # l2" "levels_erase cmp k l = l1 @ l2"
    by blast
  from erase_order_split [OF f(2)] obtain A r B where
    r: "rs = A @ r # B" "rs' = A @ B" "ro_order_id r = i" by blast
  have eq: "l' = (if rs' = [] then l1 @ l2 else l1 @ (k, rs') # l2)" using l' s by auto
  have "ladder_inv cmp side l'"
    using replace_level_inv [of side l1 k A r B l2 "[]"] inv unfolding eq r(2) s(1) r(1)
    by (auto split: if_splits)
  moreover have "level_orders l = (level_orders l1 @ A) @ r # (B @ level_orders l2)"
    and "level_orders l' = (level_orders l1 @ A) @ (B @ level_orders l2)"
    using s r by (auto simp: eq)
  ultimately show ?thesis using r(3) by blast
qed

lemma fill_inv:
  assumes inv: "ladder_inv cmp side l" and k: "k \<noteq> NaN"
    and e: "apply_fill_to_levels cmp i x k l = Some (l', removed)"
  shows "ladder_inv cmp side l' \<and> (\<exists>A r B. level_orders l = A @ r # B \<and>
    level_orders l' = A @ after_fill r x @ B \<and> ro_order_id r = i \<and> removed = (after_fill r x = []) \<and>
    \<not> ro_remaining_quantity r + kQuantityTolerance < x)"
proof -
  from e obtain rs rs' where f: "levels_find cmp k l = Some rs" "fill_in_orders i x rs = Some (rs', removed)"
    and l': "l' = (if removed \<and> rs' = [] then levels_erase cmp k l else levels_set cmp k rs' l)"
    by (auto simp: apply_fill_to_levels_def split: option.splits)
  from find_split [OF ladder_keys [OF inv] k f(1)] obtain l1 l2 where
    s: "l = l1 @ (k, rs) # l2" "\<forall>w. levels_set cmp k w l = l1 @ (k, w) # l2" "levels_erase cmp k l = l1 @ l2"
    by blast
  from fill_in_orders_split [OF f(2)] obtain A r B where
    r: "rs = A @ r # B" "rs' = A @ after_fill r x @ B" "ro_order_id r = i"
      "removed = (after_fill r x = [])" "\<not> ro_remaining_quantity r + kQuantityTolerance < x" by blast
  have eq: "l' = (if rs' = [] then l1 @ l2 else l1 @ (k, rs') # l2)" using l' s r by auto
  have "ladder_inv cmp side l'"
    using replace_level_inv [OF _ after_fill_cases, of side l1 k A r B l2 x] inv unfolding eq r(2) s(1) r(1) .
  moreover have "level_orders l = (level_orders l1 @ A) @ r # (B @ level_orders l2)"
    and "level_orders l' = (level_orders l1 @ A) @ after_fill r x @ (B @ level_orders l2)"
    using s r by (auto simp: eq)
  ultimately show ?thesis using r(3,4,5) by blast
qed

lemma find_in_levels_member:
  assumes "ladder_inv cmp side l" "distinct (map ro_order_id (level_orders l))"
    "r \<in> set (level_orders l)" "rq_price (ro_request r) = Some k"
  shows "find_in_levels cmp (ro_order_id r) k l = Some r"
    and "erase_from_levels cmp (ro_order_id r) k l \<noteq> None"
proof -
  from ladder_member [OF assms(1,3)] assms(4) obtain rs where
    rs: "(k, rs) \<in> set l" "r \<in> set rs" "levels_find cmp k l = Some rs" by auto
  then have "inj_on ro_order_id (set rs)"
    using assms(2) inj_on_subset [of ro_order_id "set (level_orders l)" "set rs"]
    by (force simp: level_orders_def distinct_map)
  then have "find (\<lambda>q. ro_order_id q = ro_order_id r) rs = Some r"
    using rs(2) by (induction rs) (auto simp: inj_on_def)
  then show "find_in_levels cmp (ro_order_id r) k l = Some r" by (simp add: find_in_levels_def rs)
  have "erase_order (ro_order_id r) rs \<noteq> None" using rs(2) by (simp add: erase_order_None)
  then show "erase_from_levels cmp (ro_order_id r) k l \<noteq> None" by (auto simp: erase_from_levels_def rs)
qed

lemma fill_member:
  assumes "ladder_inv cmp side l" "distinct (map ro_order_id (level_orders l))"
    "r \<in> set (level_orders l)" "rq_price (ro_request r) = Some k"
    "\<not> ro_remaining_quantity r + kQuantityTolerance < x"
  shows "apply_fill_to_levels cmp (ro_order_id r) x k l \<noteq> None"
proof -
  from ladder_member [OF assms(1,3)] assms(4) obtain rs where
    rs: "(k, rs) \<in> set l" "r \<in> set rs" "levels_find cmp k l = Some rs" by auto
  then have "inj_on ro_order_id (set rs)"
    using assms(2) inj_on_subset [of ro_order_id "set (level_orders l)" "set rs"]
    by (force simp: level_orders_def distinct_map)
  then have "fill_in_orders (ro_order_id r) x rs \<noteq> None"
    using rs(2) assms(5) by (induction rs) (auto simp: inj_on_def Let_def)
  then show ?thesis by (auto simp: apply_fill_to_levels_def rs)
qed

lemma fill_front:
  assumes "ladder_inv cmp side l" "level_orders l = r # rest" "rq_price (ro_request r) = Some k"
    "\<not> ro_remaining_quantity r + kQuantityTolerance < x"
  shows "\<exists>l'. apply_fill_to_levels cmp (ro_order_id r) x k l = Some (l', after_fill r x = []) \<and>
    ladder_inv cmp side l' \<and> level_orders l' = after_fill r x @ rest"
proof -
  obtain k' rs l2 where l: "l = (k', rs) # l2" using assms(2) by (cases l) auto
  then have ok: "level_ok side (k', rs)" using assms(1) by (simp add: ladder_inv_def)
  then obtain B where rs: "rs = r # B" using assms(2) l by (cases rs) (auto simp: level_ok_def)
  have k: "k' = k" using ok rs assms(3) by (simp add: level_ok_def)
  define l' where "l' = (if after_fill r x @ B = [] then l2 else (k, after_fill r x @ B) # l2)"
  have "apply_fill_to_levels cmp (ro_order_id r) x k l = Some (l', after_fill r x = [])"
    using assms(4) by (auto simp: apply_fill_to_levels_def l rs k cmp_irrefl fill_in_orders_hd l'_def
        simp del: fill_in_orders.simps)
  moreover have "ladder_inv cmp side l'"
    using replace_level_inv [OF _ after_fill_cases, of side "[]" k "[]" r B l2 x] assms(1)
    by (auto simp: l'_def l rs k split: if_splits)
  moreover have "level_orders l' = after_fill r x @ rest" using assms(2) by (auto simp: l'_def l rs)
  ultimately show ?thesis by blast
qed

end

interpretation bids: price_ladder std_greater
  by unfold_locales (auto simp: std_greater_def intro: double_less_trans dest: double_total)

interpretation asks: price_ladder std_less
  by unfold_locales (auto simp: std_less_def intro: double_less_trans dest: double_total)

subsection \<open>The invariant of the book\<close>

definition book_orders :: "order_book \<Rightarrow> resting_order list" where
  "book_orders b = level_orders (ob_bid_levels b) @ level_orders (ob_ask_levels b)"

definition locator_of :: "resting_order \<Rightarrow> order_locator" where
  "locator_of r = \<lparr>loc_side = rq_side (ro_request r), loc_price = the (rq_price (ro_request r))\<rparr>"

definition resting_ok :: "string \<Rightarrow> resting_order \<Rightarrow> bool" where
  "resting_ok iid r \<longleftrightarrow> ro_order_id r \<noteq> '''' \<and> rq_type (ro_request r) = Limit \<and>
     instrument_id (rq_instrument (ro_request r)) = iid \<and>
     (\<exists>p. rq_price (ro_request r) = Some p \<and> 0 < p) \<and>
     kQuantityTolerance \<le> ro_remaining_quantity r \<and> valid_double (ro_remaining_quantity r)"

definition store_inv ::
  "string \<Rightarrow> nat \<Rightarrow> resting_order list \<Rightarrow> (string \<rightharpoonup> order_locator) \<Rightarrow> size_t \<Rightarrow> bool" where
  "store_inv iid nxt rs index count \<longleftrightarrow>
     distinct (map ro_order_id rs) \<and>
     (\<forall>i loc. index i = Some loc \<longleftrightarrow> (\<exists>r \<in> set rs. ro_order_id r = i \<and> locator_of r = loc)) \<and>
     count = of_nat (length rs) \<and>
     (\<forall>r \<in> set rs. resting_ok iid r \<and> ro_sequence_number r < nxt)"

definition book_inv :: "order_book \<Rightarrow> bool" where
  "book_inv b \<longleftrightarrow>
     ladder_inv std_greater Buy (ob_bid_levels b) \<and> ladder_inv std_less Sell (ob_ask_levels b) \<and>
     store_inv (instrument_id (ob_instrument b)) (ob_next_sequence_number b) (book_orders b)
       (ob_order_index b) (ob_order_count b)"

lemma store_inv_index_None:
  "store_inv iid n rs index c \<Longrightarrow> index i = None \<longleftrightarrow> i \<notin> ro_order_id ` set rs"
proof -
  assume "store_inv iid n rs index c"
  then have "(\<exists>loc. index i = Some loc) \<longleftrightarrow> (\<exists>r \<in> set rs. ro_order_id r = i)"
    by (auto simp: store_inv_def)
  then show ?thesis by auto
qed

lemma store_inv_insert:
  assumes inv: "store_inv iid n (A @ B) index c" and r: "index (ro_order_id r) = None" "resting_ok iid r"
    "ro_sequence_number r = n"
  shows "store_inv iid (n + 1) (A @ r # B) (index(ro_order_id r \<mapsto> locator_of r)) (c + 1)"
proof -
  have fresh: "\<forall>q \<in> set (A @ B). ro_order_id q \<noteq> ro_order_id r"
    using store_inv_index_None [OF inv] r(1) by (metis imageI)
  have "(index(ro_order_id r \<mapsto> locator_of r)) i = Some loc \<longleftrightarrow>
      (\<exists>q \<in> set (A @ r # B). ro_order_id q = i \<and> locator_of q = loc)" for i loc
    using inv fresh by (cases "i = ro_order_id r") (auto simp: store_inv_def)
  moreover have "ro_order_id r \<notin> ro_order_id ` set (A @ B)" using fresh by (metis imageE)
  ultimately show ?thesis using inv r by (auto simp: store_inv_def intro: less_SucI)
qed

lemma store_inv_remove:
  assumes inv: "store_inv iid n (A @ r # B) index c"
  shows "store_inv iid n (A @ B) (index(ro_order_id r := None)) (c - 1)"
proof -
  have "ro_order_id r \<notin> ro_order_id ` set (A @ B)" using inv by (auto simp: store_inv_def)
  then have "\<forall>q \<in> set (A @ B). ro_order_id q \<noteq> ro_order_id r" by (metis imageI)
  then have "(index(ro_order_id r := None)) i = Some loc \<longleftrightarrow>
      (\<exists>q \<in> set (A @ B). ro_order_id q = i \<and> locator_of q = loc)" for i loc
    using inv by (cases "i = ro_order_id r") (auto simp: store_inv_def)
  then show ?thesis using inv by (auto simp: store_inv_def)
qed

lemma store_inv_replace:
  assumes inv: "store_inv iid n (A @ r # B) index c" and q: "kQuantityTolerance \<le> q" "valid_double q"
  shows "store_inv iid n (A @ r\<lparr>ro_remaining_quantity := q\<rparr> # B) index c"
  using assms by (auto simp: store_inv_def resting_ok_def locator_of_def)

lemma after_fill_remaining:
  assumes "after_fill r x \<noteq> []"
  shows "kQuantityTolerance < filled_remaining r x"
proof -
  have n: "\<not> filled_remaining r x \<le> kQuantityTolerance" using assms by (auto simp: after_fill_def)
  have "filled_remaining r x \<noteq> NaN" by (simp add: filled_remaining_def)
  then show ?thesis using n double_not_le tolerance_simps(1) by blast
qed

lemma store_inv_fill:
  assumes inv: "store_inv iid n (A @ r # B) index c"
  shows "store_inv iid n (A @ after_fill r x @ B)
    (if after_fill r x = [] then index(ro_order_id r := None) else index)
    (if after_fill r x = [] then c - 1 else c)"
  using after_fill_cases [of r x]
proof
  assume "after_fill r x = []"
  then show ?thesis using store_inv_remove [OF inv] by simp
next
  assume c: "after_fill r x = [r\<lparr>ro_remaining_quantity := filled_remaining r x\<rparr>]"
  then have "kQuantityTolerance \<le> filled_remaining r x"
    using after_fill_remaining [of r x] double_less_imp_le by simp
  moreover have "valid_double (filled_remaining r x)"
    by (simp add: filled_remaining_def zero_double_def valid_std_max)
  ultimately show ?thesis using store_inv_replace [OF inv] c by simp
qed

subsection \<open>Preservation by the operations\<close>

text \<open>What a request must satisfy for the book to stay well ordered: no NaN in it.\<close>

definition request_finite :: "order_request \<Rightarrow> bool" where
  "request_finite rq \<longleftrightarrow> rq_quantity rq \<noteq> NaN \<and> rq_price rq \<noteq> Some NaN"

definition rested :: "order_book \<Rightarrow> order_request \<Rightarrow> string \<Rightarrow> string \<Rightarrow> double \<Rightarrow> resting_order" where
  "rested b rq order_id client_order_id filled =
     \<lparr>ro_order_id = order_id, ro_client_order_id = client_order_id, ro_request = rq,
      ro_remaining_quantity = std_max 0 (rq_quantity rq - filled),
      ro_sequence_number = ob_next_sequence_number b\<rparr>"

lemma compatible_remaining:
  assumes "is_request_compatible b rq i c filled" "request_finite rq" "valid_double filled" "filled \<noteq> NaN"
  shows "kQuantityTolerance \<le> std_max 0 (rq_quantity rq - filled)"
proof -
  have f: "\<not> filled < 0" "\<not> rq_quantity rq - kQuantityTolerance \<le> filled"
    using assms(1) by (auto simp: is_request_compatible_def split: if_splits)
  have f0: "0 \<le> filled" using f(1) assms(4) double_not_less [of filled 0] by (simp add: zero_double_def)
  have "rq_quantity rq - kQuantityTolerance \<noteq> NaN"
    using assms(2) by (cases "rq_quantity rq") (auto simp: request_finite_def double_simps kQuantityTolerance_val)
  then have "filled < rq_quantity rq - kQuantityTolerance"
    using f(2) assms(4) double_not_le by blast
  then have t: "kQuantityTolerance \<le> rq_quantity rq - filled"
    using double_diff_threshold [OF assms(3) _ f0] by simp
  then have "0 < rq_quantity rq - filled" using double_less_le_trans tolerance_simps(4) by blast
  then show ?thesis using t by (simp add: std_max_def)
qed

lemma add_order_eq:
  assumes "is_request_compatible b rq i c filled" "rq_price rq = Some p"
  shows "add_order b rq i c filled = (True,
    (if rq_side rq = Buy
     then b\<lparr>ob_bid_levels := levels_push_back std_greater p (rested b rq i c filled) (ob_bid_levels b)\<rparr>
     else b\<lparr>ob_ask_levels := levels_push_back std_less p (rested b rq i c filled) (ob_ask_levels b)\<rparr>)
    \<lparr>ob_order_index := (ob_order_index b)(i \<mapsto> locator_of (rested b rq i c filled)),
     ob_order_count := ob_order_count b + 1, ob_next_sequence_number := ob_next_sequence_number b + 1\<rparr>)"
  using assms by (simp add: add_order_def Let_def rested_def locator_of_def)

lemma compatible_price:
  assumes "is_request_compatible b rq i c filled" "request_finite rq"
  obtains p where "rq_price rq = Some p" "p \<noteq> NaN" "0 < p"
proof -
  from assms obtain p where p: "rq_price rq = Some p" "\<not> p \<le> 0" "p \<noteq> NaN"
    by (auto simp: is_request_compatible_def request_finite_def split: if_splits option.splits)
  then show thesis using that double_not_le [of p 0] by (auto simp: zero_double_def)
qed

lemma book_inv_add:
  assumes inv: "book_inv b" and comp: "is_request_compatible b rq i c filled"
    and rq: "request_finite rq" "valid_double filled" "filled \<noteq> NaN"
  shows "book_inv (snd (add_order b rq i c filled)) \<and>
    (\<exists>A B. book_orders b = A @ B \<and>
      book_orders (snd (add_order b rq i c filled)) = A @ rested b rq i c filled # B)"
proof -
  let ?r = "rested b rq i c filled"
  obtain p where p: "rq_price rq = Some p" "p \<noteq> NaN" "0 < p" using compatible_price [OF comp rq(1)] .
  have idx: "ob_order_index b (ro_order_id ?r) = None"
    using comp by (simp add: rested_def is_request_compatible_def split: if_splits)
  have ok: "resting_ok (instrument_id (ob_instrument b)) ?r"
    using comp p compatible_remaining [OF comp rq]
    by (auto simp: resting_ok_def rested_def is_request_compatible_def zero_double_def
        intro!: valid_std_max split: if_splits)
  have st: "store_inv (instrument_id (ob_instrument b)) (ob_next_sequence_number b) (book_orders b)
      (ob_order_index b) (ob_order_count b)" using inv by (simp add: book_inv_def)
  have seq: "\<forall>r \<in> set (book_orders b). ro_sequence_number r < ro_sequence_number ?r"
    using st by (simp add: store_inv_def rested_def)
  have ins: "store_inv (instrument_id (ob_instrument b)) (ob_next_sequence_number b + 1) (A @ ?r # B)
      ((ob_order_index b)(i \<mapsto> locator_of ?r)) (ob_order_count b + 1)" if "book_orders b = A @ B" for A B
    using store_inv_insert [of _ _ A B _ _ ?r] st that idx ok by (simp add: rested_def)
  have req: "ro_request ?r = rq" by (simp add: rested_def)
  show ?thesis
  proof (cases "rq_side rq")
    case Buy
    have "ladder_inv std_greater Buy (levels_push_back std_greater p ?r (ob_bid_levels b)) \<and>
      (\<exists>A B. level_orders (ob_bid_levels b) = A @ B \<and>
        level_orders (levels_push_back std_greater p ?r (ob_bid_levels b)) = A @ ?r # B)"
      using inv p Buy seq by (intro bids.push_inv) (auto simp: book_inv_def book_orders_def req)
    then obtain A B where push: "ladder_inv std_greater Buy (levels_push_back std_greater p ?r (ob_bid_levels b))"
      "level_orders (ob_bid_levels b) = A @ B"
      "level_orders (levels_push_back std_greater p ?r (ob_bid_levels b)) = A @ ?r # B" by blast
    have eq: "book_orders b = A @ (B @ level_orders (ob_ask_levels b))" by (simp add: book_orders_def push(2))
    have "book_inv (snd (add_order b rq i c filled))"
      using inv push ins [OF eq] by (simp add: add_order_eq [OF comp p(1)] Buy book_inv_def book_orders_def)
    moreover have "book_orders (snd (add_order b rq i c filled)) = A @ ?r # (B @ level_orders (ob_ask_levels b))"
      using push by (simp add: add_order_eq [OF comp p(1)] Buy book_orders_def)
    ultimately show ?thesis using eq by blast
  next
    case Sell
    have "ladder_inv std_less Sell (levels_push_back std_less p ?r (ob_ask_levels b)) \<and>
      (\<exists>A B. level_orders (ob_ask_levels b) = A @ B \<and>
        level_orders (levels_push_back std_less p ?r (ob_ask_levels b)) = A @ ?r # B)"
      using inv p Sell seq by (intro asks.push_inv) (auto simp: book_inv_def book_orders_def req)
    then obtain A B where push: "ladder_inv std_less Sell (levels_push_back std_less p ?r (ob_ask_levels b))"
      "level_orders (ob_ask_levels b) = A @ B"
      "level_orders (levels_push_back std_less p ?r (ob_ask_levels b)) = A @ ?r # B" by blast
    have eq: "book_orders b = (level_orders (ob_bid_levels b) @ A) @ B" by (simp add: book_orders_def push(2))
    have "book_inv (snd (add_order b rq i c filled))"
      using inv push ins [OF eq] by (simp add: add_order_eq [OF comp p(1)] Sell book_inv_def book_orders_def)
    moreover have "book_orders (snd (add_order b rq i c filled)) = (level_orders (ob_bid_levels b) @ A) @ ?r # B"
      using push by (simp add: add_order_eq [OF comp p(1)] Sell book_orders_def)
    ultimately show ?thesis using eq by blast
  qed
qed

lemma book_index_loc:
  assumes inv: "book_inv b" and l: "ob_order_index b i = Some loc"
  obtains r p where "r \<in> set (book_orders b)" "ro_order_id r = i" "loc = locator_of r"
    "rq_price (ro_request r) = Some p" "loc_price loc = p" "p \<noteq> NaN"
    "loc_side loc = Buy \<Longrightarrow> r \<in> set (level_orders (ob_bid_levels b))"
    "loc_side loc = Sell \<Longrightarrow> r \<in> set (level_orders (ob_ask_levels b))"
proof -
  from inv l obtain r where r: "r \<in> set (book_orders b)" "ro_order_id r = i" "loc = locator_of r"
    by (auto simp: book_inv_def store_inv_def)
  have L: "ladder_inv std_greater Buy (ob_bid_levels b)" "ladder_inv std_less Sell (ob_ask_levels b)"
    using inv by (auto simp: book_inv_def)
  from r(1) consider "r \<in> set (level_orders (ob_bid_levels b))" | "r \<in> set (level_orders (ob_ask_levels b))"
    by (auto simp: book_orders_def)
  then show thesis
  proof cases
    case 1
    then show ?thesis using bids.ladder_member [OF L(1) 1] r that by (auto simp: locator_of_def)
  next
    case 2
    then show ?thesis using asks.ladder_member [OF L(2) 2] r that by (auto simp: locator_of_def)
  qed
qed

lemma book_ids_distinct:
  assumes "book_inv b"
  shows "distinct (map ro_order_id (book_orders b))"
    and "distinct (map ro_order_id (level_orders (ob_bid_levels b)))"
    and "distinct (map ro_order_id (level_orders (ob_ask_levels b)))"
  using assms by (auto simp: book_inv_def store_inv_def book_orders_def)

lemma book_id_unique:
  assumes "book_inv b" "r \<in> set (book_orders b)" "q \<in> set (book_orders b)" "ro_order_id r = ro_order_id q"
  shows "r = q"
  using book_ids_distinct(1) [OF assms(1)] assms(2-4) by (auto simp: distinct_map dest: inj_onD)

text \<open>The hash index and the two ladders implement one finite map from order ids to resting orders.\<close>

lemma find_order_iff:
  assumes inv: "book_inv b"
  shows "find_order b i = Some r \<longleftrightarrow> r \<in> set (book_orders b) \<and> ro_order_id r = i"
proof (cases "ob_order_index b i")
  case None
  then have "i \<notin> ro_order_id ` set (book_orders b)"
    using store_inv_index_None [of _ _ "book_orders b"] inv by (auto simp: book_inv_def)
  then show ?thesis using None by (auto simp: find_order_def)
next
  case (Some loc)
  from book_index_loc [OF inv Some] obtain q p where q: "q \<in> set (book_orders b)" "ro_order_id q = i"
    "loc = locator_of q" "rq_price (ro_request q) = Some p" "loc_price loc = p"
    "loc_side loc = Buy \<Longrightarrow> q \<in> set (level_orders (ob_bid_levels b))"
    "loc_side loc = Sell \<Longrightarrow> q \<in> set (level_orders (ob_ask_levels b))" by metis
  have L: "ladder_inv std_greater Buy (ob_bid_levels b)" "ladder_inv std_less Sell (ob_ask_levels b)"
    using inv by (auto simp: book_inv_def)
  have "find_order b i = Some q"
    using bids.find_in_levels_member(1) [OF L(1) book_ids_distinct(2) [OF inv] q(6) q(4)]
      asks.find_in_levels_member(1) [OF L(2) book_ids_distinct(3) [OF inv] q(7) q(4)] q(2,5) Some
    by (cases "loc_side loc") (auto simp: find_order_def)
  then show ?thesis using q(1,2) book_id_unique [OF inv] by auto
qed

lemma book_inv_cancel:
  assumes inv: "book_inv b" and i: "ob_order_index b i \<noteq> None"
  shows "fst (cancel_order b i) \<and> book_inv (snd (cancel_order b i)) \<and>
    (\<exists>A r B. book_orders b = A @ r # B \<and> book_orders (snd (cancel_order b i)) = A @ B \<and> ro_order_id r = i)"
proof -
  from i obtain loc where loc: "ob_order_index b i = Some loc" by blast
  from book_index_loc [OF inv loc] obtain q p where q: "ro_order_id q = i"
    "rq_price (ro_request q) = Some p" "loc_price loc = p" "p \<noteq> NaN"
    "loc_side loc = Buy \<Longrightarrow> q \<in> set (level_orders (ob_bid_levels b))"
    "loc_side loc = Sell \<Longrightarrow> q \<in> set (level_orders (ob_ask_levels b))" by metis
  have L: "ladder_inv std_greater Buy (ob_bid_levels b)" "ladder_inv std_less Sell (ob_ask_levels b)"
    and st: "store_inv (instrument_id (ob_instrument b)) (ob_next_sequence_number b) (book_orders b)
      (ob_order_index b) (ob_order_count b)" using inv by (auto simp: book_inv_def)
  show ?thesis
  proof (cases "loc_side loc")
    case Buy
    from bids.find_in_levels_member(2) [OF L(1) book_ids_distinct(2) [OF inv] q(5) q(2)] Buy q
    obtain l' where l': "erase_from_levels std_greater i p (ob_bid_levels b) = Some l'" by auto
    from bids.erase_inv [OF L(1) q(4) l'] obtain A r B where
      e: "ladder_inv std_greater Buy l'" "level_orders (ob_bid_levels b) = A @ r # B" "level_orders l' = A @ B"
      "ro_order_id r = i" by blast
    let ?B = "B @ level_orders (ob_ask_levels b)"
    have eq: "book_orders b = A @ r # ?B" by (simp add: book_orders_def e)
    have c: "cancel_order b i = (True, b\<lparr>ob_bid_levels := l', ob_order_index := (ob_order_index b)(i := None),
        ob_order_count := ob_order_count b - 1\<rparr>)"
      using loc Buy l' q(3) by (simp add: cancel_order_def)
    have "store_inv (instrument_id (ob_instrument b)) (ob_next_sequence_number b) (A @ ?B)
        ((ob_order_index b)(i := None)) (ob_order_count b - 1)"
      using store_inv_remove [of _ _ A r ?B] st unfolding eq e(4) [symmetric] by blast
    then have "book_inv (snd (cancel_order b i))" using L e by (simp add: c book_inv_def book_orders_def)
    moreover have "book_orders (snd (cancel_order b i)) = A @ ?B" by (simp add: c book_orders_def e)
    moreover have "fst (cancel_order b i)" by (simp add: c)
    ultimately show ?thesis using eq e(4) by blast
  next
    case Sell
    from asks.find_in_levels_member(2) [OF L(2) book_ids_distinct(3) [OF inv] q(6) q(2)] Sell q
    obtain l' where l': "erase_from_levels std_less i p (ob_ask_levels b) = Some l'" by auto
    from asks.erase_inv [OF L(2) q(4) l'] obtain A r B where
      e: "ladder_inv std_less Sell l'" "level_orders (ob_ask_levels b) = A @ r # B" "level_orders l' = A @ B"
      "ro_order_id r = i" by blast
    let ?A = "level_orders (ob_bid_levels b) @ A"
    have eq: "book_orders b = ?A @ r # B" by (simp add: book_orders_def e)
    have c: "cancel_order b i = (True, b\<lparr>ob_ask_levels := l', ob_order_index := (ob_order_index b)(i := None),
        ob_order_count := ob_order_count b - 1\<rparr>)"
      using loc Sell l' q(3) by (simp add: cancel_order_def)
    have "store_inv (instrument_id (ob_instrument b)) (ob_next_sequence_number b) (?A @ B)
        ((ob_order_index b)(i := None)) (ob_order_count b - 1)"
      using store_inv_remove [of _ _ ?A r B] st unfolding eq e(4) [symmetric] by blast
    then have "book_inv (snd (cancel_order b i))" using L e by (simp add: c book_inv_def book_orders_def)
    moreover have "book_orders (snd (cancel_order b i)) = ?A @ B" by (simp add: c book_orders_def e)
    moreover have "fst (cancel_order b i)" by (simp add: c)
    ultimately show ?thesis using eq e(4) by blast
  qed
qed

lemma apply_fill_bid:
  assumes inv: "book_inv b" and loc: "ob_order_index b i = Some loc" "loc_side loc = Buy" "loc_price loc \<noteq> NaN"
    and e: "apply_fill_to_levels std_greater i x (loc_price loc) (ob_bid_levels b) = Some (l', removed)"
    and x: "\<not> x \<le> kQuantityTolerance"
  shows "\<exists>A r B. level_orders (ob_bid_levels b) = A @ r # B \<and> level_orders l' = A @ after_fill r x @ B \<and>
    ro_order_id r = i \<and> \<not> ro_remaining_quantity r + kQuantityTolerance < x \<and>
    (\<exists>b'. apply_fill b i x = (True, b') \<and> book_inv b' \<and> ob_instrument b' = ob_instrument b \<and>
       ob_bid_levels b' = l' \<and> ob_ask_levels b' = ob_ask_levels b)"
proof -
  have L: "ladder_inv std_greater Buy (ob_bid_levels b)" "ladder_inv std_less Sell (ob_ask_levels b)"
    and st: "store_inv (instrument_id (ob_instrument b)) (ob_next_sequence_number b) (book_orders b)
      (ob_order_index b) (ob_order_count b)" using inv by (auto simp: book_inv_def)
  from bids.fill_inv [OF L(1) loc(3) e] obtain A r B where
    f: "ladder_inv std_greater Buy l'" "level_orders (ob_bid_levels b) = A @ r # B"
      "level_orders l' = A @ after_fill r x @ B" "ro_order_id r = i" "removed = (after_fill r x = [])"
      "\<not> ro_remaining_quantity r + kQuantityTolerance < x" by blast
  have eq: "book_orders b = A @ r # (B @ level_orders (ob_ask_levels b))" by (simp add: book_orders_def f(2))
  define b' where "b' = (if removed then b\<lparr>ob_bid_levels := l', ob_order_index := (ob_order_index b)(i := None),
      ob_order_count := ob_order_count b - 1\<rparr> else b\<lparr>ob_bid_levels := l'\<rparr>)"
  have "apply_fill b i x = (True, b')" using loc e x by (simp add: apply_fill_def b'_def)
  moreover have "book_inv b'"
    using store_inv_fill [OF st [unfolded eq], of x] L f(1,3,4,5)
    by (cases "after_fill r x = []") (simp_all add: b'_def book_inv_def book_orders_def)
  moreover have "ob_instrument b' = ob_instrument b" "ob_bid_levels b' = l'" "ob_ask_levels b' = ob_ask_levels b"
    by (simp_all add: b'_def)
  ultimately show ?thesis using f(2,3,4,6) by blast
qed

lemma apply_fill_ask:
  assumes inv: "book_inv b" and loc: "ob_order_index b i = Some loc" "loc_side loc = Sell" "loc_price loc \<noteq> NaN"
    and e: "apply_fill_to_levels std_less i x (loc_price loc) (ob_ask_levels b) = Some (l', removed)"
    and x: "\<not> x \<le> kQuantityTolerance"
  shows "\<exists>A r B. level_orders (ob_ask_levels b) = A @ r # B \<and> level_orders l' = A @ after_fill r x @ B \<and>
    ro_order_id r = i \<and> \<not> ro_remaining_quantity r + kQuantityTolerance < x \<and>
    (\<exists>b'. apply_fill b i x = (True, b') \<and> book_inv b' \<and> ob_instrument b' = ob_instrument b \<and>
       ob_ask_levels b' = l' \<and> ob_bid_levels b' = ob_bid_levels b)"
proof -
  have L: "ladder_inv std_greater Buy (ob_bid_levels b)" "ladder_inv std_less Sell (ob_ask_levels b)"
    and st: "store_inv (instrument_id (ob_instrument b)) (ob_next_sequence_number b) (book_orders b)
      (ob_order_index b) (ob_order_count b)" using inv by (auto simp: book_inv_def)
  from asks.fill_inv [OF L(2) loc(3) e] obtain A r B where
    f: "ladder_inv std_less Sell l'" "level_orders (ob_ask_levels b) = A @ r # B"
      "level_orders l' = A @ after_fill r x @ B" "ro_order_id r = i" "removed = (after_fill r x = [])"
      "\<not> ro_remaining_quantity r + kQuantityTolerance < x" by blast
  have eq: "book_orders b = (level_orders (ob_bid_levels b) @ A) @ r # B" by (simp add: book_orders_def f(2))
  define b' where "b' = (if removed then b\<lparr>ob_ask_levels := l', ob_order_index := (ob_order_index b)(i := None),
      ob_order_count := ob_order_count b - 1\<rparr> else b\<lparr>ob_ask_levels := l'\<rparr>)"
  have "apply_fill b i x = (True, b')" using loc e x by (simp add: apply_fill_def b'_def)
  moreover have "book_inv b'"
    using store_inv_fill [OF st [unfolded eq], of x] L f(1,3,4,5)
    by (cases "after_fill r x = []") (simp_all add: b'_def book_inv_def book_orders_def)
  moreover have "ob_instrument b' = ob_instrument b" "ob_ask_levels b' = l'" "ob_bid_levels b' = ob_bid_levels b"
    by (simp_all add: b'_def)
  ultimately show ?thesis using f(2,3,4,6) by blast
qed

lemma apply_fill_False: "apply_fill b i x = (False, b') \<Longrightarrow> b' = b"
  by (auto simp: apply_fill_def split: if_splits option.splits)

lemma book_inv_apply_fill:
  assumes inv: "book_inv b" and a: "apply_fill b i x = (True, b')"
  shows "book_inv b' \<and> ob_instrument b' = ob_instrument b \<and>
    (\<exists>A r B. book_orders b = A @ r # B \<and> book_orders b' = A @ after_fill r x @ B \<and> ro_order_id r = i \<and>
      \<not> ro_remaining_quantity r + kQuantityTolerance < x \<and> \<not> x \<le> kQuantityTolerance)"
proof -
  from a obtain loc where x: "\<not> x \<le> kQuantityTolerance" and loc: "ob_order_index b i = Some loc"
    by (auto simp: apply_fill_def split: if_splits option.splits)
  from book_index_loc [OF inv loc] have nn: "loc_price loc \<noteq> NaN" by metis
  show ?thesis
  proof (cases "loc_side loc")
    case Buy
    from a x loc Buy obtain l' removed where
      e: "apply_fill_to_levels std_greater i x (loc_price loc) (ob_bid_levels b) = Some (l', removed)"
      by (auto simp: apply_fill_def split: option.splits)
    from apply_fill_bid [OF inv loc Buy nn e x] a obtain A r B where
      f: "level_orders (ob_bid_levels b) = A @ r # B" "level_orders l' = A @ after_fill r x @ B"
        "ro_order_id r = i" "\<not> ro_remaining_quantity r + kQuantityTolerance < x"
        "book_inv b'" "ob_instrument b' = ob_instrument b"
        "ob_bid_levels b' = l'" "ob_ask_levels b' = ob_ask_levels b" by auto
    then have "book_orders b = A @ r # (B @ level_orders (ob_ask_levels b))"
      "book_orders b' = A @ after_fill r x @ (B @ level_orders (ob_ask_levels b))"
      by (simp_all add: book_orders_def)
    then show ?thesis using x f(3-6) by blast
  next
    case Sell
    from a x loc Sell obtain l' removed where
      e: "apply_fill_to_levels std_less i x (loc_price loc) (ob_ask_levels b) = Some (l', removed)"
      by (auto simp: apply_fill_def split: option.splits)
    from apply_fill_ask [OF inv loc Sell nn e x] a obtain A r B where
      f: "level_orders (ob_ask_levels b) = A @ r # B" "level_orders l' = A @ after_fill r x @ B"
        "ro_order_id r = i" "\<not> ro_remaining_quantity r + kQuantityTolerance < x"
        "book_inv b'" "ob_instrument b' = ob_instrument b"
        "ob_ask_levels b' = l'" "ob_bid_levels b' = ob_bid_levels b" by auto
    then have "book_orders b = (level_orders (ob_bid_levels b) @ A) @ r # B"
      "book_orders b' = (level_orders (ob_bid_levels b) @ A) @ after_fill r x @ B"
      by (simp_all add: book_orders_def)
    then show ?thesis using x f(3-6) by blast
  qed
qed

subsection \<open>The contract of a side towards the matching engine\<close>

text \<open>
  To its client a side of the book is a priority queue of resting orders: \<open>best\<close> reads its head and
  \<open>fill\<close> on the head's id consumes it or rewrites its remaining quantity, leaving the rest of the
  queue and the other side alone.
\<close>

locale priority_side =
  fixes queue :: "'b \<Rightarrow> resting_order list"
    and other :: "'b \<Rightarrow> resting_order list"
    and best :: "'b \<Rightarrow> resting_order option"
    and fill :: "'b \<Rightarrow> string \<Rightarrow> double \<Rightarrow> bool \<times> 'b"
    and inv :: "'b \<Rightarrow> bool"
    and name :: "'b \<Rightarrow> instrument"
  assumes best_queue: "inv b \<Longrightarrow> best b = (case queue b of [] \<Rightarrow> None | r # _ \<Rightarrow> Some r)"
    and fill_best: "inv b \<Longrightarrow> queue b = r # rest \<Longrightarrow> \<not> x \<le> kQuantityTolerance \<Longrightarrow>
      \<not> ro_remaining_quantity r + kQuantityTolerance < x \<Longrightarrow>
      \<exists>b'. fill b (ro_order_id r) x = (True, b') \<and> inv b' \<and> name b' = name b \<and>
        queue b' = after_fill r x @ rest \<and> other b' = other b"
    and fill_tiny: "x \<le> kQuantityTolerance \<Longrightarrow> fill b i x = (False, b)"
    and remaining: "inv b \<Longrightarrow> r \<in> set (queue b) \<Longrightarrow>
      kQuantityTolerance \<le> ro_remaining_quantity r \<and> valid_double (ro_remaining_quantity r)"
begin

text \<open>Executing no more than the head still holds always goes through when it is above the tolerance.\<close>

lemma fill_min:
  assumes "inv b" "queue b = r # rest" "\<not> std_min q (ro_remaining_quantity r) \<le> kQuantityTolerance" "q \<noteq> NaN"
  shows "\<exists>b'. fill b (ro_order_id r) (std_min q (ro_remaining_quantity r)) = (True, b') \<and> inv b' \<and>
    name b' = name b \<and> queue b' = after_fill r (std_min q (ro_remaining_quantity r)) @ rest \<and> other b' = other b"
proof -
  let ?m = "ro_remaining_quantity r"
  have m: "kQuantityTolerance \<le> ?m" "valid_double ?m" using remaining assms(1,2) by simp_all
  then have "?m \<noteq> NaN" by (auto dest: double_le_not_NaN)
  then have "std_min q ?m \<le> ?m" using std_min_le [OF assms(4)] by blast
  then have "\<not> ?m + kQuantityTolerance < std_min q ?m" using plus_tolerance_not_less m(2) by blast
  then show ?thesis using fill_best [OF assms(1,2,3)] by blast
qed

end

lemma book_remaining:
  "book_inv b \<Longrightarrow> r \<in> set (book_orders b) \<Longrightarrow> resting_ok (instrument_id (ob_instrument b)) r"
  by (simp add: book_inv_def store_inv_def)

lemma book_member_index:
  "book_inv b \<Longrightarrow> r \<in> set (book_orders b) \<Longrightarrow> ob_order_index b (ro_order_id r) = Some (locator_of r)"
  unfolding book_inv_def store_inv_def by blast

lemma book_best_bid: "book_inv b \<Longrightarrow>
    best_bid_order b = (case level_orders (ob_bid_levels b) of [] \<Rightarrow> None | r # _ \<Rightarrow> Some r)"
  unfolding best_bid_order_def book_inv_def by (rule bids.ladder_front) blast

lemma book_best_ask: "book_inv b \<Longrightarrow>
    best_ask_order b = (case level_orders (ob_ask_levels b) of [] \<Rightarrow> None | r # _ \<Rightarrow> Some r)"
  unfolding best_ask_order_def book_inv_def by (rule asks.ladder_front) blast

lemma book_fill_best_bid:
  assumes inv: "book_inv b" and q: "level_orders (ob_bid_levels b) = r # rest"
    and x: "\<not> x \<le> kQuantityTolerance" "\<not> ro_remaining_quantity r + kQuantityTolerance < x"
  shows "\<exists>b'. apply_fill b (ro_order_id r) x = (True, b') \<and> book_inv b' \<and> ob_instrument b' = ob_instrument b \<and>
    level_orders (ob_bid_levels b') = after_fill r x @ rest \<and>
    level_orders (ob_ask_levels b') = level_orders (ob_ask_levels b)"
proof -
  have L: "ladder_inv std_greater Buy (ob_bid_levels b)" using inv by (simp add: book_inv_def)
  have r: "r \<in> set (level_orders (ob_bid_levels b))" "r \<in> set (book_orders b)" by (simp_all add: q book_orders_def)
  from bids.ladder_member [OF L r(1)] obtain k where
    k: "rq_side (ro_request r) = Buy" "rq_price (ro_request r) = Some k" "k \<noteq> NaN" by blast
  have loc: "ob_order_index b (ro_order_id r) = Some (locator_of r)" using book_member_index [OF inv r(2)] .
  from bids.fill_front [OF L q k(2) x(2)] obtain l' where
    l': "apply_fill_to_levels std_greater (ro_order_id r) x k (ob_bid_levels b) = Some (l', after_fill r x = [])"
      "level_orders l' = after_fill r x @ rest" by blast
  from apply_fill_bid [OF inv loc _ _ _ x(1), of l' "after_fill r x = []"] k l'(1) obtain b' where
    "apply_fill b (ro_order_id r) x = (True, b')" "book_inv b'" "ob_instrument b' = ob_instrument b"
      "ob_bid_levels b' = l'" "ob_ask_levels b' = ob_ask_levels b" by (auto simp: locator_of_def)
  then show ?thesis using l'(2) by auto
qed

lemma book_fill_best_ask:
  assumes inv: "book_inv b" and q: "level_orders (ob_ask_levels b) = r # rest"
    and x: "\<not> x \<le> kQuantityTolerance" "\<not> ro_remaining_quantity r + kQuantityTolerance < x"
  shows "\<exists>b'. apply_fill b (ro_order_id r) x = (True, b') \<and> book_inv b' \<and> ob_instrument b' = ob_instrument b \<and>
    level_orders (ob_ask_levels b') = after_fill r x @ rest \<and>
    level_orders (ob_bid_levels b') = level_orders (ob_bid_levels b)"
proof -
  have L: "ladder_inv std_less Sell (ob_ask_levels b)" using inv by (simp add: book_inv_def)
  have r: "r \<in> set (level_orders (ob_ask_levels b))" "r \<in> set (book_orders b)" by (simp_all add: q book_orders_def)
  from asks.ladder_member [OF L r(1)] obtain k where
    k: "rq_side (ro_request r) = Sell" "rq_price (ro_request r) = Some k" "k \<noteq> NaN" by blast
  have loc: "ob_order_index b (ro_order_id r) = Some (locator_of r)" using book_member_index [OF inv r(2)] .
  from asks.fill_front [OF L q k(2) x(2)] obtain l' where
    l': "apply_fill_to_levels std_less (ro_order_id r) x k (ob_ask_levels b) = Some (l', after_fill r x = [])"
      "level_orders l' = after_fill r x @ rest" by blast
  from apply_fill_ask [OF inv loc _ _ _ x(1), of l' "after_fill r x = []"] k l'(1) obtain b' where
    "apply_fill b (ro_order_id r) x = (True, b')" "book_inv b'" "ob_instrument b' = ob_instrument b"
      "ob_ask_levels b' = l'" "ob_bid_levels b' = ob_bid_levels b" by (auto simp: locator_of_def)
  then show ?thesis using l'(2) by auto
qed

lemma apply_fill_tiny: "x \<le> kQuantityTolerance \<Longrightarrow> apply_fill b i x = (False, b)"
  by (simp add: apply_fill_def)

interpretation bid_side: priority_side "\<lambda>b. level_orders (ob_bid_levels b)" "\<lambda>b. level_orders (ob_ask_levels b)"
  best_bid_order apply_fill book_inv ob_instrument
proof unfold_locales
  fix b r assume "book_inv b" "r \<in> set (level_orders (ob_bid_levels b))"
  then show "kQuantityTolerance \<le> ro_remaining_quantity r \<and> valid_double (ro_remaining_quantity r)"
    using book_remaining [of b r] by (simp add: resting_ok_def book_orders_def)
qed (simp_all add: book_best_bid book_fill_best_bid apply_fill_tiny)

interpretation ask_side: priority_side "\<lambda>b. level_orders (ob_ask_levels b)" "\<lambda>b. level_orders (ob_bid_levels b)"
  best_ask_order apply_fill book_inv ob_instrument
proof unfold_locales
  fix b r assume "book_inv b" "r \<in> set (level_orders (ob_ask_levels b))"
  then show "kQuantityTolerance \<le> ro_remaining_quantity r \<and> valid_double (ro_remaining_quantity r)"
    using book_remaining [of b r] by (simp add: resting_ok_def book_orders_def)
qed (simp_all add: book_best_ask book_fill_best_ask apply_fill_tiny)

subsection \<open>The book as a map from order ids to resting orders\<close>

lemma lookup_eqI: "(\<And>i q. f i = Some q \<longleftrightarrow> g i = Some q) \<Longrightarrow> f = (g :: 'a \<rightharpoonup> 'b)"
  by (rule ext) (metis not_Some_eq)

lemma find_order_None:
  assumes "book_inv b"
  shows "find_order b i = None \<longleftrightarrow> ob_order_index b i = None"
proof -
  have "ob_order_index b i = None \<longleftrightarrow> i \<notin> ro_order_id ` set (book_orders b)"
    using assms store_inv_index_None unfolding book_inv_def by blast
  moreover have "find_order b i = None \<longleftrightarrow> i \<notin> ro_order_id ` set (book_orders b)"
    using find_order_iff [OF assms, of i] by (metis imageE imageI not_Some_eq)
  ultimately show ?thesis by simp
qed

lemma find_order_insert:
  assumes "book_inv b" "book_inv b'" "book_orders b = A @ B" "book_orders b' = A @ r # B"
  shows "find_order b' = (find_order b)(ro_order_id r \<mapsto> r)"
proof (rule lookup_eqI)
  fix i q
  have "ro_order_id r \<notin> ro_order_id ` set (A @ B)" using book_ids_distinct(1) [OF assms(2)] assms(4) by auto
  then have "\<forall>p \<in> set (A @ B). ro_order_id p \<noteq> ro_order_id r" by (metis imageI)
  then show "find_order b' i = Some q \<longleftrightarrow> ((find_order b)(ro_order_id r \<mapsto> r)) i = Some q"
    using find_order_iff [OF assms(1)] find_order_iff [OF assms(2)] assms(3,4) by auto
qed

lemma find_order_remove:
  assumes "book_inv b" "book_inv b'" "book_orders b = A @ r # B" "book_orders b' = A @ B"
  shows "find_order b' = (find_order b)(ro_order_id r := None)"
proof (rule lookup_eqI)
  fix i q
  have "ro_order_id r \<notin> ro_order_id ` set (A @ B)" using book_ids_distinct(1) [OF assms(1)] assms(3) by auto
  then have "\<forall>p \<in> set (A @ B). ro_order_id p \<noteq> ro_order_id r" by (metis imageI)
  then show "find_order b' i = Some q \<longleftrightarrow> ((find_order b)(ro_order_id r := None)) i = Some q"
    using find_order_iff [OF assms(1)] find_order_iff [OF assms(2)] assms(3,4) by auto
qed

lemma find_order_replace:
  assumes "book_inv b" "book_inv b'" "book_orders b = A @ r # B" "book_orders b' = A @ r' # B"
    "ro_order_id r' = ro_order_id r"
  shows "find_order b' = (find_order b)(ro_order_id r \<mapsto> r')"
proof (rule lookup_eqI)
  fix i q
  have "ro_order_id r \<notin> ro_order_id ` set (A @ B)" using book_ids_distinct(1) [OF assms(1)] assms(3) by auto
  then have "\<forall>p \<in> set (A @ B). ro_order_id p \<noteq> ro_order_id r" by (metis imageI)
  then show "find_order b' i = Some q \<longleftrightarrow> ((find_order b)(ro_order_id r \<mapsto> r')) i = Some q"
    using find_order_iff [OF assms(1)] find_order_iff [OF assms(2)] assms(3-5) by auto
qed

lemma apply_fill_succeeds:
  assumes inv: "book_inv b" and r: "find_order b i = Some r"
    and x: "\<not> x \<le> kQuantityTolerance" "\<not> ro_remaining_quantity r + kQuantityTolerance < x"
  shows "fst (apply_fill b i x)"
proof -
  have m: "r \<in> set (book_orders b)" and i: "ro_order_id r = i" using r find_order_iff [OF inv] by auto
  have loc: "ob_order_index b i = Some (locator_of r)" using book_member_index [OF inv m] i by simp
  have L: "ladder_inv std_greater Buy (ob_bid_levels b)" "ladder_inv std_less Sell (ob_ask_levels b)"
    using inv by (auto simp: book_inv_def)
  from m consider (bid) "r \<in> set (level_orders (ob_bid_levels b))" | (ask) "r \<in> set (level_orders (ob_ask_levels b))"
    by (auto simp: book_orders_def)
  then show ?thesis
  proof cases
    case bid
    from bids.ladder_member [OF L(1) bid] obtain k where k: "rq_side (ro_request r) = Buy"
      "rq_price (ro_request r) = Some k" by blast
    from bids.fill_member [OF L(1) book_ids_distinct(2) [OF inv] bid k(2) x(2)] show ?thesis
      using loc x(1) i k by (auto simp: apply_fill_def locator_of_def)
  next
    case ask
    from asks.ladder_member [OF L(2) ask] obtain k where k: "rq_side (ro_request r) = Sell"
      "rq_price (ro_request r) = Some k" by blast
    from asks.fill_member [OF L(2) book_ids_distinct(3) [OF inv] ask k(2) x(2)] show ?thesis
      using loc x(1) i k by (auto simp: apply_fill_def locator_of_def)
  qed
qed

lemma cancel_order_find:
  assumes "book_inv b" "cancel_order b order_id = (ok, b')"
  shows "book_inv b' \<and> (ok \<longleftrightarrow> find_order b order_id \<noteq> None) \<and> (\<not> ok \<longrightarrow> b' = b) \<and>
    find_order b' = (find_order b)(order_id := None)"
proof (cases "ob_order_index b order_id")
  case None
  then show ?thesis using assms find_order_None [OF assms(1)] by (auto simp: cancel_order_def)
next
  case (Some loc)
  from book_inv_cancel [OF assms(1), of order_id] Some assms(2) obtain A r B where
    c: "ok" "book_inv b'" "book_orders b = A @ r # B" "book_orders b' = A @ B" "ro_order_id r = order_id" by auto
  moreover have "find_order b' = (find_order b)(order_id := None)"
    using find_order_remove [OF assms(1) c(2-4)] c(5) by simp
  ultimately show ?thesis using find_order_None [OF assms(1)] Some by simp
qed

lemma book_inv_new: "book_inv (order_book_new i)"
  by (simp add: book_inv_def order_book_new_def ladder_inv_def store_inv_def book_orders_def)

text \<open>The order in which a side serves its orders: price first, then arrival.\<close>

definition served_before :: "(double \<Rightarrow> double \<Rightarrow> bool) \<Rightarrow> resting_order \<Rightarrow> resting_order \<Rightarrow> bool" where
  "served_before better r q \<longleftrightarrow>
     (let p = the (rq_price (ro_request r)); p' = the (rq_price (ro_request q))
      in better p p' \<or> p = p' \<and> ro_sequence_number r < ro_sequence_number q)"

lemma ladder_served_order:
  assumes "ladder_inv cmp side l"
  shows "sorted_wrt (served_before cmp) (level_orders l)"
  using assms
proof (induction l)
  case (Cons a l)
  obtain k rs where a: "a = (k, rs)" by force
  have ok: "level_ok side (k, rs)" and oks: "\<forall>level \<in> set l. level_ok side level"
    and lt: "\<forall>k' \<in> fst ` set l. cmp k k'" using Cons.prems by (auto simp: ladder_inv_def a)
  have price: "the (rq_price (ro_request r)) = k" if "r \<in> set rs" for r using ok that by (simp add: level_ok_def)
  have later: "cmp k (the (rq_price (ro_request q)))" if "q \<in> set (level_orders l)" for q
    using that oks lt by (force simp: level_orders_def level_ok_def)
  have "sorted_wrt (served_before cmp) rs"
    using ok price by (auto simp: level_ok_def served_before_def Let_def sorted_wrt_map intro: sorted_wrt_mono_rel [rotated])
  moreover have "sorted_wrt (served_before cmp) (level_orders l)"
    using Cons by (simp add: ladder_inv_def)
  moreover have "served_before cmp r q" if "r \<in> set rs" "q \<in> set (level_orders l)" for r q
    using price [OF that(1)] later [OF that(2)] by (simp add: served_before_def)
  ultimately show ?case by (simp add: a sorted_wrt_append)
qed simp

subsection \<open>Correctness of the operations\<close>

definition sample_instrument :: instrument where
  "sample_instrument = \<lparr>instrument_id = ''BTC-USD'', exchange = ''X'', symbol = ''BTCUSD'',
     base_asset = ''BTC'', quote_asset = ''USD'', tick_size = 1, lot_size = 1\<rparr>"

definition sample_request :: "order_side \<Rightarrow> double \<Rightarrow> double \<Rightarrow> order_request" where
  "sample_request side price quantity = \<lparr>rq_request_id = ''r'', rq_strategy_id = ''s'',
     rq_instrument = sample_instrument, rq_side = side, rq_type = Limit, rq_quantity = quantity,
     rq_price = Some price\<rparr>"

definition sample_resting :: resting_order where
  "sample_resting = \<lparr>ro_order_id = ''o1'', ro_client_order_id = ''c1'',
     ro_request = sample_request Buy (Fin 100) (Fin 2), ro_remaining_quantity = Fin 2, ro_sequence_number = 1\<rparr>"

definition sample_book :: order_book where
  "sample_book = \<lparr>ob_instrument = sample_instrument, ob_bid_levels = [(Fin 100, [sample_resting])],
     ob_ask_levels = [], ob_order_index = [''o1'' \<mapsto> \<lparr>loc_side = Buy, loc_price = Fin 100\<rparr>],
     ob_order_count = 1, ob_next_sequence_number = 2\<rparr>"

lemma sample_request_sel [simp]:
  "rq_quantity (sample_request s p q) = q" "rq_price (sample_request s p q) = Some p"
  "rq_side (sample_request s p q) = s" "rq_type (sample_request s p q) = Limit"
  "rq_instrument (sample_request s p q) = sample_instrument"
  by (simp_all add: sample_request_def)

lemma sample_finite: "request_finite (sample_request side (Fin p) (Fin q))"
  by (simp add: request_finite_def)

lemma sample_book_add:
  "add_order (order_book_new sample_instrument) (sample_request Buy (Fin 100) (Fin 2)) ''o1'' ''c1'' (Fin 0) =
     (True, sample_book)"
  by (simp add: add_order_def is_request_compatible_def order_book_new_def double_eval
      sample_book_def sample_resting_def Let_def numeral_2_eq_2)

lemma sample_book_ok:
  "book_inv sample_book" "find_order sample_book ''o1'' = Some sample_resting" "find_order sample_book ''o2'' = None"
proof -
  have "is_request_compatible (order_book_new sample_instrument) (sample_request Buy (Fin 100) (Fin 2)) ''o1'' ''c1'' (Fin 0)"
    by (simp add: is_request_compatible_def order_book_new_def double_eval)
  from book_inv_add [OF book_inv_new this sample_finite] sample_book_add show "book_inv sample_book" by simp
qed (simp_all add: find_order_def sample_book_def find_in_levels_def std_greater_def sample_resting_def)

text \<open>
  On a well-formed book, \<open>add_order\<close> with a request that has no NaN keeps the book well formed;
  it refuses exactly the incompatible requests and then changes nothing, and otherwise the book, read
  as a map by \<open>find_order\<close>, gains exactly the new order with its residual quantity and the next
  sequence number.
\<close>

theorem add_order_correct:
  assumes "book_inv b" "request_finite rq" "valid_double filled" "filled \<noteq> NaN"
    and "add_order b rq order_id client_id filled = (ok, b')"
  shows "book_inv b' \<and> (ok \<longleftrightarrow> is_request_compatible b rq order_id client_id filled) \<and>
    (\<not> ok \<longrightarrow> b' = b) \<and>
    (ok \<longrightarrow> find_order b order_id = None \<and> find_order b' = (find_order b)(order_id \<mapsto>
      \<lparr>ro_order_id = order_id, ro_client_order_id = client_id, ro_request = rq,
       ro_remaining_quantity = std_max 0 (rq_quantity rq - filled),
       ro_sequence_number = ob_next_sequence_number b\<rparr>))"
proof -
  have ok: "ok \<longleftrightarrow> is_request_compatible b rq order_id client_id filled"
    and f: "\<not> ok \<longrightarrow> b' = b" using assms(5) by (auto simp: add_order_def Let_def split: if_splits)
  have *: "book_inv b' \<and> (\<exists>A B. book_orders b = A @ B \<and>
      book_orders b' = A @ rested b rq order_id client_id filled # B)" if ok
    using book_inv_add [OF assms(1) _ assms(2-4), of order_id client_id] ok that assms(5) by simp
  have "find_order b order_id = None" if ok
    using ok that find_order_None [OF assms(1)] by (simp add: is_request_compatible_def split: if_splits)
  moreover have "find_order b' = (find_order b)(order_id \<mapsto> rested b rq order_id client_id filled)" if ok
    using * [OF that] find_order_insert [OF assms(1), of b' _ _ "rested b rq order_id client_id filled"]
    by (auto simp: rested_def)
  ultimately show ?thesis using ok f * assms(1) unfolding rested_def by blast
qed

theorem add_order_correct_witness:
  "book_inv sample_book \<and> find_order sample_book ''o1'' = Some sample_resting"
  using add_order_correct [OF book_inv_new sample_finite _ _ sample_book_add]
  by (simp add: sample_resting_def double_eval order_book_new_def)

text \<open>
  On a well-formed book, \<open>cancel_order\<close> succeeds exactly for the ids that \<open>find_order\<close> finds,
  removes exactly that order, keeps the book well formed, and otherwise leaves it unchanged.
\<close>

theorem cancel_order_correct:
  assumes "book_inv b" "cancel_order b order_id = (ok, b')"
  shows "book_inv b' \<and> (ok \<longleftrightarrow> find_order b order_id \<noteq> None) \<and> (\<not> ok \<longrightarrow> b' = b) \<and>
    find_order b' = (find_order b)(order_id := None)"
  using assms by (rule cancel_order_find)

theorem cancel_order_correct_witness:
  "fst (cancel_order sample_book ''o1'') \<and> find_order (snd (cancel_order sample_book ''o1'')) ''o1'' = None \<and>
   cancel_order sample_book ''o2'' = (False, sample_book)"
  using cancel_order_correct [OF sample_book_ok(1) surjective_pairing, of "''o1''"]
    cancel_order_correct [OF sample_book_ok(1) surjective_pairing, of "''o2''"]
    sample_book_ok(2,3) by (simp add: prod_eq_iff)

text \<open>
  On a well-formed book, \<open>apply_fill\<close> refuses, without changing anything, a quantity within the
  tolerance, an unknown id, and an execution that exceeds the order's remaining quantity by more than
  the tolerance. Every other fill goes through: the order leaves the book when at most the tolerance
  is left of it and otherwise keeps its place with the reduced quantity, and no other order changes.
\<close>

theorem apply_fill_correct:
  assumes "book_inv b" "apply_fill b order_id executed = (ok, b')"
  shows "book_inv b' \<and> (\<not> ok \<longrightarrow> b' = b) \<and>
    (ok \<longleftrightarrow> \<not> executed \<le> kQuantityTolerance \<and> (\<exists>r. find_order b order_id = Some r \<and>
       \<not> ro_remaining_quantity r + kQuantityTolerance < executed)) \<and>
    (ok \<longrightarrow> (let r = the (find_order b order_id); left = std_max 0 (ro_remaining_quantity r - executed) in
       find_order b' = (find_order b)(order_id :=
         if left \<le> kQuantityTolerance then None else Some (r\<lparr>ro_remaining_quantity := left\<rparr>))))"
proof (cases ok)
  case False
  then have "b' = b" using assms(2) apply_fill_False by simp
  then show ?thesis using False assms apply_fill_succeeds [OF assms(1)] by fastforce
next
  case True
  from book_inv_apply_fill [OF assms(1), of order_id executed b'] assms(2) True obtain A r B where
    f: "book_inv b'" "book_orders b = A @ r # B" "book_orders b' = A @ after_fill r executed @ B"
      "ro_order_id r = order_id" "\<not> ro_remaining_quantity r + kQuantityTolerance < executed"
      "\<not> executed \<le> kQuantityTolerance" by auto
  have r: "find_order b order_id = Some r" using find_order_iff [OF assms(1)] f(2,4) by simp
  have "find_order b' = (find_order b)(order_id := if filled_remaining r executed \<le> kQuantityTolerance
      then None else Some (r\<lparr>ro_remaining_quantity := filled_remaining r executed\<rparr>))"
    using find_order_remove [OF assms(1) f(1,2)] f(3,4)
      find_order_replace [OF assms(1) f(1,2), of "r\<lparr>ro_remaining_quantity := filled_remaining r executed\<rparr>"]
    by (simp add: after_fill_def)
  then show ?thesis using True f(1,5,6) r by (simp add: filled_remaining_def Let_def)
qed

theorem apply_fill_correct_witness:
  "book_inv (snd (apply_fill sample_book ''o1'' (Fin 1))) \<and> fst (apply_fill sample_book ''o1'' (Fin 1)) \<and>
   map_option ro_remaining_quantity (find_order (snd (apply_fill sample_book ''o1'' (Fin 1))) ''o1'') = Some (Fin 1) \<and>
   find_order (snd (apply_fill sample_book ''o1'' (Fin 2))) ''o1'' = None"
  using apply_fill_correct [OF sample_book_ok(1) surjective_pairing, of "''o1''" "Fin 1"]
    apply_fill_correct [OF sample_book_ok(1) surjective_pairing, of "''o1''" "Fin 2"]
  by (simp add: sample_book_ok(2) sample_resting_def double_eval Let_def)

text \<open>
  Price-time priority: on a well-formed book the order that \<open>best_bid_order\<close> returns has the
  highest price among the resting buys and arrived first among those of that price, the one of
  \<open>best_ask_order\<close> the lowest price among the sells and the earliest arrival at it; each is absent
  only when its side is empty.
\<close>

theorem best_orders_price_time:
  assumes "book_inv b"
  shows "(\<forall>r q. best_bid_order b = Some r \<and> q \<in> set (book_orders b) \<and> rq_side (ro_request q) = Buy \<and> q \<noteq> r
      \<longrightarrow> served_before (>) r q)
    \<and> (\<forall>r q. best_ask_order b = Some r \<and> q \<in> set (book_orders b) \<and> rq_side (ro_request q) = Sell \<and> q \<noteq> r
      \<longrightarrow> served_before (<) r q)
    \<and> (best_bid_order b = None \<longleftrightarrow> (\<forall>q \<in> set (book_orders b). rq_side (ro_request q) = Sell))
    \<and> (best_ask_order b = None \<longleftrightarrow> (\<forall>q \<in> set (book_orders b). rq_side (ro_request q) = Buy))"
proof -
  have L: "ladder_inv std_greater Buy (ob_bid_levels b)" "ladder_inv std_less Sell (ob_ask_levels b)"
    using assms by (auto simp: book_inv_def)
  have gr: "std_greater = (>)" and ls: "std_less = (<)" by (auto simp: std_greater_def std_less_def fun_eq_iff)
  have side: "set (level_orders (ob_bid_levels b)) = {q \<in> set (book_orders b). rq_side (ro_request q) = Buy}"
    "set (level_orders (ob_ask_levels b)) = {q \<in> set (book_orders b). rq_side (ro_request q) = Sell}"
    using bids.ladder_member(1) [OF L(1)] asks.ladder_member(1) [OF L(2)] by (force simp: book_orders_def)+
  have hd: "served_before cmp r q" if "sorted_wrt (served_before cmp) l" "q \<in> set l" "q \<noteq> r"
    "(case l of [] \<Rightarrow> None | x # _ \<Rightarrow> Some x) = Some r" for cmp r q l
    using that by (cases l) auto
  have none: "(case l of [] \<Rightarrow> None | x # _ \<Rightarrow> Some x) = None \<longleftrightarrow> set l = {}" for l :: "resting_order list"
    by (cases l) auto
  have sides: "s = Buy \<longleftrightarrow> s \<noteq> Sell" for s by (cases s) auto
  show ?thesis
    using hd [OF ladder_served_order [OF L(1)]] hd [OF ladder_served_order [OF L(2)]] side
    unfolding book_best_bid [OF assms] book_best_ask [OF assms] none gr ls by (auto simp: sides)
qed

definition sample_later :: resting_order where
  "sample_later = \<lparr>ro_order_id = ''o2'', ro_client_order_id = ''c2'',
     ro_request = sample_request Buy (Fin 99) (Fin 1), ro_remaining_quantity = Fin 1, ro_sequence_number = 2\<rparr>"

lemma sample_book2:
  "book_inv (snd (add_order sample_book (sample_request Buy (Fin 99) (Fin 1)) ''o2'' ''c2'' (Fin 0)))" (is "book_inv ?b")
  "ob_bid_levels (snd (add_order sample_book (sample_request Buy (Fin 99) (Fin 1)) ''o2'' ''c2'' (Fin 0))) =
     [(Fin 100, [sample_resting]), (Fin 99, [sample_later])]"
proof -
  have "\<not> Fin 1 - kQuantityTolerance \<le> Fin 0" using int_minus_tolerance [of 0 1] double_le_less_trans by fastforce
  then have c: "is_request_compatible sample_book (sample_request Buy (Fin 99) (Fin 1)) ''o2'' ''c2'' (Fin 0)"
    by (simp add: is_request_compatible_def sample_book_def double_eval)
  show "book_inv ?b" using book_inv_add [OF sample_book_ok(1) c sample_finite] by simp
  show "ob_bid_levels ?b = [(Fin 100, [sample_resting]), (Fin 99, [sample_later])]"
    unfolding add_order_eq [OF c sample_request_sel(2)]
    by (simp add: rested_def sample_book_def sample_later_def double_eval std_greater_def)
qed

theorem best_orders_price_time_witness:
  "served_before (>) sample_resting sample_later"
proof -
  let ?b = "snd (add_order sample_book (sample_request Buy (Fin 99) (Fin 1)) ''o2'' ''c2'' (Fin 0))"
  have "best_bid_order ?b = Some sample_resting" "sample_later \<in> set (book_orders ?b)"
    by (simp_all add: best_bid_order_def front_order_def book_orders_def sample_book2(2))
  moreover have "sample_later \<noteq> sample_resting" "rq_side (ro_request sample_later) = Buy"
    by (simp_all add: sample_later_def sample_resting_def)
  ultimately show ?thesis using best_orders_price_time [OF sample_book2(1)] by blast
qed

end
