(* ===== verification/Matching_Engine.thy ===== *)
theory Matching_Engine
  imports Order_Book Storage
begin

section \<open>The matching engine\<close>

text \<open>
  \<open>include/execution/matching_engine.hpp\<close> and \<open>src/execution/matching_engine.cpp\<close>. The three
  matching loops of the source (in \<open>submit\<close> and in the two lambdas of \<open>process_market_event\<close>) share
  one shape: take the best resting order of a side, test it, fill the smaller of the two quantities,
  record the fill, repeat. \<open>sweep\<close> is that loop; since nothing in its body bounds it, it is a partial
  function whose non-termination is \<open>None\<close>, and \<open>book_side\<close> proves that on a well-formed book it
  returns, with the result of the list recursion \<open>match_queue\<close> on the side's priority queue.
  \<open>orders_\<close> and \<open>books_\<close> are never iterated and are maps.
\<close>

subsection \<open>State\<close>

record execution_result =
  xr_order_id :: string
  xr_client_order_id :: string
  xr_updates :: "order_update list"
  xr_fills :: "fill_event list"

record matching_engine =
  mx_books :: "string \<rightharpoonup> order_book"
  mx_orders :: "string \<rightharpoonup> order_record"
  mx_next_order_id :: nat
  mx_next_client_order_id :: nat
  mx_next_fill_id :: nat

definition matching_engine_new :: matching_engine where
  "matching_engine_new = \<lparr>mx_books = Map.empty, mx_orders = Map.empty, mx_next_order_id = 1,
     mx_next_client_order_id = 1, mx_next_fill_id = 1\<rparr>"

text \<open>What a matching loop writes besides the book: \<open>orders_\<close>, \<open>next_fill_id_\<close>, \<open>result.fills\<close> and, for
  market events, \<open>touched_orders\<close>.\<close>

record ledger =
  lg_orders :: "string \<rightharpoonup> order_record"
  lg_next_fill_id :: nat
  lg_fills :: "fill_event list"
  lg_touched_orders :: "string list"

subsection \<open>Helpers\<close>

definition make_update :: "string \<Rightarrow> string \<Rightarrow> order_status \<Rightarrow> double \<Rightarrow> string option \<Rightarrow> order_update" where
  "make_update order_id client_order_id status filled reason = \<lparr>ou_order_id = order_id,
     ou_client_order_id = client_order_id, ou_status = status, ou_filled_quantity = filled, ou_reason = reason\<rparr>"

definition crosses :: "order_request \<Rightarrow> resting_order \<Rightarrow> bool" where
  "crosses incoming resting =
     (case (rq_price incoming, rq_price (ro_request resting)) of
        (Some p, Some q) \<Rightarrow> if rq_side incoming = Buy then q \<le> p else p \<le> q
      | _ \<Rightarrow> False)"

definition is_terminal :: "order_status \<Rightarrow> bool" where
  "is_terminal status \<longleftrightarrow> status = Filled \<or> status = Canceled \<or> status = Rejected \<or> status = Expired"

definition apply_fill_to_order :: "string \<Rightarrow> double \<Rightarrow> (string \<rightharpoonup> order_record) \<Rightarrow> (string \<rightharpoonup> order_record)" where
  "apply_fill_to_order order_id executed orders =
     (case orders order_id of None \<Rightarrow> orders
      | Some order \<Rightarrow>
        if executed \<le> kQuantityTolerance then orders
        else
          let filled = std_min (or_quantity order) (or_filled_quantity order + executed);
              filled' = (if \<bar>filled - or_quantity order\<bar> \<le> kQuantityTolerance then or_quantity order else filled);
              status = (if or_quantity order - kQuantityTolerance \<le> filled' then Filled else Partially_filled)
          in orders(order_id \<mapsto> order\<lparr>or_filled_quantity := filled', or_status := status\<rparr>))"

definition append_order_update :: "(string \<rightharpoonup> order_record) \<Rightarrow> string \<Rightarrow> order_update list \<Rightarrow> order_update list" where
  "append_order_update orders order_id updates =
     (case orders order_id of None \<Rightarrow> updates
      | Some order \<Rightarrow> updates @ [make_update (or_order_id order) (or_client_order_id order) (or_status order)
          (or_filled_quantity order) None])"

definition book_for :: "instrument \<Rightarrow> (string \<rightharpoonup> order_book) \<Rightarrow> order_book" where
  "book_for i books = (case books (instrument_id i) of Some b \<Rightarrow> b | None \<Rightarrow> order_book_new i)"

subsection \<open>The matching loop\<close>

partial_function (option) sweep ::
  "(order_book \<Rightarrow> resting_order option) \<Rightarrow> (resting_order \<Rightarrow> bool) \<Rightarrow> (resting_order \<Rightarrow> double \<Rightarrow> ledger \<Rightarrow> ledger) \<Rightarrow>
   order_book \<Rightarrow> double \<Rightarrow> ledger \<Rightarrow> (order_book \<times> double \<times> ledger) option" where
  "sweep best accept on_fill book remaining lg =
     (if \<not> kQuantityTolerance < remaining then Some (book, remaining, lg)
      else case best book of None \<Rightarrow> Some (book, remaining, lg)
      | Some resting \<Rightarrow>
        if \<not> accept resting then Some (book, remaining, lg)
        else
          let executed = std_min remaining (ro_remaining_quantity resting)
          in case apply_fill book (ro_order_id resting) executed of (ok, book') \<Rightarrow>
            if \<not> ok then Some (book', remaining, lg)
            else sweep best accept on_fill book' (std_max 0 (remaining - executed)) (on_fill resting executed lg))"

definition push_fill :: "string \<Rightarrow> instrument \<Rightarrow> order_side \<Rightarrow> double \<Rightarrow> double \<Rightarrow> ledger \<Rightarrow> ledger" where
  "push_fill order_id instr side price executed lg =
     lg\<lparr>lg_fills := lg_fills lg @ [\<lparr>fl_fill_id = ''match-fill-'' @ show_nat (lg_next_fill_id lg),
          fl_order_id = order_id, fl_instrument = instr, fl_side = side, fl_price = price,
          fl_quantity = executed, fl_fee = 0\<rparr>],
        lg_next_fill_id := lg_next_fill_id lg + 1\<rparr>"

definition submit_on_fill :: "order_request \<Rightarrow> string \<Rightarrow> resting_order \<Rightarrow> double \<Rightarrow> ledger \<Rightarrow> ledger" where
  "submit_on_fill rq order_id resting executed lg =
     push_fill order_id (rq_instrument rq) (rq_side rq) (the (rq_price (ro_request resting))) executed
       (lg\<lparr>lg_orders := apply_fill_to_order (ro_order_id resting) executed (lg_orders lg)\<rparr>)"

definition market_on_fill :: "market_event \<Rightarrow> book_level \<Rightarrow> resting_order \<Rightarrow> double \<Rightarrow> ledger \<Rightarrow> ledger" where
  "market_on_fill event level resting executed lg =
     (let instr = (if base_asset (rq_instrument (ro_request resting)) = '''' \<and>
                      quote_asset (rq_instrument (ro_request resting)) = ''''
                   then me_instrument event else rq_instrument (ro_request resting));
          lg' = push_fill (ro_order_id resting) instr (rq_side (ro_request resting)) (bl_price level) executed
            (lg\<lparr>lg_orders := apply_fill_to_order (ro_order_id resting) executed (lg_orders lg)\<rparr>)
      in lg'\<lparr>lg_touched_orders := lg_touched_orders lg' @ [ro_order_id resting]\<rparr>)"

subsection \<open>Operations\<close>

definition engine_order_id :: "nat \<Rightarrow> string" where
  "engine_order_id n = ''match-order-'' @ show_nat n"

definition engine_client_order_id :: "nat \<Rightarrow> string" where
  "engine_client_order_id n = ''match-client-'' @ show_nat n"

definition set_order_status :: "string \<Rightarrow> order_status \<Rightarrow> (string \<rightharpoonup> order_record) \<Rightarrow> (string \<rightharpoonup> order_record)" where
  "set_order_status i status orders = orders(i := map_option (\<lambda>r. r\<lparr>or_status := status\<rparr>) (orders i))"

definition set_order_filled :: "string \<Rightarrow> double \<Rightarrow> (string \<rightharpoonup> order_record) \<Rightarrow> (string \<rightharpoonup> order_record)" where
  "set_order_filled i filled orders = orders(i := map_option (\<lambda>r. r\<lparr>or_filled_quantity := filled\<rparr>) (orders i))"

definition best_opposite :: "order_side \<Rightarrow> order_book \<Rightarrow> resting_order option" where
  "best_opposite side book = (if side = Buy then best_ask_order book else best_bid_order book)"

definition submit :: "order_request \<Rightarrow> matching_engine \<Rightarrow> (execution_result \<times> matching_engine) option" where
  "submit rq e =
     (let i = engine_order_id (mx_next_order_id e);
          c = engine_client_order_id (mx_next_client_order_id e);
          orders0 = (mx_orders e)(i \<mapsto> order_record_of rq i c);
          e0 = e\<lparr>mx_next_order_id := mx_next_order_id e + 1, mx_next_client_order_id := mx_next_client_order_id e + 1,
             mx_orders := orders0\<rparr>;
          reject = (\<lambda>reason. Some (\<lparr>xr_order_id = i, xr_client_order_id = c,
             xr_updates = [make_update i c Rejected 0 (Some reason)], xr_fills = []\<rparr>,
             e0\<lparr>mx_orders := set_order_status i Rejected orders0\<rparr>))
      in if rq_type rq = Market then reject ''market orders are not supported by the matching engine''
         else if (case rq_price rq of None \<Rightarrow> True | Some p \<Rightarrow> p \<le> 0) \<or> rq_quantity rq \<le> 0
         then reject ''invalid matching-engine order request''
         else
           let book = book_for (rq_instrument rq) (mx_books e0);
               orders1 = set_order_status i Acknowledged orders0;
               ack = make_update i c Acknowledged 0 None
           in case sweep (best_opposite (rq_side rq)) (crosses rq) (submit_on_fill rq i) book (rq_quantity rq)
                \<lparr>lg_orders = orders1, lg_next_fill_id = mx_next_fill_id e0, lg_fills = [], lg_touched_orders = []\<rparr>
              of None \<Rightarrow> None
              | Some (book', remaining, lg) \<Rightarrow>
                let filled = std_max 0 (rq_quantity rq - remaining);
                    orders2 = set_order_filled i filled (lg_orders lg);
                    (rested, book'') = (if kQuantityTolerance < remaining then add_order book' rq i c filled
                                        else (True, book'));
                    finish = (\<lambda>orders updates. Some (\<lparr>xr_order_id = i, xr_client_order_id = c,
                       xr_updates = ack # updates, xr_fills = lg_fills lg\<rparr>,
                       e0\<lparr>mx_books := (mx_books e0)(instrument_id (rq_instrument rq) \<mapsto> book''),
                          mx_orders := orders, mx_next_fill_id := lg_next_fill_id lg\<rparr>))
                in if \<not> rested
                   then finish (set_order_status i Rejected orders2)
                     [make_update i c Rejected filled (Some ''failed to rest residual order quantity'')]
                   else if \<bar>filled - rq_quantity rq\<bar> \<le> kQuantityTolerance
                   then finish (set_order_status i Filled (set_order_filled i (rq_quantity rq) orders2))
                     [make_update i c Filled filled None]
                   else if kQuantityTolerance < filled
                   then finish (set_order_status i Partially_filled orders2)
                     [make_update i c Partially_filled filled None]
                   else finish orders2 [])"

fun process_levels ::
  "(order_book \<Rightarrow> resting_order option) \<Rightarrow> (book_level \<Rightarrow> resting_order \<Rightarrow> bool) \<Rightarrow>
   (book_level \<Rightarrow> resting_order \<Rightarrow> double \<Rightarrow> ledger \<Rightarrow> ledger) \<Rightarrow> book_level list \<Rightarrow> order_book \<Rightarrow> ledger \<Rightarrow>
   (order_book \<times> ledger) option" where
  "process_levels best accept on_fill [] book lg = Some (book, lg)"
| "process_levels best accept on_fill (level # levels) book lg =
     (case sweep best (accept level) (on_fill level) book (bl_quantity level) lg of None \<Rightarrow> None
      | Some (book', _, lg') \<Rightarrow> process_levels best accept on_fill levels book' lg')"

definition buy_reaches :: "book_level \<Rightarrow> resting_order \<Rightarrow> bool" where
  "buy_reaches level resting =
     (case rq_price (ro_request resting) of None \<Rightarrow> False
      | Some p \<Rightarrow> \<not> p + kQuantityTolerance < bl_price level)"

definition sell_reaches :: "book_level \<Rightarrow> resting_order \<Rightarrow> bool" where
  "sell_reaches level resting =
     (case rq_price (ro_request resting) of None \<Rightarrow> False
      | Some p \<Rightarrow> \<not> bl_price level < p - kQuantityTolerance)"

definition process_market_event :: "market_event \<Rightarrow> matching_engine \<Rightarrow> (execution_result \<times> matching_engine) option" where
  "process_market_event event e =
     (case mx_books e (instrument_id (me_instrument event)) of
        None \<Rightarrow> Some (\<lparr>xr_order_id = '''', xr_client_order_id = '''', xr_updates = [], xr_fills = []\<rparr>, e)
      | Some book \<Rightarrow>
        (case process_levels best_bid_order buy_reaches (market_on_fill event) (me_ask_levels event) book
            \<lparr>lg_orders = mx_orders e, lg_next_fill_id = mx_next_fill_id e, lg_fills = [], lg_touched_orders = []\<rparr> of
           None \<Rightarrow> None
         | Some (book1, lg1) \<Rightarrow>
           (case process_levels best_ask_order sell_reaches (market_on_fill event) (me_bid_levels event) book1 lg1 of
              None \<Rightarrow> None
            | Some (book2, lg2) \<Rightarrow>
              let touched = sort_unique (lg_touched_orders lg2)
              in Some (\<lparr>xr_order_id = '''', xr_client_order_id = '''',
                    xr_updates = fold (append_order_update (lg_orders lg2)) touched [], xr_fills = lg_fills lg2\<rparr>,
                   e\<lparr>mx_books := (mx_books e)(instrument_id (me_instrument event) \<mapsto> book2),
                     mx_orders := lg_orders lg2, mx_next_fill_id := lg_next_fill_id lg2\<rparr>))))"

definition cancel :: "string \<Rightarrow> string \<Rightarrow> matching_engine \<Rightarrow> execution_result \<times> matching_engine" where
  "cancel order_id client_order_id e =
     (case mx_orders e order_id of
        None \<Rightarrow> (\<lparr>xr_order_id = order_id, xr_client_order_id = client_order_id,
          xr_updates = [make_update order_id client_order_id Rejected 0 (Some ''open order not found'')],
          xr_fills = []\<rparr>, e)
      | Some order \<Rightarrow>
        let c = or_client_order_id order; filled = or_filled_quantity order;
            result = (\<lambda>updates. \<lparr>xr_order_id = order_id, xr_client_order_id = c, xr_updates = updates, xr_fills = []\<rparr>)
        in if is_terminal (or_status order)
           then (result [make_update order_id c Rejected filled (Some ''order is not cancelable'')], e)
           else
             let not_found = result [make_update order_id c Rejected filled (Some ''open order not found'')]
             in case mx_books e (or_instrument_id order) of None \<Rightarrow> (not_found, e)
                | Some book \<Rightarrow>
                  let (ok, book') = cancel_order book order_id;
                      e' = e\<lparr>mx_books := (mx_books e)(or_instrument_id order \<mapsto> book')\<rparr>
                  in if \<not> ok then (not_found, e')
                     else (result [make_update order_id c Pending_cancel filled None,
                                   make_update order_id c Canceled filled None],
                           e'\<lparr>mx_orders := (mx_orders e)(order_id \<mapsto> order\<lparr>or_status := Canceled\<rparr>)\<rparr>))"

definition restore_open_order :: "string \<Rightarrow> string \<Rightarrow> order_request \<Rightarrow> double \<Rightarrow> matching_engine \<Rightarrow> matching_engine" where
  "restore_open_order order_id client_order_id rq filled e =
     (if (case rq_price rq of None \<Rightarrow> True | Some p \<Rightarrow> p \<le> 0) \<or> rq_quantity rq \<le> 0 then e
      else if filled < 0 \<or> rq_quantity rq - kQuantityTolerance \<le> filled then e
      else
        let record = (order_record_of rq order_id client_order_id)
              \<lparr>or_status := if 0 < filled then Partially_filled else Acknowledged, or_filled_quantity := filled\<rparr>;
            orders = (mx_orders e)(order_id \<mapsto> record);
            (ok, book) = add_order (book_for (rq_instrument rq) (mx_books e)) rq order_id client_order_id filled
        in e\<lparr>mx_books := (mx_books e)(instrument_id (rq_instrument rq) \<mapsto> book),
             mx_orders := if ok then orders else orders(order_id := None)\<rparr>)"

definition engine_get_order :: "string \<Rightarrow> matching_engine \<Rightarrow> order_record option" where
  "engine_get_order order_id e = mx_orders e order_id"

definition find_book :: "string \<Rightarrow> matching_engine \<Rightarrow> order_book option" where
  "find_book iid e = mx_books e iid"

subsection \<open>Matching as recursion over the priority queue\<close>

text \<open>
  The specification of a sweep: walk the queue of resting orders in priority order, consume each
  accepted order whole while more is wanted than it holds, and take the rest from the last one. The
  result is the unmatched quantity, the executions in order, and the queue that is left.
\<close>

fun match_queue :: "(resting_order \<Rightarrow> bool) \<Rightarrow> double \<Rightarrow> resting_order list \<Rightarrow>
    double \<times> (resting_order \<times> double) list \<times> resting_order list" where
  "match_queue accept q [] = (q, [], [])"
| "match_queue accept q (r # rs) =
     (if \<not> kQuantityTolerance < q \<or> \<not> accept r \<or> ro_remaining_quantity r \<le> kQuantityTolerance then (q, [], r # rs)
      else if ro_remaining_quantity r < q
      then (case match_queue accept (std_max 0 (q - ro_remaining_quantity r)) rs of
              (q', xs, rs') \<Rightarrow> (q', (r, ro_remaining_quantity r) # xs, rs'))
      else (0, [(r, q)], after_fill r q @ rs))"

locale book_side = priority_side queue other best apply_fill book_inv ob_instrument
  for queue other :: "order_book \<Rightarrow> resting_order list" and best
begin

lemma sweep_refines:
  "book_inv b \<Longrightarrow> queue b = rs \<Longrightarrow> match_queue accept q rs = (q', xs, rs') \<Longrightarrow>
   \<exists>b'. sweep best accept on_fill b q lg = Some (b', q', fold (\<lambda>(r, x). on_fill r x) xs lg) \<and>
     book_inv b' \<and> ob_instrument b' = ob_instrument b \<and> queue b' = rs' \<and> other b' = other b"
proof (induction rs arbitrary: b q lg q' xs rs')
  case Nil
  then show ?case by (subst sweep.simps) (simp add: best_queue)
next
  case (Cons r rs)
  let ?m = "ro_remaining_quantity r" and ?x = "std_min q (ro_remaining_quantity r)"
  have best: "best b = Some r" using best_queue [OF Cons.prems(1)] Cons.prems(2) by simp
  consider (stop) "\<not> kQuantityTolerance < q \<or> \<not> accept r"
    | (dust) "kQuantityTolerance < q" "accept r" "?m \<le> kQuantityTolerance"
    | (whole) "kQuantityTolerance < q" "accept r" "\<not> ?m \<le> kQuantityTolerance" "?m < q"
    | (part) "kQuantityTolerance < q" "accept r" "\<not> ?m \<le> kQuantityTolerance" "\<not> ?m < q" by blast
  then show ?case
  proof cases
    case stop
    then show ?thesis using Cons.prems by (subst sweep.simps) (auto simp: best_queue)
  next
    case dust
    then have "?m < q" using double_le_less_trans by blast
    then have "?x = ?m" by (simp add: std_min_def)
    then show ?thesis using Cons.prems dust by (subst sweep.simps) (auto simp: best fill_tiny)
  next
    case whole
    then have x: "?x = ?m" by (simp add: std_min_def)
    have "q \<noteq> NaN" using whole(1) by (auto dest: double_less_not_NaN)
    from fill_min [OF Cons.prems(1,2) _ this] whole(3) x obtain b1 where
      b1: "apply_fill b (ro_order_id r) ?m = (True, b1)" "book_inv b1" "ob_instrument b1 = ob_instrument b"
        "queue b1 = after_fill r ?m @ rs" "other b1 = other b" by auto
    have "after_fill r ?m = []" by (simp add: after_fill_def filled_remaining_def)
    then have q1: "queue b1 = rs" using b1(4) by simp
    obtain xs1 where mq: "match_queue accept (std_max 0 (q - ?m)) rs = (q', xs1, rs')" "xs = (r, ?m) # xs1"
      using Cons.prems(3) whole by (auto split: prod.splits)
    from Cons.IH [OF b1(2) q1 mq(1), of "on_fill r ?m lg"] show ?thesis
      using Cons.prems(1,2) whole b1 x mq(2) by (subst sweep.simps) (auto simp: best_queue)
  next
    case part
    then have x: "?x = q" by (simp add: std_min_def)
    have nn: "q \<noteq> NaN" using part(1) by (auto dest: double_less_not_NaN)
    have "\<not> q \<le> kQuantityTolerance" using part(1) double_le_less_trans double_less_irrefl by blast
    with fill_min [OF Cons.prems(1,2) _ nn] x obtain b1 where
      b1: "apply_fill b (ro_order_id r) q = (True, b1)" "book_inv b1" "ob_instrument b1 = ob_instrument b"
        "queue b1 = after_fill r q @ rs" "other b1 = other b" by auto
    have "sweep best accept on_fill b1 0 lg' = Some (b1, 0, lg')" for lg'
      by (subst sweep.simps) simp
    then show ?thesis
      using Cons.prems part b1 x by (subst sweep.simps) (auto simp: best_queue)
  qed
qed

end

interpretation resting_bids: book_side "\<lambda>b. level_orders (ob_bid_levels b)" "\<lambda>b. level_orders (ob_ask_levels b)"
  best_bid_order
  by (rule book_side.intro) (rule bid_side.priority_side_axioms)

interpretation resting_asks: book_side "\<lambda>b. level_orders (ob_ask_levels b)" "\<lambda>b. level_orders (ob_bid_levels b)"
  best_ask_order
  by (rule book_side.intro) (rule ask_side.priority_side_axioms)

subsection \<open>Facts about the specification\<close>

lemma match_queue_executions:
  "match_queue accept q rs = (q', xs, rs') \<Longrightarrow> (r, x) \<in> set xs \<Longrightarrow>
     r \<in> set rs \<and> accept r \<and> kQuantityTolerance < x \<and> x \<noteq> NaN \<and> \<not> ro_remaining_quantity r < x"
proof (induction accept q rs arbitrary: q' xs rs' rule: match_queue.induct)
  case (2 accept q r' rs)
  show ?case
  proof (cases "\<not> kQuantityTolerance < q \<or> \<not> accept r' \<or> ro_remaining_quantity r' \<le> kQuantityTolerance")
    case False
    then have q: "kQuantityTolerance < q" "accept r'" "\<not> ro_remaining_quantity r' \<le> kQuantityTolerance" by auto
    show ?thesis
    proof (cases "ro_remaining_quantity r' < q")
      case True
      then have "kQuantityTolerance < ro_remaining_quantity r'"
        using q(3) double_not_le [of "ro_remaining_quantity r'" kQuantityTolerance] by (auto dest: double_less_not_NaN)
      then show ?thesis using 2 False True by (auto dest: double_less_not_NaN split: prod.splits)
    next
      case False
      then show ?thesis using 2 q by (auto dest: double_less_not_NaN)
    qed
  qed (use 2 in auto)
qed simp

lemma match_queue_left:
  "match_queue accept q rs = (q', xs, rs') \<Longrightarrow>
     \<exists>us vs ws. rs = us @ vs \<and> map fst xs = us \<and> rs' = vs \<or>
       (\<exists>r x. rs = us @ r # ws \<and> map fst xs = us @ [r] \<and> rs' = after_fill r x @ ws)"
proof (induction accept q rs arbitrary: q' xs rs' rule: match_queue.induct)
  case (2 accept q r rs)
  show ?case
  proof (cases "\<not> kQuantityTolerance < q \<or> \<not> accept r \<or> ro_remaining_quantity r \<le> kQuantityTolerance")
    case True
    then show ?thesis using 2 by auto
  next
    case False
    show ?thesis
    proof (cases "ro_remaining_quantity r < q")
      case True
      then obtain xs1 where mq: "match_queue accept (std_max 0 (q - ro_remaining_quantity r)) rs = (q', xs1, rs')"
        "xs = (r, ro_remaining_quantity r) # xs1" using 2(2) False by (auto split: prod.splits)
      from 2(1) [OF False True mq(1)] obtain us vs ws where
        "rs = us @ vs \<and> map fst xs1 = us \<and> rs' = vs \<or>
          (\<exists>r x. rs = us @ r # ws \<and> map fst xs1 = us @ [r] \<and> rs' = after_fill r x @ ws)" by blast
      then show ?thesis using mq(2)
        by (intro exI [of _ "r # us"] exI [of _ vs] exI [of _ ws]) auto
    next
      case nl: False
      then have "xs = [(r, q)]" "rs' = after_fill r q @ rs" using 2(2) False by auto
      then show ?thesis by (intro exI [of _ "[]"] exI [of _ rs]) auto
    qed
  qed
qed simp

text \<open>Everything left in the queue was there before, except for its remaining quantity.\<close>

lemma match_queue_survivors:
  assumes "match_queue accept q rs = (q', xs, rs')" "r' \<in> set rs'"
  shows "\<exists>r \<in> set rs. ro_order_id r' = ro_order_id r \<and> ro_request r' = ro_request r \<and>
    ro_client_order_id r' = ro_client_order_id r"
proof -
  have "r' \<in> set (after_fill r x) \<Longrightarrow> ro_order_id r' = ro_order_id r \<and> ro_request r' = ro_request r \<and>
      ro_client_order_id r' = ro_client_order_id r" for r x by (auto simp: after_fill_def split: if_splits)
  then show ?thesis using match_queue_left [OF assms(1)] assms(2) by fastforce
qed

text \<open>A sweep that stops with quantity left has met the end of the queue, an order it does not accept,
  or one that holds no more than the tolerance.\<close>

lemma match_queue_stops:
  "match_queue accept q rs = (q', xs, r # rs') \<Longrightarrow> kQuantityTolerance < q' \<Longrightarrow>
     r \<in> set rs \<and> (\<not> accept r \<or> ro_remaining_quantity r \<le> kQuantityTolerance)"
proof (induction accept q rs arbitrary: q' xs rule: match_queue.induct)
  case (2 accept q r' rs)
  show ?case
  proof (cases "\<not> kQuantityTolerance < q \<or> \<not> accept r' \<or> ro_remaining_quantity r' \<le> kQuantityTolerance")
    case True
    then show ?thesis using 2 by auto
  next
    case False
    then show ?thesis
      using 2 by (cases "ro_remaining_quantity r' < q") (auto split: prod.splits)
  qed
qed simp

lemma match_queue_remaining:
  "match_queue accept q rs = (q', xs, rs') \<Longrightarrow> q' = q \<and> xs = [] \<or> (q' \<noteq> NaN \<and> 0 \<le> q' \<and> xs \<noteq> [])"
  by (induction accept q rs arbitrary: q' xs rs' rule: match_queue.induct)
    (auto split: if_splits prod.splits)

subsection \<open>Sides of a book\<close>

definition opposite :: "order_side \<Rightarrow> order_side" where
  "opposite side = (if side = Buy then Sell else Buy)"

definition resting_side :: "order_side \<Rightarrow> order_book \<Rightarrow> resting_order list" where
  "resting_side side b = (if side = Buy then level_orders (ob_bid_levels b) else level_orders (ob_ask_levels b))"

lemma opposite_simps [simp]: "opposite Buy = Sell" "opposite Sell = Buy" "opposite (opposite s) = s"
  by (cases s; simp add: opposite_def)+

lemma set_book_orders: "set (book_orders b) = set (resting_side side b) \<union> set (resting_side (opposite side) b)"
  by (cases side) (auto simp: resting_side_def book_orders_def)

definition order_price :: "resting_order \<Rightarrow> double" where
  "order_price r = the (rq_price (ro_request r))"

text \<open>\<open>not_worse side p q\<close>: an order of that side trades at price \<open>p\<close> at least as well as at \<open>q\<close>.\<close>

definition not_worse :: "order_side \<Rightarrow> double \<Rightarrow> double \<Rightarrow> bool" where
  "not_worse side p q \<longleftrightarrow> (if side = Buy then p \<le> q else q \<le> p)"

lemma sweep_opposite:
  assumes "book_inv b" "match_queue accept q (resting_side (opposite side) b) = (q', xs, rs')"
  shows "\<exists>b'. sweep (best_opposite side) accept on_fill b q lg = Some (b', q', fold (\<lambda>(r, x). on_fill r x) xs lg) \<and>
    book_inv b' \<and> ob_instrument b' = ob_instrument b \<and> resting_side (opposite side) b' = rs' \<and>
    resting_side side b' = resting_side side b"
proof (cases side)
  case Buy
  then show ?thesis using resting_asks.sweep_refines [OF assms(1) refl, of accept q q' xs rs' on_fill lg] assms(2)
    by (simp add: best_opposite_def [abs_def] resting_side_def)
next
  case Sell
  then show ?thesis using resting_bids.sweep_refines [OF assms(1) refl, of accept q q' xs rs' on_fill lg] assms(2)
    by (simp add: best_opposite_def [abs_def] resting_side_def)
qed

subsection \<open>What the loops record\<close>

definition order_static :: "order_record \<Rightarrow> order_record" where
  "order_static r = r\<lparr>or_status := Created, or_filled_quantity := 0\<rparr>"

definition statics :: "(string \<rightharpoonup> order_record) \<Rightarrow> (string \<rightharpoonup> order_record)" where
  "statics orders = (\<lambda>i. map_option order_static (orders i))"

lemma statics_None [simp]: "statics orders i = None \<longleftrightarrow> orders i = None"
  by (simp add: statics_def)

lemma statics_apply_fill [simp]: "statics (apply_fill_to_order i x orders) = statics orders"
  by (auto simp: statics_def apply_fill_to_order_def order_static_def Let_def fun_eq_iff split: option.splits)

lemma statics_set [simp]:
  "statics (set_order_status i s orders) = statics orders" "statics (set_order_filled i q orders) = statics orders"
  by (cases "orders i"; auto simp: statics_def set_order_status_def set_order_filled_def order_static_def fun_eq_iff)+

lemma statics_update: "statics (orders(i \<mapsto> r)) = (statics orders)(i \<mapsto> order_static r)"
  by (auto simp: statics_def)

text \<open>What the executions of a sweep write into the records of the resting orders.\<close>

definition record_fills :: "(resting_order \<times> double) list \<Rightarrow> (string \<rightharpoonup> order_record) \<Rightarrow> (string \<rightharpoonup> order_record)" where
  "record_fills xs = fold (\<lambda>(r, x). apply_fill_to_order (ro_order_id r) x) xs"

lemma record_fills_simps [simp]:
  "record_fills [] orders = orders"
  "record_fills ((r, x) # xs) orders = record_fills xs (apply_fill_to_order (ro_order_id r) x orders)"
  "record_fills (xs @ ys) orders = record_fills ys (record_fills xs orders)"
  by (simp_all add: record_fills_def)

lemma statics_record_fills [simp]: "statics (record_fills xs orders) = statics orders"
  by (induction xs arbitrary: orders) auto

lemma record_fills_other: "i \<notin> ro_order_id ` fst ` set xs \<Longrightarrow> record_fills xs orders i = orders i"
  by (induction xs arbitrary: orders) (auto simp: apply_fill_to_order_def Let_def split: option.splits)

lemma record_fills_update:
  "i \<notin> ro_order_id ` fst ` set xs \<Longrightarrow> record_fills xs (orders(i \<mapsto> v)) = (record_fills xs orders)(i \<mapsto> v)"
proof (induction xs arbitrary: orders)
  case (Cons a xs)
  obtain r x where a: "a = (r, x)" by force
  have step: "apply_fill_to_order (ro_order_id r) x (orders(i \<mapsto> v)) = (apply_fill_to_order (ro_order_id r) x orders)(i \<mapsto> v)"
    using Cons.prems a by (auto simp: apply_fill_to_order_def Let_def fun_upd_twist split: option.splits)
  have "i \<notin> ro_order_id ` fst ` set xs" using Cons.prems by simp
  then show ?case unfolding a record_fills_simps(2) step by (rule Cons.IH)
qed simp

definition match_fill :: "nat \<Rightarrow> string \<Rightarrow> instrument \<Rightarrow> order_side \<Rightarrow> double \<Rightarrow> double \<Rightarrow> fill_event" where
  "match_fill n order_id instr side price x = \<lparr>fl_fill_id = ''match-fill-'' @ show_nat n, fl_order_id = order_id,
     fl_instrument = instr, fl_side = side, fl_price = price, fl_quantity = x, fl_fee = 0\<rparr>"

definition submit_fills :: "order_request \<Rightarrow> string \<Rightarrow> nat \<Rightarrow> (resting_order \<times> double) list \<Rightarrow> fill_event list" where
  "submit_fills rq i n xs = map (\<lambda>(k, r, x). match_fill k i (rq_instrument rq) (rq_side rq)
     (the (rq_price (ro_request r))) x) (enumerate n xs)"

lemma fold_submit_on_fill:
  "fold (\<lambda>(r, x). submit_on_fill rq i r x) xs lg =
     lg\<lparr>lg_orders := record_fills xs (lg_orders lg),
        lg_next_fill_id := lg_next_fill_id lg + length xs,
        lg_fills := lg_fills lg @ submit_fills rq i (lg_next_fill_id lg) xs\<rparr>"
proof (induction xs arbitrary: lg)
  case Nil
  then show ?case by (simp add: submit_fills_def)
next
  case (Cons a xs)
  obtain r x where a: "a = (r, x)" by force
  have "submit_on_fill rq i r x lg = lg\<lparr>lg_orders := apply_fill_to_order (ro_order_id r) x (lg_orders lg),
      lg_next_fill_id := lg_next_fill_id lg + 1, lg_fills := lg_fills lg @
        [match_fill (lg_next_fill_id lg) i (rq_instrument rq) (rq_side rq) (the (rq_price (ro_request r))) x]\<rparr>"
    by (simp add: submit_on_fill_def push_fill_def match_fill_def)
  then show ?case by (simp add: a Cons submit_fills_def)
qed

subsection \<open>The invariant of the engine\<close>

text \<open>
  Every book is well formed and stored under its instrument's id, every resting order has a record
  with its static data in \<open>orders_\<close>, records are stored under their own id, and the ids the engine is
  going to generate are unused.
\<close>

definition registered :: "(string \<rightharpoonup> order_record) \<Rightarrow> string \<Rightarrow> resting_order \<Rightarrow> bool" where
  "registered orders iid r \<longleftrightarrow> (\<exists>o'. orders (ro_order_id r) = Some o' \<and> or_instrument_id o' = iid \<and>
     or_client_order_id o' = ro_client_order_id r \<and> or_quantity o' = rq_quantity (ro_request r) \<and>
     or_price o' = rq_price (ro_request r) \<and> or_side o' = rq_side (ro_request r))"

definition engine_inv :: "matching_engine \<Rightarrow> bool" where
  "engine_inv e \<longleftrightarrow>
     (\<forall>iid b. mx_books e iid = Some b \<longrightarrow> book_inv b \<and> instrument_id (ob_instrument b) = iid \<and>
        (\<forall>r \<in> set (book_orders b). registered (mx_orders e) iid r)) \<and>
     (\<forall>i o'. mx_orders e i = Some o' \<longrightarrow> or_order_id o' = i) \<and>
     (\<forall>k \<ge> mx_next_order_id e. mx_orders e (engine_order_id k) = None)"

lemma registered_statics: "statics orders = statics orders' \<Longrightarrow> registered orders iid r \<longleftrightarrow> registered orders' iid r"
proof -
  have eq: "registered os iid r \<longleftrightarrow> registered (statics os) iid r" for os
    by (auto simp: registered_def statics_def order_static_def)
  show "statics orders = statics orders' \<Longrightarrow> ?thesis" using eq [of orders] eq [of orders'] by simp
qed

lemma registered_update:
  "registered orders iid r \<Longrightarrow> ro_order_id r \<noteq> i \<Longrightarrow> registered (orders(i \<mapsto> o')) iid r"
  by (simp add: registered_def)

lemma ids_statics:
  "statics orders = statics orders' \<Longrightarrow>
     (\<forall>i o'. orders i = Some o' \<longrightarrow> or_order_id o' = i) \<longleftrightarrow> (\<forall>i o'. orders' i = Some o' \<longrightarrow> or_order_id o' = i)"
proof -
  have eq: "(\<forall>o'. os i = Some o' \<longrightarrow> or_order_id o' = i) \<longleftrightarrow> (\<forall>o'. statics os i = Some o' \<longrightarrow> or_order_id o' = i)"
    for os i by (cases "os i") (simp_all add: statics_def order_static_def)
  show "statics orders = statics orders' \<Longrightarrow> ?thesis" unfolding eq [of orders] eq [of orders'] by simp
qed

lemma registered_survivor:
  "registered orders iid r \<Longrightarrow> ro_order_id r' = ro_order_id r \<Longrightarrow> ro_request r' = ro_request r \<Longrightarrow>
     ro_client_order_id r' = ro_client_order_id r \<Longrightarrow> registered orders iid r'"
  by (simp add: registered_def)

lemma engine_order_id_inj [simp]: "engine_order_id m = engine_order_id n \<longleftrightarrow> m = n"
  by (simp add: engine_order_id_def)

lemma engine_ids_nonempty [simp]: "engine_order_id n \<noteq> ''''" "engine_client_order_id n \<noteq> ''''"
  by (simp_all add: engine_order_id_def engine_client_order_id_def)

lemma engine_inv_new: "engine_inv matching_engine_new"
  by (simp add: engine_inv_def matching_engine_new_def)

lemma engine_inv_known:
  assumes "engine_inv e" "mx_books e iid = Some b" "r \<in> set (book_orders b)"
  shows "mx_orders e (ro_order_id r) \<noteq> None"
proof -
  have "registered (mx_orders e) iid r" using assms by (simp add: engine_inv_def)
  then show ?thesis by (auto simp: registered_def)
qed

lemma engine_inv_book_for:
  assumes "engine_inv e"
  shows "book_inv (book_for i (mx_books e))" "instrument_id (ob_instrument (book_for i (mx_books e))) = instrument_id i"
    "\<And>r. r \<in> set (book_orders (book_for i (mx_books e))) \<Longrightarrow> registered (mx_orders e) (instrument_id i) r"
  using assms book_inv_new by (auto simp: engine_inv_def book_for_def order_book_new_def book_orders_def split: option.splits)

text \<open>The id of the next order belongs to no order that a sweep executes.\<close>

lemma next_id_unexecuted:
  assumes inv: "engine_inv e"
    and mq: "match_queue accept q (resting_side s (book_for i (mx_books e))) = (q', xs, rs)"
  shows "engine_order_id (mx_next_order_id e) \<notin> ro_order_id ` fst ` set xs"
proof
  assume "engine_order_id (mx_next_order_id e) \<in> ro_order_id ` fst ` set xs"
  then obtain r x where r: "(r, x) \<in> set xs" "ro_order_id r = engine_order_id (mx_next_order_id e)" by auto
  then have "r \<in> set (book_orders (book_for i (mx_books e)))"
    using match_queue_executions [OF mq r(1)] set_book_orders [of _ s] by blast
  then have "mx_orders e (ro_order_id r) \<noteq> None" using engine_inv_book_for(3) [OF inv] by (fastforce simp: registered_def)
  then show False using inv r(2) by (simp add: engine_inv_def)
qed

subsection \<open>Submitting an order\<close>

definition accepted :: "order_request \<Rightarrow> bool" where
  "accepted rq \<longleftrightarrow> rq_type rq = Limit \<and> (\<exists>p. rq_price rq = Some p \<and> \<not> p \<le> 0) \<and> \<not> rq_quantity rq \<le> 0"

text \<open>The status an accepted order ends with, given whether its residual found its place in the book, and
  the record the engine keeps of it; a filled order is recorded with its whole quantity.\<close>

definition submit_status :: "order_request \<Rightarrow> bool \<Rightarrow> double \<Rightarrow> order_status" where
  "submit_status rq ok filled = (if \<not> ok then Rejected
     else if \<bar>filled - rq_quantity rq\<bar> \<le> kQuantityTolerance then Filled
     else if kQuantityTolerance < filled then Partially_filled else Acknowledged)"

definition submitted_record :: "order_request \<Rightarrow> string \<Rightarrow> string \<Rightarrow> bool \<Rightarrow> double \<Rightarrow> order_record" where
  "submitted_record rq i c ok filled = (order_record_of rq i c)\<lparr>or_status := submit_status rq ok filled,
     or_filled_quantity := if submit_status rq ok filled = Filled then rq_quantity rq else filled\<rparr>"

lemma submitted_record_static [simp]:
  "order_static (submitted_record rq i c ok filled) = order_static (order_record_of rq i c)"
  by (simp add: submitted_record_def order_static_def)

text \<open>The updates of an accepted order after its acknowledgement: none when the whole quantity rests untouched.\<close>

definition submit_outcome :: "order_request \<Rightarrow> string \<Rightarrow> string \<Rightarrow> bool \<Rightarrow> double \<Rightarrow> order_update list" where
  "submit_outcome rq i c ok filled =
     (if \<not> ok then [make_update i c Rejected filled (Some ''failed to rest residual order quantity'')]
      else if \<bar>filled - rq_quantity rq\<bar> \<le> kQuantityTolerance then [make_update i c Filled filled None]
      else if kQuantityTolerance < filled then [make_update i c Partially_filled filled None] else [])"

lemma submit_outcome_id: "u \<in> set (submit_outcome rq i c ok f) \<Longrightarrow> ou_order_id u = i"
  by (auto simp: submit_outcome_def make_update_def split: if_splits)

definition resting_book :: "order_request \<Rightarrow> string \<Rightarrow> string \<Rightarrow> double \<Rightarrow> order_book \<Rightarrow> bool \<times> order_book" where
  "resting_book rq i c remaining b = (if kQuantityTolerance < remaining
     then add_order b rq i c (std_max 0 (rq_quantity rq - remaining)) else (True, b))"

lemma submit_accepted:
  assumes inv: "book_inv b" and acc: "accepted rq"
    and i: "i = engine_order_id (mx_next_order_id e)" and c: "c = engine_client_order_id (mx_next_client_order_id e)"
    and b: "b = book_for (rq_instrument rq) (mx_books e)"
    and mq: "match_queue (crosses rq) (rq_quantity rq) (resting_side (opposite (rq_side rq)) b) = (q, xs, rs)"
    and fresh: "i \<notin> ro_order_id ` fst ` set xs"
  shows "\<exists>b1 orders.
    book_inv b1 \<and> ob_instrument b1 = ob_instrument b \<and> resting_side (opposite (rq_side rq)) b1 = rs \<and>
    resting_side (rq_side rq) b1 = resting_side (rq_side rq) b \<and>
    orders = (record_fills xs (mx_orders e))(i \<mapsto>
      submitted_record rq i c (fst (resting_book rq i c q b1)) (std_max 0 (rq_quantity rq - q))) \<and>
    statics orders = (statics (mx_orders e))(i \<mapsto> order_static (order_record_of rq i c)) \<and>
    submit rq e = Some (\<lparr>xr_order_id = i, xr_client_order_id = c,
        xr_updates = make_update i c Acknowledged 0 None #
          submit_outcome rq i c (fst (resting_book rq i c q b1)) (std_max 0 (rq_quantity rq - q)),
        xr_fills = submit_fills rq i (mx_next_fill_id e) xs\<rparr>,
      e\<lparr>mx_books := (mx_books e)(instrument_id (rq_instrument rq) \<mapsto> snd (resting_book rq i c q b1)),
        mx_orders := orders, mx_next_order_id := mx_next_order_id e + 1,
        mx_next_client_order_id := mx_next_client_order_id e + 1, mx_next_fill_id := mx_next_fill_id e + length xs\<rparr>)"
proof -
  let ?orders1 = "set_order_status i Acknowledged ((mx_orders e)(i \<mapsto> order_record_of rq i c))"
  let ?lg = "\<lparr>lg_orders = ?orders1, lg_next_fill_id = mx_next_fill_id e, lg_fills = [], lg_touched_orders = []\<rparr>"
  let ?f = "std_max 0 (rq_quantity rq - q)"
  from sweep_opposite [OF inv mq, of "submit_on_fill rq i" ?lg] obtain b1 where
    sw: "sweep (best_opposite (rq_side rq)) (crosses rq) (submit_on_fill rq i) b (rq_quantity rq) ?lg =
      Some (b1, q, fold (\<lambda>(r, x). submit_on_fill rq i r x) xs ?lg)"
    and b1: "book_inv b1" "ob_instrument b1 = ob_instrument b" "resting_side (opposite (rq_side rq)) b1 = rs"
      "resting_side (rq_side rq) b1 = resting_side (rq_side rq) b" by blast
  let ?orders2 = "set_order_filled i ?f (record_fills xs ?orders1)"
  define orders where "orders =
    (if \<not> fst (resting_book rq i c q b1) then set_order_status i Rejected ?orders2
     else if \<bar>?f - rq_quantity rq\<bar> \<le> kQuantityTolerance
     then set_order_status i Filled (set_order_filled i (rq_quantity rq) ?orders2)
     else if kQuantityTolerance < ?f then set_order_status i Partially_filled ?orders2 else ?orders2)"
  have "?orders2 = (record_fills xs (mx_orders e))
      (i \<mapsto> (order_record_of rq i c)\<lparr>or_status := Acknowledged, or_filled_quantity := ?f\<rparr>)"
    using record_fills_update [OF fresh] by (simp add: set_order_status_def set_order_filled_def)
  then have orders: "orders = (record_fills xs (mx_orders e))
      (i \<mapsto> submitted_record rq i c (fst (resting_book rq i c q b1)) ?f)"
    by (simp add: orders_def set_order_status_def set_order_filled_def submitted_record_def submit_status_def
        order_record_of_def)
  then have st: "statics orders = (statics (mx_orders e))(i \<mapsto> order_static (order_record_of rq i c))"
    by (simp add: statics_update)
  obtain p where p: "rq_type rq = Limit" "rq_price rq = Some p" "\<not> p \<le> 0" "\<not> rq_quantity rq \<le> 0"
    using acc by (auto simp: accepted_def)
  obtain ok b2 where rb: "resting_book rq i c q b1 = (ok, b2)" by force
  have rb': "(if kQuantityTolerance < q then add_order b1 rq i c ?f else (True, b1)) = (ok, b2)"
    using rb by (simp add: resting_book_def)
  have "submit rq e = Some (\<lparr>xr_order_id = i, xr_client_order_id = c,
        xr_updates = make_update i c Acknowledged 0 None # submit_outcome rq i c ok ?f,
        xr_fills = submit_fills rq i (mx_next_fill_id e) xs\<rparr>,
      e\<lparr>mx_books := (mx_books e)(instrument_id (rq_instrument rq) \<mapsto> b2),
        mx_orders := orders, mx_next_order_id := mx_next_order_id e + 1,
        mx_next_client_order_id := mx_next_client_order_id e + 1, mx_next_fill_id := mx_next_fill_id e + length xs\<rparr>)"
    unfolding submit_def
    by (simp add: Let_def p b [symmetric] i [symmetric] c [symmetric] sw rb' fold_submit_on_fill orders_def rb
        submit_outcome_def cong: if_cong)
  then show ?thesis using b1 st orders by (intro exI [of _ b1] exI [of _ orders]) (simp add: rb)
qed

lemma submit_rejected:
  assumes "\<not> accepted rq" "i = engine_order_id (mx_next_order_id e)" "c = engine_client_order_id (mx_next_client_order_id e)"
  shows "\<exists>reason orders. orders = (mx_orders e)(i \<mapsto> (order_record_of rq i c)\<lparr>or_status := Rejected\<rparr>) \<and>
    statics orders = (statics (mx_orders e))(i \<mapsto> order_static (order_record_of rq i c)) \<and>
    submit rq e = Some (\<lparr>xr_order_id = i, xr_client_order_id = c,
      xr_updates = [make_update i c Rejected 0 (Some reason)], xr_fills = []\<rparr>,
      e\<lparr>mx_next_order_id := mx_next_order_id e + 1, mx_next_client_order_id := mx_next_client_order_id e + 1,
        mx_orders := orders\<rparr>)"
proof -
  let ?orders = "(mx_orders e)(i \<mapsto> (order_record_of rq i c)\<lparr>or_status := Rejected\<rparr>)"
  have st: "statics ?orders = (statics (mx_orders e))(i \<mapsto> order_static (order_record_of rq i c))"
    unfolding statics_update by (simp add: order_static_def)
  have ty: "rq_type rq = Limit" if "rq_type rq \<noteq> Market" using that by (cases "rq_type rq") auto
  consider "rq_type rq = Market"
    | "rq_type rq \<noteq> Market" "(case rq_price rq of None \<Rightarrow> True | Some p \<Rightarrow> p \<le> 0) \<or> rq_quantity rq \<le> 0"
    using assms(1) ty by (cases "rq_price rq") (auto simp: accepted_def)
  then show ?thesis
  proof cases
    case 1
    then show ?thesis using st
      by (intro exI [of _ "''market orders are not supported by the matching engine''"] exI [of _ ?orders])
        (simp add: submit_def Let_def set_order_status_def assms(2,3))
  next
    case 2
    then show ?thesis using st
      by (intro exI [of _ "''invalid matching-engine order request''"] exI [of _ ?orders])
        (simp add: submit_def Let_def set_order_status_def assms(2,3))
  qed
qed

lemma registered_ext:
  assumes "registered orders iid r" "\<And>j. orders j \<noteq> None \<Longrightarrow> statics orders' j = statics orders j"
  shows "registered orders' iid r"
proof -
  from assms(1) obtain o' where o': "orders (ro_order_id r) = Some o'" by (auto simp: registered_def)
  then have "statics orders' (ro_order_id r) = statics orders (ro_order_id r)" using assms(2) by simp
  then obtain o'' where "orders' (ro_order_id r) = Some o''" "order_static o'' = order_static o'"
    using o' by (auto simp: statics_def)
  then show ?thesis using assms(1) o' unfolding registered_def order_static_def
    by (metis (no_types, lifting) option.inject order_record.iffs order_record.select_convs order_record.surjective
        order_record.update_convs)
qed

text \<open>The shape of every step of the engine: records are added or keep their static data, the next order
  id does not fall back onto a used one, and at most one book is replaced.\<close>

lemma ids_of_statics:
  assumes "\<And>o'. statics orders j = Some o' \<Longrightarrow> or_order_id o' = j" "orders j = Some o'"
  shows "or_order_id o' = j"
  using assms(1) [of "order_static o'"] assms(2) by (simp add: statics_def order_static_def)

lemma engine_inv_ids: "engine_inv e \<Longrightarrow> statics (mx_orders e) j = Some o' \<Longrightarrow> or_order_id o' = j"
  by (auto simp: engine_inv_def statics_def order_static_def)

lemma engine_inv_records:
  assumes inv: "engine_inv e"
    and ext: "\<And>j. mx_orders e j \<noteq> None \<Longrightarrow> statics orders j = statics (mx_orders e) j"
    and ids: "\<And>j o'. statics orders j = Some o' \<Longrightarrow> or_order_id o' = j"
    and fresh: "\<And>k. n \<le> k \<Longrightarrow> orders (engine_order_id k) = None"
  shows "engine_inv (e\<lparr>mx_orders := orders, mx_next_order_id := n, mx_next_client_order_id := m, mx_next_fill_id := f\<rparr>)"
proof -
  have "registered orders iid' r" if "mx_books e iid' = Some b'" "r \<in> set (book_orders b')" for iid' b' r
    using registered_ext [OF _ ext] inv that by (auto simp: engine_inv_def)
  moreover have "or_order_id o' = j" if "orders j = Some o'" for j o'
    using ids_of_statics [of orders j o'] ids that by blast
  ultimately show ?thesis using inv fresh by (auto simp: engine_inv_def)
qed

lemma engine_inv_book:
  assumes "engine_inv (e\<lparr>mx_orders := orders, mx_next_order_id := n, mx_next_client_order_id := m, mx_next_fill_id := f\<rparr>)"
    and "book_inv b" "instrument_id (ob_instrument b) = iid" "\<And>r. r \<in> set (book_orders b) \<Longrightarrow> registered orders iid r"
  shows "engine_inv (e\<lparr>mx_books := (mx_books e)(iid \<mapsto> b), mx_orders := orders, mx_next_order_id := n,
    mx_next_client_order_id := m, mx_next_fill_id := f\<rparr>)"
  using assms by (auto simp: engine_inv_def)

lemma registered_rested:
  assumes "statics orders i = Some (order_static (order_record_of rq i c))"
  shows "registered orders (instrument_id (rq_instrument rq)) (rested b rq i c f)"
proof -
  from assms obtain o' where "orders i = Some o'" "order_static o' = order_static (order_record_of rq i c)"
    by (auto simp: statics_def)
  then show ?thesis unfolding registered_def rested_def
    by (cases o') (simp add: order_static_def order_record_of_def)
qed

lemma add_order_effect:
  assumes "book_inv b" "request_finite rq" "valid_double filled" "filled \<noteq> NaN"
  shows "add_order b rq i c filled = (False, b) \<or>
    (\<exists>b' A B. add_order b rq i c filled = (True, b') \<and> book_inv b' \<and> ob_instrument b' = ob_instrument b \<and>
      book_orders b = A @ B \<and> book_orders b' = A @ rested b rq i c filled # B)"
proof (cases "is_request_compatible b rq i c filled")
  case False
  then show ?thesis by (simp add: add_order_def)
next
  case True
  obtain p where p: "rq_price rq = Some p" using compatible_price [OF True assms(2)] .
  show ?thesis
    using book_inv_add [OF assms(1) True assms(2-4)] by (auto simp: add_order_eq [OF True p])
qed

lemma filled_ok: "valid_double (std_max 0 (x - y))" "std_max 0 (x - y) \<noteq> NaN"
proof -
  have "valid_double 0" by (simp add: zero_double_def)
  then show "valid_double (std_max 0 (x - y))" by (rule valid_std_max) simp
qed simp

lemma resting_book_effect:
  assumes "book_inv b" "request_finite rq"
  shows "book_inv (snd (resting_book rq i c q b))"
    and "ob_instrument (snd (resting_book rq i c q b)) = ob_instrument b"
    and "r \<in> set (book_orders (snd (resting_book rq i c q b))) \<Longrightarrow>
      r \<in> set (book_orders b) \<or> r = rested b rq i c (std_max 0 (rq_quantity rq - q))"
  using add_order_effect [OF assms filled_ok, of i c "rq_quantity rq" q] assms(1)
  by (auto simp: resting_book_def split: if_splits)

text \<open>What is left of a book after a sweep is still registered.\<close>

lemma registered_swept:
  assumes "\<And>r. r \<in> set (book_orders b) \<Longrightarrow> registered orders iid r"
    and "match_queue accept q (resting_side (opposite side) b) = (q', xs, resting_side (opposite side) b')"
    and "resting_side side b' = resting_side side b" "r \<in> set (book_orders b')"
  shows "registered orders iid r"
proof -
  from assms(3,4) consider "r \<in> set (resting_side side b)" | "r \<in> set (resting_side (opposite side) b')"
    by (auto simp: set_book_orders [of b' side])
  then show ?thesis
  proof cases
    case 1
    then show ?thesis using assms(1) by (simp add: set_book_orders [of b side])
  next
    case 2
    from match_queue_survivors [OF assms(2) 2] obtain r0 where "r0 \<in> set (book_orders b)"
      "ro_order_id r = ro_order_id r0" "ro_request r = ro_request r0" "ro_client_order_id r = ro_client_order_id r0"
      by (auto simp: set_book_orders [of b side])
    then show ?thesis using assms(1) registered_survivor by metis
  qed
qed

lemma submit_engine_inv:
  assumes inv: "engine_inv e" and fin: "request_finite rq"
  shows "\<exists>res e'. submit rq e = Some (res, e') \<and> engine_inv e' \<and> mx_next_order_id e' = mx_next_order_id e + 1"
proof -
  define i where "i = engine_order_id (mx_next_order_id e)"
  define c where "c = engine_client_order_id (mx_next_client_order_id e)"
  define b where "b = book_for (rq_instrument rq) (mx_books e)"
  have new: "mx_orders e i = None" using inv by (simp add: engine_inv_def i_def)
  have rec: "engine_inv (e\<lparr>mx_orders := orders, mx_next_order_id := mx_next_order_id e + 1,
      mx_next_client_order_id := mx_next_client_order_id e + 1, mx_next_fill_id := f\<rparr>)"
    if st: "statics orders = (statics (mx_orders e))(i \<mapsto> order_static (order_record_of rq i c))" for orders f
  proof (rule engine_inv_records [OF inv])
    show "or_order_id o' = j" if "statics orders j = Some o'" for j o'
      using that unfolding st
      by (cases "j = i") (auto simp: order_static_def order_record_of_def dest: engine_inv_ids [OF inv])
    show "orders (engine_order_id k) = None" if "mx_next_order_id e + 1 \<le> k" for k
      using statics_None [of orders "engine_order_id k"] st that inv by (auto simp: engine_inv_def i_def)
  qed (use st new in auto)
  show ?thesis
  proof (cases "accepted rq")
    case False
    from submit_rejected [OF this i_def c_def] obtain reason orders where
      st: "statics orders = (statics (mx_orders e))(i \<mapsto> order_static (order_record_of rq i c))"
      and s: "submit rq e = Some (\<lparr>xr_order_id = i, xr_client_order_id = c,
        xr_updates = [make_update i c Rejected 0 (Some reason)], xr_fills = []\<rparr>,
        e\<lparr>mx_next_order_id := mx_next_order_id e + 1, mx_next_client_order_id := mx_next_client_order_id e + 1,
          mx_orders := orders\<rparr>)" by blast
    have "engine_inv (e\<lparr>mx_next_order_id := mx_next_order_id e + 1,
        mx_next_client_order_id := mx_next_client_order_id e + 1, mx_orders := orders\<rparr>)"
      using rec [OF st, of "mx_next_fill_id e"] by (cases e) simp
    then show ?thesis using s by simp
  next
    case True
    obtain q xs rs where mq: "match_queue (crosses rq) (rq_quantity rq) (resting_side (opposite (rq_side rq)) b) = (q, xs, rs)"
      by (metis prod_cases3)
    have "book_inv b" using engine_inv_book_for(1) [OF inv] by (simp add: b_def)
    from submit_accepted [OF this True i_def c_def b_def mq next_id_unexecuted [OF inv mq [unfolded b_def], folded i_def]]
    obtain b1 orders where
      b1: "book_inv b1" "ob_instrument b1 = ob_instrument b" "resting_side (opposite (rq_side rq)) b1 = rs"
        "resting_side (rq_side rq) b1 = resting_side (rq_side rq) b"
      and st: "statics orders = (statics (mx_orders e))(i \<mapsto> order_static (order_record_of rq i c))"
      and s: "submit rq e = Some (\<lparr>xr_order_id = i, xr_client_order_id = c,
        xr_updates = make_update i c Acknowledged 0 None #
          submit_outcome rq i c (fst (resting_book rq i c q b1)) (std_max 0 (rq_quantity rq - q)),
        xr_fills = submit_fills rq i (mx_next_fill_id e) xs\<rparr>,
      e\<lparr>mx_books := (mx_books e)(instrument_id (rq_instrument rq) \<mapsto> snd (resting_book rq i c q b1)),
        mx_orders := orders, mx_next_order_id := mx_next_order_id e + 1,
        mx_next_client_order_id := mx_next_client_order_id e + 1, mx_next_fill_id := mx_next_fill_id e + length xs\<rparr>)"
      by blast
    have "statics orders j = statics (mx_orders e) j" if "mx_orders e j \<noteq> None" for j
      using that new unfolding st by auto
    then have "registered orders (instrument_id (rq_instrument rq)) r" if "r \<in> set (book_orders b)" for r
      using registered_ext [OF engine_inv_book_for(3) [OF inv that [unfolded b_def]]] by blast
    then have "registered orders (instrument_id (rq_instrument rq)) r" if "r \<in> set (book_orders b1)" for r
      using registered_swept [OF _ _ b1(4)] mq b1(3) that by blast
    then have "registered orders (instrument_id (rq_instrument rq)) r"
      if "r \<in> set (book_orders (snd (resting_book rq i c q b1)))" for r
      using resting_book_effect(3) [OF b1(1) fin that] registered_rested st by auto
    moreover have "instrument_id (ob_instrument (snd (resting_book rq i c q b1))) = instrument_id (rq_instrument rq)"
      using resting_book_effect(2) [OF b1(1) fin] b1(2) engine_inv_book_for(2) [OF inv] by (simp add: b_def)
    ultimately show ?thesis
      using engine_inv_book [OF rec [OF st, of "mx_next_fill_id e + length xs"] resting_book_effect(1) [OF b1(1) fin],
          of i c q "instrument_id (rq_instrument rq)"] s by simp
  qed
qed

subsection \<open>Market events\<close>

text \<open>The specification of a run over external levels: one sweep of the queue per level.\<close>

fun match_levels :: "(book_level \<Rightarrow> resting_order \<Rightarrow> bool) \<Rightarrow> book_level list \<Rightarrow> resting_order list \<Rightarrow>
    (book_level \<times> resting_order \<times> double) list \<times> resting_order list" where
  "match_levels accept [] rs = ([], rs)"
| "match_levels accept (l # ls) rs =
     (case match_queue (accept l) (bl_quantity l) rs of (_, xs, rs') \<Rightarrow>
        (case match_levels accept ls rs' of (ys, rs'') \<Rightarrow> (map (Pair l) xs @ ys, rs'')))"

lemma fold_level_executions:
  "fold (\<lambda>(l, r, x). f l r x) (map (Pair l) xs) = fold (\<lambda>(r, x). f l r x) xs"
  by (induction xs) auto

context book_side
begin

lemma process_levels_refines:
  "book_inv b \<Longrightarrow> match_levels accept ls (queue b) = (ys, rs) \<Longrightarrow>
   \<exists>b'. process_levels best accept on_fill ls b lg = Some (b', fold (\<lambda>(l, r, x). on_fill l r x) ys lg) \<and>
     book_inv b' \<and> ob_instrument b' = ob_instrument b \<and> queue b' = rs \<and> other b' = other b"
proof (induction ls arbitrary: b ys lg)
  case (Cons l ls)
  obtain q xs rs1 where mq: "match_queue (accept l) (bl_quantity l) (queue b) = (q, xs, rs1)" by (metis prod_cases3)
  from sweep_refines [OF Cons.prems(1) refl mq, of "on_fill l" lg] obtain b1 where
    sw: "sweep best (accept l) (on_fill l) b (bl_quantity l) lg = Some (b1, q, fold (\<lambda>(r, x). on_fill l r x) xs lg)"
    and b1: "book_inv b1" "ob_instrument b1 = ob_instrument b" "queue b1 = rs1" "other b1 = other b" by blast
  obtain ys1 where ys: "match_levels accept ls (queue b1) = (ys1, rs)" "ys = map (Pair l) xs @ ys1"
    using Cons.prems(2) mq b1(3) by (auto split: prod.splits)
  from Cons.IH [OF b1(1) ys(1), of "fold (\<lambda>(r, x). on_fill l r x) xs lg"] show ?case
    using sw b1 ys(2) by (auto simp: fold_level_executions)
qed simp

end

lemma match_levels_survivors:
  "match_levels accept ls rs = (ys, rs') \<Longrightarrow> r' \<in> set rs' \<Longrightarrow>
     \<exists>r \<in> set rs. ro_order_id r' = ro_order_id r \<and> ro_request r' = ro_request r \<and>
       ro_client_order_id r' = ro_client_order_id r"
proof (induction ls arbitrary: rs ys)
  case (Cons l ls)
  obtain q xs rs1 where mq: "match_queue (accept l) (bl_quantity l) rs = (q, xs, rs1)" by (metis prod_cases3)
  then obtain ys1 where ys: "match_levels accept ls rs1 = (ys1, rs')" using Cons.prems(1) by (auto split: prod.splits)
  from Cons.IH [OF ys Cons.prems(2)] show ?case using match_queue_survivors [OF mq] by metis
qed auto

lemma match_levels_executions:
  "match_levels accept ls rs = (ys, rs') \<Longrightarrow> (l, r, x) \<in> set ys \<Longrightarrow>
     l \<in> set ls \<and> accept l r \<and> kQuantityTolerance < x \<and>
     (\<exists>r0 \<in> set rs. ro_order_id r = ro_order_id r0 \<and> ro_request r = ro_request r0)"
proof (induction ls arbitrary: rs ys)
  case (Cons l' ls)
  obtain q xs rs1 where mq: "match_queue (accept l') (bl_quantity l') rs = (q, xs, rs1)" by (metis prod_cases3)
  then obtain ys1 where ys: "match_levels accept ls rs1 = (ys1, rs')" "ys = map (Pair l') xs @ ys1"
    using Cons.prems(1) by (auto split: prod.splits)
  show ?case
  proof (cases "(l, r, x) \<in> set ys1")
    case True
    from Cons.IH [OF ys(1) True] match_queue_survivors [OF mq] show ?thesis by (metis list.set_intros(2))
  next
    case False
    then have "l = l'" "(r, x) \<in> set xs" using Cons.prems(2) ys(2) by auto
    then show ?thesis using match_queue_executions [OF mq] by auto
  qed
qed simp

definition market_fills :: "market_event \<Rightarrow> nat \<Rightarrow> (book_level \<times> resting_order \<times> double) list \<Rightarrow> fill_event list" where
  "market_fills event n ys = map (\<lambda>(k, l, r, x). match_fill k (ro_order_id r)
     (if base_asset (rq_instrument (ro_request r)) = '''' \<and> quote_asset (rq_instrument (ro_request r)) = ''''
      then me_instrument event else rq_instrument (ro_request r))
     (rq_side (ro_request r)) (bl_price l) x) (enumerate n ys)"

lemma fold_market_on_fill:
  "fold (\<lambda>(l, r, x). market_on_fill event l r x) ys lg =
     lg\<lparr>lg_orders := record_fills (map snd ys) (lg_orders lg),
        lg_next_fill_id := lg_next_fill_id lg + length ys,
        lg_fills := lg_fills lg @ market_fills event (lg_next_fill_id lg) ys,
        lg_touched_orders := lg_touched_orders lg @ map (\<lambda>(l, r, x). ro_order_id r) ys\<rparr>"
proof (induction ys arbitrary: lg)
  case Nil
  then show ?case by (simp add: market_fills_def)
next
  case (Cons a ys)
  obtain l r x where a: "a = (l, r, x)" by (metis prod_cases3)
  have "market_on_fill event l r x lg = lg\<lparr>lg_orders := apply_fill_to_order (ro_order_id r) x (lg_orders lg),
      lg_next_fill_id := lg_next_fill_id lg + 1,
      lg_fills := lg_fills lg @ market_fills event (lg_next_fill_id lg) [(l, r, x)],
      lg_touched_orders := lg_touched_orders lg @ [ro_order_id r]\<rparr>"
    by (simp add: market_on_fill_def push_fill_def match_fill_def market_fills_def Let_def)
  then show ?case by (simp add: a Cons) (simp add: market_fills_def)
qed

lemma fold_append_order_update:
  assumes "\<forall>i \<in> set ids. orders i \<noteq> None"
  shows "fold (append_order_update orders) ids us = us @ map (\<lambda>i. let r = the (orders i) in
    make_update (or_order_id r) (or_client_order_id r) (or_status r) (or_filled_quantity r) None) ids"
  using assms
proof (induction ids arbitrary: us)
  case (Cons i ids)
  then show ?case by (auto simp: append_order_update_def Let_def)
qed simp

lemma process_market_event_eq:
  assumes inv: "engine_inv e" and book: "mx_books e (instrument_id (me_instrument event)) = Some b"
    and bm: "match_levels buy_reaches (me_ask_levels event) (resting_side Buy b) = (ys, bs)"
    and sm: "match_levels sell_reaches (me_bid_levels event) (resting_side Sell b) = (zs, ss)"
  shows "\<exists>b' orders. book_inv b' \<and> ob_instrument b' = ob_instrument b \<and> resting_side Buy b' = bs \<and> resting_side Sell b' = ss \<and>
    orders = record_fills (map snd (ys @ zs)) (mx_orders e) \<and> statics orders = statics (mx_orders e) \<and>
    process_market_event event e = Some (\<lparr>xr_order_id = '''', xr_client_order_id = '''',
        xr_updates = fold (append_order_update orders) (sort_unique (map (\<lambda>(l, r, x). ro_order_id r) (ys @ zs))) [],
        xr_fills = market_fills event (mx_next_fill_id e) (ys @ zs)\<rparr>,
      e\<lparr>mx_books := (mx_books e)(instrument_id (me_instrument event) \<mapsto> b'), mx_orders := orders,
        mx_next_fill_id := mx_next_fill_id e + length (ys @ zs)\<rparr>)"
proof -
  let ?lg = "\<lparr>lg_orders = mx_orders e, lg_next_fill_id = mx_next_fill_id e, lg_fills = [], lg_touched_orders = []\<rparr>"
  let ?f = "fold (\<lambda>(l, r, x). market_on_fill event l r x)"
  have "book_inv b" using inv book by (simp add: engine_inv_def)
  from resting_bids.process_levels_refines [OF this bm [unfolded resting_side_def, simplified], of "market_on_fill event" ?lg]
  obtain b1 where p1: "process_levels best_bid_order buy_reaches (market_on_fill event) (me_ask_levels event) b ?lg =
      Some (b1, ?f ys ?lg)" and b1: "book_inv b1" "ob_instrument b1 = ob_instrument b"
      "level_orders (ob_bid_levels b1) = bs" "level_orders (ob_ask_levels b1) = level_orders (ob_ask_levels b)" by blast
  have sm1: "match_levels sell_reaches (me_bid_levels event) (level_orders (ob_ask_levels b1)) = (zs, ss)"
    using sm b1(4) by (simp add: resting_side_def)
  from resting_asks.process_levels_refines [OF b1(1) sm1, of "market_on_fill event" "?f ys ?lg"]
  obtain b2 where p2: "process_levels best_ask_order sell_reaches (market_on_fill event) (me_bid_levels event) b1 (?f ys ?lg) =
      Some (b2, ?f zs (?f ys ?lg))" and b2: "book_inv b2" "ob_instrument b2 = ob_instrument b1"
      "level_orders (ob_ask_levels b2) = ss" "level_orders (ob_bid_levels b2) = level_orders (ob_bid_levels b1)" by blast
  have ff: "?f zs (?f ys ?lg) = ?f (ys @ zs) ?lg" by simp
  let ?orders = "record_fills (map snd (ys @ zs)) (mx_orders e)"
  have "process_market_event event e = Some (\<lparr>xr_order_id = '''', xr_client_order_id = '''',
        xr_updates = fold (append_order_update ?orders) (sort_unique (map (\<lambda>(l, r, x). ro_order_id r) (ys @ zs))) [],
        xr_fills = market_fills event (mx_next_fill_id e) (ys @ zs)\<rparr>,
      e\<lparr>mx_books := (mx_books e)(instrument_id (me_instrument event) \<mapsto> b2), mx_orders := ?orders,
        mx_next_fill_id := mx_next_fill_id e + length (ys @ zs)\<rparr>)"
    unfolding process_market_event_def book option.case p1 prod.case p2 ff
    unfolding fold_market_on_fill by (simp add: Let_def)
  moreover have "statics ?orders = statics (mx_orders e)" by (rule statics_record_fills)
  moreover have "resting_side Buy b2 = bs" "resting_side Sell b2 = ss" "ob_instrument b2 = ob_instrument b"
    using b1 b2 by (simp_all add: resting_side_def)
  ultimately show ?thesis using b2(1) by blast
qed

lemma market_engine_inv:
  assumes inv: "engine_inv e"
  shows "\<exists>res e'. process_market_event event e = Some (res, e') \<and> engine_inv e'"
proof (cases "mx_books e (instrument_id (me_instrument event))")
  case None
  then show ?thesis using inv by (simp add: process_market_event_def)
next
  case (Some b)
  obtain ys bs where bm: "match_levels buy_reaches (me_ask_levels event) (resting_side Buy b) = (ys, bs)" by force
  obtain zs ss where sm: "match_levels sell_reaches (me_bid_levels event) (resting_side Sell b) = (zs, ss)" by force
  from process_market_event_eq [OF inv Some bm sm] obtain b' orders res where
    b': "book_inv b'" "ob_instrument b' = ob_instrument b" "resting_side Buy b' = bs" "resting_side Sell b' = ss"
    and st: "statics orders = statics (mx_orders e)"
    and r: "process_market_event event e = Some (res,
      e\<lparr>mx_books := (mx_books e)(instrument_id (me_instrument event) \<mapsto> b'), mx_orders := orders,
        mx_next_fill_id := mx_next_fill_id e + length (ys @ zs)\<rparr>)" by blast
  let ?iid = "instrument_id (me_instrument event)"
  have reg: "registered orders ?iid r" if "r \<in> set (book_orders b)" for r
    using inv Some that registered_statics [OF st] by (simp add: engine_inv_def)
  have "registered orders ?iid r" if "r \<in> set (book_orders b')" for r
  proof -
    from that obtain r0 where "r0 \<in> set (book_orders b)" "ro_order_id r = ro_order_id r0"
      "ro_request r = ro_request r0" "ro_client_order_id r = ro_client_order_id r0"
      using match_levels_survivors [OF bm, of r] match_levels_survivors [OF sm, of r] b'
        set_book_orders [of b' Buy] set_book_orders [of b Buy] by auto
    then show ?thesis using reg registered_survivor by metis
  qed
  moreover have "engine_inv (e\<lparr>mx_orders := orders, mx_next_order_id := mx_next_order_id e,
      mx_next_client_order_id := mx_next_client_order_id e, mx_next_fill_id := f\<rparr>)" for f
  proof (rule engine_inv_records [OF inv])
    show "orders (engine_order_id k) = None" if "mx_next_order_id e \<le> k" for k
      using statics_None [of orders] statics_None [of "mx_orders e"] st that inv by (simp add: engine_inv_def)
  qed (use st engine_inv_ids [OF inv] in auto)
  moreover have "instrument_id (ob_instrument b') = ?iid" using b' inv Some by (simp add: engine_inv_def)
  ultimately have "engine_inv (e\<lparr>mx_books := (mx_books e)(?iid \<mapsto> b'), mx_orders := orders,
      mx_next_order_id := mx_next_order_id e, mx_next_client_order_id := mx_next_client_order_id e,
      mx_next_fill_id := mx_next_fill_id e + length (ys @ zs)\<rparr>)"
    using b'(1) by (intro engine_inv_book) auto
  then show ?thesis using r by (cases e) simp
qed

subsection \<open>Cancelling and restoring\<close>

lemma cancel_order_effect:
  assumes "book_inv b" "cancel_order b i = (ok, b')"
  shows "book_inv b' \<and> ob_instrument b' = ob_instrument b \<and> set (book_orders b') \<subseteq> set (book_orders b) \<and> (\<not> ok \<longrightarrow> b' = b)"
proof (cases "ob_order_index b i")
  case None
  then show ?thesis using assms by (simp add: cancel_order_def)
next
  case (Some loc)
  moreover have "ob_instrument b' = ob_instrument b"
    using assms(2) by (auto simp: cancel_order_def split: option.splits if_splits)
  ultimately show ?thesis using book_inv_cancel [OF assms(1), of i] assms by auto
qed

lemma cancel_engine_inv:
  assumes inv: "engine_inv e" and c: "cancel i cid e = (res, e')"
  shows "engine_inv e'"
proof -
  have same: "engine_inv (e\<lparr>mx_books := (mx_books e)(iid \<mapsto> b)\<rparr>)" if "mx_books e iid = Some b" for iid b
    using that inv fun_upd_triv [of "mx_books e" iid] by simp
  show ?thesis
  proof (cases "mx_orders e i")
    case None
    then show ?thesis using c inv by (simp add: cancel_def)
  next
    case (Some ord)
    show ?thesis
    proof (cases "is_terminal (or_status ord) \<or> mx_books e (or_instrument_id ord) = None")
      case True
      then show ?thesis using c inv Some by (auto simp: cancel_def Let_def split: if_splits)
    next
      case False
      then obtain b where b: "mx_books e (or_instrument_id ord) = Some b" by blast
      obtain ok b' where cb: "cancel_order b i = (ok, b')" by force
      have bi: "book_inv b" "instrument_id (ob_instrument b) = or_instrument_id ord"
        "\<And>r. r \<in> set (book_orders b) \<Longrightarrow> registered (mx_orders e) (or_instrument_id ord) r"
        using inv b by (auto simp: engine_inv_def)
      note eff = cancel_order_effect [OF bi(1) cb]
      let ?orders = "(mx_orders e)(i \<mapsto> ord\<lparr>or_status := Canceled\<rparr>)"
      have st: "statics ?orders = statics (mx_orders e)" using Some by (auto simp: statics_def order_static_def)
      have "engine_inv (e\<lparr>mx_orders := ?orders, mx_next_order_id := mx_next_order_id e,
          mx_next_client_order_id := mx_next_client_order_id e, mx_next_fill_id := mx_next_fill_id e\<rparr>)"
      proof (rule engine_inv_records [OF inv])
        show "?orders (engine_order_id k) = None" if "mx_next_order_id e \<le> k" for k
          using that inv Some by (auto simp: engine_inv_def)
      qed (use st engine_inv_ids [OF inv] in auto)
      then have "engine_inv (e\<lparr>mx_books := (mx_books e)(or_instrument_id ord \<mapsto> b'), mx_orders := ?orders,
          mx_next_order_id := mx_next_order_id e, mx_next_client_order_id := mx_next_client_order_id e,
          mx_next_fill_id := mx_next_fill_id e\<rparr>)"
        using eff bi registered_statics [OF st] by (intro engine_inv_book) auto
      then have ok: "engine_inv (e\<lparr>mx_books := (mx_books e)(or_instrument_id ord \<mapsto> b'), mx_orders := ?orders\<rparr>)"
        by (cases e) simp
      have "e' = (if ok then e\<lparr>mx_books := (mx_books e)(or_instrument_id ord \<mapsto> b'), mx_orders := ?orders\<rparr>
          else e\<lparr>mx_books := (mx_books e)(or_instrument_id ord \<mapsto> b')\<rparr>)"
        using c Some False b cb by (auto simp: cancel_def Let_def)
      then show ?thesis using ok same [OF b] eff by auto
    qed
  qed
qed

lemma restore_engine_inv:
  assumes inv: "engine_inv e" and rq: "request_finite rq" "valid_double filled" "filled \<noteq> NaN"
    and new: "mx_orders e i = None" "\<And>k. mx_next_order_id e \<le> k \<Longrightarrow> i \<noteq> engine_order_id k"
  shows "engine_inv (restore_open_order i c rq filled e)"
proof -
  let ?iid = "instrument_id (rq_instrument rq)" and ?b = "book_for (rq_instrument rq) (mx_books e)"
  let ?rec = "(order_record_of rq i c)\<lparr>or_status := if 0 < filled then Partially_filled else Acknowledged,
      or_filled_quantity := filled\<rparr>"
  let ?orders = "(mx_orders e)(i \<mapsto> ?rec)"
  note bf = engine_inv_book_for [OF inv, where i = "rq_instrument rq"]
  have "restore_open_order i c rq filled e = e \<or>
      restore_open_order i c rq filled e = e\<lparr>mx_books := (mx_books e)(?iid \<mapsto> snd (add_order ?b rq i c filled)),
        mx_orders := if fst (add_order ?b rq i c filled) then ?orders else ?orders(i := None)\<rparr>"
    by (simp add: restore_open_order_def Let_def split: prod.splits)
  moreover have "engine_inv (e\<lparr>mx_books := (mx_books e)(?iid \<mapsto> snd (add_order ?b rq i c filled)),
        mx_orders := if fst (add_order ?b rq i c filled) then ?orders else ?orders(i := None)\<rparr>)"
    using add_order_effect [OF bf(1) rq, of i c]
  proof (elim disjE exE conjE)
    assume a: "add_order ?b rq i c filled = (False, ?b)"
    have "?orders(i := None) = mx_orders e" using new(1) by auto
    then show ?thesis using a bf inv by (auto simp: engine_inv_def)
  next
    fix b' A B
    assume a: "add_order ?b rq i c filled = (True, b')" "book_inv b'" "ob_instrument b' = ob_instrument ?b"
      "book_orders ?b = A @ B" "book_orders b' = A @ rested ?b rq i c filled # B"
    have st: "statics ?orders = (statics (mx_orders e))(i \<mapsto> order_static (order_record_of rq i c))"
      by (simp add: statics_update) (simp add: order_static_def)
    have "engine_inv (e\<lparr>mx_orders := ?orders, mx_next_order_id := mx_next_order_id e,
        mx_next_client_order_id := mx_next_client_order_id e, mx_next_fill_id := mx_next_fill_id e\<rparr>)"
    proof (rule engine_inv_records [OF inv])
      show "or_order_id o' = j" if "statics ?orders j = Some o'" for j o'
        using that unfolding st
        by (cases "j = i") (auto simp: order_static_def order_record_of_def dest: engine_inv_ids [OF inv])
      show "?orders (engine_order_id k) = None" if "mx_next_order_id e \<le> k" for k
        using inv new(2) [OF that] that by (auto simp: engine_inv_def)
    qed (use st new(1) in auto)
    moreover have "registered ?orders ?iid r" if "r \<in> set (book_orders b')" for r
    proof (cases "r \<in> set (book_orders ?b)")
      case True
      have "mx_orders e (ro_order_id r) \<noteq> None" using bf(3) [OF True] by (auto simp: registered_def)
      then show ?thesis using registered_update [OF bf(3) [OF True], of i ?rec] new(1) by metis
    next
      case False
      then show ?thesis using that a(4,5) registered_rested [of ?orders i rq c] st by auto
    qed
    moreover have "instrument_id (ob_instrument b') = ?iid" using a(3) bf(2) by simp
    ultimately have "engine_inv (e\<lparr>mx_books := (mx_books e)(?iid \<mapsto> b'), mx_orders := ?orders,
        mx_next_order_id := mx_next_order_id e, mx_next_client_order_id := mx_next_client_order_id e,
        mx_next_fill_id := mx_next_fill_id e\<rparr>)" using a(2) by (intro engine_inv_book) auto
    then show ?thesis using a(1) by (cases e) simp
  qed
  ultimately show ?thesis using inv by auto
qed

subsection \<open>Properties of the engine\<close>

inductive engine_step :: "matching_engine \<Rightarrow> matching_engine \<Rightarrow> bool" where
  submits: "request_finite rq \<Longrightarrow> submit rq e = Some (res, e') \<Longrightarrow> engine_step e e'"
| market: "process_market_event event e = Some (res, e') \<Longrightarrow> engine_step e e'"
| cancels: "cancel order_id client_id e = (res, e') \<Longrightarrow> engine_step e e'"
| restores: "request_finite rq \<Longrightarrow> valid_double filled \<Longrightarrow> filled \<noteq> NaN \<Longrightarrow> mx_orders e order_id = None \<Longrightarrow>
    (\<And>k. mx_next_order_id e \<le> k \<Longrightarrow> order_id \<noteq> engine_order_id k) \<Longrightarrow>
    engine_step e (restore_open_order order_id client_id rq filled e)"

lemma engine_step_inv: "engine_step e e' \<Longrightarrow> engine_inv e \<Longrightarrow> engine_inv e'"
proof (induction rule: engine_step.induct)
  case (submits rq e res e')
  then show ?case using submit_engine_inv [of e rq] by simp
next
  case (market event e res e')
  then show ?case using market_engine_inv [of e event] by simp
qed (auto intro: cancel_engine_inv restore_engine_inv)

text \<open>
  C2. In every state the engine reaches from its initial state by submitting requests without NaN,
  market events, cancels, and restores of orders whose id is neither known nor about to be generated,
  the engine's invariant holds, and the matching loops of \<open>submit\<close> and \<open>process_market_event\<close> end.
\<close>

theorem reachable_engine_sound:
  assumes "engine_step\<^sup>*\<^sup>* matching_engine_new e"
  shows "engine_inv e \<and> (\<forall>rq. request_finite rq \<longrightarrow> submit rq e \<noteq> None) \<and> (\<forall>event. process_market_event event e \<noteq> None)"
proof -
  have "engine_inv e" using assms by (induction rule: rtranclp_induct) (auto intro: engine_inv_new engine_step_inv)
  then show ?thesis using submit_engine_inv market_engine_inv by fastforce
qed

theorem reachable_engine_sound_witness:
  "engine_inv (snd (the (submit (sample_request Buy (Fin 100) (Fin 2)) matching_engine_new)))"
proof -
  obtain res e where s: "submit (sample_request Buy (Fin 100) (Fin 2)) matching_engine_new = Some (res, e)"
    using submit_engine_inv [OF engine_inv_new sample_finite] by blast
  then have "engine_step\<^sup>*\<^sup>* matching_engine_new e" using engine_step.submits [OF sample_finite] by blast
  from reachable_engine_sound [OF this] show ?thesis using s by simp
qed

lemma add_order_opposite:
  "add_order b rq i c f = (ok, b') \<Longrightarrow> resting_side (opposite (rq_side rq)) b' = resting_side (opposite (rq_side rq)) b"
  by (cases "rq_side rq") (auto simp: add_order_def Let_def resting_side_def split: if_splits)

lemma resting_book_opposite:
  "resting_side (opposite (rq_side rq)) (snd (resting_book rq i c q b)) = resting_side (opposite (rq_side rq)) b"
  using add_order_opposite [of b rq i c "std_max 0 (rq_quantity rq - q)"]
  by (cases "add_order b rq i c (std_max 0 (rq_quantity rq - q))") (simp add: resting_book_def)

text \<open>Everything an accepted order does, in one statement.\<close>

lemma submit_effect:
  assumes inv: "engine_inv e" and acc: "accepted rq" and fin: "request_finite rq"
    and b: "b = book_for (rq_instrument rq) (mx_books e)" and i: "i = engine_order_id (mx_next_order_id e)"
    and mq: "match_queue (crosses rq) (rq_quantity rq) (resting_side (opposite (rq_side rq)) b) = (q, xs, rs)"
    and s: "submit rq e = Some (res, e')"
  shows "\<exists>b1 c. book_inv b1 \<and> resting_side (opposite (rq_side rq)) b1 = rs \<and>
    resting_side (rq_side rq) b1 = resting_side (rq_side rq) b \<and> ob_order_index b1 i = None \<and>
    ob_instrument b1 = ob_instrument b \<and> c = engine_client_order_id (mx_next_client_order_id e) \<and>
    mx_orders e' = (record_fills xs (mx_orders e))(i \<mapsto>
      submitted_record rq i c (fst (resting_book rq i c q b1)) (std_max 0 (rq_quantity rq - q))) \<and>
    mx_books e' = (mx_books e)(instrument_id (rq_instrument rq) \<mapsto> snd (resting_book rq i c q b1)) \<and>
    xr_order_id res = i \<and> xr_client_order_id res = c \<and> xr_fills res = submit_fills rq i (mx_next_fill_id e) xs \<and>
    xr_updates res = make_update i c Acknowledged 0 None #
      submit_outcome rq i c (fst (resting_book rq i c q b1)) (std_max 0 (rq_quantity rq - q))"
proof -
  define c where "c = engine_client_order_id (mx_next_client_order_id e)"
  have "book_inv b" using engine_inv_book_for(1) [OF inv] b by simp
  from submit_accepted [OF this acc i c_def b mq next_id_unexecuted [OF inv mq [unfolded b], folded i]] s obtain b1 where
    b1: "book_inv b1" "ob_instrument b1 = ob_instrument b" "resting_side (opposite (rq_side rq)) b1 = rs"
      "resting_side (rq_side rq) b1 = resting_side (rq_side rq) b"
    and r: "mx_orders e' = (record_fills xs (mx_orders e))(i \<mapsto>
        submitted_record rq i c (fst (resting_book rq i c q b1)) (std_max 0 (rq_quantity rq - q)))"
      "mx_books e' = (mx_books e)(instrument_id (rq_instrument rq) \<mapsto> snd (resting_book rq i c q b1))"
      "xr_order_id res = i" "xr_client_order_id res = c" "xr_fills res = submit_fills rq i (mx_next_fill_id e) xs"
      "xr_updates res = make_update i c Acknowledged 0 None #
        submit_outcome rq i c (fst (resting_book rq i c q b1)) (std_max 0 (rq_quantity rq - q))" by auto
  have reg: "registered (mx_orders e) (instrument_id (rq_instrument rq)) r" if "r \<in> set (book_orders b)" for r
    using engine_inv_book_for(3) [OF inv] that b by simp
  have "mx_orders e (ro_order_id r) \<noteq> None" if "r \<in> set (book_orders b1)" for r
    using registered_swept [OF reg mq [folded b1(3)] b1(4) that] by (auto simp: registered_def)
  moreover have "mx_orders e i = None" using inv i by (simp add: engine_inv_def)
  ultimately have "i \<notin> ro_order_id ` set (book_orders b1)" by (metis imageE)
  then have "ob_order_index b1 i = None"
    using store_inv_index_None b1(1) unfolding book_inv_def by blast
  then show ?thesis using b1 r by (intro exI [of _ b1] exI [of _ c]) (simp add: c_def)
qed

lemma not_worse_trans: "not_worse side p q \<Longrightarrow> not_worse side q r \<Longrightarrow> not_worse side p r"
  by (auto simp: not_worse_def intro: double_le_trans split: if_splits)

lemma side_sorted:
  assumes "book_inv b"
  shows "sorted_wrt (\<lambda>r q. not_worse side (order_price r) (order_price q)) (resting_side (opposite side) b)"
proof -
  have L: "ladder_inv std_greater Buy (ob_bid_levels b)" "ladder_inv std_less Sell (ob_ask_levels b)"
    using assms by (auto simp: book_inv_def)
  have nn: "order_price r \<noteq> NaN" if "r \<in> set (level_orders (ob_bid_levels b)) \<union> set (level_orders (ob_ask_levels b))" for r
    using that bids.ladder_member(2) [OF L(1)] asks.ladder_member(2) [OF L(2)] by (force simp: order_price_def)
  show ?thesis
  proof (cases side)
    case Buy
    have "sorted_wrt (\<lambda>r q. order_price r \<le> order_price q) (level_orders (ob_ask_levels b))"
      by (rule sorted_wrt_mono_rel [OF _ ladder_served_order [OF L(2)]])
        (use nn in \<open>auto simp: served_before_def Let_def std_less_def order_price_def [symmetric] intro: double_less_imp_le\<close>)
    then show ?thesis by (simp add: Buy resting_side_def not_worse_def)
  next
    case Sell
    have "sorted_wrt (\<lambda>r q. order_price q \<le> order_price r) (level_orders (ob_bid_levels b))"
      by (rule sorted_wrt_mono_rel [OF _ ladder_served_order [OF L(1)]])
        (use nn in \<open>auto simp: served_before_def Let_def std_greater_def order_price_def [symmetric] intro: double_less_imp_le\<close>)
    then show ?thesis by (simp add: Sell resting_side_def not_worse_def)
  qed
qed

lemma side_member:
  assumes "book_inv b"
  shows "r \<in> set (resting_side s b) \<longleftrightarrow> r \<in> set (book_orders b) \<and> rq_side (ro_request r) = s"
proof -
  have L: "ladder_inv std_greater Buy (ob_bid_levels b)" "ladder_inv std_less Sell (ob_ask_levels b)"
    using assms by (auto simp: book_inv_def)
  show ?thesis
    using bids.ladder_member(1) [OF L(1), of r] asks.ladder_member(1) [OF L(2), of r]
    by (cases s) (auto simp: resting_side_def book_orders_def)
qed

lemma order_price_not_NaN:
  assumes "book_inv b" "r \<in> set (book_orders b)"
  shows "order_price r \<noteq> NaN" "rq_price (ro_request r) = Some (order_price r)"
  using book_remaining [OF assms] by (auto simp: resting_ok_def order_price_def dest: double_less_not_NaN)

text \<open>A new order goes behind every order of its side that is priced at least as well, and before every
  order that is priced worse.\<close>

lemma side_filter:
  assumes "book_inv b"
  shows "resting_side s b = filter (\<lambda>r. rq_side (ro_request r) = s) (book_orders b)"
proof -
  have "\<forall>r \<in> set (level_orders (ob_bid_levels b)). rq_side (ro_request r) = Buy"
    using side_member [OF assms, of _ Buy] by (simp add: resting_side_def)
  moreover have "\<forall>r \<in> set (level_orders (ob_ask_levels b)). rq_side (ro_request r) = Sell"
    using side_member [OF assms, of _ Sell] by (simp add: resting_side_def)
  ultimately show ?thesis
    by (cases s) (auto simp: book_orders_def resting_side_def filter_id_conv filter_empty_conv)
qed

lemma add_order_priority:
  assumes inv: "book_inv b" and comp: "is_request_compatible b rq i c filled"
    and rq: "request_finite rq" "valid_double filled" "filled \<noteq> NaN"
    and b': "b' = snd (add_order b rq i c filled)"
  shows "\<exists>A B. resting_side (rq_side rq) b = A @ B \<and>
    resting_side (rq_side rq) b' = A @ rested b rq i c filled # B \<and>
    (\<forall>x \<in> set A. not_worse (opposite (rq_side rq)) (order_price x) (order_price (rested b rq i c filled))) \<and>
    (\<forall>y \<in> set B. \<not> not_worse (opposite (rq_side rq)) (order_price y) (order_price (rested b rq i c filled)))"
proof -
  let ?r = "rested b rq i c filled" and ?s = "rq_side rq"
  let ?P = "filter (\<lambda>r. rq_side (ro_request r) = ?s)"
  from book_inv_add [OF inv comp rq] obtain A B where inv': "book_inv b'"
    and AB: "book_orders b = A @ B" "book_orders b' = A @ ?r # B" unfolding b' by blast
  have side: "resting_side ?s b = ?P A @ ?P B" "resting_side ?s b' = ?P A @ ?r # ?P B"
    unfolding side_filter [OF inv] side_filter [OF inv'] AB by (simp_all add: rested_def)
  have L: "ladder_inv std_greater Buy (ob_bid_levels b')" "ladder_inv std_less Sell (ob_ask_levels b')"
    using inv' by (auto simp: book_inv_def)
  have later: "\<not> ro_sequence_number ?r < ro_sequence_number y" if "y \<in> set (?P B)" for y
  proof -
    have "y \<in> set (book_orders b)" using that AB(1) by simp
    then show ?thesis using inv by (fastforce simp: book_inv_def store_inv_def rested_def)
  qed
  have nn: "order_price x \<noteq> NaN" if "x \<in> set (?P A @ ?r # ?P B)" for x
    using that order_price_not_NaN(1) [OF inv'] AB(2) by auto
  have "(\<forall>x \<in> set (?P A). not_worse (opposite ?s) (order_price x) (order_price ?r)) \<and>
    (\<forall>y \<in> set (?P B). \<not> not_worse (opposite ?s) (order_price y) (order_price ?r))"
  proof (cases ?s)
    case Buy
    have "sorted_wrt (served_before std_greater) (?P A @ ?r # ?P B)"
      using ladder_served_order [OF L(1)] side(2) Buy by (simp add: resting_side_def)
    then show ?thesis using later nn Buy
      by (auto simp: sorted_wrt_append served_before_def Let_def std_greater_def order_price_def [symmetric] not_worse_def
          intro: double_less_imp_le dest: double_le_less_trans)
  next
    case Sell
    have "sorted_wrt (served_before std_less) (?P A @ ?r # ?P B)"
      using ladder_served_order [OF L(2)] side(2) Sell by (simp add: resting_side_def)
    then show ?thesis using later nn Sell
      by (auto simp: sorted_wrt_append served_before_def Let_def std_less_def order_price_def [symmetric] not_worse_def
          intro: double_less_imp_le dest: double_le_less_trans)
  qed
  then show ?thesis using side by blast
qed

text \<open>What becomes of the residual: it rests by priority exactly when it is above the tolerance and the book
  does not count the order as filled already.\<close>

lemma resting_book_cases:
  assumes inv: "book_inv b" and b: "instrument_id (ob_instrument b) = instrument_id (rq_instrument rq)" "ob_order_index b i = None"
    and rq: "request_finite rq" "accepted rq" and ids: "i = engine_order_id n" "c = engine_client_order_id m"
    and filled: "filled = std_max 0 (rq_quantity rq - left)"
    and fits: "fits \<longleftrightarrow> \<not> kQuantityTolerance < left \<or> \<not> rq_quantity rq - kQuantityTolerance \<le> filled"
  shows "fst (resting_book rq i c left b) = fits \<and>
    (if kQuantityTolerance < left \<and> fits
     then \<exists>A B r. resting_side (rq_side rq) b = A @ B \<and> resting_side (rq_side rq) (snd (resting_book rq i c left b)) = A @ r # B \<and>
       ro_order_id r = i \<and> ro_client_order_id r = c \<and> ro_request r = rq \<and>
       ro_remaining_quantity r = std_max 0 (rq_quantity rq - filled) \<and>
       (\<forall>x \<in> set A. not_worse (opposite (rq_side rq)) (order_price x) (order_price r)) \<and>
       (\<forall>y \<in> set B. \<not> not_worse (opposite (rq_side rq)) (order_price y) (order_price r))
     else resting_side (rq_side rq) (snd (resting_book rq i c left b)) = resting_side (rq_side rq) b)"
proof -
  have "\<not> filled < 0" unfolding filled using std_max_0_nonneg double_le_less_trans double_less_irrefl by blast
  then have comp: "is_request_compatible b rq i c filled \<longleftrightarrow> \<not> rq_quantity rq - kQuantityTolerance \<le> filled"
    using rq(2) b ids by (auto simp: is_request_compatible_def accepted_def)
  have ok: "fst (add_order b rq i c filled) \<longleftrightarrow> is_request_compatible b rq i c filled"
    "\<not> is_request_compatible b rq i c filled \<Longrightarrow> snd (add_order b rq i c filled) = b"
    by (auto simp: add_order_def Let_def)
  show ?thesis
  proof (cases "kQuantityTolerance < left \<and> fits")
    case True
    then have c: "is_request_compatible b rq i c filled" using comp fits by simp
    note p = add_order_priority [OF inv c rq(1) filled_ok [of "rq_quantity rq" left, folded filled] refl]
    have "\<exists>A B r. resting_side (rq_side rq) b = A @ B \<and>
       resting_side (rq_side rq) (snd (add_order b rq i c filled)) = A @ r # B \<and>
       ro_order_id r = i \<and> ro_client_order_id r = c \<and> ro_request r = rq \<and>
       ro_remaining_quantity r = std_max 0 (rq_quantity rq - filled) \<and>
       (\<forall>x \<in> set A. not_worse (opposite (rq_side rq)) (order_price x) (order_price r)) \<and>
       (\<forall>y \<in> set B. \<not> not_worse (opposite (rq_side rq)) (order_price y) (order_price r))"
      using p by (elim exE conjE, intro exI conjI) (assumption | simp add: rested_def)+
    then show ?thesis using True c ok filled by (simp add: resting_book_def)
  next
    case False
    then show ?thesis using comp ok fits filled by (auto simp: resting_book_def)
  qed
qed

text \<open>
  C1. Submitting an accepted limit order implements price-time matching. With the opposite side of the
  instrument's book read as the queue of its orders by priority, the fills are exactly the executions of
  \<open>match_queue\<close> at the resting orders' prices, the opposite side is left as \<open>match_queue\<close> leaves it, and the
  records of the executed orders take the executions in turn. The new order gets the next two ids; its
  updates are the acknowledgement followed by \<open>submit_outcome\<close>, and the engine's record of it carries the
  same status. A residual above the tolerance rests on the order's own side behind every order that is
  priced at least as well and before every order that is priced worse, unless the rounded difference of
  the quantities already counts as filled, in which case the order is rejected; otherwise its own side
  is unchanged. Other instruments' books are not touched.
\<close>

theorem submit_refines_match_queue:
  assumes "engine_inv e" "request_finite rq" "accepted rq"
    and "b = book_for (rq_instrument rq) (mx_books e)"
    and "match_queue (crosses rq) (rq_quantity rq) (resting_side (opposite (rq_side rq)) b) = (left, xs, rs)"
    and "filled = std_max 0 (rq_quantity rq - left)"
    and "fits \<longleftrightarrow> \<not> kQuantityTolerance < left \<or> \<not> rq_quantity rq - kQuantityTolerance \<le> filled"
    and "i = engine_order_id (mx_next_order_id e)" "c = engine_client_order_id (mx_next_client_order_id e)"
  shows "\<exists>res e' b'. submit rq e = Some (res, e') \<and>
    xr_order_id res = i \<and> xr_client_order_id res = c \<and>
    xr_updates res = make_update i c Acknowledged 0 None # submit_outcome rq i c fits filled \<and>
    xr_fills res = submit_fills rq i (mx_next_fill_id e) xs \<and>
    mx_orders e' = (record_fills xs (mx_orders e))(i \<mapsto> submitted_record rq i c fits filled) \<and>
    find_book (instrument_id (rq_instrument rq)) e' = Some b' \<and>
    resting_side (opposite (rq_side rq)) b' = rs \<and>
    (if kQuantityTolerance < left \<and> fits
     then \<exists>A B r. resting_side (rq_side rq) b = A @ B \<and> resting_side (rq_side rq) b' = A @ r # B \<and>
       ro_order_id r = i \<and> ro_client_order_id r = c \<and> ro_request r = rq \<and>
       ro_remaining_quantity r = std_max 0 (rq_quantity rq - filled) \<and>
       (\<forall>x \<in> set A. not_worse (opposite (rq_side rq)) (order_price x) (order_price r)) \<and>
       (\<forall>y \<in> set B. \<not> not_worse (opposite (rq_side rq)) (order_price y) (order_price r))
     else resting_side (rq_side rq) b' = resting_side (rq_side rq) b) \<and>
    (\<forall>j. j \<noteq> instrument_id (rq_instrument rq) \<longrightarrow> find_book j e' = find_book j e)"
proof -
  obtain res e' where s: "submit rq e = Some (res, e')" using submit_engine_inv [OF assms(1,2)] by blast
  from submit_effect [OF assms(1,3,2,4,8,5) s] obtain b1 where
    b1: "book_inv b1" "resting_side (opposite (rq_side rq)) b1 = rs"
      "resting_side (rq_side rq) b1 = resting_side (rq_side rq) b" "ob_order_index b1 i = None"
      "ob_instrument b1 = ob_instrument b"
    and r: "mx_orders e' = (record_fills xs (mx_orders e))(i \<mapsto>
        submitted_record rq i c (fst (resting_book rq i c left b1)) filled)"
      "mx_books e' = (mx_books e)(instrument_id (rq_instrument rq) \<mapsto> snd (resting_book rq i c left b1))"
      "xr_order_id res = i" "xr_client_order_id res = c" "xr_fills res = submit_fills rq i (mx_next_fill_id e) xs"
      "xr_updates res = make_update i c Acknowledged 0 None # submit_outcome rq i c (fst (resting_book rq i c left b1)) filled"
    unfolding assms(6,9) by blast
  have "instrument_id (ob_instrument b1) = instrument_id (rq_instrument rq)"
    using b1(5) engine_inv_book_for(2) [OF assms(1)] assms(4) by simp
  note rb = resting_book_cases [OF b1(1) this b1(4) assms(2,3,8,9,6,7)]
  note fits = rb [THEN conjunct1] and rests = rb [THEN conjunct2, unfolded b1(3)]
  show ?thesis
    by (intro exI [of _ res] exI [of _ e'] exI [of _ "snd (resting_book rq i c left b1)"] conjI)
      (rule s rests | simp add: r fits find_book_def resting_book_opposite b1(2))+
qed

definition sample_engine :: matching_engine where
  "sample_engine = \<lparr>mx_books = [''BTC-USD'' \<mapsto> sample_book],
     mx_orders = [''o1'' \<mapsto> (order_record_of (sample_request Buy (Fin 100) (Fin 2)) ''o1'' ''c1'')\<lparr>or_status := Acknowledged\<rparr>],
     mx_next_order_id = 1, mx_next_client_order_id = 1, mx_next_fill_id = 1\<rparr>"

lemma sample_book_orders: "book_orders sample_book = [sample_resting]"
  by (simp add: book_orders_def sample_book_def)

lemma sample_engine_ok: "engine_inv sample_engine"
proof -
  have "instrument_id (ob_instrument sample_book) = ''BTC-USD''" by (simp add: sample_book_def sample_instrument_def)
  moreover have "registered (mx_orders sample_engine) ''BTC-USD'' sample_resting"
    by (simp add: registered_def sample_engine_def sample_resting_def order_record_of_def sample_instrument_def)
  ultimately show ?thesis using sample_book_ok(1)
    by (simp add: engine_inv_def sample_engine_def sample_book_orders order_record_of_def engine_order_id_def)
qed

lemma sample_accepted: "0 < p \<Longrightarrow> 0 < q \<Longrightarrow> accepted (sample_request side (Fin p) (Fin q))"
  by (simp add: accepted_def zero_double_def)

lemma sample_match:
  "match_queue (crosses (sample_request Sell (Fin 99) (Fin 1))) (Fin 1)
     (resting_side Buy (book_for sample_instrument (mx_books sample_engine))) =
   (Fin 0, [(sample_resting, Fin 1)], [sample_resting\<lparr>ro_remaining_quantity := Fin 1\<rparr>])"
  by (simp add: sample_engine_def book_for_def sample_instrument_def resting_side_def sample_book_def crosses_def
      sample_resting_def after_fill_def filled_remaining_def double_eval)

lemma sample_match_request:
  "match_queue (crosses (sample_request Sell (Fin 99) (Fin 1))) (rq_quantity (sample_request Sell (Fin 99) (Fin 1)))
     (resting_side (opposite (rq_side (sample_request Sell (Fin 99) (Fin 1))))
       (book_for (rq_instrument (sample_request Sell (Fin 99) (Fin 1))) (mx_books sample_engine))) =
   (Fin 0, [(sample_resting, Fin 1)], [sample_resting\<lparr>ro_remaining_quantity := Fin 1\<rparr>])"
  using sample_match by simp

theorem submit_refines_match_queue_witness:
  "map (\<lambda>f. (fl_price f, fl_quantity f))
     (xr_fills (fst (the (submit (sample_request Sell (Fin 99) (Fin 1)) sample_engine)))) = [(Fin 100, Fin 1)] \<and>
   map ou_status (xr_updates (fst (the (submit (sample_request Sell (Fin 99) (Fin 1)) sample_engine)))) = [Acknowledged, Filled]"
proof -
  let ?rq = "sample_request Sell (Fin 99) (Fin 1)"
  have "accepted ?rq" by (simp add: sample_accepted)
  from submit_refines_match_queue [OF sample_engine_ok sample_finite this refl sample_match_request refl refl refl refl]
  obtain res e' i c where s: "submit ?rq sample_engine = Some (res, e')"
    and f: "xr_fills res = submit_fills ?rq i (mx_next_fill_id sample_engine) [(sample_resting, Fin 1)]"
    and u: "xr_updates res = make_update i c Acknowledged 0 None #
      submit_outcome ?rq i c (\<not> kQuantityTolerance < Fin 0 \<or> \<not> rq_quantity ?rq - kQuantityTolerance \<le> std_max 0 (rq_quantity ?rq - Fin 0))
        (std_max 0 (rq_quantity ?rq - Fin 0))" by blast
  have "std_max 0 (rq_quantity ?rq - Fin 0) = Fin 1" "\<not> kQuantityTolerance < Fin 0" by (simp_all add: double_eval)
  then have "map ou_status (xr_updates res) = [Acknowledged, Filled]"
    unfolding u by (simp add: submit_outcome_def make_update_def double_eval)
  then show ?thesis using s f by (simp add: submit_fills_def match_fill_def sample_resting_def)
qed

subsection \<open>Prices of fills\<close>

lemma match_queue_prefix:
  "match_queue accept q rs = (q', xs, rs') \<Longrightarrow> \<exists>ws. rs = map fst xs @ ws"
  using match_queue_left by fastforce

lemma submit_fills_sel:
  "map fl_price (submit_fills rq i n xs) = map (order_price \<circ> fst) xs"
  "map fl_quantity (submit_fills rq i n xs) = map snd xs"
  "f \<in> set (submit_fills rq i n xs) \<Longrightarrow> fl_order_id f = i \<and> fl_side f = rq_side rq \<and> fl_instrument f = rq_instrument rq \<and>
    (\<exists>r x. (r, x) \<in> set xs \<and> fl_price f = order_price r \<and> fl_quantity f = x)"
proof -
  have m: "map g (map (\<lambda>(k, r, x). h k r x) (enumerate n xs)) = map (\<lambda>(r, x). g' r x) xs"
    if "\<And>k r x. g (h k r x) = g' r x" for g :: "fill_event \<Rightarrow> 'a" and h g'
    using that by (induction xs arbitrary: n) (auto split: prod.splits)
  show "map fl_price (submit_fills rq i n xs) = map (order_price \<circ> fst) xs"
    unfolding submit_fills_def by (subst m) (auto simp: match_fill_def order_price_def)
  show "map fl_quantity (submit_fills rq i n xs) = map snd xs"
    unfolding submit_fills_def by (subst m) (auto simp: match_fill_def)
  show "f \<in> set (submit_fills rq i n xs) \<Longrightarrow> fl_order_id f = i \<and> fl_side f = rq_side rq \<and> fl_instrument f = rq_instrument rq \<and>
    (\<exists>r x. (r, x) \<in> set xs \<and> fl_price f = order_price r \<and> fl_quantity f = x)"
    unfolding submit_fills_def enumerate_eq_zip
    by (auto simp: match_fill_def order_price_def dest: set_zip_rightD intro!: exI)
qed

lemma submit_fills_length [simp]: "length (submit_fills rq i n xs) = length xs"
  by (simp add: submit_fills_def)

lemma submit_fills_aligned:
  assumes "\<And>r x. (r, x) \<in> set xs \<Longrightarrow> P (order_price r) x r"
  shows "list_all2 (\<lambda>f r. P (fl_price f) (fl_quantity f) r) (submit_fills rq i n xs) (map fst xs)"
  using assms by (auto simp: list_all2_conv_all_nth submit_fills_def nth_enumerate_eq match_fill_def order_price_def
      case_prod_beta)

lemma crosses_price:
  "crosses rq r \<Longrightarrow> \<exists>p. rq_price rq = Some p \<and> not_worse (rq_side rq) (order_price r) p"
  by (auto simp: crosses_def not_worse_def order_price_def split: option.splits if_splits)

text \<open>
  C3. The fills of a submitted order take the orders at the front of the opposite side one after the other:
  the k-th fill is at the price of the k-th resting order and takes at most what that order holds. Every
  fill belongs to the submitted order and its instrument, exceeds the tolerance, and is priced no worse
  than the order's limit; successive fills never get better for the taker.
\<close>

theorem submit_fills_within_limit:
  assumes "engine_inv e" "request_finite rq" "submit rq e = Some (res, e')"
  shows "(\<forall>f \<in> set (xr_fills res). fl_order_id f = xr_order_id res \<and> fl_side f = rq_side rq \<and>
      fl_instrument f = rq_instrument rq \<and> kQuantityTolerance < fl_quantity f \<and>
      (\<exists>p. rq_price rq = Some p \<and> not_worse (rq_side rq) (fl_price f) p)) \<and>
    list_all2 (\<lambda>f r. fl_price f = order_price r \<and> fl_quantity f \<le> ro_remaining_quantity r) (xr_fills res)
      (take (length (xr_fills res)) (resting_side (opposite (rq_side rq)) (book_for (rq_instrument rq) (mx_books e)))) \<and>
    sorted_wrt (not_worse (rq_side rq)) (map fl_price (xr_fills res))"
proof (cases "accepted rq")
  case False
  then show ?thesis using submit_rejected [OF False refl refl, of e] assms(3) by auto
next
  case True
  define b where "b = book_for (rq_instrument rq) (mx_books e)"
  let ?opp = "resting_side (opposite (rq_side rq)) b"
  obtain q xs rs where mq: "match_queue (crosses rq) (rq_quantity rq) ?opp = (q, xs, rs)"
    by (metis prod_cases3)
  from submit_effect [OF assms(1) True assms(2) b_def refl mq assms(3)] have
    r: "xr_fills res = submit_fills rq (xr_order_id res) (mx_next_fill_id e) xs" by auto
  have bi: "book_inv b" using engine_inv_book_for(1) [OF assms(1)] by (simp add: b_def)
  obtain ws where ws: "?opp = map fst xs @ ws" using match_queue_prefix [OF mq] by blast
  have exec: "crosses rq r \<and> kQuantityTolerance < x \<and> x \<le> ro_remaining_quantity r" if "(r, x) \<in> set xs" for r x
  proof -
    note e = match_queue_executions [OF mq that]
    then have "resting_ok (instrument_id (ob_instrument b)) r" using book_remaining [OF bi] side_member [OF bi] by blast
    then have "ro_remaining_quantity r \<noteq> NaN" by (auto simp: resting_ok_def dest: double_le_not_NaN)
    then show ?thesis using e double_not_less by blast
  qed
  have "sorted_wrt (\<lambda>r q. not_worse (rq_side rq) (order_price r) (order_price q)) (map fst xs)"
    using side_sorted [OF bi, of "rq_side rq"] ws by (simp add: sorted_wrt_append)
  then have "sorted_wrt (not_worse (rq_side rq)) (map fl_price (xr_fills res))"
    unfolding r submit_fills_sel by (simp add: sorted_wrt_map)
  moreover have "list_all2 (\<lambda>f r. fl_price f = order_price r \<and> fl_quantity f \<le> ro_remaining_quantity r) (xr_fills res)
      (take (length (xr_fills res)) ?opp)"
    using submit_fills_aligned [of xs "\<lambda>p x r. p = order_price r \<and> x \<le> ro_remaining_quantity r"] exec
    unfolding r ws by simp
  moreover have "fl_order_id f = xr_order_id res \<and> fl_side f = rq_side rq \<and> fl_instrument f = rq_instrument rq \<and>
      kQuantityTolerance < fl_quantity f \<and> (\<exists>p. rq_price rq = Some p \<and> not_worse (rq_side rq) (fl_price f) p)"
    if f: "f \<in> set (xr_fills res)" for f
  proof -
    from submit_fills_sel(3) [OF f [unfolded r]] obtain r x where
      "fl_order_id f = xr_order_id res" "fl_side f = rq_side rq" "fl_instrument f = rq_instrument rq"
      "(r, x) \<in> set xs" "fl_price f = order_price r" "fl_quantity f = x" by blast
    then show ?thesis using exec [of r x] crosses_price [of rq r] by simp
  qed
  ultimately show ?thesis unfolding b_def by blast
qed

theorem submit_fills_within_limit_witness:
  "not_worse Sell (fl_price (hd (xr_fills (fst (the (submit (sample_request Sell (Fin 99) (Fin 1)) sample_engine))))))
     (Fin 99)"
proof -
  obtain res e' where s: "submit (sample_request Sell (Fin 99) (Fin 1)) sample_engine = Some (res, e')"
    using submit_engine_inv [OF sample_engine_ok sample_finite] by blast
  have "length (map fl_price (xr_fills res)) = 1"
    using submit_effect [OF sample_engine_ok sample_accepted sample_finite refl refl sample_match_request s]
    by (auto simp: submit_fills_def)
  then have "hd (xr_fills res) \<in> set (xr_fills res)" by (cases "xr_fills res") auto
  then show ?thesis
    using submit_fills_within_limit [OF sample_engine_ok sample_finite s] s by simp
qed

subsection \<open>The book stays uncrossed\<close>

definition uncrossed :: "order_book \<Rightarrow> bool" where
  "uncrossed b \<longleftrightarrow> (\<forall>x \<in> set (resting_side Buy b). \<forall>y \<in> set (resting_side Sell b). order_price x < order_price y)"

lemma uncrossed_iff:
  assumes "book_inv b"
  shows "uncrossed b \<longleftrightarrow> (\<forall>x \<in> set (resting_side s b). \<forall>y \<in> set (resting_side (opposite s) b).
    \<not> not_worse s (order_price y) (order_price x))"
proof -
  have nn: "order_price r \<noteq> NaN" if "r \<in> set (resting_side Buy b) \<union> set (resting_side Sell b)" for r
    using that order_price_not_NaN(1) [OF assms] set_book_orders [of b Buy] by simp
  then have "order_price x < order_price y \<longleftrightarrow> \<not> order_price y \<le> order_price x"
    if "x \<in> set (resting_side Buy b)" "y \<in> set (resting_side Sell b)" for x y
    using that double_not_le [of "order_price y" "order_price x"] by simp
  then show ?thesis by (cases s) (auto simp: uncrossed_def not_worse_def)
qed

text \<open>When quantity is left over, nothing that remains on the other side crosses the order's limit.\<close>

lemma leftover_not_crossing:
  assumes "book_inv b" "book_inv b1" "rq_price rq = Some p"
    and mq: "match_queue (crosses rq) q (resting_side (opposite (rq_side rq)) b) = (left, xs, resting_side (opposite (rq_side rq)) b1)"
    and "kQuantityTolerance < left" "\<And>r. r \<in> set (book_orders b) \<Longrightarrow> kQuantityTolerance < ro_remaining_quantity r"
    and y: "y \<in> set (resting_side (opposite (rq_side rq)) b1)"
  shows "\<not> not_worse (rq_side rq) (order_price y) p"
proof
  assume bad: "not_worse (rq_side rq) (order_price y) p"
  obtain r rs where rs: "resting_side (opposite (rq_side rq)) b1 = r # rs" using y by (cases "resting_side (opposite (rq_side rq)) b1") auto
  have r: "r \<in> set (resting_side (opposite (rq_side rq)) b)"
    "\<not> crosses rq r \<or> ro_remaining_quantity r \<le> kQuantityTolerance"
    using match_queue_stops [OF mq [unfolded rs] assms(5)] by auto
  then have rb: "r \<in> set (book_orders b)" using side_member [OF assms(1)] by simp
  have "\<not> ro_remaining_quantity r \<le> kQuantityTolerance"
    using assms(6) [OF rb] double_less_le_trans double_less_irrefl by blast
  then have nc: "\<not> not_worse (rq_side rq) (order_price r) p"
    using r(2) assms(3) order_price_not_NaN(2) [OF assms(1) rb] by (auto simp: crosses_def not_worse_def split: if_splits)
  have "y = r \<or> not_worse (rq_side rq) (order_price r) (order_price y)"
    using side_sorted [OF assms(2), of "rq_side rq"] y by (auto simp: rs)
  then show False using bad nc not_worse_trans by blast
qed

text \<open>A sweep leaves no order in its queue that it has emptied down to the tolerance.\<close>

lemma match_queue_above:
  assumes "match_queue accept q rs = (q', xs, rs')" "\<forall>r \<in> set rs. kQuantityTolerance < ro_remaining_quantity r"
  shows "\<forall>r \<in> set rs'. kQuantityTolerance < ro_remaining_quantity r"
proof -
  have "kQuantityTolerance < ro_remaining_quantity r'" if "r' \<in> set (after_fill r x)" for r r' x
    using that after_fill_remaining [of r x] by (auto simp: after_fill_def split: if_splits)
  then show ?thesis using match_queue_left [OF assms(1)] assms(2) by fastforce
qed

text \<open>
  C4. If every buy in the instrument's book is priced below every sell and every resting order holds more
  than the tolerance, then after any submission every buy is still priced below every sell, and every
  order that rests holds more than the tolerance, except that the submitted one may hold exactly the
  tolerance.
\<close>

theorem submit_keeps_uncrossed:
  assumes inv: "engine_inv e" and fin: "request_finite rq"
    and b: "b = book_for (rq_instrument rq) (mx_books e)" "uncrossed b"
    and sub: "\<forall>r \<in> set (book_orders b). kQuantityTolerance < ro_remaining_quantity r"
    and s: "submit rq e = Some (res, e')"
  shows "uncrossed (book_for (rq_instrument rq) (mx_books e')) \<and>
    (\<forall>r \<in> set (book_orders (book_for (rq_instrument rq) (mx_books e'))). kQuantityTolerance < ro_remaining_quantity r \<or>
       ro_order_id r = xr_order_id res \<and> ro_remaining_quantity r = kQuantityTolerance)"
proof (cases "accepted rq")
  case False
  then show ?thesis using submit_rejected [OF False refl refl, of e] s b sub by auto
next
  case True
  obtain q xs rs where mq: "match_queue (crosses rq) (rq_quantity rq) (resting_side (opposite (rq_side rq)) b) = (q, xs, rs)"
    by (metis prod_cases3)
  from submit_effect [OF inv True fin b(1) refl mq s] obtain b1 i c where
    b1: "book_inv b1" "resting_side (opposite (rq_side rq)) b1 = rs"
      "resting_side (rq_side rq) b1 = resting_side (rq_side rq) b"
    and bk: "mx_books e' = (mx_books e)(instrument_id (rq_instrument rq) \<mapsto> snd (resting_book rq i c q b1))"
    and i: "xr_order_id res = i" by blast
  let ?b' = "snd (resting_book rq i c q b1)"
  obtain p where p: "rq_price rq = Some p" using True by (auto simp: accepted_def)
  have bi: "book_inv b" using engine_inv_book_for(1) [OF inv] b(1) by simp
  note b' = resting_book_effect [OF b1(1) fin, where i = i and c = c and q = q]
  have "\<not> not_worse (rq_side rq) (order_price y) (order_price x)"
    if x: "x \<in> set (resting_side (rq_side rq) ?b')" and y: "y \<in> set (resting_side (opposite (rq_side rq)) ?b')" for x y
  proof -
    have y1: "y \<in> set rs" using y b1(2) by (simp add: resting_book_opposite)
    from match_queue_survivors [OF mq y1] obtain y0 where
      y0: "y0 \<in> set (resting_side (opposite (rq_side rq)) b)" "order_price y = order_price y0" by (auto simp: order_price_def)
    from b'(3) [of x] x side_member [OF b'(1)] consider "x \<in> set (book_orders b1)" "rq_side (ro_request x) = rq_side rq"
      | "x = rested b1 rq i c (std_max 0 (rq_quantity rq - q))" "x \<notin> set (book_orders b1)" by auto
    then show ?thesis
    proof cases
      case 1
      then have "x \<in> set (resting_side (rq_side rq) b)"
        using side_member [OF b1(1)] unfolding b1(3) [symmetric] by blast
      then show ?thesis using b(2) uncrossed_iff [OF bi] y0 by auto
    next
      case 2
      then have "kQuantityTolerance < q" using x side_member [OF b'(1)] by (auto simp: resting_book_def split: if_splits)
      then have "\<not> not_worse (rq_side rq) (order_price y) p"
        using leftover_not_crossing [OF bi b1(1) p mq [folded b1(2)]] sub y1 b1(2) by blast
      then show ?thesis using 2 p by (simp add: order_price_def rested_def)
    qed
  qed
  then have "uncrossed ?b'" using uncrossed_iff [OF b'(1), of "rq_side rq"] by blast
  moreover have "kQuantityTolerance < ro_remaining_quantity r \<or>
      ro_order_id r = i \<and> ro_remaining_quantity r = kQuantityTolerance" if r: "r \<in> set (book_orders ?b')" for r
  proof (cases "r \<in> set (book_orders b1)")
    case True
    have "\<forall>r \<in> set rs. kQuantityTolerance < ro_remaining_quantity r"
      using match_queue_above [OF mq] sub set_book_orders [of b "rq_side rq"] by auto
    then show ?thesis using True sub b1(2,3) set_book_orders [of b1 "rq_side rq"] set_book_orders [of b "rq_side rq"] by auto
  next
    case False
    then have "ro_order_id r = i" using b'(3) [OF r] by (auto simp: rested_def)
    moreover have "kQuantityTolerance \<le> ro_remaining_quantity r" using book_remaining [OF b'(1) r] by (simp add: resting_ok_def)
    ultimately show ?thesis by (auto simp: less_eq_double_def)
  qed
  ultimately show ?thesis by (simp add: book_for_def bk i)
qed

theorem submit_keeps_uncrossed_witness:
  "uncrossed (book_for sample_instrument (mx_books (snd (the (submit (sample_request Sell (Fin 99) (Fin 1)) sample_engine)))))"
proof -
  obtain res e' where s: "submit (sample_request Sell (Fin 99) (Fin 1)) sample_engine = Some (res, e')"
    using submit_engine_inv [OF sample_engine_ok sample_finite] by blast
  have bk: "book_for (rq_instrument (sample_request Sell (Fin 99) (Fin 1))) (mx_books sample_engine) = sample_book"
    by (simp add: book_for_def sample_engine_def sample_instrument_def)
  have "uncrossed sample_book" by (simp add: uncrossed_def resting_side_def sample_book_def)
  moreover have "\<forall>r \<in> set (book_orders sample_book). kQuantityTolerance < ro_remaining_quantity r"
    by (simp add: sample_book_orders sample_resting_def)
  ultimately show ?thesis using submit_keeps_uncrossed [OF sample_engine_ok sample_finite bk [symmetric] _ _ s] s by simp
qed

subsection \<open>Market events, cancels and reports\<close>

lemma market_fills_ids: "map fl_order_id (market_fills event n ys) = map (\<lambda>(l, r, x). ro_order_id r) ys"
  unfolding market_fills_def by (induction ys arbitrary: n) (auto simp: match_fill_def split: prod.splits)

lemma market_fills_member:
  "f \<in> set (market_fills event n ys) \<Longrightarrow> \<exists>l r x. (l, r, x) \<in> set ys \<and> fl_order_id f = ro_order_id r \<and>
     fl_side f = rq_side (ro_request r) \<and> fl_price f = bl_price l \<and> fl_quantity f = x"
proof -
  assume "f \<in> set (market_fills event n ys)"
  then obtain k l r x instr where "(k, l, r, x) \<in> set (zip [n..<n + length ys] ys)"
    "f = match_fill k (ro_order_id r) instr (rq_side (ro_request r)) (bl_price l) x"
    by (auto simp: market_fills_def enumerate_eq_zip)
  then show ?thesis by (auto simp: match_fill_def dest!: set_zip_rightD)
qed

text \<open>What a market event may do to a resting order: fill it, by no more than it holds, at the price and by no
  more than the quantity of one of the event's levels on the other side, within the tolerance of the
  order's limit.\<close>

definition market_fill_ok :: "market_event \<Rightarrow> order_book \<Rightarrow> fill_event \<Rightarrow> bool" where
  "market_fill_ok event b f \<longleftrightarrow> kQuantityTolerance < fl_quantity f \<and>
     (\<exists>r \<in> set (book_orders b). fl_order_id f = ro_order_id r \<and> fl_side f = rq_side (ro_request r) \<and>
       fl_quantity f \<le> ro_remaining_quantity r \<and>
       (\<exists>l \<in> set (if fl_side f = Buy then me_ask_levels event else me_bid_levels event).
          fl_price f = bl_price l \<and> fl_quantity f \<le> bl_quantity l) \<and>
       (if fl_side f = Buy then \<not> order_price r + kQuantityTolerance < fl_price f
        else \<not> fl_price f < order_price r - kQuantityTolerance))"

text \<open>No execution exceeds what the sweep had left or what its order holds, and quantities only shrink.\<close>

definition holds_quantity :: "resting_order \<Rightarrow> bool" where
  "holds_quantity r \<longleftrightarrow> valid_double (ro_remaining_quantity r) \<and> 0 \<le> ro_remaining_quantity r"

definition shrunk :: "resting_order \<Rightarrow> resting_order \<Rightarrow> bool" where
  "shrunk r r' \<longleftrightarrow> ro_order_id r' = ro_order_id r \<and> ro_request r' = ro_request r \<and> holds_quantity r' \<and>
     ro_remaining_quantity r' \<le> ro_remaining_quantity r"

lemma shrunk_refl: "holds_quantity r \<Longrightarrow> shrunk r r"
  by (auto simp: shrunk_def holds_quantity_def dest: double_le_not_NaN)

lemma shrunk_trans: "shrunk r r' \<Longrightarrow> shrunk r' r'' \<Longrightarrow> shrunk r r''"
  by (auto simp: shrunk_def intro: double_le_trans)

lemma shrunk_holds: "shrunk r r' \<Longrightarrow> holds_quantity r'"
  by (simp add: shrunk_def)

lemma std_max_0_diff_le:
  assumes "valid_double x" "0 \<le> x" "0 \<le> y"
  shows "std_max 0 (x - y) \<le> x"
proof (cases "0 < x - y")
  case True
  then have "x - y \<noteq> NaN" by (auto dest: double_less_not_NaN)
  then show ?thesis using True double_diff_le [OF assms(1,3)] by (simp add: std_max_def)
qed (use assms(2) in \<open>simp add: std_max_def\<close>)

lemma shrunk_after_fill: "r' \<in> set (after_fill r x) \<Longrightarrow> holds_quantity r \<Longrightarrow> 0 \<le> x \<Longrightarrow> shrunk r r'"
  using filled_ok(1) [of "ro_remaining_quantity r" x] std_max_0_diff_le [of "ro_remaining_quantity r" x]
  by (auto simp: after_fill_def shrunk_def holds_quantity_def filled_remaining_def split: if_splits)

lemma match_queue_bounds:
  "match_queue accept q rs = (q', xs, rs') \<Longrightarrow> valid_double q \<Longrightarrow> \<forall>r \<in> set rs. holds_quantity r \<Longrightarrow>
     (\<forall>(r, x) \<in> set xs. x \<le> q \<and> x \<le> ro_remaining_quantity r) \<and> (\<forall>r' \<in> set rs'. \<exists>r \<in> set rs. shrunk r r')"
proof (induction accept q rs arbitrary: q' xs rs' rule: match_queue.induct)
  case (1 accept q)
  then show ?case by simp
next
  case (2 accept q r rs)
  let ?m = "ro_remaining_quantity r"
  have refl: "shrunk r0 r0" if "r0 \<in> set (r # rs)" for r0 using 2(4) that shrunk_refl by blast
  show ?case
  proof (cases "\<not> kQuantityTolerance < q \<or> \<not> accept r \<or> ?m \<le> kQuantityTolerance")
    case True
    then show ?thesis using 2(2) refl by auto
  next
    case False
    then have q0: "0 \<le> q" "q \<noteq> NaN"
      using double_less_imp_le double_le_trans tolerance_simps(5) by (blast, auto dest: double_less_not_NaN)
    have m0: "holds_quantity r" "0 \<le> ?m" "?m \<noteq> NaN" using 2(4) by (auto simp: holds_quantity_def dest: double_le_not_NaN)
    show ?thesis
    proof (cases "?m < q")
      case True
      let ?q = "std_max 0 (q - ?m)"
      obtain xs1 where mq: "match_queue accept ?q rs = (q', xs1, rs')" "xs = (r, ?m) # xs1"
        using 2(2) False True by (auto split: prod.splits)
      have "valid_double ?q" "?q \<le> q" using filled_ok(1) std_max_0_diff_le [OF 2(3) q0(1) m0(2)] by simp_all
      then have "(\<forall>(r, x) \<in> set xs1. x \<le> q \<and> x \<le> ro_remaining_quantity r) \<and> (\<forall>r' \<in> set rs'. \<exists>r \<in> set rs. shrunk r r')"
        using 2(1) [OF False True mq(1)] 2(4) double_le_trans by fastforce
      then show ?thesis using mq(2) True m0(3) double_less_imp_le by auto
    next
      case nl: False
      then have "xs = [(r, q)]" "rs' = after_fill r q @ rs" using 2(2) False by auto
      moreover have "q \<le> ?m" using nl double_not_less [OF m0(3) q0(2)] by simp
      ultimately show ?thesis using q0 m0(1) shrunk_after_fill [of _ r q] refl by auto
    qed
  qed
qed

lemma match_levels_bounds:
  "match_levels accept ls rs = (ys, rs') \<Longrightarrow> \<forall>l \<in> set ls. valid_double (bl_quantity l) \<Longrightarrow> \<forall>r \<in> set rs. holds_quantity r \<Longrightarrow>
     (l, r, x) \<in> set ys \<Longrightarrow> x \<le> bl_quantity l \<and> x \<le> ro_remaining_quantity r \<and> (\<exists>r0 \<in> set rs. shrunk r0 r)"
proof (induction ls arbitrary: rs ys)
  case (Cons l' ls)
  obtain q xs rs1 where mq: "match_queue (accept l') (bl_quantity l') rs = (q, xs, rs1)" by (metis prod_cases3)
  then obtain ys1 where ys: "match_levels accept ls rs1 = (ys1, rs')" "ys = map (Pair l') xs @ ys1"
    using Cons.prems(1) by (auto split: prod.splits)
  have b: "\<forall>(r, x) \<in> set xs. x \<le> bl_quantity l' \<and> x \<le> ro_remaining_quantity r" "\<forall>r' \<in> set rs1. \<exists>r \<in> set rs. shrunk r r'"
    using match_queue_bounds [OF mq] Cons.prems(2,3) by auto
  show ?case
  proof (cases "(l, r, x) \<in> set ys1")
    case True
    have "\<forall>r \<in> set rs1. holds_quantity r" using b(2) shrunk_holds by blast
    then show ?thesis using Cons.IH [OF ys(1) _ _ True] Cons.prems(2) b(2) shrunk_trans by (meson list.set_intros(2))
  next
    case False
    then have "l = l'" "(r, x) \<in> set xs" using Cons.prems(4) ys(2) by auto
    then show ?thesis using b(1) match_queue_executions [OF mq] Cons.prems(3) shrunk_refl by blast
  qed
qed simp

lemma match_levels_market_fill_ok:
  assumes inv: "book_inv b"
    and m: "match_levels accept ls (resting_side s b) = (ys, rs)" "(l, r, x) \<in> set ys"
    and acc: "accept = (if s = Buy then buy_reaches else sell_reaches)"
      "ls = (if s = Buy then me_ask_levels event else me_bid_levels event)"
    and valid: "\<forall>l \<in> set ls. valid_double (bl_quantity l)"
    and f: "fl_order_id f = ro_order_id r" "fl_side f = rq_side (ro_request r)" "fl_price f = bl_price l" "fl_quantity f = x"
  shows "market_fill_ok event b f"
proof -
  have side: "\<forall>r \<in> set (resting_side s b). r \<in> set (book_orders b) \<and> rq_side (ro_request r) = s"
    using side_member [OF inv] by simp
  then have "\<forall>r \<in> set (resting_side s b). holds_quantity r"
    using book_remaining [OF inv] double_le_trans [OF tolerance_simps(5)] by (auto simp: resting_ok_def holds_quantity_def)
  from match_levels_bounds [OF m(1) valid this m(2)] obtain r0 where
    x: "x \<le> bl_quantity l" "x \<le> ro_remaining_quantity r" and r0: "r0 \<in> set (resting_side s b)" "shrunk r0 r" by blast
  from match_levels_executions [OF m] have e: "l \<in> set ls" "accept l r" "kQuantityTolerance < x" by blast+
  have sr: "ro_order_id r = ro_order_id r0" "ro_request r = ro_request r0" "x \<le> ro_remaining_quantity r0"
    using r0(2) x(2) double_le_trans by (auto simp: shrunk_def)
  have b0: "r0 \<in> set (book_orders b)" "rq_side (ro_request r0) = s" using r0(1) side by auto
  then have "rq_price (ro_request r) = Some (order_price r0)" using sr(2) order_price_not_NaN(2) [OF inv] by simp
  then show ?thesis unfolding market_fill_ok_def using e x(1) sr b0 f acc
    by (auto simp: buy_reaches_def sell_reaches_def split: if_splits intro!: bexI [of _ r0])
qed

text \<open>
  C25. A market event over levels whose quantities are doubles runs the reference matcher over the levels:
  the asks against the resting buys, then the bids against the resting sells, and the event's fills and
  the sides of the book are what \<open>match_levels\<close> gives, and the executed orders' records take the executions;
  other books are not touched. So it fills only orders that
  rest in the event's instrument, each at the price of a level of the other side that the order's limit
  reaches (within the quantity tolerance, which the code also uses for prices), by no more than the level
  offers and no more than the order held. It reports exactly one update per filled order, in order of id, and
  the update carries the status and filled quantity that the engine has recorded.
\<close>

theorem process_market_event_sound:
  assumes inv: "engine_inv e" and p: "process_market_event event e = Some (res, e')"
    and valid: "\<forall>l \<in> set (me_ask_levels event @ me_bid_levels event). valid_double (bl_quantity l)"
  shows "(case find_book (instrument_id (me_instrument event)) e of None \<Rightarrow> xr_fills res = [] \<and> e' = e
      | Some b \<Rightarrow> \<exists>b' ys zs. mx_books e' = (mx_books e)(instrument_id (me_instrument event) \<mapsto> b') \<and>
          match_levels buy_reaches (me_ask_levels event) (resting_side Buy b) = (ys, resting_side Buy b') \<and>
          match_levels sell_reaches (me_bid_levels event) (resting_side Sell b) = (zs, resting_side Sell b') \<and>
          xr_fills res = market_fills event (mx_next_fill_id e) (ys @ zs) \<and>
          mx_orders e' = record_fills (map snd (ys @ zs)) (mx_orders e)) \<and>
    (\<forall>f \<in> set (xr_fills res). \<exists>b. find_book (instrument_id (me_instrument event)) e = Some b \<and> market_fill_ok event b f) \<and>
    map ou_order_id (xr_updates res) = sort_unique (map fl_order_id (xr_fills res)) \<and>
    (\<forall>u \<in> set (xr_updates res). \<exists>r. engine_get_order (ou_order_id u) e' = Some r \<and>
      ou_status u = or_status r \<and> ou_filled_quantity u = or_filled_quantity r)"
proof (cases "mx_books e (instrument_id (me_instrument event))")
  case None
  then have "xr_fills res = []" "xr_updates res = []" "e' = e" using p by (auto simp: process_market_event_def)
  then show ?thesis using None by (simp add: sort_unique_def find_book_def)
next
  case (Some b)
  have bi: "book_inv b" using inv Some by (simp add: engine_inv_def)
  obtain ys bs where bm: "match_levels buy_reaches (me_ask_levels event) (resting_side Buy b) = (ys, bs)" by force
  obtain zs ss where sm: "match_levels sell_reaches (me_bid_levels event) (resting_side Sell b) = (zs, ss)" by force
  from process_market_event_eq [OF inv Some bm sm] p obtain orders b' where
    st: "statics orders = statics (mx_orders e)" and e': "mx_orders e' = orders"
    and rf: "orders = record_fills (map snd (ys @ zs)) (mx_orders e)"
    and b': "mx_books e' = (mx_books e)(instrument_id (me_instrument event) \<mapsto> b')" "resting_side Buy b' = bs"
      "resting_side Sell b' = ss"
    and u: "xr_updates res = fold (append_order_update orders) (sort_unique (map (\<lambda>(l, r, x). ro_order_id r) (ys @ zs))) []"
    and fl: "xr_fills res = market_fills event (mx_next_fill_id e) (ys @ zs)" by auto
  have ok: "market_fill_ok event b f" if f: "f \<in> set (xr_fills res)" for f
  proof -
    from market_fills_member [OF f [unfolded fl]] obtain l r x where
      "(l, r, x) \<in> set ys \<or> (l, r, x) \<in> set zs" and m: "fl_order_id f = ro_order_id r" "fl_side f = rq_side (ro_request r)"
      "fl_price f = bl_price l" "fl_quantity f = x" by auto
    then show ?thesis
      using match_levels_market_fill_ok [OF bi bm _ _ _ _ m] match_levels_market_fill_ok [OF bi sm _ _ _ _ m] valid by auto
  qed
  have ids: "map (\<lambda>(l, r, x). ro_order_id r) (ys @ zs) = map fl_order_id (xr_fills res)"
    unfolding fl market_fills_ids ..
  have known: "orders i \<noteq> None" if "i \<in> set (map fl_order_id (xr_fills res))" for i
  proof -
    from that obtain f where f: "f \<in> set (xr_fills res)" "i = fl_order_id f" by auto
    from ok [OF f(1)] obtain r where "r \<in> set (book_orders b)" "i = ro_order_id r"
      unfolding market_fill_ok_def f(2) by blast
    then have "mx_orders e i \<noteq> None" using engine_inv_known [OF inv Some] by simp
    then show ?thesis using st by (metis statics_None)
  qed
  have ups: "xr_updates res = map (\<lambda>i. let r = the (orders i) in make_update (or_order_id r) (or_client_order_id r)
      (or_status r) (or_filled_quantity r) None) (sort_unique (map fl_order_id (xr_fills res)))"
    unfolding u ids using fold_append_order_update [of "sort_unique (map fl_order_id (xr_fills res))" orders "[]"] known
    by simp
  have self: "or_order_id (the (orders i)) = i" if "i \<in> set (map fl_order_id (xr_fills res))" for i
    using known [OF that] ids_of_statics [of orders i "the (orders i)"] engine_inv_ids [OF inv] st by auto
  have "map ou_order_id (xr_updates res) = sort_unique (map fl_order_id (xr_fills res))"
    unfolding ups map_map using self by (intro map_idI) (simp add: make_update_def Let_def)
  moreover have "\<exists>r. engine_get_order (ou_order_id u) e' = Some r \<and> ou_status u = or_status r \<and>
      ou_filled_quantity u = or_filled_quantity r" if "u \<in> set (xr_updates res)" for u
  proof -
    from that obtain i where i: "i \<in> set (map fl_order_id (xr_fills res))"
      and "u = (let r = the (orders i) in make_update (or_order_id r) (or_client_order_id r) (or_status r)
        (or_filled_quantity r) None)"
      unfolding ups set_map set_sort_unique by (elim imageE) blast
    then show ?thesis using self [OF i] known [OF i] by (auto simp: engine_get_order_def e' make_update_def Let_def)
  qed
  moreover have "mx_orders e' = record_fills (map snd (ys @ zs)) (mx_orders e)" by (simp only: e' rf)
  ultimately show ?thesis using ok Some bm sm b' fl by (auto simp: find_book_def)
qed

definition sample_event :: market_event where
  "sample_event = \<lparr>me_event_id = ''e1'', me_type = Book_snapshot, me_instrument = sample_instrument, me_price = 0,
     me_quantity = 0, me_bid_price = None, me_ask_price = None, me_bid_levels = [],
     me_ask_levels = [\<lparr>bl_price = Fin 98, bl_quantity = Fin 1\<rparr>], me_exchange_timestamp = 0,
     me_receive_timestamp = 0, me_process_timestamp = 0\<rparr>"

lemma sample_event_buys:
  "match_levels buy_reaches (me_ask_levels sample_event) (resting_side Buy sample_book) =
     ([(\<lparr>bl_price = Fin 98, bl_quantity = Fin 1\<rparr>, sample_resting, Fin 1)], [sample_resting\<lparr>ro_remaining_quantity := Fin 1\<rparr>])"
  by (simp add: sample_event_def resting_side_def sample_book_def buy_reaches_def sample_resting_def after_fill_def
      filled_remaining_def double_eval)

theorem process_market_event_sound_witness:
  "map ou_order_id (xr_updates (fst (the (process_market_event sample_event sample_engine)))) = [''o1'']"
proof -
  have b: "mx_books sample_engine (instrument_id (me_instrument sample_event)) = Some sample_book"
    by (simp add: sample_engine_def sample_event_def sample_instrument_def)
  have sells: "match_levels sell_reaches (me_bid_levels sample_event) (resting_side Sell sample_book) = ([], [])"
    by (simp add: sample_event_def resting_side_def sample_book_def)
  obtain res e' where p: "process_market_event sample_event sample_engine = Some (res, e')"
    using market_engine_inv [OF sample_engine_ok] by blast
  from process_market_event_eq [OF sample_engine_ok b sample_event_buys sells] p
  have "xr_fills res = market_fills sample_event (mx_next_fill_id sample_engine)
      [(\<lparr>bl_price = Fin 98, bl_quantity = Fin 1\<rparr>, sample_resting, Fin 1)]" by auto
  then have "map fl_order_id (xr_fills res) = [''o1'']" by (simp add: market_fills_ids sample_resting_def)
  moreover have "\<forall>l \<in> set (me_ask_levels sample_event @ me_bid_levels sample_event). valid_double (bl_quantity l)"
    using valid_to_double [of 1] by (simp add: sample_event_def del: valid_double_simps)
  ultimately show ?thesis using process_market_event_sound [OF sample_engine_ok p] p by (simp add: sort_unique_def)
qed

text \<open>
  \<open>cancel\<close> succeeds exactly for a known, non-terminal order that rests in its instrument's book: it
  then reports pending-cancel and canceled, removes that order and no other from the book, and records
  the canceled status. In every other case it reports one rejection and changes nothing; it never fills.
\<close>

theorem cancel_correct:
  assumes inv: "engine_inv e" and c: "cancel order_id client_id e = (res, e')"
  shows "xr_fills res = [] \<and>
    (case engine_get_order order_id e of
       Some ord \<Rightarrow>
         (case find_book (or_instrument_id ord) e of
            Some b \<Rightarrow>
              if \<not> is_terminal (or_status ord) \<and> find_order b order_id \<noteq> None
              then map ou_status (xr_updates res) = [Pending_cancel, Canceled] \<and>
                (\<exists>b'. find_book (or_instrument_id ord) e' = Some b' \<and> find_order b' = (find_order b)(order_id := None)) \<and>
                map_option or_status (engine_get_order order_id e') = Some Canceled
              else map ou_status (xr_updates res) = [Rejected] \<and> e' = e
          | None \<Rightarrow> map ou_status (xr_updates res) = [Rejected] \<and> e' = e)
     | None \<Rightarrow> map ou_status (xr_updates res) = [Rejected] \<and> e' = e)"
proof (cases "mx_orders e order_id")
  case None
  then show ?thesis using c by (auto simp: cancel_def engine_get_order_def make_update_def)
next
  case (Some ord)
  show ?thesis
  proof (cases "is_terminal (or_status ord) \<or> mx_books e (or_instrument_id ord) = None")
    case True
    then show ?thesis using c Some
      by (auto simp: cancel_def engine_get_order_def find_book_def make_update_def Let_def split: option.splits if_splits)
  next
    case False
    then obtain b where b: "mx_books e (or_instrument_id ord) = Some b" by blast
    obtain ok b' where cb: "cancel_order b order_id = (ok, b')" by force
    have "book_inv b" using inv b by (simp add: engine_inv_def)
    then have eff: "ok \<longleftrightarrow> find_order b order_id \<noteq> None" "\<not> ok \<Longrightarrow> b' = b"
      "find_order b' = (find_order b)(order_id := None)"
      using cancel_order_find [OF _ cb] by auto
    have same: "e\<lparr>mx_books := (mx_books e)(or_instrument_id ord \<mapsto> b)\<rparr> = e"
      using b by (simp add: fun_upd_idem)
    show ?thesis
      using c Some False b cb eff same
      by (auto simp: cancel_def engine_get_order_def find_book_def make_update_def Let_def)
  qed
qed

theorem cancel_correct_witness:
  "map ou_status (xr_updates (fst (cancel ''o1'' ''c1'' sample_engine))) = [Pending_cancel, Canceled]"
proof -
  have "mx_orders sample_engine ''o1'' = Some ((order_record_of (sample_request Buy (Fin 100) (Fin 2)) ''o1'' ''c1'')
      \<lparr>or_status := Acknowledged\<rparr>)" by (simp add: sample_engine_def)
  moreover have "mx_books sample_engine ''BTC-USD'' = Some sample_book" by (simp add: sample_engine_def)
  moreover have "instrument_id sample_instrument = ''BTC-USD''" by (simp add: sample_instrument_def)
  ultimately show ?thesis
    using cancel_correct [OF sample_engine_ok surjective_pairing, of "''o1''" "''c1''"] sample_book_ok(2)
    by (simp add: engine_get_order_def find_book_def order_record_of_def is_terminal_def)
qed

text \<open>
  Every update that \<open>submit\<close> returns is about the submitted order, whose id was not in use before;
  the first one is its acknowledgement or its rejection. So no update is ever returned for the resting
  orders that the submission fills, although their records change.
\<close>

theorem submit_reports_incoming_only:
  assumes "engine_inv e" "request_finite rq" "submit rq e = Some (res, e')"
  shows "engine_get_order (xr_order_id res) e = None \<and> xr_updates res \<noteq> [] \<and>
    ou_status (hd (xr_updates res)) = (if accepted rq then Acknowledged else Rejected) \<and>
    (\<forall>u \<in> set (xr_updates res). ou_order_id u = xr_order_id res)"
proof -
  have new: "mx_orders e (engine_order_id (mx_next_order_id e)) = None" using assms(1) by (simp add: engine_inv_def)
  show ?thesis
  proof (cases "accepted rq")
    case False
    then show ?thesis using submit_rejected [OF False refl refl, of e] assms(3) new
      by (auto simp: make_update_def engine_get_order_def)
  next
    case True
    obtain q xs rs where mq: "match_queue (crosses rq) (rq_quantity rq) (resting_side (opposite (rq_side rq))
        (book_for (rq_instrument rq) (mx_books e))) = (q, xs, rs)" by (metis prod_cases3)
    from submit_effect [OF assms(1) True assms(2) refl refl mq assms(3)] new True show ?thesis
      by (auto simp: engine_get_order_def make_update_def intro: submit_outcome_id)
  qed
qed

theorem submit_reports_incoming_only_witness:
  "engine_get_order (xr_order_id (fst (the (submit (sample_request Sell (Fin 99) (Fin 1)) sample_engine)))) sample_engine = None"
proof -
  obtain res e' where s: "submit (sample_request Sell (Fin 99) (Fin 1)) sample_engine = Some (res, e')"
    using submit_engine_inv [OF sample_engine_ok sample_finite] by blast
  then show ?thesis using submit_reports_incoming_only [OF sample_engine_ok sample_finite s] by simp
qed

subsection \<open>Limits of the engine\<close>








end
