(* ===== verification/Simulated_Execution.thy ===== *)
theory Simulated_Execution
  imports Matching_Engine
begin

section \<open>The simulated execution venue\<close>

text \<open>
  \<open>include/execution/simulated_execution_engine.hpp\<close> and its source file. The venue fills an order
  at once, or partially when its quantity reaches the configured threshold; a partially filled order
  stays open until it is completed or cancelled. \<open>complete_open_order\<close> dereferences the price of the
  open order: the model returns \<open>None\<close> where that optional is empty (undefined behaviour in C++), and
  \<open>sim_inv\<close> shows that orders opened by \<open>submit\<close> always have a price.
\<close>

record simulated_execution_config =
  sc_partial_fill_threshold :: double
  sc_partial_fill_ratio :: double

record open_order_state =
  os_request :: order_request
  os_client_order_id :: string
  os_filled_quantity :: double

record simulated_execution_engine =
  se_config :: simulated_execution_config
  se_open_orders :: "string \<rightharpoonup> open_order_state"
  se_next_order_id :: nat
  se_next_client_order_id :: nat
  se_next_fill_id :: nat

definition simulated_execution_engine_new :: "simulated_execution_config \<Rightarrow> simulated_execution_engine" where
  "simulated_execution_engine_new c = \<lparr>se_config = c, se_open_orders = Map.empty, se_next_order_id = 1,
     se_next_client_order_id = 1, se_next_fill_id = 1\<rparr>"

definition clamp_partial_fill_ratio :: "simulated_execution_engine \<Rightarrow> double" where
  "clamp_partial_fill_ratio s = std_clamp (sc_partial_fill_ratio (se_config s)) 0 1"

definition sim_order_id :: "nat \<Rightarrow> string" where
  "sim_order_id n = ''sim-order-'' @ show_nat n"

definition sim_fill :: "simulated_execution_engine \<Rightarrow> string \<Rightarrow> order_request \<Rightarrow> double \<Rightarrow> double \<Rightarrow> fill_event" where
  "sim_fill s i rq price q = \<lparr>fl_fill_id = ''sim-fill-'' @ show_nat (se_next_fill_id s), fl_order_id = i,
     fl_instrument = rq_instrument rq, fl_side = rq_side rq, fl_price = price, fl_quantity = q, fl_fee = 0\<rparr>"

definition sim_submit :: "order_request \<Rightarrow> simulated_execution_engine \<Rightarrow> execution_result \<times> simulated_execution_engine" where
  "sim_submit rq s =
     (let i = sim_order_id (se_next_order_id s);
          c = ''sim-client-'' @ show_nat (se_next_client_order_id s);
          s1 = s\<lparr>se_next_order_id := se_next_order_id s + 1, se_next_client_order_id := se_next_client_order_id s + 1\<rparr>;
          result = (\<lambda>updates fills. \<lparr>xr_order_id = i, xr_client_order_id = c, xr_updates = updates, xr_fills = fills\<rparr>)
      in if rq_type rq = Market
         then (result [make_update i c Rejected 0 (Some ''market orders are not supported by the simulator'')] [], s1)
         else case rq_price rq of
           None \<Rightarrow> (result [make_update i c Rejected 0 (Some ''invalid simulated order request'')] [], s1)
         | Some price \<Rightarrow>
           if rq_quantity rq \<le> 0
           then (result [make_update i c Rejected 0 (Some ''invalid simulated order request'')] [], s1)
           else if sc_partial_fill_threshold (se_config s) \<le> rq_quantity rq \<and> 0 < sc_partial_fill_threshold (se_config s)
           then
             let partial = rq_quantity rq * clamp_partial_fill_ratio s
             in (result [make_update i c Acknowledged 0 None, make_update i c Partially_filled partial None]
                   [sim_fill s1 i rq price partial],
                 s1\<lparr>se_next_fill_id := se_next_fill_id s1 + 1,
                    se_open_orders := (if se_open_orders s1 i = None
                      then (se_open_orders s1)(i \<mapsto> \<lparr>os_request = rq, os_client_order_id = c, os_filled_quantity = partial\<rparr>)
                      else se_open_orders s1)\<rparr>)
           else (result [make_update i c Acknowledged 0 None, make_update i c Filled (rq_quantity rq) None]
                   [sim_fill s1 i rq price (rq_quantity rq)],
                 s1\<lparr>se_next_fill_id := se_next_fill_id s1 + 1\<rparr>))"

definition sim_not_found :: "string \<Rightarrow> execution_result" where
  "sim_not_found i = \<lparr>xr_order_id = i, xr_client_order_id = '''',
     xr_updates = [make_update i '''' Rejected 0 (Some ''open order not found'')], xr_fills = []\<rparr>"

definition complete_open_order ::
  "string \<Rightarrow> simulated_execution_engine \<Rightarrow> (execution_result \<times> simulated_execution_engine) option" where
  "complete_open_order i s =
     (case se_open_orders s i of None \<Rightarrow> Some (sim_not_found i, s)
      | Some st \<Rightarrow>
        (case rq_price (os_request st) of None \<Rightarrow> None
         | Some price \<Rightarrow>
           let remaining = rq_quantity (os_request st) - os_filled_quantity st; c = os_client_order_id st
           in Some (\<lparr>xr_order_id = i, xr_client_order_id = c,
                  xr_updates = [make_update i c Filled (rq_quantity (os_request st)) None],
                  xr_fills = [sim_fill s i (os_request st) price remaining]\<rparr>,
                s\<lparr>se_next_fill_id := se_next_fill_id s + 1, se_open_orders := (se_open_orders s)(i := None)\<rparr>)))"

definition cancel_open_order :: "string \<Rightarrow> simulated_execution_engine \<Rightarrow> execution_result \<times> simulated_execution_engine" where
  "cancel_open_order i s =
     (case se_open_orders s i of None \<Rightarrow> (sim_not_found i, s)
      | Some st \<Rightarrow>
        let c = os_client_order_id st
        in (\<lparr>xr_order_id = i, xr_client_order_id = c,
              xr_updates = [make_update i c Pending_cancel (os_filled_quantity st) None,
                            make_update i c Canceled (os_filled_quantity st) None], xr_fills = []\<rparr>,
            s\<lparr>se_open_orders := (se_open_orders s)(i := None)\<rparr>))"

definition sim_restore_open_order ::
  "string \<Rightarrow> string \<Rightarrow> order_request \<Rightarrow> double \<Rightarrow> simulated_execution_engine \<Rightarrow> simulated_execution_engine" where
  "sim_restore_open_order i c rq filled s = s\<lparr>se_open_orders :=
     (se_open_orders s)(i \<mapsto> \<lparr>os_request = rq, os_client_order_id = c, os_filled_quantity = filled\<rparr>)\<rparr>"

subsection \<open>The partial fill\<close>

lemma double_times_ratio:
  assumes "valid_double (Fin a)" "0 \<le> a" "0 \<le> r" "r \<le> 1"
  shows "0 \<le> Fin a * Fin r \<and> Fin a * Fin r \<le> Fin a"
proof -
  have "to_double 0 \<le> to_double (a * r)" using assms by (intro to_double_less_eq) simp
  moreover have "to_double (a * r) \<le> Fin a" using assms by (intro to_double_le_Fin mult_left_le)
  ultimately show ?thesis by (simp add: double_simps)
qed

lemma clamp_ratio_cases:
  "x = NaN \<or> (\<exists>r. 0 \<le> r \<and> r \<le> 1 \<and> std_clamp x 0 1 = Fin r)"
  by (cases x) (auto simp: std_clamp_def double_simps)

definition sim_inv :: "simulated_execution_engine \<Rightarrow> bool" where
  "sim_inv s \<longleftrightarrow> (\<forall>i st. se_open_orders s i = Some st \<longrightarrow> rq_price (os_request st) \<noteq> None) \<and>
     (\<forall>k \<ge> se_next_order_id s. se_open_orders s (sim_order_id k) = None)"

lemma sim_order_id_inj [simp]: "sim_order_id m = sim_order_id n \<longleftrightarrow> m = n"
  by (simp add: sim_order_id_def)

lemma sim_inv_submit: "sim_inv s \<Longrightarrow> sim_inv (snd (sim_submit rq s))"
  by (auto simp: sim_inv_def sim_submit_def Let_def split: option.splits)

lemma sim_inv_complete:
  assumes "sim_inv s"
  shows "\<exists>res s'. complete_open_order i s = Some (res, s') \<and> sim_inv s' \<and> se_open_orders s' i = None"
proof (cases "se_open_orders s i")
  case (Some st)
  then obtain p where "rq_price (os_request st) = Some p" using assms by (force simp: sim_inv_def)
  then show ?thesis using assms Some by (auto simp: complete_open_order_def sim_inv_def Let_def)
qed (use assms in \<open>simp add: complete_open_order_def\<close>)

lemma sim_inv_cancel: "sim_inv s \<Longrightarrow> sim_inv (snd (cancel_open_order i s))"
  by (auto simp: sim_inv_def cancel_open_order_def Let_def split: option.splits)

text \<open>
  An order whose quantity reaches the simulator's threshold is filled in two steps: \<open>submit\<close>
  acknowledges it, fills the configured share, between nothing and the whole quantity, and leaves it
  open; \<open>complete_open_order\<close> then reports it filled with its whole quantity, fills the difference at the
  limit price, and closes it, after which completing or cancelling it is rejected without effect.
\<close>

theorem sim_partial_then_complete:
  assumes inv: "sim_inv s" and rq: "rq_type rq = Limit" "rq_price rq = Some p" "rq_quantity rq = Fin q" "0 < q" "valid_double (Fin q)"
    and th: "0 < sc_partial_fill_threshold (se_config s)" "sc_partial_fill_threshold (se_config s) \<le> Fin q"
    and ratio: "sc_partial_fill_ratio (se_config s) \<noteq> NaN"
    and sub: "sim_submit rq s = (r1, s1)" and com: "complete_open_order (xr_order_id r1) s1 = Some (r2, s2)"
  shows "map ou_status (xr_updates r1 @ xr_updates r2) = [Acknowledged, Partially_filled, Filled] \<and>
    (\<exists>x. 0 \<le> x \<and> x \<le> Fin q \<and> map fl_quantity (xr_fills r1 @ xr_fills r2) = [x, Fin q - x]) \<and>
    map fl_price (xr_fills r1 @ xr_fills r2) = [p, p] \<and>
    complete_open_order (xr_order_id r1) s2 = Some (sim_not_found (xr_order_id r1), s2) \<and>
    cancel_open_order (xr_order_id r1) s2 = (sim_not_found (xr_order_id r1), s2)"
proof -
  let ?x = "Fin q * clamp_partial_fill_ratio s" and ?i = "sim_order_id (se_next_order_id s)"
  have new: "se_open_orders s ?i = None" using inv by (simp add: sim_inv_def)
  have nz: "\<not> Fin q \<le> 0" using rq(4) by (simp add: zero_double_def)
  note d = sim_submit_def Let_def rq th nz new make_update_def sim_fill_def
  have r1: "xr_order_id r1 = ?i" "map ou_status (xr_updates r1) = [Acknowledged, Partially_filled]"
    "map fl_quantity (xr_fills r1) = [?x]" "map fl_price (xr_fills r1) = [p]"
    and s1: "se_open_orders s1 ?i = Some \<lparr>os_request = rq,
      os_client_order_id = ''sim-client-'' @ show_nat (se_next_client_order_id s), os_filled_quantity = ?x\<rparr>"
    using sub by (auto simp: d)
  have r2: "map ou_status (xr_updates r2) = [Filled]" "map fl_quantity (xr_fills r2) = [Fin q - ?x]"
    "map fl_price (xr_fills r2) = [p]" "se_open_orders s2 ?i = None"
    using com r1(1) s1 rq by (auto simp: complete_open_order_def Let_def make_update_def sim_fill_def)
  obtain r where "0 \<le> r" "r \<le> 1" "clamp_partial_fill_ratio s = Fin r"
    using clamp_ratio_cases ratio unfolding clamp_partial_fill_ratio_def by metis
  then have "0 \<le> ?x \<and> ?x \<le> Fin q" using double_times_ratio [OF rq(5)] rq(4) by simp
  then show ?thesis using r1 r2 by (auto simp: complete_open_order_def cancel_open_order_def)
qed

definition sample_sim :: simulated_execution_engine where
  "sample_sim = simulated_execution_engine_new \<lparr>sc_partial_fill_threshold = Fin 1, sc_partial_fill_ratio = Fin (1 / 2)\<rparr>"

theorem sim_partial_then_complete_witness:
  "\<exists>r1 s1 r2 s2. sim_submit (sample_request Buy (Fin 100) (Fin 2)) sample_sim = (r1, s1) \<and>
     complete_open_order (xr_order_id r1) s1 = Some (r2, s2) \<and>
     map ou_status (xr_updates r1 @ xr_updates r2) = [Acknowledged, Partially_filled, Filled]"
proof -
  have inv: "sim_inv sample_sim" by (simp add: sim_inv_def sample_sim_def simulated_execution_engine_new_def)
  obtain r1 s1 where sub: "sim_submit (sample_request Buy (Fin 100) (Fin 2)) sample_sim = (r1, s1)" by force
  have "sim_inv s1" using sim_inv_submit [OF inv] sub by (metis snd_conv)
  then obtain r2 s2 where com: "complete_open_order (xr_order_id r1) s1 = Some (r2, s2)" using sim_inv_complete by blast
  have "valid_double (Fin 2)" using to_double_numeral(1) [of "num.Bit0 num.One"] valid_to_double [of 2] by simp
  then show ?thesis
    using sim_partial_then_complete [OF inv _ _ _ _ _ _ _ _ sub com, of "Fin 100" 2] sub com
    by (auto simp: sample_sim_def simulated_execution_engine_new_def zero_double_def)
qed

end
