(* ===== verification/Live_Tracker.thy ===== *)
theory Live_Tracker
  imports Storage
begin

section \<open>The live execution tracker\<close>

text \<open>
  \<open>include/execution/live_execution_tracker.hpp\<close> and its source file: local order states reconciled
  with the exchange's execution reports, with protection against duplicate and stale reports. The
  order map and the set of processed report ids are never iterated.
\<close>

record execution_report =
  rp_report_id :: string
  rp_order_id :: string
  rp_client_order_id :: string
  rp_instrument :: instrument
  rp_side :: order_side
  rp_status :: order_status
  rp_cumulative_filled_quantity :: double
  rp_last_fill_price :: "double option"
  rp_last_fill_fee :: double
  rp_reason :: "string option"
  rp_exchange_timestamp :: int64

record reconciliation_result =
  rc_applied :: bool
  rc_ignored_duplicate :: bool
  rc_ignored_stale :: bool
  rc_updates :: "order_update list"
  rc_fills :: "fill_event list"

record local_order_state =
  ls_request :: order_request
  ls_order_id :: string
  ls_client_order_id :: string
  ls_status :: order_status
  ls_filled_quantity :: double
  ls_last_exchange_timestamp :: int64

record live_execution_tracker =
  lt_orders :: "string \<rightharpoonup> local_order_state"
  lt_processed_report_ids :: "string set"
  lt_next_fill_id :: nat

definition live_execution_tracker_new :: live_execution_tracker where
  "live_execution_tracker_new = \<lparr>lt_orders = Map.empty, lt_processed_report_ids = {}, lt_next_fill_id = 1\<rparr>"

definition reconciliation_none :: reconciliation_result where
  "reconciliation_none = \<lparr>rc_applied = False, rc_ignored_duplicate = False, rc_ignored_stale = False,
     rc_updates = [], rc_fills = []\<rparr>"

definition register_order :: "order_request \<Rightarrow> string \<Rightarrow> string \<Rightarrow> live_execution_tracker \<Rightarrow> live_execution_tracker" where
  "register_order rq order_id client_order_id t = t\<lparr>lt_orders := (lt_orders t)(order_id \<mapsto>
     \<lparr>ls_request = rq, ls_order_id = order_id, ls_client_order_id = client_order_id, ls_status = Pending_submit,
      ls_filled_quantity = 0, ls_last_exchange_timestamp = 0\<rparr>)\<rparr>"

definition restore_order :: "order_record \<Rightarrow> live_execution_tracker \<Rightarrow> live_execution_tracker" where
  "restore_order r t = t\<lparr>lt_orders := (lt_orders t)(or_order_id r \<mapsto>
     \<lparr>ls_request = \<lparr>rq_request_id = or_order_id r, rq_strategy_id = or_strategy_id r,
        rq_instrument = default_instrument\<lparr>instrument_id := or_instrument_id r\<rparr>, rq_side = or_side r,
        rq_type = or_order_type r, rq_quantity = or_quantity r, rq_price = or_price r\<rparr>,
      ls_order_id = or_order_id r, ls_client_order_id = or_client_order_id r, ls_status = or_status r,
      ls_filled_quantity = or_filled_quantity r, ls_last_exchange_timestamp = 0\<rparr>)\<rparr>"

definition live_is_terminal :: "order_status \<Rightarrow> bool" where
  "live_is_terminal s \<longleftrightarrow> s = Filled \<or> s = Canceled \<or> s = Rejected \<or> s = Expired"

definition should_ignore_as_stale :: "local_order_state \<Rightarrow> execution_report \<Rightarrow> bool" where
  "should_ignore_as_stale st r =
     (if rp_cumulative_filled_quantity r < ls_filled_quantity st then True
      else if 0 < rp_exchange_timestamp r \<and> 0 < ls_last_exchange_timestamp st
        \<and> rp_exchange_timestamp r < ls_last_exchange_timestamp st
        \<and> rp_cumulative_filled_quantity r \<le> ls_filled_quantity st then True
      else if live_is_terminal (ls_status st) \<and> rp_cumulative_filled_quantity r \<le> ls_filled_quantity st
        \<and> rp_status r \<noteq> ls_status st then True
      else False)"

definition should_apply_status :: "order_status \<Rightarrow> order_status \<Rightarrow> bool" where
  "should_apply_status current incoming =
     (if incoming = current then False
      else if live_is_terminal current then False
      else case current of
        Created \<Rightarrow> True
      | Pending_submit \<Rightarrow> True
      | Acknowledged \<Rightarrow> incoming = Partially_filled \<or> incoming = Filled \<or> incoming = Pending_cancel
          \<or> incoming = Canceled \<or> incoming = Rejected \<or> incoming = Expired
      | Partially_filled \<Rightarrow> incoming = Partially_filled \<or> incoming = Filled \<or> incoming = Pending_cancel
          \<or> incoming = Canceled \<or> incoming = Rejected \<or> incoming = Expired
      | Pending_cancel \<Rightarrow> incoming = Canceled \<or> incoming = Filled \<or> incoming = Partially_filled
      | _ \<Rightarrow> False)"

definition live_fill :: "local_order_state \<Rightarrow> execution_report \<Rightarrow> nat \<Rightarrow> double \<Rightarrow> fill_event" where
  "live_fill st r n delta =
     \<lparr>fl_fill_id = (if rp_report_id r \<noteq> '''' then rp_report_id r else ''live-fill-'' @ show_nat n),
      fl_order_id = rp_order_id r,
      fl_instrument = (if instrument_id (rp_instrument r) = '''' then rq_instrument (ls_request st) else rp_instrument r),
      fl_side = rp_side r,
      fl_price = (case rp_last_fill_price r of Some p \<Rightarrow> p | None \<Rightarrow>
        (case rq_price (ls_request st) of Some p \<Rightarrow> p | None \<Rightarrow> 0)),
      fl_quantity = delta, fl_fee = rp_last_fill_fee r\<rparr>"

definition apply_to_order ::
  "local_order_state \<Rightarrow> execution_report \<Rightarrow> nat \<Rightarrow> reconciliation_result \<times> local_order_state \<times> nat" where
  "apply_to_order st r n =
     (let new_cumulative = std_max (rp_cumulative_filled_quantity r) (ls_filled_quantity st);
          delta = new_cumulative - ls_filled_quantity st;
          filled = 0 < delta;
          fills = (if filled then [live_fill st r n delta] else []);
          n1 = (if filled \<and> rp_report_id r = '''' then n + 1 else n);
          st1 = (if filled then st\<lparr>ls_filled_quantity := new_cumulative\<rparr> else st)
      in if should_apply_status (ls_status st1) (rp_status r) \<or> filled
         then
           let c = (if rp_client_order_id r = '''' then ls_client_order_id st1 else rp_client_order_id r);
               st2 = st1\<lparr>ls_status := rp_status r, ls_client_order_id := c,
                  ls_last_exchange_timestamp := max (ls_last_exchange_timestamp st1) (rp_exchange_timestamp r)\<rparr>
           in (\<lparr>rc_applied = True, rc_ignored_duplicate = False, rc_ignored_stale = False,
                 rc_updates = [\<lparr>ou_order_id = rp_order_id r, ou_client_order_id = c, ou_status = ls_status st2,
                   ou_filled_quantity = ls_filled_quantity st2, ou_reason = rp_reason r\<rparr>],
                 rc_fills = fills\<rparr>, st2, n1)
         else (reconciliation_none,
               if ls_last_exchange_timestamp st1 < rp_exchange_timestamp r
               then st1\<lparr>ls_last_exchange_timestamp := rp_exchange_timestamp r\<rparr> else st1, n1))"

definition apply_report :: "execution_report \<Rightarrow> live_execution_tracker \<Rightarrow> reconciliation_result \<times> live_execution_tracker" where
  "apply_report r t =
     (if rp_report_id r \<noteq> '''' \<and> rp_report_id r \<in> lt_processed_report_ids t
      then (reconciliation_none\<lparr>rc_ignored_duplicate := True\<rparr>, t)
      else
        let t1 = (if rp_report_id r \<noteq> '''' then t\<lparr>lt_processed_report_ids := insert (rp_report_id r) (lt_processed_report_ids t)\<rparr> else t)
        in case lt_orders t1 (rp_order_id r) of None \<Rightarrow> (reconciliation_none\<lparr>rc_ignored_stale := True\<rparr>, t1)
           | Some st \<Rightarrow>
             if should_ignore_as_stale st r then (reconciliation_none\<lparr>rc_ignored_stale := True\<rparr>, t1)
             else (case apply_to_order st r (lt_next_fill_id t1) of (res, st', n) \<Rightarrow>
                (res, t1\<lparr>lt_orders := (lt_orders t1)(rp_order_id r \<mapsto> st'), lt_next_fill_id := n\<rparr>)))"

fun reconcile :: "execution_report list \<Rightarrow> live_execution_tracker \<Rightarrow> reconciliation_result list \<times> live_execution_tracker" where
  "reconcile [] t = ([], t)"
| "reconcile (r # rs) t =
     (case apply_report r t of (res, t1) \<Rightarrow> (case reconcile rs t1 of (results, t2) \<Rightarrow> (res # results, t2)))"

definition tracker_get_order :: "string \<Rightarrow> live_execution_tracker \<Rightarrow> order_record option" where
  "tracker_get_order i t = map_option (\<lambda>st. \<lparr>or_order_id = ls_order_id st, or_client_order_id = ls_client_order_id st,
     or_strategy_id = rq_strategy_id (ls_request st), or_instrument_id = instrument_id (rq_instrument (ls_request st)),
     or_side = rq_side (ls_request st), or_order_type = rq_type (ls_request st), or_status = ls_status st,
     or_quantity = rq_quantity (ls_request st), or_price = rq_price (ls_request st),
     or_filled_quantity = ls_filled_quantity st\<rparr>) (lt_orders t i)"

subsection \<open>Facts about one report\<close>

lemma apply_report_processed:
  "lt_processed_report_ids (snd (apply_report r t)) =
     (if rp_report_id r = '''' then lt_processed_report_ids t else insert (rp_report_id r) (lt_processed_report_ids t))"
  by (auto simp: apply_report_def Let_def split: option.splits prod.splits)

lemma apply_report_duplicate:
  "rp_report_id r \<noteq> '''' \<Longrightarrow> rp_report_id r \<in> lt_processed_report_ids t \<Longrightarrow>
     apply_report r t = (reconciliation_none\<lparr>rc_ignored_duplicate := True\<rparr>, t)"
  by (simp add: apply_report_def)

lemma snd_reconcile_Cons: "snd (reconcile (r # rs) t) = snd (reconcile rs (snd (apply_report r t)))"
  by (simp split: prod.splits)

lemma reconcile_processed:
  "lt_processed_report_ids (snd (reconcile rs t)) = lt_processed_report_ids t \<union> (rp_report_id ` set rs - {''''})"
  by (induction rs arbitrary: t) (auto simp: snd_reconcile_Cons apply_report_processed simp del: reconcile.simps(2) split: if_splits)

lemma reconcile_duplicates:
  "\<forall>r \<in> set rs. rp_report_id r \<noteq> '''' \<and> rp_report_id r \<in> lt_processed_report_ids t \<Longrightarrow>
     reconcile rs t = (replicate (length rs) (reconciliation_none\<lparr>rc_ignored_duplicate := True\<rparr>), t)"
  by (induction rs) (auto simp: apply_report_duplicate)

text \<open>
  C26. Reconciliation is idempotent on reports that carry an id: when every report of a batch has a non-empty
  report id, applying the batch a second time marks every report as a duplicate, produces no update and no
  fill, and leaves the tracker unchanged. The code does not look for duplicates of a report without an id.
\<close>

theorem reconcile_idempotent:
  assumes "\<forall>r \<in> set rs. rp_report_id r \<noteq> ''''" "reconcile rs t = (results, t')"
  shows "reconcile rs t' = (replicate (length rs) (reconciliation_none\<lparr>rc_ignored_duplicate := True\<rparr>), t')"
proof (rule reconcile_duplicates)
  show "\<forall>r \<in> set rs. rp_report_id r \<noteq> '''' \<and> rp_report_id r \<in> lt_processed_report_ids t'"
    using reconcile_processed [of rs t] assms by auto
qed

subsection \<open>The life of one order\<close>

definition tracker_inv :: "live_execution_tracker \<Rightarrow> bool" where
  "tracker_inv t \<longleftrightarrow> (\<forall>i st. lt_orders t i = Some st \<longrightarrow> ls_order_id st = i \<and> ls_filled_quantity st \<noteq> NaN)"

lemma apply_to_order_cases:
  assumes "apply_to_order st r n = (res, st', n')"
  shows "ls_order_id st' = ls_order_id st \<and> ls_request st' = ls_request st \<and>
    (ls_filled_quantity st' = ls_filled_quantity st \<and> rc_fills res = [] \<or>
     (\<exists>delta. ls_filled_quantity st' = rp_cumulative_filled_quantity r \<and> ls_filled_quantity st < rp_cumulative_filled_quantity r \<and>
       delta = rp_cumulative_filled_quantity r - ls_filled_quantity st \<and> 0 < delta \<and> rc_fills res = [live_fill st r n delta] \<and>
       ls_status st' = rp_status r)) \<and>
    (rc_updates res = [] \<and> ls_status st' = ls_status st \<or>
     (\<exists>u. rc_updates res = [u] \<and> ou_order_id u = rp_order_id r \<and> ou_status u = ls_status st' \<and> ls_status st' = rp_status r \<and>
       ou_filled_quantity u = ls_filled_quantity st' \<and>
       (should_apply_status (ls_status st) (rp_status r) \<or> rc_fills res \<noteq> [])))"
proof -
  have max: "0 < std_max a b - b \<Longrightarrow> std_max a b = a \<and> b < a" for a b :: double
    using double_diff_pos [of "std_max a b" b] double_less_irrefl by (auto simp: std_max_def split: if_splits)
  show ?thesis
    using assms max [of "rp_cumulative_filled_quantity r" "ls_filled_quantity st"]
    by (auto simp: apply_to_order_def Let_def reconciliation_none_def split: if_splits)
qed

lemma apply_report_order:
  assumes "apply_report r t = (res, t')" "lt_orders t i = Some st"
  shows "\<exists>st'. lt_orders t' i = Some st' \<and>
    (st' = st \<or> i = rp_order_id r \<and> \<not> should_ignore_as_stale st r \<and>
      (\<exists>n'. apply_to_order st r (lt_next_fill_id t) = (res, st', n')))"
  using assms by (cases "i = rp_order_id r") (auto simp: apply_report_def Let_def split: if_splits option.splits prod.splits)

lemma apply_report_domain: "apply_report r t = (res, t') \<Longrightarrow> dom (lt_orders t') = dom (lt_orders t)"
  by (auto simp: apply_report_def Let_def split: if_splits option.splits prod.splits)

lemma tracker_inv_apply_report:
  assumes inv: "tracker_inv t" and a: "apply_report r t = (res, t')"
  shows "tracker_inv t'"
proof -
  have "ls_order_id st' = i \<and> ls_filled_quantity st' \<noteq> NaN" if st': "lt_orders t' i = Some st'" for i st'
  proof -
    obtain st where st: "lt_orders t i = Some st" using apply_report_domain [OF a] st' by blast
    have ok: "ls_order_id st = i" "ls_filled_quantity st \<noteq> NaN" using inv st by (auto simp: tracker_inv_def)
    from apply_report_order [OF a st] st' consider "st' = st"
      | n' where "apply_to_order st r (lt_next_fill_id t) = (res, st', n')" by auto
    then show ?thesis
      using ok by cases (auto dest!: apply_to_order_cases dest: double_less_not_NaN)
  qed
  then show ?thesis by (simp add: tracker_inv_def)
qed

text \<open>What a tracked order never loses: its filled quantity does not fall.\<close>

lemma apply_report_filled_mono:
  assumes "tracker_inv t" "apply_report r t = (res, t')" "lt_orders t i = Some st" "lt_orders t' i = Some st'"
  shows "ls_filled_quantity st \<le> ls_filled_quantity st'"
proof -
  have nn: "ls_filled_quantity st \<noteq> NaN" using assms(1,3) by (auto simp: tracker_inv_def)
  from apply_report_order [OF assms(2,3)] assms(4) consider "st' = st"
    | n' where "apply_to_order st r (lt_next_fill_id t) = (res, st', n')" by auto
  then show ?thesis using nn by cases (auto dest!: apply_to_order_cases intro: double_less_imp_le)
qed

text \<open>
  The tracked quantity of an order is monotone over any sequence of reports, in any order of arrival:
  an order that is tracked stays tracked, under its own id, and its filled quantity never falls.
\<close>

theorem reconcile_filled_monotone:
  assumes "tracker_inv t" "lt_orders t i = Some st" "reconcile rs t = (results, t')"
  shows "tracker_inv t' \<and> (\<exists>st'. lt_orders t' i = Some st' \<and> ls_order_id st' = i \<and>
    ls_filled_quantity st \<le> ls_filled_quantity st')"
  using assms
proof (induction rs arbitrary: t st results)
  case Nil
  then show ?case by (auto simp: tracker_inv_def)
next
  case (Cons r rs)
  obtain res t1 where a: "apply_report r t = (res, t1)" by force
  then obtain results' where rec: "reconcile rs t1 = (results', t')" using Cons.prems(3) by (auto split: prod.splits)
  obtain st1 where st1: "lt_orders t1 i = Some st1" using apply_report_order [OF a Cons.prems(2)] by blast
  from Cons.IH [OF tracker_inv_apply_report [OF Cons.prems(1) a] st1 rec]
    apply_report_filled_mono [OF Cons.prems(1) a Cons.prems(2) st1]
  show ?case using double_le_trans by blast
qed

text \<open>
  A terminal status is final for every report that brings no new execution: the status changes
  only when the report's cumulative quantity exceeds the tracked one. (With such a report a canceled
  or filled order takes over whatever status the report carries, also an open one.)
\<close>

theorem terminal_status_final:
  assumes "apply_report r t = (res, t')" "lt_orders t i = Some st" "live_is_terminal (ls_status st)"
    and "lt_orders t' i = Some st'"
  shows "ls_status st' = ls_status st \<or>
    i = rp_order_id r \<and> ls_filled_quantity st < rp_cumulative_filled_quantity r \<and> ls_status st' = rp_status r \<and>
      rc_fills res \<noteq> []"
proof -
  from apply_report_order [OF assms(1,2)] assms(4) consider "st' = st"
    | n' where "i = rp_order_id r" "apply_to_order st r (lt_next_fill_id t) = (res, st', n')" by auto
  then show ?thesis
  proof cases
    case 2
    then show ?thesis
      using apply_to_order_cases [OF 2(2)] assms(3) by (auto simp: should_apply_status_def)
  qed simp
qed

text \<open>
  Each fill that reconciliation produces is positive and is exactly the rounded difference between
  the report's cumulative quantity and the quantity tracked before, and the tracked quantity becomes
  the reported one, so executions are counted once however often they are reported.
\<close>

theorem report_fill_is_delta:
  assumes "apply_report r t = (res, t')" "f \<in> set (rc_fills res)"
  shows "\<exists>st st'. lt_orders t (rp_order_id r) = Some st \<and> lt_orders t' (rp_order_id r) = Some st' \<and>
    fl_order_id f = rp_order_id r \<and> 0 < fl_quantity f \<and>
    fl_quantity f = rp_cumulative_filled_quantity r - ls_filled_quantity st \<and>
    ls_filled_quantity st' = rp_cumulative_filled_quantity r \<and> rc_fills res = [f]"
proof -
  from assms obtain st where st: "lt_orders t (rp_order_id r) = Some st"
    by (auto simp: apply_report_def reconciliation_none_def Let_def split: if_splits option.splits)
  then obtain st' n' where "apply_to_order st r (lt_next_fill_id t) = (res, st', n')" "lt_orders t' (rp_order_id r) = Some st'"
    using assms by (auto simp: apply_report_def reconciliation_none_def Let_def split: if_splits prod.splits)
  then show ?thesis using st assms(2) apply_to_order_cases [of st r "lt_next_fill_id t" res st' n']
    by (auto simp: live_fill_def)
qed

subsection \<open>A concrete life cycle\<close>

definition sample_report :: "string \<Rightarrow> order_status \<Rightarrow> double \<Rightarrow> execution_report" where
  "sample_report rid status cum = \<lparr>rp_report_id = rid, rp_order_id = ''o1'', rp_client_order_id = '''',
     rp_instrument = default_instrument, rp_side = Buy, rp_status = status, rp_cumulative_filled_quantity = cum,
     rp_last_fill_price = None, rp_last_fill_fee = 0, rp_reason = None, rp_exchange_timestamp = 0\<rparr>"

definition sample_live_request :: order_request where
  "sample_live_request = \<lparr>rq_request_id = ''r'', rq_strategy_id = ''s'', rq_instrument = default_instrument,
     rq_side = Buy, rq_type = Limit, rq_quantity = Fin 3, rq_price = Some (Fin 10)\<rparr>"

definition sample_tracker :: live_execution_tracker where
  "sample_tracker = register_order sample_live_request ''o1'' ''c1'' live_execution_tracker_new"

lemmas sample_tracker_simps = sample_tracker_def register_order_def live_execution_tracker_new_def sample_report_def
  apply_report_def apply_to_order_def should_ignore_as_stale_def should_apply_status_def live_is_terminal_def
  reconciliation_none_def Let_def double_eval live_fill_def sample_live_request_def

lemma sample_tracker_inv: "tracker_inv sample_tracker"
  by (simp add: tracker_inv_def sample_tracker_simps)

theorem reconcile_idempotent_witness:
  "rc_fills (fst (apply_report (sample_report ''e1'' Filled (Fin 3)) sample_tracker)) \<noteq> [] \<and>
   (let t' = snd (reconcile [sample_report ''e1'' Filled (Fin 3)] sample_tracker) in
     reconcile [sample_report ''e1'' Filled (Fin 3)] t' = ([reconciliation_none\<lparr>rc_ignored_duplicate := True\<rparr>], t'))"
proof -
  have "rc_fills (fst (apply_report (sample_report ''e1'' Filled (Fin 3)) sample_tracker)) \<noteq> []"
    by (simp add: sample_tracker_simps)
  then show ?thesis
    using reconcile_idempotent [OF _ surjective_pairing, of "[sample_report ''e1'' Filled (Fin 3)]" sample_tracker]
    by (simp add: sample_report_def Let_def del: reconcile.simps)
qed

theorem reconcile_filled_monotone_witness:
  "\<exists>st'. lt_orders (snd (reconcile [sample_report ''e1'' Partially_filled (Fin 2), sample_report ''e2'' Acknowledged 0]
     sample_tracker)) ''o1'' = Some st' \<and> 0 \<le> ls_filled_quantity st'"
proof -
  have "lt_orders sample_tracker ''o1'' = Some \<lparr>ls_request = sample_live_request, ls_order_id = ''o1'',
      ls_client_order_id = ''c1'', ls_status = Pending_submit, ls_filled_quantity = 0, ls_last_exchange_timestamp = 0\<rparr>"
    by (simp add: sample_tracker_def register_order_def)
  from reconcile_filled_monotone [OF sample_tracker_inv this surjective_pairing] show ?thesis
    unfolding local_order_state.select_convs by blast
qed

definition sample_canceled :: live_execution_tracker where
  "sample_canceled = snd (apply_report (sample_report ''e1'' Canceled 0) sample_tracker)"

theorem terminal_status_final_witness:
  "map_option ls_status (lt_orders (snd (apply_report (sample_report ''e2'' Acknowledged 0) sample_canceled)) ''o1'') = Some Canceled"
proof -
  obtain st where st: "lt_orders sample_canceled ''o1'' = Some st" "ls_status st = Canceled" "ls_filled_quantity st = 0"
    by (simp add: sample_canceled_def sample_tracker_simps)
  obtain st' where st': "lt_orders (snd (apply_report (sample_report ''e2'' Acknowledged 0) sample_canceled)) ''o1'' = Some st'"
    using apply_report_order [OF surjective_pairing st(1)] by blast
  show ?thesis
    using terminal_status_final [OF surjective_pairing st(1) _ st'] st st'
    by (simp add: live_is_terminal_def sample_report_def)
qed

theorem report_fill_is_delta_witness:
  "0 < fl_quantity (hd (rc_fills (fst (apply_report (sample_report ''e1'' Filled (Fin 3)) sample_tracker))))"
proof -
  have "rc_fills (fst (apply_report (sample_report ''e1'' Filled (Fin 3)) sample_tracker)) \<noteq> []"
    by (simp add: sample_tracker_simps)
  then show ?thesis using report_fill_is_delta [OF surjective_pairing hd_in_set] by blast
qed

end
