(* ===== verification/Market_Data.thy ===== *)
theory Market_Data
  imports Storage Monitoring
begin

section \<open>Market state and feed health\<close>

text \<open>
  \<open>include/market_data/market_state_store.hpp\<close>, \<open>include/market_data/feed_health_tracker.hpp\<close> and
  their source files. Both classes read an injected clock; the operations that do take its reading.
\<close>

subsection \<open>Market state\<close>

record market_state =
  mst_best_bid :: "double option"
  mst_best_ask :: "double option"
  mst_bid_levels :: "book_level list"
  mst_ask_levels :: "book_level list"
  mst_last_trade_price :: "double option"
  mst_last_trade_quantity :: "double option"
  mst_last_exchange_timestamp :: int64
  mst_last_receive_timestamp :: int64
  mst_last_process_timestamp :: int64

definition default_market_state :: market_state where
  "default_market_state = \<lparr>mst_best_bid = None, mst_best_ask = None, mst_bid_levels = [], mst_ask_levels = [],
     mst_last_trade_price = None, mst_last_trade_quantity = None, mst_last_exchange_timestamp = 0,
     mst_last_receive_timestamp = 0, mst_last_process_timestamp = 0\<rparr>"

type_synonym market_state_store = "string \<rightharpoonup> market_state"

definition update_quotes :: "market_event \<Rightarrow> market_state \<Rightarrow> market_state" where
  "update_quotes event s0 =
     (let s1 = (if me_bid_price event \<noteq> None then s0\<lparr>mst_best_bid := me_bid_price event\<rparr> else s0);
          s2 = (if me_ask_price event \<noteq> None then s1\<lparr>mst_best_ask := me_ask_price event\<rparr> else s1);
          s3 = (case me_bid_levels event of [] \<Rightarrow> s2
            | l # _ \<Rightarrow> s2\<lparr>mst_bid_levels := me_bid_levels event, mst_best_bid := Some (bl_price l)\<rparr>)
      in case me_ask_levels event of [] \<Rightarrow> s3
            | l # _ \<Rightarrow> s3\<lparr>mst_ask_levels := me_ask_levels event, mst_best_ask := Some (bl_price l)\<rparr>)"

definition market_apply :: "market_event \<Rightarrow> market_state_store \<Rightarrow> market_state_store" where
  "market_apply event store =
     (let iid = instrument_id (me_instrument event);
          s0 = (case store iid of Some s \<Rightarrow> s | None \<Rightarrow> default_market_state)
      in if 0 < mst_last_process_timestamp s0 \<and> me_process_timestamp event < mst_last_process_timestamp s0
         then store(iid \<mapsto> s0)
         else
           let s1 = update_quotes event s0;
               s2 = (if 0 < me_quantity event \<and> 0 < me_price event
                     then s1\<lparr>mst_last_trade_price := Some (me_price event), mst_last_trade_quantity := Some (me_quantity event)\<rparr>
                     else s1)
           in store(iid \<mapsto> s2\<lparr>mst_last_exchange_timestamp := me_exchange_timestamp event,
                mst_last_receive_timestamp := me_receive_timestamp event,
                mst_last_process_timestamp := me_process_timestamp event\<rparr>))"

definition market_get :: "string \<Rightarrow> market_state_store \<Rightarrow> market_state option" where
  "market_get iid store = store iid"

definition is_stale :: "int64 \<Rightarrow> string \<Rightarrow> int64 \<Rightarrow> market_state_store \<Rightarrow> bool" where
  "is_stale now iid stale_after store =
     (case market_get iid store of None \<Rightarrow> True
      | Some s \<Rightarrow> stale_after < now - mst_last_process_timestamp s)"

definition restore_snapshot :: "string \<Rightarrow> market_state \<Rightarrow> market_state_store \<Rightarrow> market_state_store" where
  "restore_snapshot iid s store = store(iid \<mapsto> s)"

subsection \<open>Feed health\<close>

record feed_health_tracker =
  fh_connected :: bool
  fh_subscribed :: bool
  fh_last_message_timestamp :: int64
  fh_last_disconnect_timestamp :: int64
  fh_disconnect_count :: nat

definition feed_health_tracker_new :: feed_health_tracker where
  "feed_health_tracker_new = \<lparr>fh_connected = False, fh_subscribed = False, fh_last_message_timestamp = 0,
     fh_last_disconnect_timestamp = 0, fh_disconnect_count = 0\<rparr>"

definition on_connect :: "feed_health_tracker \<Rightarrow> feed_health_tracker" where
  "on_connect t = t\<lparr>fh_connected := True, fh_subscribed := False\<rparr>"

definition on_subscribe_success :: "feed_health_tracker \<Rightarrow> feed_health_tracker" where
  "on_subscribe_success t = t\<lparr>fh_connected := True, fh_subscribed := True\<rparr>"

definition on_message :: "int64 \<Rightarrow> feed_health_tracker \<Rightarrow> feed_health_tracker" where
  "on_message ts t = t\<lparr>fh_connected := True, fh_subscribed := True, fh_last_message_timestamp := ts\<rparr>"

definition on_disconnect :: "int64 \<Rightarrow> feed_health_tracker \<Rightarrow> feed_health_tracker" where
  "on_disconnect now t = t\<lparr>fh_connected := False, fh_subscribed := False, fh_last_disconnect_timestamp := now,
     fh_disconnect_count := fh_disconnect_count t + 1\<rparr>"

definition feed_status :: "int64 \<Rightarrow> int64 \<Rightarrow> int64 \<Rightarrow> feed_health_tracker \<Rightarrow> health_status" where
  "feed_status now stale_after grace t =
     (if \<not> fh_connected t
      then if fh_last_disconnect_timestamp t = 0 then Unknown
           else if grace < now - fh_last_disconnect_timestamp t then Unavailable else Degraded
      else if \<not> fh_subscribed t then Degraded
      else if fh_last_message_timestamp t = 0 then Unknown
      else if stale_after < now - fh_last_message_timestamp t then Degraded else Healthy)"

subsection \<open>Properties\<close>

lemma market_apply_other: "iid \<noteq> instrument_id (me_instrument event) \<Longrightarrow> market_apply event store iid = store iid"
  by (simp add: market_apply_def Let_def)

text \<open>An event that is not older than the stored state always takes effect.\<close>

lemma market_apply_fresh:
  assumes "\<And>s. store (instrument_id (me_instrument event)) = Some s \<Longrightarrow> mst_last_process_timestamp s \<le> me_process_timestamp event"
    "0 \<le> me_process_timestamp event"
  shows "\<exists>s. market_apply event store (instrument_id (me_instrument event)) = Some s \<and>
    mst_last_process_timestamp s = me_process_timestamp event"
  using assms by (cases "store (instrument_id (me_instrument event))")
    (auto simp: market_apply_def Let_def default_market_state_def)

lemma market_apply_timestamp:
  assumes "store iid = Some s" "0 < mst_last_process_timestamp s"
  shows "\<exists>s'. market_apply event store iid = Some s' \<and> mst_last_process_timestamp s \<le> mst_last_process_timestamp s' \<and>
    (s' = s \<or> iid = instrument_id (me_instrument event) \<and> mst_last_process_timestamp s' = me_process_timestamp event)"
  using assms by (cases "iid = instrument_id (me_instrument event)") (auto simp: market_apply_def Let_def)

text \<open>
  The market state of an instrument never moves back in time: over any sequence of events the
  process timestamp of a state that has a positive one only grows, and the final state is the original one
  or carries the timestamp of one of the instrument's events; events that arrive late change nothing.
\<close>

theorem market_state_never_regresses:
  assumes "store iid = Some s" "0 < mst_last_process_timestamp s"
  shows "\<exists>s'. fold market_apply events store iid = Some s' \<and> mst_last_process_timestamp s \<le> mst_last_process_timestamp s' \<and>
    (s' = s \<or> (\<exists>event \<in> set events. instrument_id (me_instrument event) = iid \<and>
       mst_last_process_timestamp s' = me_process_timestamp event))"
  using assms
proof (induction events arbitrary: store s)
  case (Cons event events)
  from market_apply_timestamp [of store iid s, OF Cons.prems, of event] obtain s1 where
    s1: "market_apply event store iid = Some s1" "mst_last_process_timestamp s \<le> mst_last_process_timestamp s1"
      "s1 = s \<or> iid = instrument_id (me_instrument event) \<and> mst_last_process_timestamp s1 = me_process_timestamp event" by blast
  have "0 < mst_last_process_timestamp s1" using Cons.prems(2) s1(2) by simp
  from Cons.IH [of "market_apply event store" s1, OF s1(1) this] obtain s' where
    s': "fold market_apply events (market_apply event store) iid = Some s'"
      "mst_last_process_timestamp s1 \<le> mst_last_process_timestamp s'"
      "s' = s1 \<or> (\<exists>event \<in> set events. instrument_id (me_instrument event) = iid \<and>
       mst_last_process_timestamp s' = me_process_timestamp event)" by blast
  then show ?case using s1 by auto
qed simp

definition sample_quote :: "int64 \<Rightarrow> double \<Rightarrow> market_event" where
  "sample_quote ts bid = \<lparr>me_event_id = ''e'', me_type = Ticker,
     me_instrument = default_instrument\<lparr>instrument_id := ''BTC-USD''\<rparr>, me_price = 0, me_quantity = 0,
     me_bid_price = Some bid, me_ask_price = None, me_bid_levels = [], me_ask_levels = [],
     me_exchange_timestamp = ts, me_receive_timestamp = ts, me_process_timestamp = ts\<rparr>"

theorem market_state_never_regresses_witness:
  "\<exists>s'. fold market_apply [sample_quote 3 (Fin 7)] (market_apply (sample_quote 5 (Fin 9)) Map.empty) ''BTC-USD'' = Some s' \<and>
     5 \<le> mst_last_process_timestamp s' \<and> mst_best_bid s' = Some (Fin 9)"
proof -
  obtain s where s: "market_apply (sample_quote 5 (Fin 9)) Map.empty ''BTC-USD'' = Some s"
    "mst_last_process_timestamp s = 5" "mst_best_bid s = Some (Fin 9)"
    by (simp add: market_apply_def sample_quote_def default_market_state_def Let_def update_quotes_def zero_double_def)
  have "mst_last_process_timestamp s \<noteq> 3" using s(2) by simp
  then show ?thesis
    using market_state_never_regresses [of "market_apply (sample_quote 5 (Fin 9)) Map.empty" "''BTC-USD''" s "[sample_quote 3 (Fin 7)]"] s by (auto simp: sample_quote_def)
qed

text \<open>The callbacks of a feed, as the events that drive the tracker.\<close>

datatype feed_callback = Connected | Subscribed | Message int64 | Disconnected int64

fun feed_step :: "feed_callback \<Rightarrow> feed_health_tracker \<Rightarrow> feed_health_tracker" where
  "feed_step Connected t = on_connect t"
| "feed_step Subscribed t = on_subscribe_success t"
| "feed_step (Message ts) t = on_message ts t"
| "feed_step (Disconnected now) t = on_disconnect now t"

definition is_message :: "feed_callback \<Rightarrow> bool" where
  "is_message c \<longleftrightarrow> (\<exists>ts. c = Message ts)"

definition raises_feed :: "feed_callback \<Rightarrow> bool" where
  "raises_feed c \<longleftrightarrow> c = Subscribed \<or> is_message c"

lemma feed_message_trace:
  "fh_last_message_timestamp (fold feed_step cs feed_health_tracker_new) \<noteq> 0 \<Longrightarrow>
     \<exists>us vs. cs = us @ Message (fh_last_message_timestamp (fold feed_step cs feed_health_tracker_new)) # vs \<and>
       (\<forall>c \<in> set vs. \<not> is_message c)"
proof (induction cs rule: rev_induct)
  case (snoc c cs)
  show ?case
  proof (cases "is_message c")
    case True
    then obtain ts where "c = Message ts" by (auto simp: is_message_def)
    then show ?thesis by (intro exI [of _ cs] exI [of _ "[]"]) (simp add: on_message_def)
  next
    case False
    then have same: "fh_last_message_timestamp (fold feed_step (cs @ [c]) feed_health_tracker_new) =
        fh_last_message_timestamp (fold feed_step cs feed_health_tracker_new)"
      by (cases c) (auto simp: is_message_def on_connect_def on_subscribe_success_def on_disconnect_def)
    from snoc.IH snoc.prems same obtain us vs where
      "cs = us @ Message (fh_last_message_timestamp (fold feed_step cs feed_health_tracker_new)) # vs"
      "\<forall>c \<in> set vs. \<not> is_message c" by auto
    then show ?thesis using False same by (intro exI [of _ us] exI [of _ "vs @ [c]"]) auto
  qed
qed (simp add: feed_health_tracker_new_def)

lemma feed_subscribed_trace:
  "fh_subscribed (fold feed_step cs feed_health_tracker_new) \<Longrightarrow>
     \<exists>us c vs. cs = us @ c # vs \<and> raises_feed c \<and> (\<forall>d \<in> set vs. \<exists>ts. d = Message ts \<or> d = Subscribed)"
proof (induction cs rule: rev_induct)
  case (snoc c cs)
  show ?case
  proof (cases "raises_feed c")
    case True
    then show ?thesis by (intro exI [of _ cs] exI [of _ c] exI [of _ "[]"]) simp
  next
    case False
    then show ?thesis using snoc.prems
      by (cases c) (auto simp: raises_feed_def is_message_def on_connect_def on_disconnect_def)
  qed
qed (simp add: feed_health_tracker_new_def)

text \<open>
  A feed is reported healthy only after a message no older than the staleness bound, the last
  message it delivered, and only if since the last connect or disconnect it was subscribed again or delivered
  a message.
\<close>

theorem feed_healthy_is_live:
  assumes "feed_status now stale grace (fold feed_step cs feed_health_tracker_new) = Healthy"
  shows "(\<exists>us ts vs. cs = us @ Message ts # vs \<and> (\<forall>c \<in> set vs. \<not> is_message c) \<and> now - ts \<le> stale) \<and>
    (\<exists>us c vs. cs = us @ c # vs \<and> raises_feed c \<and> (\<forall>d \<in> set vs. \<forall>t. d \<noteq> Connected \<and> d \<noteq> Disconnected t))"
proof -
  have f: "fh_subscribed (fold feed_step cs feed_health_tracker_new)"
    "fh_last_message_timestamp (fold feed_step cs feed_health_tracker_new) \<noteq> 0"
    "now - fh_last_message_timestamp (fold feed_step cs feed_health_tracker_new) \<le> stale"
    using assms by (auto simp: feed_status_def split: if_splits)
  from feed_subscribed_trace [OF f(1)] obtain us c vs where
    "cs = us @ c # vs" "raises_feed c" "\<forall>d \<in> set vs. \<exists>ts. d = Message ts \<or> d = Subscribed" by blast
  then have "\<exists>us c vs. cs = us @ c # vs \<and> raises_feed c \<and> (\<forall>d \<in> set vs. \<forall>t. d \<noteq> Connected \<and> d \<noteq> Disconnected t)"
    by (intro exI [of _ us] exI [of _ c] exI [of _ vs]) auto
  then show ?thesis using feed_message_trace [OF f(2)] f(3) by blast
qed

theorem feed_healthy_is_live_witness:
  "\<exists>us ts vs. [Connected, Subscribed, Message 95] = us @ Message ts # vs \<and> 100 - ts \<le> (10::int)"
proof -
  have "feed_status 100 10 20 (fold feed_step [Connected, Subscribed, Message 95] feed_health_tracker_new) = Healthy"
    by (simp add: feed_status_def on_connect_def on_subscribe_success_def on_message_def feed_health_tracker_new_def)
  from feed_healthy_is_live [OF this] show ?thesis by blast
qed

end
