(* ===== verification/App_Config.thy ===== *)
theory App_Config
  imports Core_Types
begin

section \<open>Configuration data\<close>

text \<open>The structs of \<open>include/config/app_config.hpp\<close>.\<close>

record redis_config =
  rd_host :: string
  rd_port :: int

record postgres_config =
  pg_host :: string
  pg_port :: int
  pg_database :: string
  pg_user :: string
  pg_password :: string

record kafka_config =
  kf_brokers :: "string list"
  kf_transaction_topic :: string
  kf_consumer_group :: string

record risk_config =
  rk_max_order_quantity :: double
  rk_max_order_notional :: double
  rk_max_position_quantity :: double
  rk_stale_after_ms :: int64
  rk_kill_switch_enabled :: bool

record strategy_config =
  sg_strategy_id :: string
  sg_trigger_instrument_id :: string
  sg_trigger_price :: double
  sg_order_quantity :: double
  sg_side :: string

record simulation_config =
  sm_partial_fill_threshold :: double
  sm_partial_fill_ratio :: double
  sm_auto_complete_partial_fills :: bool

record app_config =
  ac_mode :: string
  ac_exchange_name :: string
  ac_instruments :: "string list"
  ac_redis :: redis_config
  ac_postgres :: postgres_config
  ac_kafka :: kafka_config
  ac_risk :: risk_config
  ac_strategy :: strategy_config
  ac_simulation :: simulation_config
  ac_allow_fallback :: bool

record config_validation_result =
  cv_valid :: bool
  cv_error :: "string option"

end
