(* ===== verification/Risk_Engine.thy ===== *)
theory Risk_Engine
  imports Market_Data App_Config
begin

section \<open>Pre-trade risk checks\<close>

text \<open>
  \<open>include/risk/risk_engine.hpp\<close> and \<open>src/risk/risk_engine.cpp\<close>. The engine holds its configuration and a
  reference to the market state store, which reads the clock: \<open>evaluate\<close> takes the store and the
  clock's reading.
\<close>

record risk_decision =
  rd_approved :: bool
  rd_reason :: "string option"

definition resolve_reference_price :: "market_state_store \<Rightarrow> order_request \<Rightarrow> double option" where
  "resolve_reference_price store rq =
     (case rq_price rq of Some p \<Rightarrow> Some p
      | None \<Rightarrow> (case market_get (instrument_id (rq_instrument rq)) store of None \<Rightarrow> None
         | Some s \<Rightarrow> mst_last_trade_price s))"

definition risk_reject :: "string \<Rightarrow> risk_decision" where
  "risk_reject reason = \<lparr>rd_approved = False, rd_reason = Some reason\<rparr>"

definition evaluate :: "risk_config \<Rightarrow> market_state_store \<Rightarrow> int64 \<Rightarrow> order_request \<Rightarrow> risk_decision" where
  "evaluate c store now rq =
     (if rk_kill_switch_enabled c then risk_reject ''kill switch enabled''
      else if rq_quantity rq \<le> 0 then risk_reject ''quantity must be positive''
      else if rk_max_order_quantity c < rq_quantity rq then risk_reject ''order quantity exceeds limit''
      else if rk_max_position_quantity c < rq_quantity rq then risk_reject ''position quantity exceeds limit''
      else if is_stale now (instrument_id (rq_instrument rq)) (rk_stale_after_ms c) store
        then risk_reject ''market data is stale''
      else case resolve_reference_price store rq of
        None \<Rightarrow> risk_reject ''reference price unavailable''
      | Some p \<Rightarrow> if rk_max_order_notional c < rq_quantity rq * p then risk_reject ''order notional exceeds limit''
                else \<lparr>rd_approved = True, rd_reason = None\<rparr>)"

subsection \<open>Properties\<close>

lemma evaluate_approved:
  "rd_approved (evaluate c store now rq) \<longleftrightarrow>
     \<not> rk_kill_switch_enabled c \<and> \<not> rq_quantity rq \<le> 0 \<and> \<not> rk_max_order_quantity c < rq_quantity rq \<and>
     \<not> rk_max_position_quantity c < rq_quantity rq \<and>
     \<not> is_stale now (instrument_id (rq_instrument rq)) (rk_stale_after_ms c) store \<and>
     (\<exists>p. resolve_reference_price store rq = Some p \<and> \<not> rk_max_order_notional c < rq_quantity rq * p)"
  by (auto simp: evaluate_def risk_reject_def split: option.splits)

lemma Fin_times_mono:
  assumes "a \<le> b" "0 \<le> r"
  shows "Fin a * Fin r \<le> Fin b * Fin r"
  using assms by (simp add: to_double_less_eq mult_right_mono)

text \<open>
  Risk approval is monotone: when an order of a finite quantity is approved against a finite,
  non-negative reference price, so is every order that differs from it only in a smaller positive quantity.
\<close>

theorem risk_approval_monotone:
  assumes "rd_approved (evaluate c store now rq)" "rq_quantity rq = Fin q" "0 < q'" "q' \<le> q"
    and "resolve_reference_price store rq = Some (Fin p)" "0 \<le> p"
  shows "rd_approved (evaluate c store now (rq\<lparr>rq_quantity := Fin q'\<rparr>))"
proof -
  have le: "Fin q' \<le> Fin q" "\<not> Fin q' \<le> 0" using assms(3,4) by (simp_all add: zero_double_def)
  have limit: "\<not> x < Fin q'" if "\<not> x < Fin q" for x using that le(1) double_less_le_trans by blast
  have "Fin q' * Fin p \<le> Fin q * Fin p" using assms(4,6) by (rule Fin_times_mono)
  then have notional: "\<not> x < Fin q' * Fin p" if "\<not> x < Fin q * Fin p" for x
    using that double_less_le_trans by blast
  have "resolve_reference_price store (rq\<lparr>rq_quantity := Fin q'\<rparr>) = Some (Fin p)"
    using assms(5) by (simp add: resolve_reference_price_def cong: option.case_cong)
  then show ?thesis using assms(1,2,5) le(2) limit notional by (simp add: evaluate_approved)
qed

definition sample_risk :: risk_config where
  "sample_risk = \<lparr>rk_max_order_quantity = Fin 10, rk_max_order_notional = Fin 1000, rk_max_position_quantity = Fin 10,
     rk_stale_after_ms = 100, rk_kill_switch_enabled = False\<rparr>"

definition sample_risk_request :: "double \<Rightarrow> order_request" where
  "sample_risk_request q = \<lparr>rq_request_id = ''r'', rq_strategy_id = ''s'',
     rq_instrument = default_instrument\<lparr>instrument_id := ''BTC-USD''\<rparr>, rq_side = Buy, rq_type = Limit,
     rq_quantity = q, rq_price = Some (Fin 100)\<rparr>"

definition sample_market :: market_state_store where
  "sample_market = [''BTC-USD'' \<mapsto> default_market_state\<lparr>mst_last_process_timestamp := 50\<rparr>]"

lemmas sample_risk_simps = sample_risk_def sample_risk_request_def sample_market_def resolve_reference_price_def
  is_stale_def market_get_def zero_double_def

theorem risk_approval_monotone_witness:
  "rd_approved (evaluate sample_risk sample_market 60 (sample_risk_request (Fin 3)))"
proof -
  have "rd_approved (evaluate sample_risk sample_market 60 (sample_risk_request (Fin 4)))"
    by (simp add: evaluate_approved sample_risk_simps)
  from risk_approval_monotone [OF this, of 4 3 100] show ?thesis by (simp add: sample_risk_simps)
qed

text \<open>
  A request whose quantity is NaN passes every quantity and notional check: with the kill switch
  off, fresh market data and a reference price it is approved whatever the limits are.
\<close>

theorem risk_approves_nan_quantity:
  assumes "\<not> rk_kill_switch_enabled c" "rq_quantity rq = NaN"
    and "\<not> is_stale now (instrument_id (rq_instrument rq)) (rk_stale_after_ms c) store"
    and "resolve_reference_price store rq \<noteq> None"
  shows "rd_approved (evaluate c store now rq)"
  using assms by (auto simp: evaluate_approved)

theorem risk_approves_nan_quantity_witness:
  "rd_approved (evaluate (sample_risk\<lparr>rk_max_order_quantity := 0, rk_max_order_notional := 0\<rparr>) sample_market 60 (sample_risk_request NaN))"
  by (rule risk_approves_nan_quantity) (simp_all add: sample_risk_simps)

end
