(* ===== verification/Portfolio.thy ===== *)
theory Portfolio
  imports Storage
begin

section \<open>The portfolio service\<close>

text \<open>
  \<open>include/portfolio/portfolio_service.hpp\<close> and \<open>src/portfolio/portfolio_service.cpp\<close>: positions and
  balances derived from fills. \<open>positions_\<close> and \<open>balances_\<close> are iterated by \<open>all_positions\<close> and
  \<open>all_balances\<close> and are association lists; the two balance references of \<open>apply_fill_to_balances\<close> may
  name the same entry, so the model updates the map twice in the source's order.
\<close>

record portfolio_service =
  pf_positions :: "(string, position) umap"
  pf_balances :: "(string, balance_snapshot) umap"
  pf_mark_prices :: "string \<rightharpoonup> double"

definition portfolio_service_new :: portfolio_service where
  "portfolio_service_new = \<lparr>pf_positions = [], pf_balances = [], pf_mark_prices = Map.empty\<rparr>"

definition sign_of :: "double \<Rightarrow> double" where
  "sign_of v = (if 0 < v then 1 else if v < 0 then - 1 else 0)"

definition update_unrealized :: "double \<Rightarrow> position \<Rightarrow> position" where
  "update_unrealized mark p =
     (if double_eq (po_net_quantity p) 0 then p\<lparr>po_unrealized_pnl := 0\<rparr>
      else p\<lparr>po_unrealized_pnl := (mark - po_average_entry_price p) * po_net_quantity p\<rparr>)"

definition signed_quantity :: "fill_event \<Rightarrow> double" where
  "signed_quantity f = (if fl_side f = Buy then fl_quantity f else - fl_quantity f)"

definition apply_fill_to_position :: "(string \<rightharpoonup> double) \<Rightarrow> fill_event \<Rightarrow> position \<Rightarrow> position" where
  "apply_fill_to_position marks f p =
     (let signed = signed_quantity f;
          prev = po_net_quantity p;
          p' = (if double_eq prev 0 \<or> double_eq (sign_of prev) (sign_of signed)
                then let new = prev + signed;
                         notional = (\<bar>prev\<bar> * po_average_entry_price p) + (\<bar>signed\<bar> * fl_price f)
                     in p\<lparr>po_net_quantity := new,
                          po_average_entry_price := if 0 < \<bar>new\<bar> then notional / \<bar>new\<bar> else 0\<rparr>
                else let closing = std_min \<bar>prev\<bar> \<bar>signed\<bar>;
                         p1 = p\<lparr>po_realized_pnl := po_realized_pnl p +
                                  closing * (fl_price f - po_average_entry_price p) * sign_of prev,
                                po_net_quantity := prev + signed\<rparr>
                     in if double_eq (po_net_quantity p1) 0 then p1\<lparr>po_average_entry_price := 0\<rparr>
                        else if \<not> double_eq (sign_of prev) (sign_of (po_net_quantity p1))
                        then p1\<lparr>po_average_entry_price := fl_price f\<rparr> else p1)
      in case marks (instrument_id (fl_instrument f)) of
           Some mark \<Rightarrow> update_unrealized mark p'
         | None \<Rightarrow> update_unrealized (fl_price f) p')"

definition balance_entry :: "string \<Rightarrow> (string, balance_snapshot) umap \<Rightarrow> balance_snapshot" where
  "balance_entry asset bs = (case map_of bs asset of Some b \<Rightarrow> b | None \<Rightarrow> default_balance)"

definition upd_balance :: "string \<Rightarrow> (balance_snapshot \<Rightarrow> balance_snapshot) \<Rightarrow> (string, balance_snapshot) umap \<Rightarrow>
    (string, balance_snapshot) umap" where
  "upd_balance asset f bs = AList.update asset (f (balance_entry asset bs)) bs"

definition apply_fill_to_balances :: "fill_event \<Rightarrow> (string, balance_snapshot) umap \<Rightarrow> (string, balance_snapshot) umap" where
  "apply_fill_to_balances f bs =
     (let base = base_asset (fl_instrument f); quote = quote_asset (fl_instrument f);
          bs1 = upd_balance base (\<lambda>b. b\<lparr>ba_asset := base\<rparr>) bs;
          bs2 = upd_balance quote (\<lambda>b. b\<lparr>ba_asset := quote\<rparr>) bs1;
          notional = fl_quantity f * fl_price f;
          bs4 = (if fl_side f = Buy
                 then upd_balance quote (\<lambda>b. b\<lparr>ba_total_balance := ba_total_balance b - (notional + fl_fee f)\<rparr>)
                        (upd_balance base (\<lambda>b. b\<lparr>ba_total_balance := ba_total_balance b + fl_quantity f\<rparr>) bs2)
                 else upd_balance quote (\<lambda>b. b\<lparr>ba_total_balance := ba_total_balance b + (notional - fl_fee f)\<rparr>)
                        (upd_balance base (\<lambda>b. b\<lparr>ba_total_balance := ba_total_balance b - fl_quantity f\<rparr>) bs2))
      in upd_balance quote (\<lambda>b. b\<lparr>ba_available_balance := ba_total_balance b\<rparr>)
           (upd_balance base (\<lambda>b. b\<lparr>ba_available_balance := ba_total_balance b\<rparr>) bs4))"

definition portfolio_apply_fill :: "fill_event \<Rightarrow> portfolio_service \<Rightarrow> portfolio_service" where
  "portfolio_apply_fill f s =
     (let iid = instrument_id (fl_instrument f);
          p0 = (case map_of (pf_positions s) iid of Some p \<Rightarrow> p | None \<Rightarrow> default_position);
          p1 = (if po_position_id p0 = ''''
                then p0\<lparr>po_position_id := ''position-'' @ iid, po_instrument := fl_instrument f\<rparr> else p0)
      in s\<lparr>pf_positions := AList.update iid (apply_fill_to_position (pf_mark_prices s) f p1) (pf_positions s),
           pf_balances := apply_fill_to_balances f (pf_balances s)\<rparr>)"

definition portfolio_get_position :: "string \<Rightarrow> portfolio_service \<Rightarrow> position option" where
  "portfolio_get_position iid s = map_of (pf_positions s) iid"

definition portfolio_get_balance :: "string \<Rightarrow> portfolio_service \<Rightarrow> balance_snapshot" where
  "portfolio_get_balance asset s =
     (case map_of (pf_balances s) asset of Some b \<Rightarrow> b
      | None \<Rightarrow> \<lparr>ba_asset = asset, ba_total_balance = 0, ba_available_balance = 0\<rparr>)"

definition set_mark_price :: "string \<Rightarrow> double \<Rightarrow> portfolio_service \<Rightarrow> portfolio_service" where
  "set_mark_price iid price s =
     (let s1 = s\<lparr>pf_mark_prices := (pf_mark_prices s)(iid \<mapsto> price)\<rparr>
      in case map_of (pf_positions s1) iid of None \<Rightarrow> s1
         | Some p \<Rightarrow> s1\<lparr>pf_positions := AList.update iid (update_unrealized price p) (pf_positions s1)\<rparr>)"

definition restore_position :: "position \<Rightarrow> portfolio_service \<Rightarrow> portfolio_service" where
  "restore_position p s = s\<lparr>pf_positions := AList.update (instrument_id (po_instrument p)) p (pf_positions s)\<rparr>"

definition restore_balance :: "balance_snapshot \<Rightarrow> portfolio_service \<Rightarrow> portfolio_service" where
  "restore_balance b s = s\<lparr>pf_balances := AList.update (ba_asset b) b (pf_balances s)\<rparr>"

definition portfolio_all_positions :: "portfolio_service \<Rightarrow> position list" where
  "portfolio_all_positions s = map snd (pf_positions s)"

definition portfolio_all_balances :: "portfolio_service \<Rightarrow> balance_snapshot list" where
  "portfolio_all_balances s = map snd (pf_balances s)"

subsection \<open>The portfolio as keyed stores\<close>

definition portfolio_inv :: "portfolio_service \<Rightarrow> bool" where
  "portfolio_inv s \<longleftrightarrow> keyed_inv (\<lambda>p. instrument_id (po_instrument p)) (pf_positions s) \<and> keyed_inv ba_asset (pf_balances s)"

interpretation portfolio_positions: keyed_store "\<lambda>p. instrument_id (po_instrument p)" restore_position
  portfolio_get_position portfolio_all_positions portfolio_inv
proof unfold_locales
  fix s :: portfolio_service and p assume "portfolio_inv s"
  then show "portfolio_inv (restore_position p s)"
    using keyed_inv_update [of "\<lambda>p. instrument_id (po_instrument p)" "pf_positions s" p]
    by (simp add: portfolio_inv_def restore_position_def)
next
  fix s :: portfolio_service and p assume "portfolio_inv s"
  then show "p \<in> set (portfolio_all_positions s) \<longleftrightarrow> portfolio_get_position (instrument_id (po_instrument p)) s = Some p"
    using keyed_inv_entry [of "\<lambda>p. instrument_id (po_instrument p)" "pf_positions s" p]
    by (simp add: portfolio_inv_def portfolio_all_positions_def portfolio_get_position_def)
next
  fix s :: portfolio_service assume "portfolio_inv s"
  then show "distinct (map (\<lambda>p. instrument_id (po_instrument p)) (portfolio_all_positions s))"
    unfolding portfolio_inv_def portfolio_all_positions_def using keyed_inv_keys by blast
qed (simp add: portfolio_get_position_def restore_position_def update_conv')

interpretation portfolio_balances: keyed_store ba_asset restore_balance "\<lambda>a s. map_of (pf_balances s) a"
  portfolio_all_balances portfolio_inv
proof unfold_locales
  fix s :: portfolio_service and b assume "portfolio_inv s"
  then show "portfolio_inv (restore_balance b s)"
    using keyed_inv_update [of ba_asset "pf_balances s" b] by (simp add: portfolio_inv_def restore_balance_def)
next
  fix s :: portfolio_service and b assume "portfolio_inv s"
  then show "b \<in> set (portfolio_all_balances s) \<longleftrightarrow> map_of (pf_balances s) (ba_asset b) = Some b"
    using keyed_inv_entry [of ba_asset "pf_balances s" b] by (simp add: portfolio_inv_def portfolio_all_balances_def)
next
  fix s :: portfolio_service assume "portfolio_inv s"
  then show "distinct (map ba_asset (portfolio_all_balances s))"
    unfolding portfolio_inv_def portfolio_all_balances_def using keyed_inv_keys by blast
qed (simp add: restore_balance_def update_conv')

subsection \<open>Positions\<close>

text \<open>A flat position carries no entry price and no unrealized profit.\<close>

definition flat_ok :: "position \<Rightarrow> bool" where
  "flat_ok p \<longleftrightarrow> (po_net_quantity p = 0 \<longrightarrow> po_average_entry_price p = 0 \<and> po_unrealized_pnl p = 0)"

lemma double_eq_0: "double_eq x 0 \<longleftrightarrow> x = 0"
  by (auto simp: double_eq_def)

lemma update_unrealized_sel [simp]:
  "po_net_quantity (update_unrealized m p) = po_net_quantity p"
  "po_average_entry_price (update_unrealized m p) = po_average_entry_price p"
  "po_instrument (update_unrealized m p) = po_instrument p"
  by (simp_all add: update_unrealized_def)

lemma flat_ok_update_unrealized:
  "(po_net_quantity p = 0 \<Longrightarrow> po_average_entry_price p = 0) \<Longrightarrow> flat_ok (update_unrealized m p)"
  by (auto simp: flat_ok_def update_unrealized_def double_eq_0)

lemma apply_fill_to_position_net:
  "po_net_quantity (apply_fill_to_position marks f p) = po_net_quantity p + signed_quantity f"
  by (auto simp: apply_fill_to_position_def Let_def split: option.splits)

lemma apply_fill_to_position_instrument:
  "po_instrument (apply_fill_to_position marks f p) = po_instrument p"
  by (auto simp: apply_fill_to_position_def Let_def split: option.splits)

lemma flat_ok_apply_fill: "flat_ok (apply_fill_to_position marks f p)"
proof -
  have z: "\<not> 0 < \<bar>x\<bar>" if "x = 0" for x :: double using that by (simp add: zero_double_def)
  show ?thesis
    unfolding apply_fill_to_position_def Let_def
    by (auto intro!: flat_ok_update_unrealized simp: double_eq_0 z split: option.splits)
qed

definition filled_position :: "fill_event \<Rightarrow> portfolio_service \<Rightarrow> position" where
  "filled_position f s =
     (let p0 = (case map_of (pf_positions s) (instrument_id (fl_instrument f)) of Some p \<Rightarrow> p | None \<Rightarrow> default_position)
      in apply_fill_to_position (pf_mark_prices s) f (if po_position_id p0 = ''''
         then p0\<lparr>po_position_id := ''position-'' @ instrument_id (fl_instrument f), po_instrument := fl_instrument f\<rparr> else p0))"

lemma positions_apply_fill:
  "pf_positions (portfolio_apply_fill f s) = AList.update (instrument_id (fl_instrument f)) (filled_position f s) (pf_positions s)"
  by (simp add: portfolio_apply_fill_def filled_position_def Let_def)

lemma filled_position_instrument:
  assumes "portfolio_inv s"
  shows "instrument_id (po_instrument (filled_position f s)) = instrument_id (fl_instrument f)"
  using assms keyed_inv_lookup [of "\<lambda>p. instrument_id (po_instrument p)" "pf_positions s" "instrument_id (fl_instrument f)"]
  by (auto simp: filled_position_def Let_def apply_fill_to_position_instrument portfolio_inv_def default_position_def
      split: option.splits)

lemma keyed_upd_balance:
  "keyed_inv ba_asset bs \<Longrightarrow> (\<And>b. ba_asset b = a \<Longrightarrow> ba_asset (f b) = a) \<Longrightarrow> map_of bs a \<noteq> None \<Longrightarrow>
     keyed_inv ba_asset (upd_balance a f bs)"
  using keyed_inv_lookup [of ba_asset bs a] by (auto simp: upd_balance_def balance_entry_def intro!: keyed_inv_update)

lemma keyed_upd_balance_name:
  "keyed_inv ba_asset bs \<Longrightarrow> keyed_inv ba_asset (upd_balance a (\<lambda>b. b\<lparr>ba_asset := a\<rparr>) bs)"
  by (simp add: upd_balance_def keyed_inv_update)

lemma map_of_upd_balance [simp]:
  "map_of (upd_balance a f bs) x = (if x = a then Some (f (balance_entry a bs)) else map_of bs x)"
  by (simp add: upd_balance_def update_conv')

lemma keyed_apply_fill_to_balances: "keyed_inv ba_asset bs \<Longrightarrow> keyed_inv ba_asset (apply_fill_to_balances f bs)"
  unfolding apply_fill_to_balances_def Let_def
  by (auto intro!: keyed_upd_balance keyed_upd_balance_name)

lemma portfolio_inv_apply_fill: "portfolio_inv s \<Longrightarrow> portfolio_inv (portfolio_apply_fill f s)"
  using filled_position_instrument [of s f] keyed_apply_fill_to_balances [of "pf_balances s" f]
  by (simp add: portfolio_inv_def positions_apply_fill keyed_inv_update) (simp add: portfolio_apply_fill_def Let_def)

lemma portfolio_inv_set_mark: "portfolio_inv s \<Longrightarrow> portfolio_inv (set_mark_price iid price s)"
  using keyed_inv_lookup [of "\<lambda>p. instrument_id (po_instrument p)" "pf_positions s" iid]
  by (auto simp: portfolio_inv_def set_mark_price_def Let_def intro!: keyed_inv_update split: option.splits)

text \<open>The inputs of the service while it runs: fills and mark prices.\<close>

datatype portfolio_input = Fill fill_event | Mark string double

fun portfolio_step :: "portfolio_input \<Rightarrow> portfolio_service \<Rightarrow> portfolio_service" where
  "portfolio_step (Fill f) s = portfolio_apply_fill f s"
| "portfolio_step (Mark iid price) s = set_mark_price iid price s"

definition flats :: "portfolio_service \<Rightarrow> bool" where
  "flats s \<longleftrightarrow> (\<forall>p \<in> set (portfolio_all_positions s). flat_ok p)"

lemma flats_update:
  assumes "portfolio_inv s" "flats s" "flat_ok p" "pf_positions s' = AList.update iid p (pf_positions s)"
  shows "flats s'"
  using assms by (auto simp: flats_def portfolio_all_positions_def set_update_alist portfolio_inv_def keyed_inv_def)

lemma portfolio_step_ok: "portfolio_inv s \<and> flats s \<Longrightarrow> portfolio_inv (portfolio_step i s) \<and> flats (portfolio_step i s)"
proof (cases i)
  case (Fill f)
  assume s: "portfolio_inv s \<and> flats s"
  have "flat_ok (filled_position f s)" by (simp add: filled_position_def Let_def flat_ok_apply_fill)
  then have "flats (portfolio_apply_fill f s)" using flats_update [OF _ _ _ positions_apply_fill] s by blast
  then show ?thesis using Fill s portfolio_inv_apply_fill by simp
next
  case (Mark iid price)
  assume s: "portfolio_inv s \<and> flats s"
  have "flats (set_mark_price iid price s)"
  proof (cases "map_of (pf_positions s) iid")
    case None
    then show ?thesis using s by (simp add: set_mark_price_def Let_def flats_def portfolio_all_positions_def)
  next
    case (Some p)
    then have "flat_ok p" using s by (force simp: flats_def portfolio_all_positions_def dest: map_of_SomeD)
    then have "flat_ok (update_unrealized price p)" by (intro flat_ok_update_unrealized) (simp add: flat_ok_def)
    then show ?thesis using flats_update [of s _ "set_mark_price iid price s" iid] Some s by (simp add: set_mark_price_def Let_def)
  qed
  then show ?thesis using Mark s portfolio_inv_set_mark by simp
qed

text \<open>
  After any sequence of fills and mark prices the portfolio's stores are well formed (one position
  per instrument and one balance per asset, under their own keys), and every position whose net quantity is
  zero has no entry price and no unrealized profit left.
\<close>

theorem portfolio_consistent:
  "portfolio_inv (fold portfolio_step inputs portfolio_service_new) \<and>
   flats (fold portfolio_step inputs portfolio_service_new)"
proof -
  have "portfolio_inv s \<and> flats s \<Longrightarrow> portfolio_inv (fold portfolio_step inputs s) \<and> flats (fold portfolio_step inputs s)" for s
    by (induction inputs arbitrary: s) (auto simp: portfolio_step_ok)
  moreover have "portfolio_inv portfolio_service_new \<and> flats portfolio_service_new"
    by (simp add: portfolio_inv_def flats_def portfolio_service_new_def portfolio_all_positions_def)
  ultimately show ?thesis by blast
qed

text \<open>
  The net quantity of an instrument is exactly the running (rounded) sum of its signed fills, in the
  order of the fills, whatever mix of opening, reducing, closing and reversing fills it is; an instrument
  without fills has no position.
\<close>

theorem net_quantity_is_sum:
  "map_option po_net_quantity (portfolio_get_position iid (fold portfolio_apply_fill fills portfolio_service_new)) =
     (let mine = filter (\<lambda>f. instrument_id (fl_instrument f) = iid) fills
      in if mine = [] then None else Some (foldl (\<lambda>q f. q + signed_quantity f) 0 mine))"
proof -
  define net where "net s = (case portfolio_get_position iid s of Some p \<Rightarrow> po_net_quantity p | None \<Rightarrow> 0)" for s
  have step: "portfolio_get_position iid (portfolio_apply_fill f s) =
      (if instrument_id (fl_instrument f) = iid then Some (filled_position f s) else portfolio_get_position iid s)" for f s
    by (simp add: portfolio_get_position_def positions_apply_fill update_conv')
  have nf: "po_net_quantity (filled_position f s) = net s + signed_quantity f" if "instrument_id (fl_instrument f) = iid" for f s
    using that by (auto simp: filled_position_def Let_def apply_fill_to_position_net net_def portfolio_get_position_def
        default_position_def split: option.splits)
  have "map_option po_net_quantity (portfolio_get_position iid (fold portfolio_apply_fill fills s)) =
     (let mine = filter (\<lambda>f. instrument_id (fl_instrument f) = iid) fills
      in if mine = [] then map_option po_net_quantity (portfolio_get_position iid s)
         else Some (foldl (\<lambda>q f. q + signed_quantity f) (net s) mine))" for s
  proof (induction fills arbitrary: s)
    case (Cons f fs)
    then show ?case using step [of f s] nf [of f s] by (auto simp: Let_def net_def)
  qed simp
  note general = this [of portfolio_service_new]
  have "portfolio_get_position iid portfolio_service_new = None" "net portfolio_service_new = 0"
    by (simp_all add: net_def portfolio_get_position_def portfolio_service_new_def)
  with general show ?thesis by (simp add: Let_def)
qed

text \<open>
  C27. A fill of an instrument with two different assets moves exactly these two balances: a buy adds the
  quantity to the base asset and takes notional plus fee from the quote asset, a sell takes the quantity
  and adds notional minus fee; the available balances follow, and every other asset keeps its balance.
\<close>

theorem apply_fill_moves_balances:
  assumes "base_asset (fl_instrument f) \<noteq> quote_asset (fl_instrument f)"
  shows "let s' = portfolio_apply_fill f s; base = base_asset (fl_instrument f); quote = quote_asset (fl_instrument f);
      total = (\<lambda>a. ba_total_balance (portfolio_get_balance a s)); notional = fl_quantity f * fl_price f in
    ba_total_balance (portfolio_get_balance base s') =
      (if fl_side f = Buy then total base + fl_quantity f else total base - fl_quantity f) \<and>
    ba_total_balance (portfolio_get_balance quote s') =
      (if fl_side f = Buy then total quote - (notional + fl_fee f) else total quote + (notional - fl_fee f)) \<and>
    (\<forall>a \<in> {base, quote}. ba_available_balance (portfolio_get_balance a s') = ba_total_balance (portfolio_get_balance a s') \<and>
      ba_asset (portfolio_get_balance a s') = a) \<and>
    (\<forall>a. a \<noteq> base \<and> a \<noteq> quote \<longrightarrow> portfolio_get_balance a s' = portfolio_get_balance a s)"
  using assms by (auto simp: Let_def portfolio_get_balance_def portfolio_apply_fill_def apply_fill_to_balances_def
      balance_entry_def default_balance_def split: option.splits)

definition sample_fill :: fill_event where
  "sample_fill = \<lparr>fl_fill_id = ''f1'', fl_order_id = ''o1'',
     fl_instrument = default_instrument\<lparr>instrument_id := ''BTC-USD'', base_asset := ''BTC'', quote_asset := ''USD''\<rparr>,
     fl_side = Buy, fl_price = Fin 100, fl_quantity = Fin 2, fl_fee = Fin 1\<rparr>"

theorem apply_fill_moves_balances_witness:
  "ba_total_balance (portfolio_get_balance ''BTC'' (portfolio_apply_fill sample_fill portfolio_service_new)) = Fin 2 \<and>
   ba_total_balance (portfolio_get_balance ''USD'' (portfolio_apply_fill sample_fill portfolio_service_new)) = Fin (- 201)"
  using apply_fill_moves_balances [of sample_fill portfolio_service_new]
  by (simp add: sample_fill_def Let_def portfolio_get_balance_def portfolio_service_new_def zero_double_def double_diff_Fin)

end
