(* ===== verification/Strategy.thy ===== *)
theory Strategy
  imports Market_Data
begin

section \<open>Strategies and their coordinator\<close>

text \<open>
  \<open>include/strategy\<close> and \<open>src/strategy\<close>: the two strategies of the repository and the coordinator
  that runs several strategies on one event stream. \<open>IStrategy\<close> is an interface: the coordinator is
  written over a type of strategies with the two virtual methods as arguments, where \<open>on_event\<close> returns
  \<open>None\<close> instead of the requests when it throws, together with the state the strategy is left in. The
  repository's own strategies are the instance \<open>strategy\<close>.
\<close>

record strategy_context =
  sx_market_state_store :: market_state_store
  sx_now_ms :: int64

subsection \<open>The threshold strategy\<close>

record sample_threshold_config =
  st_strategy_id :: string
  st_instrument_id :: string
  st_instrument :: instrument
  st_trigger_price :: double
  st_order_quantity :: double
  st_side :: order_side

record sample_threshold_strategy =
  st_config :: sample_threshold_config
  st_has_emitted_signal :: bool
  st_next_request_id :: nat

definition sample_threshold_new :: "sample_threshold_config \<Rightarrow> sample_threshold_strategy" where
  "sample_threshold_new c = \<lparr>st_config = c, st_has_emitted_signal = False, st_next_request_id = 1\<rparr>"

definition strategy_request_id :: "string \<Rightarrow> nat \<Rightarrow> string" where
  "strategy_request_id sid n = sid @ ''-request-'' @ show_nat n"

definition should_emit_for_trade_price :: "double \<Rightarrow> sample_threshold_strategy \<Rightarrow> bool" where
  "should_emit_for_trade_price price s =
     (if st_has_emitted_signal s then False
      else if st_side (st_config s) = Buy then price \<le> st_trigger_price (st_config s)
      else st_trigger_price (st_config s) \<le> price)"

definition st_build_order_request ::
  "instrument \<Rightarrow> double \<Rightarrow> sample_threshold_strategy \<Rightarrow> order_request \<times> sample_threshold_strategy" where
  "st_build_order_request instr price s =
     (let c = st_config s;
          resolved = (if instrument_id (st_instrument c) = '''' \<or>
              (base_asset (st_instrument c) = '''' \<and> quote_asset (st_instrument c) = '''') then instr else st_instrument c)
      in (\<lparr>rq_request_id = strategy_request_id (st_strategy_id c) (st_next_request_id s),
            rq_strategy_id = st_strategy_id c, rq_instrument = resolved, rq_side = st_side c, rq_type = Limit,
            rq_quantity = st_order_quantity c, rq_price = Some price\<rparr>,
          s\<lparr>st_next_request_id := st_next_request_id s + 1\<rparr>))"

fun sample_threshold_on_event ::
  "engine_event \<Rightarrow> strategy_context \<Rightarrow> sample_threshold_strategy \<Rightarrow> order_request list \<times> sample_threshold_strategy" where
  "sample_threshold_on_event (MarketEvent e) ctx s =
     (if instrument_id (me_instrument e) \<noteq> st_instrument_id (st_config s) \<or> me_price e \<le> 0 then ([], s)
      else if market_get (st_instrument_id (st_config s)) (sx_market_state_store ctx) = None then ([], s)
      else if should_emit_for_trade_price (me_price e) s
           then (case st_build_order_request (me_instrument e) (me_price e) s of
             (rq, s') \<Rightarrow> ([rq], s'\<lparr>st_has_emitted_signal := True\<rparr>))
           else ([], s))"
| "sample_threshold_on_event (TransactionCommand c) ctx s =
     ([], if tx_command_type c = ''reset_strategy'' then s\<lparr>st_has_emitted_signal := False\<rparr> else s)"
| "sample_threshold_on_event (TimerEvent _) ctx s = ([], s)"

subsection \<open>The spread-capture strategy\<close>

record spread_capture_config =
  sc_strategy_id :: string
  sc_instrument :: instrument
  sc_min_spread :: double
  sc_order_quantity :: double
  sc_side :: order_side

record spread_capture_strategy =
  sc_config :: spread_capture_config
  sc_has_emitted_signal :: bool
  sc_next_request_id :: nat

definition spread_capture_new :: "spread_capture_config \<Rightarrow> spread_capture_strategy" where
  "spread_capture_new c = \<lparr>sc_config = c, sc_has_emitted_signal = False, sc_next_request_id = 1\<rparr>"

definition sc_build_order_request ::
  "double \<Rightarrow> spread_capture_strategy \<Rightarrow> order_request \<times> spread_capture_strategy" where
  "sc_build_order_request price s =
     (let c = sc_config s
      in (\<lparr>rq_request_id = strategy_request_id (sc_strategy_id c) (sc_next_request_id s),
            rq_strategy_id = sc_strategy_id c, rq_instrument = sc_instrument c, rq_side = sc_side c, rq_type = Limit,
            rq_quantity = sc_order_quantity c, rq_price = Some price\<rparr>,
          s\<lparr>sc_next_request_id := sc_next_request_id s + 1\<rparr>))"

fun spread_capture_on_event ::
  "engine_event \<Rightarrow> strategy_context \<Rightarrow> spread_capture_strategy \<Rightarrow> order_request list \<times> spread_capture_strategy" where
  "spread_capture_on_event (MarketEvent e) ctx s =
     (if sc_has_emitted_signal s \<or> instrument_id (me_instrument e) \<noteq> instrument_id (sc_instrument (sc_config s)) then ([], s)
      else case market_get (instrument_id (sc_instrument (sc_config s))) (sx_market_state_store ctx) of None \<Rightarrow> ([], s)
      | Some state \<Rightarrow>
        (case (mst_best_bid state, mst_best_ask state) of
           (Some bid, Some ask) \<Rightarrow>
             if ask - bid < sc_min_spread (sc_config s) then ([], s)
             else (case sc_build_order_request (if sc_side (sc_config s) = Buy then bid else ask) s of
               (rq, s') \<Rightarrow> ([rq], s'\<lparr>sc_has_emitted_signal := True\<rparr>))
         | _ \<Rightarrow> ([], s)))"
| "spread_capture_on_event (TransactionCommand c) ctx s =
     ([], if tx_command_type c = ''reset_strategy'' then s\<lparr>sc_has_emitted_signal := False\<rparr> else s)"
| "spread_capture_on_event (TimerEvent _) ctx s = ([], s)"

subsection \<open>The interface\<close>

datatype strategy =
    Sample_threshold sample_threshold_strategy
  | Spread_capture spread_capture_strategy

fun strategy_id :: "strategy \<Rightarrow> string" where
  "strategy_id (Sample_threshold s) = st_strategy_id (st_config s)"
| "strategy_id (Spread_capture s) = sc_strategy_id (sc_config s)"

fun strategy_on_event :: "engine_event \<Rightarrow> strategy_context \<Rightarrow> strategy \<Rightarrow> order_request list option \<times> strategy" where
  "strategy_on_event e ctx (Sample_threshold s) =
     (case sample_threshold_on_event e ctx s of (rqs, s') \<Rightarrow> (Some rqs, Sample_threshold s'))"
| "strategy_on_event e ctx (Spread_capture s) =
     (case spread_capture_on_event e ctx s of (rqs, s') \<Rightarrow> (Some rqs, Spread_capture s'))"

subsection \<open>The coordinator\<close>

record strategy_runtime_stats =
  ss_strategy_id :: string
  ss_handled_events :: nat
  ss_emitted_requests :: nat
  ss_failures :: nat
  ss_paused :: bool

record 's strategy_slot =
  sl_strategy :: 's
  sl_stats :: strategy_runtime_stats

type_synonym 's strategy_coordinator = "'s strategy_slot list"

definition default_stats :: strategy_runtime_stats where
  "default_stats = \<lparr>ss_strategy_id = '''', ss_handled_events = 0, ss_emitted_requests = 0, ss_failures = 0, ss_paused = False\<rparr>"

definition add_strategy :: "('s \<Rightarrow> string) \<Rightarrow> 's option \<Rightarrow> 's strategy_coordinator \<Rightarrow> 's strategy_coordinator" where
  "add_strategy sid strat slots =
     (case strat of None \<Rightarrow> slots
      | Some s \<Rightarrow> slots @ [\<lparr>sl_strategy = s, sl_stats = default_stats\<lparr>ss_strategy_id := sid s\<rparr>\<rparr>])"

definition slot_on_event ::
  "(engine_event \<Rightarrow> strategy_context \<Rightarrow> 's \<Rightarrow> order_request list option \<times> 's) \<Rightarrow> engine_event \<Rightarrow> strategy_context \<Rightarrow>
   's strategy_slot \<Rightarrow> order_request list \<times> 's strategy_slot" where
  "slot_on_event on_ev e ctx slot =
     (if ss_paused (sl_stats slot) then ([], slot)
      else
        let stats = (sl_stats slot)\<lparr>ss_handled_events := ss_handled_events (sl_stats slot) + 1\<rparr>
        in case on_ev e ctx (sl_strategy slot) of
           (Some rqs, s') \<Rightarrow> (rqs, \<lparr>sl_strategy = s', sl_stats = stats\<lparr>ss_emitted_requests := ss_emitted_requests stats + length rqs\<rparr>\<rparr>)
         | (None, s') \<Rightarrow> ([], \<lparr>sl_strategy = s', sl_stats = stats\<lparr>ss_failures := ss_failures stats + 1, ss_paused := True\<rparr>\<rparr>))"

fun coordinator_on_event ::
  "(engine_event \<Rightarrow> strategy_context \<Rightarrow> 's \<Rightarrow> order_request list option \<times> 's) \<Rightarrow> engine_event \<Rightarrow> strategy_context \<Rightarrow>
   's strategy_coordinator \<Rightarrow> order_request list \<times> 's strategy_coordinator" where
  "coordinator_on_event on_ev e ctx [] = ([], [])"
| "coordinator_on_event on_ev e ctx (slot # slots) =
     (case slot_on_event on_ev e ctx slot of (rqs, slot') \<Rightarrow>
      (case coordinator_on_event on_ev e ctx slots of (rqs', slots') \<Rightarrow> (rqs @ rqs', slot' # slots')))"

definition strategy_count :: "'s strategy_coordinator \<Rightarrow> nat" where
  "strategy_count slots = length slots"

definition active_strategy_count :: "'s strategy_coordinator \<Rightarrow> nat" where
  "active_strategy_count slots = length (filter (\<lambda>slot. \<not> ss_paused (sl_stats slot)) slots)"

definition all_stats :: "'s strategy_coordinator \<Rightarrow> strategy_runtime_stats list" where
  "all_stats slots = map sl_stats slots"

definition set_paused :: "bool \<Rightarrow> string \<Rightarrow> 's strategy_coordinator \<Rightarrow> bool \<times> 's strategy_coordinator" where
  "set_paused p sid slots =
     (case update_first (\<lambda>slot. ss_strategy_id (sl_stats slot) = sid) (\<lambda>slot. slot\<lparr>sl_stats := (sl_stats slot)\<lparr>ss_paused := p\<rparr>\<rparr>) slots of
        None \<Rightarrow> (False, slots) | Some slots' \<Rightarrow> (True, slots'))"

definition pause_strategy :: "string \<Rightarrow> 's strategy_coordinator \<Rightarrow> bool \<times> 's strategy_coordinator" where
  "pause_strategy = set_paused True"

definition resume_strategy :: "string \<Rightarrow> 's strategy_coordinator \<Rightarrow> bool \<times> 's strategy_coordinator" where
  "resume_strategy = set_paused False"

definition is_paused :: "string \<Rightarrow> 's strategy_coordinator \<Rightarrow> bool" where
  "is_paused sid slots =
     (case find (\<lambda>slot. ss_strategy_id (sl_stats slot) = sid) slots of None \<Rightarrow> False | Some slot \<Rightarrow> ss_paused (sl_stats slot))"

subsection \<open>Runs\<close>

text \<open>A strategy, a slot and the coordinator on a sequence of events, each with the context it is seen in.\<close>

type_synonym timeline = "(engine_event \<times> strategy_context) list"

fun strategy_run ::
  "(engine_event \<Rightarrow> strategy_context \<Rightarrow> 's \<Rightarrow> order_request list option \<times> 's) \<Rightarrow> timeline \<Rightarrow> 's \<Rightarrow> order_request list \<times> 's" where
  "strategy_run on_ev [] s = ([], s)"
| "strategy_run on_ev ((e, ctx) # xs) s =
     (case on_ev e ctx s of (r, s1) \<Rightarrow> (case strategy_run on_ev xs s1 of
       (rqs, s2) \<Rightarrow> ((case r of None \<Rightarrow> [] | Some rqs0 \<Rightarrow> rqs0) @ rqs, s2)))"

fun slot_run ::
  "(engine_event \<Rightarrow> strategy_context \<Rightarrow> 's \<Rightarrow> order_request list option \<times> 's) \<Rightarrow> timeline \<Rightarrow> 's strategy_slot \<Rightarrow> 's strategy_slot" where
  "slot_run on_ev [] slot = slot"
| "slot_run on_ev ((e, ctx) # xs) slot = slot_run on_ev xs (snd (slot_on_event on_ev e ctx slot))"

fun coordinator_run ::
  "(engine_event \<Rightarrow> strategy_context \<Rightarrow> 's \<Rightarrow> order_request list option \<times> 's) \<Rightarrow> timeline \<Rightarrow> 's strategy_coordinator \<Rightarrow>
   order_request list \<times> 's strategy_coordinator" where
  "coordinator_run on_ev [] slots = ([], slots)"
| "coordinator_run on_ev ((e, ctx) # xs) slots =
     (case coordinator_on_event on_ev e ctx slots of (rqs, slots1) \<Rightarrow>
      (case coordinator_run on_ev xs slots1 of (rqs', slots2) \<Rightarrow> (rqs @ rqs', slots2)))"

fun is_reset :: "engine_event \<Rightarrow> bool" where
  "is_reset (TransactionCommand c) \<longleftrightarrow> tx_command_type c = ''reset_strategy''"
| "is_reset _ \<longleftrightarrow> False"

subsection \<open>The contract of a one-shot strategy\<close>

text \<open>
  Both strategies of the repository keep this contract: \<open>on_event\<close> does not throw and keeps the id;
  a request is only emitted by an armed strategy, which it disarms; only a reset command arms it again;
  request ids are numbered consecutively.
\<close>

locale one_shot_strategy =
  fixes on_ev :: "engine_event \<Rightarrow> strategy_context \<Rightarrow> 's \<Rightarrow> order_request list option \<times> 's"
    and sid :: "'s \<Rightarrow> string"
    and armed :: "'s \<Rightarrow> bool"
    and next_id :: "'s \<Rightarrow> nat"
  assumes no_throw: "fst (on_ev e ctx s) \<noteq> None"
    and keeps_id: "sid (snd (on_ev e ctx s)) = sid s"
    and silent: "on_ev e ctx s = (Some [], s') \<Longrightarrow> next_id s' = next_id s \<and> (armed s' \<longrightarrow> armed s \<or> is_reset e)"
    and emits: "on_ev e ctx s = (Some (rq # rqs), s') \<Longrightarrow>
        rqs = [] \<and> armed s \<and> \<not> armed s' \<and> next_id s' = Suc (next_id s) \<and>
        rq_request_id rq = strategy_request_id (sid s) (next_id s) \<and> rq_strategy_id rq = sid s"
begin

lemma step_cases:
  obtains (quiet) s' where "on_ev e ctx s = (Some [], s')" "sid s' = sid s" "next_id s' = next_id s"
      "armed s' \<Longrightarrow> \<not> is_reset e \<Longrightarrow> armed s"
    | (fires) rq s' where "on_ev e ctx s = (Some [rq], s')" "sid s' = sid s" "armed s" "\<not> armed s'"
      "next_id s' = Suc (next_id s)" "rq_request_id rq = strategy_request_id (sid s) (next_id s)" "rq_strategy_id rq = sid s"
proof -
  obtain rqs s' where step: "on_ev e ctx s = (Some rqs, s')"
    using no_throw [of e ctx s] by (cases "on_ev e ctx s") auto
  have id: "sid s' = sid s" using keeps_id [of e ctx s] step by simp
  show thesis
  proof (cases rqs)
    case Nil
    then show thesis using step id silent [of e ctx s s'] that(1) by auto
  next
    case (Cons rq rest)
    then show thesis using step id emits [of e ctx s rq rest s'] that(2) by auto
  qed
qed

lemma run_bound:
  "length (fst (strategy_run on_ev xs s)) \<le> of_bool (armed s) + length (filter (is_reset \<circ> fst) xs)"
proof (induction xs arbitrary: s)
  case (Cons x xs)
  obtain e ctx where x: "x = (e, ctx)" by force
  show ?case
  proof (cases rule: step_cases [of e ctx s])
    case (quiet s')
    then show ?thesis using Cons.IH [of s'] by (auto simp: x of_bool_def split: prod.splits if_splits)
  next
    case (fires rq s')
    then show ?thesis using Cons.IH [of s'] by (auto simp: x split: prod.splits)
  qed
qed simp

lemma run_ids:
  "map rq_request_id (fst (strategy_run on_ev xs s)) =
     map (strategy_request_id (sid s)) [next_id s ..< next_id s + length (fst (strategy_run on_ev xs s))] \<and>
   (\<forall>rq \<in> set (fst (strategy_run on_ev xs s)). rq_strategy_id rq = sid s)"
proof (induction xs arbitrary: s)
  case (Cons x xs)
  obtain e ctx where x: "x = (e, ctx)" by force
  show ?case
  proof (cases rule: step_cases [of e ctx s])
    case (quiet s')
    then show ?thesis using Cons.IH [of s'] by (auto simp: x split: prod.splits)
  next
    case (fires rq s')
    then show ?thesis using Cons.IH [of s'] by (auto simp: x upt_conv_Cons split: prod.splits)
  qed
qed simp

lemma coordinator_never_pauses:
  "ss_paused (sl_stats (slot_run on_ev xs slot)) = ss_paused (sl_stats slot) \<and>
   ss_failures (sl_stats (slot_run on_ev xs slot)) = ss_failures (sl_stats slot)"
proof (induction xs arbitrary: slot)
  case (Cons x xs)
  obtain e ctx where x: "x = (e, ctx)" by force
  show ?case
    by (cases rule: step_cases [of e ctx "sl_strategy slot"]) (simp_all add: x Cons.IH slot_on_event_def Let_def)
qed simp

end

lemma strategy_request_id_inj [simp]: "strategy_request_id sid m = strategy_request_id sid n \<longleftrightarrow> m = n"
  by (simp add: strategy_request_id_def)

fun strategy_armed :: "strategy \<Rightarrow> bool" where
  "strategy_armed (Sample_threshold s) \<longleftrightarrow> \<not> st_has_emitted_signal s"
| "strategy_armed (Spread_capture s) \<longleftrightarrow> \<not> sc_has_emitted_signal s"

fun strategy_next_id :: "strategy \<Rightarrow> nat" where
  "strategy_next_id (Sample_threshold s) = st_next_request_id s"
| "strategy_next_id (Spread_capture s) = sc_next_request_id s"

lemma sample_threshold_step:
  assumes "sample_threshold_on_event e ctx s = (rqs, s')"
  shows "st_config s' = st_config s \<and>
    (rqs = [] \<and> st_next_request_id s' = st_next_request_id s \<and> (st_has_emitted_signal s \<longrightarrow> st_has_emitted_signal s' \<or> is_reset e) \<or>
     (\<exists>rq. rqs = [rq] \<and> \<not> st_has_emitted_signal s \<and> st_has_emitted_signal s' \<and>
       st_next_request_id s' = Suc (st_next_request_id s) \<and> rq_strategy_id rq = st_strategy_id (st_config s) \<and>
       rq_request_id rq = strategy_request_id (st_strategy_id (st_config s)) (st_next_request_id s)))"
  using assms
  by (cases e) (auto simp: st_build_order_request_def should_emit_for_trade_price_def Let_def split: if_splits)

lemma spread_capture_step:
  assumes "spread_capture_on_event e ctx s = (rqs, s')"
  shows "sc_config s' = sc_config s \<and>
    (rqs = [] \<and> sc_next_request_id s' = sc_next_request_id s \<and> (sc_has_emitted_signal s \<longrightarrow> sc_has_emitted_signal s' \<or> is_reset e) \<or>
     (\<exists>rq. rqs = [rq] \<and> \<not> sc_has_emitted_signal s \<and> sc_has_emitted_signal s' \<and>
       sc_next_request_id s' = Suc (sc_next_request_id s) \<and> rq_strategy_id rq = sc_strategy_id (sc_config s) \<and>
       rq_request_id rq = strategy_request_id (sc_strategy_id (sc_config s)) (sc_next_request_id s)))"
  using assms by (cases e) (auto simp: sc_build_order_request_def Let_def split: if_splits option.splits)

interpretation builtin: one_shot_strategy strategy_on_event strategy_id strategy_armed strategy_next_id
proof
  fix e ctx s
  show "fst (strategy_on_event e ctx s) \<noteq> None" by (cases s) (simp_all split: prod.splits)
  show "strategy_id (snd (strategy_on_event e ctx s)) = strategy_id s"
    by (cases s) (auto split: prod.splits dest: sample_threshold_step spread_capture_step)
next
  fix e ctx s s'
  assume "strategy_on_event e ctx s = (Some [], s')"
  then show "strategy_next_id s' = strategy_next_id s \<and> (strategy_armed s' \<longrightarrow> strategy_armed s \<or> is_reset e)"
    by (cases s) (auto split: prod.splits dest!: sample_threshold_step spread_capture_step)
next
  fix e ctx s rq rqs s'
  assume "strategy_on_event e ctx s = (Some (rq # rqs), s')"
  then show "rqs = [] \<and> strategy_armed s \<and> \<not> strategy_armed s' \<and> strategy_next_id s' = Suc (strategy_next_id s) \<and>
      rq_request_id rq = strategy_request_id (strategy_id s) (strategy_next_id s) \<and> rq_strategy_id rq = strategy_id s"
    by (cases s) (auto split: prod.splits dest!: sample_threshold_step spread_capture_step)
qed

text \<open>
  C39. The repository's strategies fire once per arming: on any sequence of events a strategy emits at
  most one request plus one per reset command, all requests carry the strategy's id, their request ids are
  the strategy's next numbers in the order they are emitted, without a gap and so pairwise distinct, and
  under the coordinator it never fails and is never paused by itself.
\<close>

theorem strategy_fires_once_per_reset:
  "length (fst (strategy_run strategy_on_event xs s)) \<le> Suc (length (filter (is_reset \<circ> fst) xs)) \<and>
   map rq_request_id (fst (strategy_run strategy_on_event xs s)) = map (strategy_request_id (strategy_id s))
     [strategy_next_id s ..< strategy_next_id s + length (fst (strategy_run strategy_on_event xs s))] \<and>
   distinct (map rq_request_id (fst (strategy_run strategy_on_event xs s))) \<and>
   rq_strategy_id ` set (fst (strategy_run strategy_on_event xs s)) \<subseteq> {strategy_id s} \<and>
   ss_paused (sl_stats (slot_run strategy_on_event xs slot)) = ss_paused (sl_stats slot) \<and>
   ss_failures (sl_stats (slot_run strategy_on_event xs slot)) = ss_failures (sl_stats slot)"
proof (intro conjI)
  show "length (fst (strategy_run strategy_on_event xs s)) \<le> Suc (length (filter (is_reset \<circ> fst) xs))"
    using builtin.run_bound [of xs s] by (cases "strategy_armed s") simp_all
  show "map rq_request_id (fst (strategy_run strategy_on_event xs s)) = map (strategy_request_id (strategy_id s))
      [strategy_next_id s ..< strategy_next_id s + length (fst (strategy_run strategy_on_event xs s))]"
    using builtin.run_ids [of xs s] by blast
  show "distinct (map rq_request_id (fst (strategy_run strategy_on_event xs s)))"
    using builtin.run_ids [of xs s] by (simp add: distinct_map inj_on_def)
  show "rq_strategy_id ` set (fst (strategy_run strategy_on_event xs s)) \<subseteq> {strategy_id s}"
    using builtin.run_ids [of xs s] by auto
qed (simp_all add: builtin.coordinator_never_pauses)

subsection \<open>Isolation of the strategies under the coordinator\<close>

lemma coordinator_on_event_slots:
  "coordinator_on_event on_ev e ctx slots =
     (concat (map (fst \<circ> slot_on_event on_ev e ctx) slots), map (snd \<circ> slot_on_event on_ev e ctx) slots)"
  by (induction slots) (simp_all split: prod.splits)

lemma coordinator_run_slots: "snd (coordinator_run on_ev xs slots) = map (slot_run on_ev xs) slots"
proof (induction xs arbitrary: slots)
  case (Cons x xs)
  obtain e ctx where x: "x = (e, ctx)" by force
  show ?case
    using Cons.IH [of "map (snd \<circ> slot_on_event on_ev e ctx) slots"]
    by (simp add: x coordinator_on_event_slots case_prod_beta comp_def)
qed (auto intro!: nth_equalityI)

abbreviation emitted :: "'s strategy_slot \<Rightarrow> nat" where
  "emitted slot \<equiv> ss_emitted_requests (sl_stats slot)"

abbreviation failures :: "'s strategy_slot \<Rightarrow> nat" where
  "failures slot \<equiv> ss_failures (sl_stats slot)"

lemma slot_emitted:
  "emitted (snd (slot_on_event on_ev e ctx slot)) = emitted slot + length (fst (slot_on_event on_ev e ctx slot))"
  by (simp add: slot_on_event_def Let_def split: prod.splits option.splits)

lemma slot_failures:
  "failures (snd (slot_on_event on_ev e ctx slot)) =
     failures slot + of_bool (\<not> ss_paused (sl_stats slot) \<and> ss_paused (sl_stats (snd (slot_on_event on_ev e ctx slot))))"
  by (simp add: slot_on_event_def Let_def split: prod.splits option.splits)

lemma slot_run_paused: "ss_paused (sl_stats slot) \<Longrightarrow> slot_run on_ev xs slot = slot"
  by (induction xs) (auto simp: slot_on_event_def)

lemma slot_run_failures:
  "failures (slot_run on_ev xs slot) =
     failures slot + of_bool (\<not> ss_paused (sl_stats slot) \<and> ss_paused (sl_stats (slot_run on_ev xs slot)))"
proof (induction xs arbitrary: slot)
  case (Cons x xs)
  obtain e ctx where x: "x = (e, ctx)" by force
  let ?s = "snd (slot_on_event on_ev e ctx slot)"
  show ?case
    using Cons.IH [of ?s] slot_failures [of on_ev e ctx slot] slot_run_paused [of slot on_ev "x # xs"]
      slot_run_paused [of ?s on_ev xs]
    by (cases "ss_paused (sl_stats slot)"; cases "ss_paused (sl_stats ?s)") (simp_all add: x)
qed simp

lemma coordinator_on_event_emitted:
  "sum_list (map emitted (snd (coordinator_on_event on_ev e ctx slots))) =
     sum_list (map emitted slots) + length (fst (coordinator_on_event on_ev e ctx slots))"
  by (induction slots) (simp_all add: coordinator_on_event_slots slot_emitted)

lemma coordinator_run_emitted:
  "sum_list (map emitted (snd (coordinator_run on_ev xs slots))) =
     sum_list (map emitted slots) + length (fst (coordinator_run on_ev xs slots))"
proof (induction xs arbitrary: slots)
  case (Cons x xs)
  obtain e ctx where x: "x = (e, ctx)" by force
  show ?case
    using Cons.IH [of "snd (coordinator_on_event on_ev e ctx slots)"] coordinator_on_event_emitted [of on_ev e ctx slots]
    by (simp add: x case_prod_beta)
qed simp

text \<open>
  C40. Strategies cannot disturb each other, whatever they do and whether or not they throw. On one event
  the merged requests are those of the single slots in registration order; after any sequence of events
  each slot is what it would be running alone; the emitted-request counters account for every request
  returned; and in such a run a slot fails at most once, namely when it becomes paused.
\<close>

theorem coordinator_isolates:
  "fst (coordinator_on_event on_ev e ctx slots) = concat (map (\<lambda>slot. fst (coordinator_on_event on_ev e ctx [slot])) slots) \<and>
   snd (coordinator_run on_ev xs slots) = concat (map (\<lambda>slot. snd (coordinator_run on_ev xs [slot])) slots) \<and>
   sum_list (map emitted (snd (coordinator_run on_ev xs slots))) =
     sum_list (map emitted slots) + length (fst (coordinator_run on_ev xs slots)) \<and>
   list_all2 (\<lambda>slot slot'. failures slot' =
       failures slot + of_bool (\<not> ss_paused (sl_stats slot) \<and> ss_paused (sl_stats slot')))
     slots (snd (coordinator_run on_ev xs slots))"
proof (intro conjI)
  show "fst (coordinator_on_event on_ev e ctx slots) = concat (map (\<lambda>slot. fst (coordinator_on_event on_ev e ctx [slot])) slots)"
    by (simp add: coordinator_on_event_slots comp_def)
  show "snd (coordinator_run on_ev xs slots) = concat (map (\<lambda>slot. snd (coordinator_run on_ev xs [slot])) slots)"
    by (simp add: coordinator_run_slots concat_map_singleton)
  show "list_all2 (\<lambda>slot slot'. failures slot' =
       failures slot + of_bool (\<not> ss_paused (sl_stats slot) \<and> ss_paused (sl_stats slot')))
     slots (snd (coordinator_run on_ev xs slots))"
    by (simp add: coordinator_run_slots list_all2_conv_all_nth slot_run_failures)
qed (rule coordinator_run_emitted)

lemma update_first_distinct:
  "distinct (map g xs) \<Longrightarrow> i < length xs \<Longrightarrow> update_first (\<lambda>x. g x = g (xs ! i)) f xs = Some (xs[i := f (xs ! i)])"
proof (induction xs arbitrary: i)
  case (Cons x xs)
  then show ?case by (cases i) (auto simp: nth_eq_iff_index_eq dest: nth_mem)
qed simp

lemma set_paused_nth:
  assumes "distinct (map (ss_strategy_id \<circ> sl_stats) slots)" "i < length slots"
  shows "set_paused p (ss_strategy_id (sl_stats (slots ! i))) slots =
    (True, slots[i := (slots ! i)\<lparr>sl_stats := (sl_stats (slots ! i))\<lparr>ss_paused := p\<rparr>\<rparr>])"
  using update_first_distinct [OF assms, of "\<lambda>slot. slot\<lparr>sl_stats := (sl_stats slot)\<lparr>ss_paused := p\<rparr>\<rparr>"]
  by (simp add: set_paused_def)

lemma slot_run_id: "ss_strategy_id (sl_stats (slot_run on_ev xs slot)) = ss_strategy_id (sl_stats slot)"
proof (induction xs arbitrary: slot)
  case (Cons x xs)
  obtain e ctx where x: "x = (e, ctx)" by force
  show ?case by (simp add: x Cons.IH slot_on_event_def Let_def split: prod.splits option.splits)
qed simp

text \<open>
  A paused strategy sees nothing: when strategy ids are distinct, pausing a running strategy,
  handling any events and resuming it leaves the strategy and its statistics exactly as they were before
  the pause, while every other slot has run as usual; the pause is visible to \<open>is_paused\<close> meanwhile.
\<close>

theorem pause_resume_isolates:
  assumes "distinct (map (ss_strategy_id \<circ> sl_stats) slots)" "i < length slots" "\<not> ss_paused (sl_stats (slots ! i))"
  shows "let sid = ss_strategy_id (sl_stats (slots ! i));
      paused = snd (pause_strategy sid slots);
      after = snd (coordinator_run on_ev xs paused)
    in fst (pause_strategy sid slots) \<and> is_paused sid paused \<and> is_paused sid after \<and>
       resume_strategy sid after = (True, (map (slot_run on_ev xs) slots)[i := slots ! i])"
proof -
  define sid where "sid = ss_strategy_id (sl_stats (slots ! i))"
  define stopped where "stopped = (slots ! i)\<lparr>sl_stats := (sl_stats (slots ! i))\<lparr>ss_paused := True\<rparr>\<rparr>"
  have pause: "pause_strategy sid slots = (True, slots[i := stopped])"
    using set_paused_nth [OF assms(1,2), of True] by (simp add: pause_strategy_def sid_def stopped_def)
  have ids: "map (ss_strategy_id \<circ> sl_stats) (slots[i := stopped]) = map (ss_strategy_id \<circ> sl_stats) slots"
    using assms(2) by (auto intro!: nth_equalityI simp: nth_list_update stopped_def)
  have run: "snd (coordinator_run on_ev xs (slots[i := stopped])) = (map (slot_run on_ev xs) slots)[i := stopped]"
    using slot_run_paused [of stopped on_ev xs] by (simp add: coordinator_run_slots map_update stopped_def)
  have ids': "map (ss_strategy_id \<circ> sl_stats) ((map (slot_run on_ev xs) slots)[i := stopped]) = map (ss_strategy_id \<circ> sl_stats) slots"
    using assms(2) by (auto intro!: nth_equalityI simp: nth_list_update stopped_def slot_run_id)
  have found: "is_paused sid zs" if "map (ss_strategy_id \<circ> sl_stats) zs = map (ss_strategy_id \<circ> sl_stats) slots" "zs ! i = stopped" for zs
  proof -
    have len: "length zs = length slots" using that(1) by (metis length_map)
    have d: "distinct (map (\<lambda>slot. ss_strategy_id (sl_stats slot)) zs)" using assms(1) that(1) by (simp add: comp_def)
    have "find (\<lambda>slot. ss_strategy_id (sl_stats slot) = sid) zs = Some stopped"
      unfolding find_Some_iff
    proof (intro exI conjI allI impI)
      show "i < length zs" using len assms(2) by simp
      show "ss_strategy_id (sl_stats (zs ! i)) = sid" using that(2) by (simp add: stopped_def sid_def)
      show "stopped = zs ! i" using that(2) by simp
      fix j assume "j < i"
      then have "ss_strategy_id (sl_stats (zs ! j)) \<noteq> ss_strategy_id (sl_stats (zs ! i))"
        using d len assms(2) nth_eq_iff_index_eq [OF d, of j i] by simp
      then show "ss_strategy_id (sl_stats (zs ! j)) \<noteq> sid" using that(2) by (simp add: stopped_def sid_def)
    qed
    then show ?thesis by (simp add: is_paused_def stopped_def)
  qed
  have same: "(slots ! i)\<lparr>sl_stats := (sl_stats (slots ! i))\<lparr>ss_paused := False\<rparr>\<rparr> = slots ! i"
    using assms(3) by (cases "slots ! i") (auto intro: strategy_runtime_stats.equality)
  have "resume_strategy sid ((map (slot_run on_ev xs) slots)[i := stopped]) = (True, (map (slot_run on_ev xs) slots)[i := slots ! i])"
    using set_paused_nth [of "(map (slot_run on_ev xs) slots)[i := stopped]" i False] assms ids'
    by (simp add: resume_strategy_def sid_def stopped_def same)
  then show ?thesis
    using pause run found [OF ids] found [OF ids'] assms(2)
    by (simp add: Let_def flip: sid_def)
qed

definition sample_threshold :: strategy where
  "sample_threshold = Sample_threshold (sample_threshold_new
     \<lparr>st_strategy_id = ''dip'', st_instrument_id = ''BTC-USD'',
      st_instrument = default_instrument\<lparr>instrument_id := ''BTC-USD'', base_asset := ''BTC'', quote_asset := ''USD''\<rparr>,
      st_trigger_price = Fin 100, st_order_quantity = Fin 2, st_side = Buy\<rparr>)"

definition sample_spread :: strategy where
  "sample_spread = Spread_capture (spread_capture_new
     \<lparr>sc_strategy_id = ''spread'', sc_instrument = default_instrument\<lparr>instrument_id := ''BTC-USD''\<rparr>,
      sc_min_spread = 1, sc_order_quantity = Fin 3, sc_side = Sell\<rparr>)"

definition sample_slots :: "strategy strategy_coordinator" where
  "sample_slots = add_strategy strategy_id (Some sample_spread) (add_strategy strategy_id (Some sample_threshold) [])"

definition sample_timeline :: timeline where
  "sample_timeline = [(MarketEvent (sample_quote 5 (Fin 99)), \<lparr>sx_market_state_store = market_apply (sample_quote 5 (Fin 99)) Map.empty, sx_now_ms = 5\<rparr>)]"

theorem pause_resume_isolates_witness:
  "let paused = snd (pause_strategy ''dip'' sample_slots);
       after = snd (coordinator_run strategy_on_event sample_timeline paused)
   in fst (pause_strategy ''dip'' sample_slots) \<and> is_paused ''dip'' paused \<and> is_paused ''dip'' after \<and>
      resume_strategy ''dip'' after = (True, (map (slot_run strategy_on_event sample_timeline) sample_slots)[0 := sample_slots ! 0])"
proof -
  have "distinct (map (ss_strategy_id \<circ> sl_stats) sample_slots)" "0 < length sample_slots"
    "\<not> ss_paused (sl_stats (sample_slots ! 0))" "ss_strategy_id (sl_stats (sample_slots ! 0)) = ''dip''"
    by (simp_all add: sample_slots_def add_strategy_def sample_threshold_def sample_spread_def sample_threshold_new_def
        spread_capture_new_def default_stats_def)
  then show ?thesis
    using pause_resume_isolates [of sample_slots 0 strategy_on_event sample_timeline] by (simp add: Let_def)
qed

end
