(* ===== verification/Kafka_Wire.thy ===== *)
theory Kafka_Wire
  imports Cpp_Format Ingestion
begin

section \<open>Transaction commands on the wire\<close>

text \<open>
  The key-value payload of \<open>src/infrastructure/kafka_transaction_producer.cpp\<close>, its parser and the
  polling loop of \<open>src/infrastructure/kafka_transaction_consumer.cpp\<close>, and the JSON-line parser that feeds
  the producer in \<open>src/app/transaction_publisher_application.cpp\<close>. The low-level Kafka client is
  librdkafka: it is a parameter, two actions on its state.
\<close>

subsection \<open>Payloads\<close>

record raw_kafka_message =
  rk_topic :: string
  rk_partition :: int
  rk_offset :: int64
  rk_payload :: string

definition add_token :: "string \<Rightarrow> (string \<rightharpoonup> string) \<Rightarrow> (string \<rightharpoonup> string)" where
  "add_token token fs =
     (if token = [] then fs
      else case split_at_char CHR ''='' token of None \<Rightarrow> fs | Some (k, v) \<Rightarrow> fs(k \<mapsto> v))"

definition parse_key_value_payload :: "string \<Rightarrow> (string \<rightharpoonup> string)" where
  "parse_key_value_payload payload = fold add_token (getline_split CHR '';'' payload) Map.empty"

definition parse_raw_message :: "raw_kafka_message \<Rightarrow> transaction_command option" where
  "parse_raw_message msg =
     (let fs = parse_key_value_payload (rk_payload msg)
      in case (fs ''transaction_id'', fs ''user_id'', fs ''account_id'', fs ''command_type'',
               fs ''instrument_symbol'', fs ''quantity'') of
           (Some transaction_id, Some user_id, Some account_id, Some command_type, Some instrument_symbol, Some quantity) \<Rightarrow>
             (case stod quantity of Inl _ \<Rightarrow> None
              | Inr q \<Rightarrow>
                let command = \<lparr>tx_transaction_id = transaction_id, tx_user_id = user_id, tx_account_id = account_id,
                      tx_command_type = command_type, tx_instrument_symbol = instrument_symbol, tx_quantity = q, tx_price = None,
                      tx_kafka_topic = rk_topic msg, tx_kafka_partition = rk_partition msg, tx_kafka_offset = rk_offset msg\<rparr>
                in case fs ''price'' of
                     None \<Rightarrow> Some command
                   | Some price \<Rightarrow>
                     if price = [] then Some command
                     else case stod price of Inl _ \<Rightarrow> None | Inr p \<Rightarrow> Some (command\<lparr>tx_price := Some p\<rparr>))
         | _ \<Rightarrow> None)"

definition serialize_transaction_command_payload :: "transaction_command \<Rightarrow> string" where
  "serialize_transaction_command_payload c =
     ''transaction_id='' @ tx_transaction_id c @ '';user_id='' @ tx_user_id c @ '';account_id='' @ tx_account_id c @
     '';command_type='' @ tx_command_type c @ '';instrument_symbol='' @ tx_instrument_symbol c @
     '';quantity='' @ show_double (tx_quantity c) @
     (case tx_price c of None \<Rightarrow> [] | Some p \<Rightarrow> '';price='' @ show_double p)"

subsection \<open>Polling\<close>

text \<open>
  The loop has no bound of its own: a client that keeps delivering foreign or malformed messages keeps it
  going. The outer \<open>None\<close> is that it does not return; the action inside may throw.
\<close>

partial_function (option) kafka_poll ::
  "(raw_kafka_message option, 'c) action \<Rightarrow> (string \<Rightarrow> int \<Rightarrow> int64 \<Rightarrow> (unit, 'c) action) \<Rightarrow> string \<Rightarrow> 'c \<Rightarrow>
   (transaction_command option option \<times> 'c) option" where
  "kafka_poll client_poll client_commit topic c =
     (case client_poll c of (None, c1) \<Rightarrow> Some (None, c1)
      | (Some None, c1) \<Rightarrow> Some (Some None, c1)
      | (Some (Some msg), c1) \<Rightarrow>
        if rk_topic msg = topic \<and> parse_raw_message msg \<noteq> None then Some (Some (parse_raw_message msg), c1)
        else (case client_commit (rk_topic msg) (rk_partition msg) (rk_offset msg) c1 of (None, c2) \<Rightarrow> Some (None, c2)
              | (Some _, c2) \<Rightarrow> kafka_poll client_poll client_commit topic c2))"

definition kafka_commit :: "(string \<Rightarrow> int \<Rightarrow> int64 \<Rightarrow> (unit, 'c) action) \<Rightarrow> transaction_command \<Rightarrow> (unit, 'c) action" where
  "kafka_commit client_commit command = client_commit (tx_kafka_topic command) (tx_kafka_partition command) (tx_kafka_offset command)"

subsection \<open>JSON lines\<close>

definition json_step :: "string \<Rightarrow> (string \<rightharpoonup> string) \<Rightarrow> (string \<times> (string \<rightharpoonup> string)) option" where
  "json_step rest fs =
     (case rest of [] \<Rightarrow> None | q # after_quote \<Rightarrow>
      if q \<noteq> CHR 0x22 then None
      else case split_at_char CHR 0x22 after_quote of None \<Rightarrow> None
      | Some (key, after_key) \<Rightarrow>
        (case dropWhile is_space after_key of [] \<Rightarrow> None
         | colon # after_colon \<Rightarrow>
           if colon \<noteq> CHR '':'' then None
           else (case dropWhile is_space after_colon of [] \<Rightarrow> None
             | v # vs \<Rightarrow>
               let emplace = (\<lambda>value. if fs key = None then fs(key \<mapsto> value) else fs)
               in if v = CHR 0x22 then map_option (\<lambda>(value, r). (r, emplace value)) (split_at_char CHR 0x22 vs)
                  else if \<forall>c \<in> set (v # vs). c \<noteq> CHR '','' \<and> c \<noteq> CHR ''}'' then None
                  else Some (dropWhile (\<lambda>c. c \<noteq> CHR '','' \<and> c \<noteq> CHR ''}'') (v # vs),
                             emplace (trim (takeWhile (\<lambda>c. c \<noteq> CHR '','' \<and> c \<noteq> CHR ''}'') (v # vs)))))))"

lemma split_at_char_length: "split_at_char d s = Some (x, y) \<Longrightarrow> length s = Suc (length x + length y)"
proof -
  assume "split_at_char d s = Some (x, y)"
  then have d: "d \<in> set s" and x: "x = takeWhile (\<lambda>c. c \<noteq> d) s" and y: "y = tl (dropWhile (\<lambda>c. c \<noteq> d) s)"
    by (auto simp: split_at_char_def split: if_splits)
  have "dropWhile (\<lambda>c. c \<noteq> d) s \<noteq> []" using d by (simp add: dropWhile_eq_Nil_conv)
  then have "length (dropWhile (\<lambda>c. c \<noteq> d) s) = Suc (length y)" by (simp add: y)
  moreover have "length s = length x + length (dropWhile (\<lambda>c. c \<noteq> d) s)"
    unfolding x by (metis length_append takeWhile_dropWhile_id)
  ultimately show ?thesis by simp
qed

lemma json_step_shorter: "json_step rest fs = Some (r, f) \<Longrightarrow> length r < length rest"
proof -
  assume step: "json_step rest fs = Some (r, f)"
  obtain t where rest: "rest = CHR 0x22 # t" using step by (auto simp: json_step_def split: list.splits if_splits)
  obtain key a where a: "split_at_char CHR 0x22 t = Some (key, a)" using step
    by (auto simp: json_step_def rest split: option.splits)
  obtain b where b: "dropWhile is_space a = CHR '':'' # b" using step
    by (auto simp: json_step_def rest a split: list.splits if_splits)
  obtain v vs where v: "dropWhile is_space b = v # vs" using step
    by (auto simp: json_step_def rest a b split: list.splits if_splits)
  have "length (CHR '':'' # b) \<le> length a" unfolding b [symmetric] by (rule length_dropWhile_le)
  moreover have "length (v # vs) \<le> length b" unfolding v [symmetric] by (rule length_dropWhile_le)
  moreover have "length t = Suc (length key + length a)" using a by (rule split_at_char_length)
  moreover have "length r \<le> length (v # vs)"
    using step split_at_char_length [of "CHR 0x22" vs] length_dropWhile_le [of "\<lambda>c. c \<noteq> CHR '','' \<and> c \<noteq> CHR ''}''" "v # vs"]
    by (fastforce simp: json_step_def rest a b v Let_def split: if_splits)
  ultimately show ?thesis by (simp add: rest)
qed

function json_fields :: "string \<Rightarrow> (string \<rightharpoonup> string) \<Rightarrow> (string \<rightharpoonup> string) option" where
  "json_fields cursor fs =
     (if length cursor \<le> 1 then Some fs
      else let rest = dropWhile (\<lambda>c. is_space c \<or> c = CHR '','') cursor
           in if length rest \<le> 1 then Some fs
              else case json_step rest fs of None \<Rightarrow> None
                   | Some (cursor', fs1) \<Rightarrow> json_fields cursor' fs1)"
  by pat_completeness auto
termination
proof (relation "measure (\<lambda>(cursor, _). length cursor)")
  fix cursor rest :: string and fs step cursor' fs1
  assume "rest = dropWhile (\<lambda>c. is_space c \<or> c = CHR '','') cursor" "json_step rest fs = Some step" "(cursor', fs1) = step"
  then have "length cursor' < length rest" "length rest \<le> length cursor"
    using json_step_shorter [of rest fs cursor' fs1] by (simp_all add: length_dropWhile_le)
  then show "((cursor', fs1), cursor, fs) \<in> measure (\<lambda>(cursor, _). length cursor)" by simp
qed simp

definition parse_flat_json_object :: "string \<Rightarrow> (string \<rightharpoonup> string) option" where
  "parse_flat_json_object line =
     (let json = trim line
      in if json = [] then None
         else if hd json \<noteq> CHR ''{'' \<or> last json \<noteq> CHR ''}'' then None
         else json_fields (tl json) Map.empty)"

definition parse_json_transaction_command_line :: "string \<Rightarrow> transaction_command option" where
  "parse_json_transaction_command_line line =
     (case parse_flat_json_object line of None \<Rightarrow> None
      | Some fs \<Rightarrow>
        (case (fs ''transaction_id'', fs ''user_id'', fs ''account_id'', fs ''command_type'',
               fs ''instrument_symbol'', fs ''quantity'') of
           (Some transaction_id, Some user_id, Some account_id, Some command_type, Some instrument_symbol, Some quantity) \<Rightarrow>
             (case stod quantity of Inl _ \<Rightarrow> None
              | Inr q \<Rightarrow>
                let command = \<lparr>tx_transaction_id = transaction_id, tx_user_id = user_id, tx_account_id = account_id,
                      tx_command_type = command_type, tx_instrument_symbol = instrument_symbol, tx_quantity = q, tx_price = None,
                      tx_kafka_topic = '''', tx_kafka_partition = 0, tx_kafka_offset = 0\<rparr>
                in case fs ''price'' of
                     None \<Rightarrow> Some command
                   | Some price \<Rightarrow>
                     if price = [] \<or> price = ''null'' then Some command
                     else case stod price of Inl _ \<Rightarrow> None | Inr p \<Rightarrow> Some (command\<lparr>tx_price := Some p\<rparr>))
         | _ \<Rightarrow> None))"

subsection \<open>What is sent is what is received\<close>

definition payload_tokens :: "transaction_command \<Rightarrow> string list" where
  "payload_tokens c =
     [''transaction_id='' @ tx_transaction_id c, ''user_id='' @ tx_user_id c, ''account_id='' @ tx_account_id c,
      ''command_type='' @ tx_command_type c, ''instrument_symbol='' @ tx_instrument_symbol c,
      ''quantity='' @ show_double (tx_quantity c)] @
     (case tx_price c of None \<Rightarrow> [] | Some p \<Rightarrow> [''price='' @ show_double p])"

lemma serialize_join: "serialize_transaction_command_payload c = join_with CHR '';'' (payload_tokens c)"
  by (simp add: serialize_transaction_command_payload_def payload_tokens_def split: option.split)

text \<open>A command travels unchanged when its strings have no semicolon and its numbers at most six significant digits.\<close>

definition wire_safe :: "transaction_command \<Rightarrow> bool" where
  "wire_safe c \<longleftrightarrow>
     (\<forall>s \<in> set [tx_transaction_id c, tx_user_id c, tx_account_id c, tx_command_type c, tx_instrument_symbol c]. CHR '';'' \<notin> set s) \<and>
     six_digit_decimal (tx_quantity c) \<and> (case tx_price c of None \<Rightarrow> True | Some p \<Rightarrow> six_digit_decimal p)"

lemma show_double_no_semicolon: "CHR '';'' \<notin> set (show_double x)"
  using show_double_plain [of "CHR '';''" 6 x] plain_not_separator [of "CHR '';''"] by blast

lemma add_token_key: "CHR ''='' \<notin> set k \<Longrightarrow> add_token (k @ CHR ''='' # v) fs = fs(k \<mapsto> v)"
  by (simp add: add_token_def split_at_char_append)

lemma add_token_keys:
  "add_token (''transaction_id='' @ v) fs = fs(''transaction_id'' \<mapsto> v)"
  "add_token (''user_id='' @ v) fs = fs(''user_id'' \<mapsto> v)"
  "add_token (''account_id='' @ v) fs = fs(''account_id'' \<mapsto> v)"
  "add_token (''command_type='' @ v) fs = fs(''command_type'' \<mapsto> v)"
  "add_token (''instrument_symbol='' @ v) fs = fs(''instrument_symbol'' \<mapsto> v)"
  "add_token (''quantity='' @ v) fs = fs(''quantity'' \<mapsto> v)"
  "add_token (''price='' @ v) fs = fs(''price'' \<mapsto> v)"
  using add_token_key [of "''transaction_id''" v fs] add_token_key [of "''user_id''" v fs] add_token_key [of "''account_id''" v fs]
    add_token_key [of "''command_type''" v fs] add_token_key [of "''instrument_symbol''" v fs] add_token_key [of "''quantity''" v fs]
    add_token_key [of "''price''" v fs]
  by simp_all

lemma parse_tokens:
  assumes "\<forall>t \<in> set tokens. CHR '';'' \<notin> set t" "tokens \<noteq> []" "last tokens \<noteq> []"
  shows "parse_key_value_payload (join_with CHR '';'' tokens) = fold add_token tokens Map.empty"
  using assms by (simp add: parse_key_value_payload_def getline_split_join)

lemma parse_serialized:
  assumes "wire_safe c"
  shows "parse_raw_message \<lparr>rk_topic = t, rk_partition = p, rk_offset = off, rk_payload = serialize_transaction_command_payload c\<rparr> =
    Some (c\<lparr>tx_kafka_topic := t, tx_kafka_partition := p, tx_kafka_offset := off\<rparr>)"
proof -
  have q: "stod (show_double (tx_quantity c)) = Inr (tx_quantity c)" using assms by (simp add: wire_safe_def stod_show_double)
  have last: "last (payload_tokens c) \<noteq> []" by (simp add: payload_tokens_def split: option.split)
  have "\<forall>s \<in> set (payload_tokens c). CHR '';'' \<notin> set s"
    using assms by (cases "tx_price c") (simp_all add: payload_tokens_def wire_safe_def show_double_no_semicolon)
  then have fs: "parse_key_value_payload (serialize_transaction_command_payload c) = fold add_token (payload_tokens c) Map.empty"
    unfolding serialize_join using last by (intro parse_tokens) (auto simp: payload_tokens_def)
  show ?thesis
  proof (cases "tx_price c")
    case None
    then show ?thesis by (simp add: parse_raw_message_def fs payload_tokens_def add_token_keys q del: append_Cons)
  next
    case (Some x)
    have "stod (show_double x) = Inr x" "show_double x \<noteq> []"
      using assms Some by (simp_all add: wire_safe_def stod_show_double show_double_not_Nil)
    then show ?thesis
      using Some by (simp add: parse_raw_message_def fs payload_tokens_def add_token_keys q del: append_Cons)
  qed
qed

text \<open>
  Round trip over Kafka: the payload the producer writes for a command is parsed by the consumer into
  the same command, stamped with the topic, partition and offset it was read from, provided the strings
  contain no semicolon and quantity and price are decimals of at most six significant digits.
\<close>

theorem wire_roundtrip:
  assumes "wire_safe c"
  shows "parse_raw_message \<lparr>rk_topic = t, rk_partition = p, rk_offset = off, rk_payload = serialize_transaction_command_payload c\<rparr> =
    Some (c\<lparr>tx_kafka_topic := t, tx_kafka_partition := p, tx_kafka_offset := off\<rparr>)"
  using assms by (rule parse_serialized)

definition sample_wire :: transaction_command where
  "sample_wire = (sample_command ''t1'' (Fin 12))\<lparr>tx_price := Some (Fin 99)\<rparr>"

theorem wire_roundtrip_witness:
  "parse_raw_message \<lparr>rk_topic = ''orders'', rk_partition = 2, rk_offset = 41, rk_payload = serialize_transaction_command_payload sample_wire\<rparr> =
    Some (sample_wire\<lparr>tx_kafka_topic := ''orders'', tx_kafka_partition := 2, tx_kafka_offset := 41\<rparr>)"
  by (rule wire_roundtrip) (simp add: wire_safe_def sample_wire_def sample_command_def six_digit_numeral)

text \<open>
  Nothing is escaped: an account id that contains a semicolon injects fields. A market order, without
  a price, whose account id ends in ";price=" and a number is received as an order of the shortened
  account at that price.
\<close>

theorem wire_injection:
  assumes "wire_safe (c\<lparr>tx_account_id := a\<rparr>)" "tx_price c = None" "tx_account_id c = a @ '';price='' @ show_double x" "six_digit_decimal x"
  shows "parse_raw_message \<lparr>rk_topic = t, rk_partition = p, rk_offset = off, rk_payload = serialize_transaction_command_payload c\<rparr> =
    Some (c\<lparr>tx_account_id := a, tx_price := Some x, tx_kafka_topic := t, tx_kafka_partition := p, tx_kafka_offset := off\<rparr>)"
proof -
  define tokens where "tokens = [''transaction_id='' @ tx_transaction_id c, ''user_id='' @ tx_user_id c, ''account_id='' @ a,
      ''price='' @ show_double x, ''command_type='' @ tx_command_type c, ''instrument_symbol='' @ tx_instrument_symbol c,
      ''quantity='' @ show_double (tx_quantity c)]"
  have ser: "serialize_transaction_command_payload c = join_with CHR '';'' tokens"
    using assms(2,3) by (simp add: serialize_transaction_command_payload_def tokens_def)
  have "\<forall>s \<in> set tokens. CHR '';'' \<notin> set s"
    using assms(1) by (simp add: tokens_def wire_safe_def show_double_no_semicolon)
  moreover have "tokens \<noteq> []" "last tokens \<noteq> []" by (simp_all add: tokens_def)
  ultimately have fs: "parse_key_value_payload (serialize_transaction_command_payload c) = fold add_token tokens Map.empty"
    unfolding ser by (rule parse_tokens)
  have "stod (show_double (tx_quantity c)) = Inr (tx_quantity c)" "stod (show_double x) = Inr x" "show_double x \<noteq> []"
    using assms(1,4) by (simp_all add: wire_safe_def stod_show_double show_double_not_Nil)
  then show ?thesis
    using assms(2) by (simp add: parse_raw_message_def fs tokens_def add_token_keys del: append_Cons)
qed

theorem wire_injection_witness:
  "parse_raw_message \<lparr>rk_topic = ''orders'', rk_partition = 0, rk_offset = 1, rk_payload = serialize_transaction_command_payload
      ((sample_command ''t1'' (Fin 12))\<lparr>tx_account_id := ''acc'' @ '';price='' @ show_double (Fin 5)\<rparr>)\<rparr> =
    Some ((sample_command ''t1'' (Fin 12))\<lparr>tx_account_id := ''acc'', tx_price := Some (Fin 5), tx_kafka_topic := ''orders'',
      tx_kafka_partition := 0, tx_kafka_offset := 1\<rparr>)"
  using wire_injection [of "''acc''" "(sample_command ''t1'' (Fin 12))\<lparr>tx_account_id := ''acc'' @ '';price='' @ show_double (Fin 5)\<rparr>" "Fin 5"
      "''orders''" 0 1]
  by (simp add: wire_safe_def sample_command_def six_digit_numeral)

subsection \<open>Polling a client with finitely many messages\<close>

text \<open>
  What the loop relies on of a Kafka client: it delivers the messages it holds in order, reports when it
  has none, and commits what it is asked to. \<open>held\<close> and \<open>acked\<close> are the client's undelivered messages and
  committed coordinates.
\<close>

definition reliable_client ::
  "(raw_kafka_message option, 'c) action \<Rightarrow> (string \<Rightarrow> int \<Rightarrow> int64 \<Rightarrow> (unit, 'c) action) \<Rightarrow>
   ('c \<Rightarrow> raw_kafka_message list) \<Rightarrow> ('c \<Rightarrow> (string \<times> int \<times> int64) list) \<Rightarrow> bool" where
  "reliable_client client_poll client_commit held acked \<longleftrightarrow>
     (\<forall>c. held c = [] \<longrightarrow> client_poll c = (Some None, c)) \<and>
     (\<forall>c m ms. held c = m # ms \<longrightarrow> (\<exists>c'. client_poll c = (Some (Some m), c') \<and> held c' = ms \<and> acked c' = acked c)) \<and>
     (\<forall>c t p off. \<exists>c'. client_commit t p off c = (Some (), c') \<and> held c' = held c \<and> acked c' = acked c @ [(t, p, off)])"

definition acceptable :: "string \<Rightarrow> raw_kafka_message \<Rightarrow> bool" where
  "acceptable topic m \<longleftrightarrow> rk_topic m = topic \<and> parse_raw_message m \<noteq> None"

definition coordinates :: "raw_kafka_message \<Rightarrow> string \<times> int \<times> int64" where
  "coordinates m = (rk_topic m, rk_partition m, rk_offset m)"

text \<open>
  C33. The polling loop returns: with finitely many messages held, it skips exactly the leading messages of
  other topics or with malformed payloads, commits each of them so that they are not read again, and
  returns the first acceptable message as a command, uncommitted; or nothing when none is left.
\<close>

theorem kafka_poll_terminates:
  assumes "reliable_client client_poll client_commit held acked"
  shows "\<exists>c'. kafka_poll client_poll client_commit topic c =
      Some (Some (case dropWhile (\<lambda>m. \<not> acceptable topic m) (held c) of [] \<Rightarrow> None | m # _ \<Rightarrow> parse_raw_message m), c') \<and>
    acked c' = acked c @ map coordinates (takeWhile (\<lambda>m. \<not> acceptable topic m) (held c)) \<and>
    held c' = tl (dropWhile (\<lambda>m. \<not> acceptable topic m) (held c))"
proof (induction "held c" arbitrary: c)
  case Nil
  then have "client_poll c = (Some None, c)" using assms by (simp add: reliable_client_def)
  then show ?case using Nil [symmetric] by (subst kafka_poll.simps) simp
next
  case (Cons m ms)
  obtain c1 where c1: "client_poll c = (Some (Some m), c1)" "held c1 = ms" "acked c1 = acked c"
    using assms Cons.hyps(2) unfolding reliable_client_def by metis
  show ?case
  proof (cases "acceptable topic m")
    case True
    then show ?thesis
      using c1 Cons.hyps(2) [symmetric] by (subst kafka_poll.simps) (auto simp: acceptable_def)
  next
    case False
    obtain c2 where c2: "client_commit (rk_topic m) (rk_partition m) (rk_offset m) c1 = (Some (), c2)" "held c2 = ms"
      "acked c2 = acked c @ [coordinates m]"
      using assms c1(2,3) unfolding reliable_client_def coordinates_def by metis
    have "kafka_poll client_poll client_commit topic c = kafka_poll client_poll client_commit topic c2"
      using c1(1) c2(1) False by (subst kafka_poll.simps) (auto simp: acceptable_def)
    then show ?thesis using Cons.hyps(1) [of c2] c2 False Cons.hyps(2) [symmetric] by simp
  qed
qed

text \<open>A client that is a list of messages and a list of commits, as the hypothesis describes it.\<close>

definition list_client_poll :: "(raw_kafka_message option, raw_kafka_message list \<times> (string \<times> int \<times> int64) list) action" where
  "list_client_poll c = (case fst c of [] \<Rightarrow> (Some None, c) | m # ms \<Rightarrow> (Some (Some m), (ms, snd c)))"

definition list_client_commit :: "string \<Rightarrow> int \<Rightarrow> int64 \<Rightarrow> (unit, raw_kafka_message list \<times> (string \<times> int \<times> int64) list) action" where
  "list_client_commit t p off c = (Some (), (fst c, snd c @ [(t, p, off)]))"

theorem kafka_poll_terminates_witness:
  "\<exists>c'. kafka_poll list_client_poll list_client_commit ''orders''
      ([\<lparr>rk_topic = ''other'', rk_partition = 0, rk_offset = 3, rk_payload = ''x''\<rparr>], []) = Some (Some None, c') \<and>
    snd c' = [(''other'', 0, 3)] \<and> fst c' = []"
proof -
  have "reliable_client list_client_poll list_client_commit fst snd"
    by (auto simp: reliable_client_def list_client_poll_def list_client_commit_def)
  from kafka_poll_terminates [OF this, of "''orders''" "([\<lparr>rk_topic = ''other'', rk_partition = 0, rk_offset = 3, rk_payload = ''x''\<rparr>], [])"]
  show ?thesis by (simp add: acceptable_def coordinates_def)
qed

end
