(* ===== verification/Exchange_Feed.thy ===== *)
theory Exchange_Feed
  imports Cpp_Format Market_Data Actions
begin

section \<open>Exchange market data: message normalization and the feed controller\<close>

text \<open>
  \<open>src/exchange/exchange_market_data_adapter.cpp\<close>, the market-data half of
  \<open>src/exchange/exchange_router.cpp\<close> and \<open>src/exchange/live_market_data_feed.cpp\<close>. The transport session
  of a live feed is an interface whose calls may throw; the repository's own implementation is the mock
  session that counts calls.
\<close>

subsection \<open>Normalizing messages\<close>

datatype exchange_adapter_error_code =
    Malformed_payload | Missing_required_field | Invalid_numeric_field | Unsupported_message_type
  | Symbol_mismatch | Rejected_by_exchange | Transport_failure | Unknown_error

record exchange_adapter_error =
  ae_code :: exchange_adapter_error_code
  ae_message :: string
  ae_retryable :: bool

definition adapter_error :: "exchange_adapter_error_code \<Rightarrow> string \<Rightarrow> exchange_adapter_error + market_event" where
  "adapter_error code msg = Inl \<lparr>ae_code = code, ae_message = msg, ae_retryable = False\<rparr>"

text \<open>A segment needs a key and a value; the first binding of a key stays, as \<open>emplace\<close> has it.\<close>

fun parse_segments :: "string list \<Rightarrow> (string \<rightharpoonup> string) \<Rightarrow> (string \<rightharpoonup> string) option" where
  "parse_segments [] fs = Some fs"
| "parse_segments (token # tokens) fs =
     (if token = [] then parse_segments tokens fs
      else case split_at_char CHR ''='' token of None \<Rightarrow> None
      | Some (k, v) \<Rightarrow>
        if k = [] \<or> v = [] then None
        else parse_segments tokens (if fs k = None then fs(k \<mapsto> v) else fs))"

definition parse_fields :: "string \<Rightarrow> (string \<rightharpoonup> string) option" where
  "parse_fields raw = parse_segments (getline_split CHR '';'' raw) Map.empty"

definition parse_int64 :: "(string \<rightharpoonup> string) \<Rightarrow> string \<Rightarrow> int64 option" where
  "parse_int64 fs key = (case fs key of None \<Rightarrow> None | Some v \<Rightarrow> (case stoll v of Inl _ \<Rightarrow> None | Inr n \<Rightarrow> Some n))"

definition parse_optional_double :: "(string \<rightharpoonup> string) \<Rightarrow> string \<Rightarrow> bool \<Rightarrow> double option \<times> bool" where
  "parse_optional_double fs key parse_error =
     (case fs key of None \<Rightarrow> (None, parse_error)
      | Some v \<Rightarrow> (case stod v of Inl _ \<Rightarrow> (None, True) | Inr x \<Rightarrow> (Some x, parse_error)))"

definition market_type_of :: "string \<Rightarrow> market_event_type option" where
  "market_type_of s = (if s = ''trade'' then Some Trade else if s = ''ticker'' then Some Ticker
     else if s = ''book_snapshot'' then Some Book_snapshot else None)"

definition value_or :: "double option \<Rightarrow> double \<Rightarrow> double" where
  "value_or x d = (case x of None \<Rightarrow> d | Some v \<Rightarrow> v)"

definition normalize :: "instrument \<Rightarrow> string \<Rightarrow> int64 \<Rightarrow> int64 \<Rightarrow> exchange_adapter_error + market_event" where
  "normalize instr raw receive_timestamp process_timestamp =
     (case parse_fields raw of None \<Rightarrow> adapter_error Malformed_payload ''malformed market payload''
      | Some fs \<Rightarrow>
        (case (fs ''type'', fs ''event_id'', fs ''symbol'') of
           (Some ty, Some event_id, Some symb) \<Rightarrow>
             if symb \<noteq> symbol instr then adapter_error Symbol_mismatch ''symbol does not match configured instrument''
             else (case market_type_of ty of None \<Rightarrow> adapter_error Unsupported_message_type ''unsupported market message type''
               | Some event_type \<Rightarrow>
                 (case parse_int64 fs ''exchange_ts'' of None \<Rightarrow> adapter_error Missing_required_field ''missing required exchange_ts field''
                  | Some ts \<Rightarrow>
                    let (price, e1) = parse_optional_double fs ''price'' False;
                        (quantity, e2) = parse_optional_double fs ''quantity'' e1;
                        (bid, e3) = parse_optional_double fs ''bid'' e2;
                        (ask, e4) = parse_optional_double fs ''ask'' e3
                    in if e4 then adapter_error Invalid_numeric_field ''invalid numeric market payload field''
                       else if event_type = Trade \<and> (price = None \<or> quantity = None)
                       then adapter_error Missing_required_field ''trade payload requires price and quantity''
                       else Inr \<lparr>me_event_id = event_id, me_type = event_type, me_instrument = instr,
                              me_price = value_or price 0, me_quantity = value_or quantity 0, me_bid_price = bid, me_ask_price = ask,
                              me_bid_levels = [], me_ask_levels = [], me_exchange_timestamp = ts,
                              me_receive_timestamp = receive_timestamp, me_process_timestamp = process_timestamp\<rparr>))
         | _ \<Rightarrow> adapter_error Missing_required_field ''missing required market payload field''))"

text \<open>The router over any type of adapters, with their \<open>normalize\<close> as argument.\<close>

definition register_adapter :: "string \<Rightarrow> 'a option \<Rightarrow> (string, 'a) umap \<Rightarrow> (string, 'a) umap" where
  "register_adapter name adapter adapters =
     (case adapter of None \<Rightarrow> adapters | Some a \<Rightarrow> if name = [] then adapters else AList.update name a adapters)"

definition route_normalize ::
  "('a \<Rightarrow> string \<Rightarrow> int64 \<Rightarrow> int64 \<Rightarrow> exchange_adapter_error + market_event) \<Rightarrow> (string, 'a) umap \<Rightarrow> string \<Rightarrow> string \<Rightarrow> int64 \<Rightarrow> int64 \<Rightarrow>
   exchange_adapter_error + market_event" where
  "route_normalize norm_of adapters name raw receive_timestamp process_timestamp =
     (case map_of adapters name of
        None \<Rightarrow> adapter_error Unknown_error ''no market-data adapter registered for exchange''
      | Some a \<Rightarrow> norm_of a raw receive_timestamp process_timestamp)"

definition registered_exchanges :: "(string, 'a) umap \<Rightarrow> string list" where
  "registered_exchanges adapters = sort (map fst adapters)"

subsection \<open>Reconnecting a feed\<close>

record 'x feed_session_ports =
  fp_connect :: "(unit, 'x) action"
  fp_disconnect :: "(unit, 'x) action"
  fp_subscribe :: "string list \<Rightarrow> (unit, 'x) action"

record 'x feed_controller =
  fc_session :: 'x
  fc_symbols :: "string list"
  fc_max_reconnect_attempts :: nat
  fc_reconnect_attempts :: nat
  fc_connected :: bool
  fc_metrics :: "metrics option"

abbreviation on_session :: "('a, 'x) action \<Rightarrow> ('a, 'x feed_controller) action" where
  "on_session \<equiv> on_part fc_session (\<lambda>x. fc_session_update (\<lambda>_. x))"

definition feed_count :: "string \<Rightarrow> 'x feed_controller \<Rightarrow> 'x feed_controller" where
  "feed_count name s = s\<lparr>fc_metrics := map_option (increment name 1) (fc_metrics s)\<rparr>"

definition feed_start :: "'x feed_session_ports \<Rightarrow> (unit, 'x feed_controller) action" where
  "feed_start p s =
     bindA (on_session (fp_connect p)) (\<lambda>_.
     bindA (on_session (fp_subscribe p (fc_symbols s))) (\<lambda>_.
     bindA (total (fc_connected_update (\<lambda>_. True))) (\<lambda>_.
     total (feed_count ''market_data_subscribes'' \<circ> feed_count ''market_data_connects'')))) s"

definition handle_disconnect :: "'x feed_session_ports \<Rightarrow> (unit, 'x feed_controller) action" where
  "handle_disconnect p s =
     bindA (total (fc_connected_update (\<lambda>_. False))) (\<lambda>_.
     bindA (on_session (fp_disconnect p)) (\<lambda>_.
     bindA (total (feed_count ''market_data_disconnects'')) (\<lambda>_.
     if fc_max_reconnect_attempts s \<le> fc_reconnect_attempts s then (\<lambda>t. (None, t))
     else
       bindA (total (\<lambda>t. t\<lparr>fc_reconnect_attempts := fc_reconnect_attempts t + 1\<rparr>)) (\<lambda>_.
       bindA (on_session (fp_connect p)) (\<lambda>_.
       bindA (on_session (fp_subscribe p (fc_symbols s))) (\<lambda>_.
       bindA (total (fc_connected_update (\<lambda>_. True))) (\<lambda>_.
       total (feed_count ''market_data_subscribes'' \<circ> feed_count ''market_data_reconnects'')))))))) s"

record mock_feed_session =
  ms_connect_calls :: nat
  ms_disconnect_calls :: nat
  ms_subscribe_calls :: nat
  ms_last_symbols :: "string list"

definition mock_session_ports :: "mock_feed_session feed_session_ports" where
  "mock_session_ports = \<lparr>
     fp_connect = total (\<lambda>m. m\<lparr>ms_connect_calls := ms_connect_calls m + 1\<rparr>),
     fp_disconnect = total (\<lambda>m. m\<lparr>ms_disconnect_calls := ms_disconnect_calls m + 1\<rparr>),
     fp_subscribe = (\<lambda>symbols. total (\<lambda>m. m\<lparr>ms_subscribe_calls := ms_subscribe_calls m + 1, ms_last_symbols := symbols\<rparr>))\<rparr>"

subsection \<open>Messages are understood\<close>

fun market_type_name :: "market_event_type \<Rightarrow> string" where
  "market_type_name Trade = ''trade''"
| "market_type_name Ticker = ''ticker''"
| "market_type_name Book_snapshot = ''book_snapshot''"
| "market_type_name Timer = ''timer''"
| "market_type_name (Unlisted_type n) = ''unlisted''"

definition render_segments :: "market_event \<Rightarrow> string list" where
  "render_segments e =
     (let asks = (case me_ask_price e of None \<Rightarrow> [] | Some x \<Rightarrow> [''ask='' @ show_double x]);
          quotes = (case me_bid_price e of None \<Rightarrow> asks | Some x \<Rightarrow> (''bid='' @ show_double x) # asks)
      in (''type='' @ market_type_name (me_type e)) # (''event_id='' @ me_event_id e) # (''symbol='' @ symbol (me_instrument e)) #
         (''exchange_ts='' @ show_int (me_exchange_timestamp e)) # (''price='' @ show_double (me_price e)) #
         (''quantity='' @ show_double (me_quantity e)) # quotes)"

definition message_safe :: "market_event \<Rightarrow> bool" where
  "message_safe e \<longleftrightarrow> me_type e \<in> {Trade, Ticker, Book_snapshot} \<and>
     me_event_id e \<noteq> [] \<and> CHR '';'' \<notin> set (me_event_id e) \<and>
     symbol (me_instrument e) \<noteq> [] \<and> CHR '';'' \<notin> set (symbol (me_instrument e)) \<and>
     - (2 ^ 63) \<le> me_exchange_timestamp e \<and> me_exchange_timestamp e < 2 ^ 63 \<and>
     six_digit_decimal (me_price e) \<and> six_digit_decimal (me_quantity e) \<and>
     (case me_bid_price e of None \<Rightarrow> True | Some x \<Rightarrow> six_digit_decimal x) \<and>
     (case me_ask_price e of None \<Rightarrow> True | Some x \<Rightarrow> six_digit_decimal x) \<and>
     me_bid_levels e = [] \<and> me_ask_levels e = []"

lemma parse_segment:
  assumes "CHR ''='' \<notin> set k" "k \<noteq> []" "v \<noteq> []"
  shows "parse_segments ((k @ CHR ''='' # v) # tokens) fs = parse_segments tokens (if fs k = None then fs(k \<mapsto> v) else fs)"
  using assms by (simp add: split_at_char_append)

lemma parse_segment_keys:
  assumes "v \<noteq> []"
  shows "parse_segments ((''type='' @ v) # ts) fs = parse_segments ts (if fs ''type'' = None then fs(''type'' \<mapsto> v) else fs)"
    "parse_segments ((''event_id='' @ v) # ts) fs = parse_segments ts (if fs ''event_id'' = None then fs(''event_id'' \<mapsto> v) else fs)"
    "parse_segments ((''symbol='' @ v) # ts) fs = parse_segments ts (if fs ''symbol'' = None then fs(''symbol'' \<mapsto> v) else fs)"
    "parse_segments ((''exchange_ts='' @ v) # ts) fs = parse_segments ts (if fs ''exchange_ts'' = None then fs(''exchange_ts'' \<mapsto> v) else fs)"
    "parse_segments ((''price='' @ v) # ts) fs = parse_segments ts (if fs ''price'' = None then fs(''price'' \<mapsto> v) else fs)"
    "parse_segments ((''quantity='' @ v) # ts) fs = parse_segments ts (if fs ''quantity'' = None then fs(''quantity'' \<mapsto> v) else fs)"
    "parse_segments ((''bid='' @ v) # ts) fs = parse_segments ts (if fs ''bid'' = None then fs(''bid'' \<mapsto> v) else fs)"
    "parse_segments ((''ask='' @ v) # ts) fs = parse_segments ts (if fs ''ask'' = None then fs(''ask'' \<mapsto> v) else fs)"
  using parse_segment [of "''type''" v ts fs] parse_segment [of "''event_id''" v ts fs] parse_segment [of "''symbol''" v ts fs]
    parse_segment [of "''exchange_ts''" v ts fs] parse_segment [of "''price''" v ts fs] parse_segment [of "''quantity''" v ts fs]
    parse_segment [of "''bid''" v ts fs] parse_segment [of "''ask''" v ts fs] assms
  by (simp_all del: parse_segments.simps)

lemma no_semicolon: "CHR '';'' \<notin> set (show_double x)" "CHR '';'' \<notin> set (show_int i)" "CHR '';'' \<notin> set (market_type_name t)"
proof -
  show "CHR '';'' \<notin> set (show_double x)"
    using show_double_plain [of "CHR '';''" 6 x] plain_not_separator [of "CHR '';''"] by blast
  show "CHR '';'' \<notin> set (show_int i)"
    by (auto simp: show_int_def is_digit_def dest: show_nat_digits split: if_splits)
  show "CHR '';'' \<notin> set (market_type_name t)" by (cases t) simp_all
qed

lemma market_type_name_not_Nil [simp]: "market_type_name t \<noteq> []"
  by (cases t) simp_all

lemma market_type_of_name: "t \<in> {Trade, Ticker, Book_snapshot} \<Longrightarrow> market_type_of (market_type_name t) = Some t"
  by (cases t) (simp_all add: market_type_of_def)

text \<open>
  C37. The adapter understands every message of its format: for a trade, ticker or book-snapshot event
  whose strings are not empty and have no semicolon and whose numbers have at most six significant digits,
  the message with its fields normalizes to the event itself, with the configured instrument and the given
  receive and process timestamps.
\<close>

theorem normalize_roundtrip:
  assumes "message_safe e"
  shows "normalize (me_instrument e) (join_with CHR '';'' (render_segments e)) r p =
    Inr (e\<lparr>me_receive_timestamp := r, me_process_timestamp := p\<rparr>)"
proof -
  have nonempty: "me_event_id e \<noteq> []" "symbol (me_instrument e) \<noteq> []" "show_double (me_price e) \<noteq> []" "show_double (me_quantity e) \<noteq> []"
    "\<And>x. me_bid_price e = Some x \<Longrightarrow> show_double x \<noteq> []" "\<And>x. me_ask_price e = Some x \<Longrightarrow> show_double x \<noteq> []"
    using assms by (auto simp: message_safe_def show_double_not_Nil)
  have vals: "stoll (show_int (me_exchange_timestamp e)) = Inr (me_exchange_timestamp e)"
    "stod (show_double (me_price e)) = Inr (me_price e)" "stod (show_double (me_quantity e)) = Inr (me_quantity e)"
    "\<And>x. me_bid_price e = Some x \<Longrightarrow> stod (show_double x) = Inr x" "\<And>x. me_ask_price e = Some x \<Longrightarrow> stod (show_double x) = Inr x"
    using assms by (auto simp: message_safe_def stod_show_double stoll_show_int)
  have "\<forall>s \<in> set (render_segments e). CHR '';'' \<notin> set s"
    using assms by (cases "me_bid_price e"; cases "me_ask_price e") (simp_all add: render_segments_def message_safe_def no_semicolon)
  moreover have "render_segments e \<noteq> []" "last (render_segments e) \<noteq> []"
    by (simp_all add: render_segments_def Let_def split: option.split)
  ultimately have "parse_fields (join_with CHR '';'' (render_segments e)) = parse_segments (render_segments e) Map.empty"
    by (simp add: parse_fields_def getline_split_join)
  moreover have "\<exists>fs. parse_segments (render_segments e) Map.empty = Some fs \<and> fs ''type'' = Some (market_type_name (me_type e)) \<and>
      fs ''event_id'' = Some (me_event_id e) \<and> fs ''symbol'' = Some (symbol (me_instrument e)) \<and>
      fs ''exchange_ts'' = Some (show_int (me_exchange_timestamp e)) \<and> fs ''price'' = Some (show_double (me_price e)) \<and>
      fs ''quantity'' = Some (show_double (me_quantity e)) \<and> fs ''bid'' = map_option show_double (me_bid_price e) \<and>
      fs ''ask'' = map_option show_double (me_ask_price e)"
    using nonempty
    by (cases "me_bid_price e"; cases "me_ask_price e") (simp_all add: render_segments_def parse_segment_keys del: append_Cons parse_segments.simps(2))
  ultimately obtain fs where fs: "parse_fields (join_with CHR '';'' (render_segments e)) = Some fs"
    "fs ''type'' = Some (market_type_name (me_type e))"
    "fs ''event_id'' = Some (me_event_id e)" "fs ''symbol'' = Some (symbol (me_instrument e))"
    "fs ''exchange_ts'' = Some (show_int (me_exchange_timestamp e))" "fs ''price'' = Some (show_double (me_price e))"
    "fs ''quantity'' = Some (show_double (me_quantity e))" "fs ''bid'' = map_option show_double (me_bid_price e)"
    "fs ''ask'' = map_option show_double (me_ask_price e)" by auto
  have "parse_optional_double fs ''bid'' False = (me_bid_price e, False)" "parse_optional_double fs ''ask'' False = (me_ask_price e, False)"
    using vals(4,5) by (cases "me_bid_price e"; cases "me_ask_price e"; simp add: parse_optional_double_def fs)+
  moreover have "parse_optional_double fs ''price'' False = (Some (me_price e), False)"
    "parse_optional_double fs ''quantity'' False = (Some (me_quantity e), False)"
    "parse_int64 fs ''exchange_ts'' = Some (me_exchange_timestamp e)"
    by (simp_all add: parse_optional_double_def parse_int64_def fs vals)
  moreover have "market_type_of (market_type_name (me_type e)) = Some (me_type e)" "me_bid_levels e = []" "me_ask_levels e = []"
    using assms market_type_of_name by (simp_all add: message_safe_def)
  ultimately show ?thesis
    by (simp add: normalize_def fs value_or_def)
qed

theorem normalize_roundtrip_witness:
  "normalize (default_instrument\<lparr>instrument_id := ''BTC-USD'', symbol := ''BTC''\<rparr>)
      (join_with CHR '';'' (render_segments ((sample_quote 5 (Fin 99))\<lparr>me_instrument := default_instrument\<lparr>instrument_id := ''BTC-USD'', symbol := ''BTC''\<rparr>\<rparr>))) 6 7 =
    Inr ((sample_quote 5 (Fin 99))\<lparr>me_instrument := default_instrument\<lparr>instrument_id := ''BTC-USD'', symbol := ''BTC''\<rparr>,
      me_receive_timestamp := 6, me_process_timestamp := 7\<rparr>)"
  using normalize_roundtrip [of "(sample_quote 5 (Fin 99))\<lparr>me_instrument := default_instrument\<lparr>instrument_id := ''BTC-USD'', symbol := ''BTC''\<rparr>\<rparr>" 6 7]
  by (simp add: message_safe_def sample_quote_def six_digit_numeral)

subsection \<open>The reconnect budget\<close>

definition mock_feed :: "string list \<Rightarrow> nat \<Rightarrow> metrics option \<Rightarrow> mock_feed_session feed_controller" where
  "mock_feed symbols limit m = \<lparr>fc_session = \<lparr>ms_connect_calls = 0, ms_disconnect_calls = 0, ms_subscribe_calls = 0, ms_last_symbols = []\<rparr>,
     fc_symbols = symbols, fc_max_reconnect_attempts = limit, fc_reconnect_attempts = 0, fc_connected = False, fc_metrics = m\<rparr>"

fun after_disconnects :: "nat \<Rightarrow> mock_feed_session feed_controller \<Rightarrow> mock_feed_session feed_controller" where
  "after_disconnects 0 s = snd (feed_start mock_session_ports s)"
| "after_disconnects (Suc n) s = snd (handle_disconnect mock_session_ports (after_disconnects n s))"

lemmas feed_defs = handle_disconnect_def feed_start_def mock_session_ports_def action_defs feed_count_def

text \<open>
  C38. The reconnect budget is spent over the life of the feed. After n disconnects the session was
  connected and subscribed once plus once per reconnect, at most the configured number of times; the feed
  is connected exactly while the disconnects are within the budget, the next disconnect throws exactly
  when the budget is used up, and the symbols subscribed are always the configured ones.
\<close>

theorem feed_reconnect_bounded:
  "let s = after_disconnects n (mock_feed symbols limit m) in
     fc_reconnect_attempts s = min n limit \<and> (fc_connected s \<longleftrightarrow> n \<le> limit) \<and>
     ms_connect_calls (fc_session s) = Suc (min n limit) \<and> ms_subscribe_calls (fc_session s) = Suc (min n limit) \<and>
     ms_disconnect_calls (fc_session s) = n \<and> ms_last_symbols (fc_session s) = symbols \<and>
     (fst (handle_disconnect mock_session_ports s) = None \<longleftrightarrow> limit \<le> n)"
proof -
  have "fc_reconnect_attempts s = min n limit \<and> (fc_connected s \<longleftrightarrow> n \<le> limit) \<and>
     ms_connect_calls (fc_session s) = Suc (min n limit) \<and> ms_subscribe_calls (fc_session s) = Suc (min n limit) \<and>
     ms_disconnect_calls (fc_session s) = n \<and> ms_last_symbols (fc_session s) = symbols \<and>
     fc_max_reconnect_attempts s = limit \<and> fc_symbols s = symbols" if "s = after_disconnects n (mock_feed symbols limit m)" for s
    using that
  proof (induction n arbitrary: s)
    case 0
    then show ?case by (simp add: mock_feed_def feed_defs)
  next
    case (Suc n)
    note IH = Suc.IH [OF refl]
    show ?case
      using IH by (cases "n < limit") (auto simp: Suc.prems feed_defs)
  qed
  from this [OF refl] show ?thesis by (auto simp: Let_def feed_defs)
qed

end
