(* ===== verification/Exchange_Execution.thy ===== *)
theory Exchange_Execution
  imports Exchange_Feed Simulated_Execution Live_Tracker
begin

section \<open>Exchange execution adapters and the router\<close>

text \<open>
  \<open>src/exchange/exchange_execution_adapter.cpp\<close> and the execution half of
  \<open>src/exchange/exchange_router.cpp\<close>. \<open>IExchangeExecutionAdapter\<close> is the type \<open>venue\<close> with the two
  implementations of the repository; the router is written over any adapter type with the virtual
  methods as arguments, and its contract is the locale \<open>execution_adapter\<close>.
\<close>

subsection \<open>Error mapping\<close>

fun contains :: "string \<Rightarrow> string \<Rightarrow> bool" where
  "contains p [] \<longleftrightarrow> p = []"
| "contains p (c # s) \<longleftrightarrow> take (length p) (c # s) = p \<or> contains p s"

definition map_exchange_error :: "string \<Rightarrow> exchange_adapter_error_code" where
  "map_exchange_error reason =
     (let s = map to_lower reason
      in if contains ''unsupported'' s \<or> contains ''invalid type'' s then Unsupported_message_type
         else if contains ''insufficient'' s \<or> contains ''rejected'' s \<or> contains ''risk'' s then Rejected_by_exchange
         else if contains ''timeout'' s \<or> contains ''connection'' s \<or> contains ''unavailable'' s then Transport_failure
         else Unknown_error)"

subsection \<open>Adapters\<close>

record exchange_execution_capabilities =
  cap_supports_cancel :: bool
  cap_supports_replace :: bool
  cap_supports_market_orders :: bool

definition one_update :: "string \<Rightarrow> string \<Rightarrow> order_status \<Rightarrow> string option \<Rightarrow> execution_result" where
  "one_update i c status reason = \<lparr>xr_order_id = i, xr_client_order_id = c, xr_updates = [make_update i c status 0 reason], xr_fills = []\<rparr>"

definition simulated_capabilities :: exchange_execution_capabilities where
  "simulated_capabilities = \<lparr>cap_supports_cancel = True, cap_supports_replace = False, cap_supports_market_orders = False\<rparr>"

definition simulated_adapter_cancel :: "string \<Rightarrow> string \<Rightarrow> simulated_execution_engine \<Rightarrow> execution_result \<times> simulated_execution_engine" where
  "simulated_adapter_cancel i c s =
     (if i = [] then (one_update i c Rejected (Some ''missing order_id for cancel''), s) else cancel_open_order i s)"

record mock_live_adapter =
  ml_tracker :: live_execution_tracker
  ml_next_order_id :: nat
  ml_next_client_order_id :: nat

definition mock_live_new :: mock_live_adapter where
  "mock_live_new = \<lparr>ml_tracker = live_execution_tracker_new, ml_next_order_id = 1, ml_next_client_order_id = 1\<rparr>"

definition mock_live_capabilities :: exchange_execution_capabilities where
  "mock_live_capabilities = \<lparr>cap_supports_cancel = True, cap_supports_replace = False, cap_supports_market_orders = True\<rparr>"

definition mock_live_submit :: "order_request \<Rightarrow> mock_live_adapter \<Rightarrow> execution_result \<times> mock_live_adapter" where
  "mock_live_submit rq a =
     (let i = ''live-order-'' @ show_nat (ml_next_order_id a); c = ''live-client-'' @ show_nat (ml_next_client_order_id a)
      in (one_update i c Pending_submit None,
          a\<lparr>ml_tracker := register_order rq i c (ml_tracker a), ml_next_order_id := ml_next_order_id a + 1,
            ml_next_client_order_id := ml_next_client_order_id a + 1\<rparr>))"

definition mock_live_cancel :: "string \<Rightarrow> string \<Rightarrow> mock_live_adapter \<Rightarrow> execution_result \<times> mock_live_adapter" where
  "mock_live_cancel i c a = (one_update i c Pending_cancel None, a)"

definition apply_exchange_report :: "execution_report \<Rightarrow> mock_live_adapter \<Rightarrow> reconciliation_result \<times> mock_live_adapter" where
  "apply_exchange_report r a = (case apply_report r (ml_tracker a) of (res, t) \<Rightarrow> (res, a\<lparr>ml_tracker := t\<rparr>))"

definition mock_live_get_order :: "string \<Rightarrow> mock_live_adapter \<Rightarrow> order_record option" where
  "mock_live_get_order i a = tracker_get_order i (ml_tracker a)"

datatype venue = Simulated_venue simulated_execution_engine | Mock_live_venue mock_live_adapter

fun venue_capabilities :: "venue \<Rightarrow> exchange_execution_capabilities" where
  "venue_capabilities (Simulated_venue _) = simulated_capabilities"
| "venue_capabilities (Mock_live_venue _) = mock_live_capabilities"

fun venue_submit :: "order_request \<Rightarrow> venue \<Rightarrow> execution_result \<times> venue" where
  "venue_submit rq (Simulated_venue s) = (case sim_submit rq s of (res, s') \<Rightarrow> (res, Simulated_venue s'))"
| "venue_submit rq (Mock_live_venue a) = (case mock_live_submit rq a of (res, a') \<Rightarrow> (res, Mock_live_venue a'))"

fun venue_cancel :: "string \<Rightarrow> string \<Rightarrow> venue \<Rightarrow> execution_result \<times> venue" where
  "venue_cancel i c (Simulated_venue s) = (case simulated_adapter_cancel i c s of (res, s') \<Rightarrow> (res, Simulated_venue s'))"
| "venue_cancel i c (Mock_live_venue a) = (case mock_live_cancel i c a of (res, a') \<Rightarrow> (res, Mock_live_venue a'))"

subsection \<open>The router\<close>

definition missing_exchange_result :: "string \<Rightarrow> string \<Rightarrow> string option \<Rightarrow> execution_result" where
  "missing_exchange_result name c i =
     (let i' = (case i of None \<Rightarrow> [] | Some j \<Rightarrow> j)
      in one_update i' c Rejected (Some (''no execution adapter registered for exchange '' @ name)))"

definition route_submit ::
  "(order_request \<Rightarrow> 'a \<Rightarrow> execution_result \<times> 'a) \<Rightarrow> order_request \<Rightarrow> (string, 'a) umap \<Rightarrow> execution_result \<times> (string, 'a) umap" where
  "route_submit sub rq adapters =
     (let name = exchange (rq_instrument rq)
      in case map_of adapters name of None \<Rightarrow> (missing_exchange_result name [] (Some (rq_request_id rq)), adapters)
         | Some a \<Rightarrow> (case sub rq a of (res, a') \<Rightarrow> (res, AList.update name a' adapters)))"

definition route_cancel ::
  "(string \<Rightarrow> string \<Rightarrow> 'a \<Rightarrow> execution_result \<times> 'a) \<Rightarrow> string \<Rightarrow> string \<Rightarrow> string \<Rightarrow> (string, 'a) umap \<Rightarrow>
   execution_result \<times> (string, 'a) umap" where
  "route_cancel can name i c adapters =
     (case map_of adapters name of None \<Rightarrow> (missing_exchange_result name c (Some i), adapters)
      | Some a \<Rightarrow> (case can i c a of (res, a') \<Rightarrow> (res, AList.update name a' adapters)))"

definition route_capabilities :: "('a \<Rightarrow> exchange_execution_capabilities) \<Rightarrow> string \<Rightarrow> (string, 'a) umap \<Rightarrow> exchange_execution_capabilities option" where
  "route_capabilities cap name adapters = map_option cap (map_of adapters name)"

subsection \<open>The contract of an execution adapter\<close>

text \<open>A result says something, and only about the order it names; a cancellation names the order asked for and fills nothing.\<close>

definition coherent :: "execution_result \<Rightarrow> bool" where
  "coherent res \<longleftrightarrow> xr_updates res \<noteq> [] \<and> ou_order_id ` set (xr_updates res) \<subseteq> {xr_order_id res} \<and>
     ou_client_order_id ` set (xr_updates res) \<subseteq> {xr_client_order_id res} \<and> fl_order_id ` set (xr_fills res) \<subseteq> {xr_order_id res}"

lemma one_update_coherent: "coherent (one_update i c status reason)"
  by (simp add: coherent_def one_update_def make_update_def)

lemma missing_coherent: "coherent (missing_exchange_result name c i)"
  by (simp add: missing_exchange_result_def one_update_coherent)

locale execution_adapter =
  fixes sub :: "order_request \<Rightarrow> 'a \<Rightarrow> execution_result \<times> 'a"
    and can :: "string \<Rightarrow> string \<Rightarrow> 'a \<Rightarrow> execution_result \<times> 'a"
  assumes submit_coherent: "coherent (fst (sub rq a))"
    and cancel_coherent: "coherent (fst (can i c a)) \<and> xr_order_id (fst (can i c a)) = i \<and> xr_fills (fst (can i c a)) = []"
begin

lemma route_submit_spec:
  "coherent (fst (route_submit sub rq adapters)) \<and>
   map_of (snd (route_submit sub rq adapters)) =
     (let name = exchange (rq_instrument rq) in (map_of adapters)(name := map_option (snd \<circ> sub rq) (map_of adapters name))) \<and>
   fst (route_submit sub rq adapters) =
     (let name = exchange (rq_instrument rq)
      in case map_of adapters name of None \<Rightarrow> missing_exchange_result name [] (Some (rq_request_id rq)) | Some a \<Rightarrow> fst (sub rq a))"
  using submit_coherent [of rq]
  by (cases "map_of adapters (exchange (rq_instrument rq))")
    (simp_all add: route_submit_def Let_def missing_coherent update_conv' fun_upd_idem case_prod_beta)

lemma route_cancel_spec:
  "coherent (fst (route_cancel can name i c adapters)) \<and> xr_order_id (fst (route_cancel can name i c adapters)) = i \<and>
   xr_fills (fst (route_cancel can name i c adapters)) = [] \<and>
   map_of (snd (route_cancel can name i c adapters)) = (map_of adapters)(name := map_option (snd \<circ> can i c) (map_of adapters name))"
  using cancel_coherent [of i c] missing_coherent [of name c "Some i"]
  by (cases "map_of adapters name")
    (simp_all add: route_cancel_def update_conv' fun_upd_idem case_prod_beta missing_exchange_result_def one_update_def)

end

lemma sim_submit_coherent: "coherent (fst (sim_submit rq s))"
  by (simp add: sim_submit_def coherent_def Let_def make_update_def sim_fill_def split: option.split)

lemma cancel_open_order_coherent:
  "coherent (fst (cancel_open_order i s)) \<and> xr_order_id (fst (cancel_open_order i s)) = i \<and> xr_fills (fst (cancel_open_order i s)) = []"
  by (simp add: cancel_open_order_def sim_not_found_def coherent_def Let_def make_update_def split: option.split)

interpretation venues: execution_adapter venue_submit venue_cancel
proof
  fix rq and a :: venue
  show "coherent (fst (venue_submit rq a))"
    using sim_submit_coherent [of rq]
    by (cases a) (simp_all add: mock_live_submit_def Let_def one_update_coherent case_prod_beta)
next
  fix i c and a :: venue
  show "coherent (fst (venue_cancel i c a)) \<and> xr_order_id (fst (venue_cancel i c a)) = i \<and> xr_fills (fst (venue_cancel i c a)) = []"
    using cancel_open_order_coherent [of i] one_update_coherent [of i c] one_update_coherent [of "[]" c]
    by (cases a) (simp_all add: simulated_adapter_cancel_def mock_live_cancel_def one_update_def case_prod_beta)
qed

text \<open>
  Routing is isolated: an order goes to the adapter of its instrument's exchange and to no other. That
  adapter answers and changes exactly as it would on its own, every other adapter keeps its state; without
  an adapter the order is answered by a rejection and nothing changes. The same holds for cancellations,
  which never fill. Every answer is coherent: it has an update, and all its updates and fills are about
  the order it names.
\<close>

theorem router_isolates:
  "(case route_submit venue_submit rq adapters of (res, adapters') \<Rightarrow>
      coherent res \<and>
      (case map_of adapters (exchange (rq_instrument rq)) of
         None \<Rightarrow> adapters' = adapters \<and> xr_fills res = [] \<and> ou_status ` set (xr_updates res) = {Rejected}
       | Some a \<Rightarrow> res = fst (venue_submit rq a) \<and>
           map_of adapters' = (map_of adapters)(exchange (rq_instrument rq) \<mapsto> snd (venue_submit rq a)))) \<and>
   (case route_cancel venue_cancel name i c adapters of (res, adapters') \<Rightarrow>
      coherent res \<and> xr_order_id res = i \<and> xr_fills res = [] \<and>
      map_of adapters' = (map_of adapters)(name := map_option (\<lambda>a. snd (venue_cancel i c a)) (map_of adapters name)))"
  using venues.route_submit_spec [of rq adapters] venues.route_cancel_spec [of name i c adapters]
  by (cases "map_of adapters (exchange (rq_instrument rq))")
    (simp_all add: Let_def route_submit_def missing_exchange_result_def one_update_def make_update_def comp_def case_prod_beta)

end
