(* ===== verification/Controller.thy ===== *)
theory Controller
  imports Core_Types "HOL-Library.Multiset"
begin

section \<open>The engine controller\<close>

text \<open>
  \<open>include/app/engine_controller.hpp\<close>, \<open>src/app/engine_controller.cpp\<close> and the mock event sources of
  \<open>src/app/mock_event_sources.cpp\<close>. The controller owns a queue, event sources, timers and a dispatcher.
  A handler is any function on the whole state: it may change the application state \<open>ec_app\<close> it captured
  and may enqueue further events, so \<open>drain\<close> is a loop that need not end.
\<close>

record scheduled_timer =
  sd_timer_id :: string
  sd_due_timestamp_ms :: int64
  sd_emitted :: bool

record ('s, 'a) engine_controller =
  ec_queue :: "engine_event list"
  ec_sources :: "'s list"
  ec_timers :: "scheduled_timer list"
  ec_app :: 'a

definition engine_controller_new :: "'a \<Rightarrow> ('s, 'a) engine_controller" where
  "engine_controller_new a = \<lparr>ec_queue = [], ec_sources = [], ec_timers = [], ec_app = a\<rparr>"

definition add_source :: "'s \<Rightarrow> ('s, 'a) engine_controller \<Rightarrow> ('s, 'a) engine_controller" where
  "add_source src c = c\<lparr>ec_sources := ec_sources c @ [src]\<rparr>"

definition enqueue :: "engine_event \<Rightarrow> ('s, 'a) engine_controller \<Rightarrow> ('s, 'a) engine_controller" where
  "enqueue e c = c\<lparr>ec_queue := ec_queue c @ [e]\<rparr>"

definition schedule_timer :: "string \<Rightarrow> int64 \<Rightarrow> ('s, 'a) engine_controller \<Rightarrow> ('s, 'a) engine_controller" where
  "schedule_timer i due c = c\<lparr>ec_timers := ec_timers c @ [\<lparr>sd_timer_id = i, sd_due_timestamp_ms = due, sd_emitted = False\<rparr>]\<rparr>"

fun poll_each :: "('s \<Rightarrow> engine_event option \<times> 's) \<Rightarrow> 's list \<Rightarrow> engine_event list \<times> 's list" where
  "poll_each poll [] = ([], [])"
| "poll_each poll (src # srcs) =
     (case poll src of (r, src') \<Rightarrow> (case poll_each poll srcs of (es, srcs') \<Rightarrow>
       ((case r of None \<Rightarrow> es | Some e \<Rightarrow> e # es), src' # srcs')))"

definition poll_sources_once :: "('s \<Rightarrow> engine_event option \<times> 's) \<Rightarrow> ('s, 'a) engine_controller \<Rightarrow> nat \<times> ('s, 'a) engine_controller" where
  "poll_sources_once poll c =
     (case poll_each poll (ec_sources c) of (es, srcs) \<Rightarrow> (length es, c\<lparr>ec_queue := ec_queue c @ es, ec_sources := srcs\<rparr>))"

definition timer_due :: "int64 \<Rightarrow> scheduled_timer \<Rightarrow> bool" where
  "timer_due now t \<longleftrightarrow> \<not> sd_emitted t \<and> sd_due_timestamp_ms t \<le> now"

definition timer_event_of :: "scheduled_timer \<Rightarrow> engine_event" where
  "timer_event_of t = TimerEvent \<lparr>tm_timer_id = sd_timer_id t, tm_timestamp = sd_due_timestamp_ms t\<rparr>"

definition mark_due :: "int64 \<Rightarrow> scheduled_timer \<Rightarrow> scheduled_timer" where
  "mark_due now t = (if timer_due now t then t\<lparr>sd_emitted := True\<rparr> else t)"

definition enqueue_due_timers :: "int64 \<Rightarrow> ('s, 'a) engine_controller \<Rightarrow> nat \<times> ('s, 'a) engine_controller" where
  "enqueue_due_timers now c =
     (let due = filter (timer_due now) (ec_timers c)
      in (length due, c\<lparr>ec_queue := ec_queue c @ map timer_event_of due, ec_timers := map (mark_due now) (ec_timers c)\<rparr>))"

partial_function (option) drain_loop ::
  "('s, 'a) engine_controller event_dispatcher \<Rightarrow> nat \<Rightarrow> ('s, 'a) engine_controller \<Rightarrow> (nat \<times> ('s, 'a) engine_controller) option" where
  "drain_loop handlers processed c =
     (case ec_queue c of [] \<Rightarrow> Some (processed, c)
      | e # q \<Rightarrow> drain_loop handlers (processed + 1) (dispatcher_publish handlers e (c\<lparr>ec_queue := q\<rparr>)))"

definition drain :: "('s, 'a) engine_controller event_dispatcher \<Rightarrow> ('s, 'a) engine_controller \<Rightarrow> (nat \<times> ('s, 'a) engine_controller) option" where
  "drain handlers c = drain_loop handlers 0 c"

definition run_once ::
  "('s \<Rightarrow> engine_event option \<times> 's) \<Rightarrow> ('s, 'a) engine_controller event_dispatcher \<Rightarrow> int64 \<Rightarrow> ('s, 'a) engine_controller \<Rightarrow>
   (nat \<times> ('s, 'a) engine_controller) option" where
  "run_once poll handlers now c = drain handlers (snd (poll_sources_once poll (snd (enqueue_due_timers now c))))"

subsection \<open>Mock event sources\<close>

datatype mock_source =
    Mock_market_data "market_event list" nat
  | Mock_transactions "transaction_command list" nat

fun mock_source_poll :: "mock_source \<Rightarrow> engine_event option \<times> mock_source" where
  "mock_source_poll (Mock_market_data es i) =
     (if length es \<le> i then (None, Mock_market_data es i) else (Some (MarketEvent (es ! i)), Mock_market_data es (i + 1)))"
| "mock_source_poll (Mock_transactions cs i) =
     (if length cs \<le> i then (None, Mock_transactions cs i) else (Some (TransactionCommand (cs ! i)), Mock_transactions cs (i + 1)))"

fun mock_source_remaining :: "mock_source \<Rightarrow> engine_event list" where
  "mock_source_remaining (Mock_market_data es i) = map MarketEvent (drop i es)"
| "mock_source_remaining (Mock_transactions cs i) = map TransactionCommand (drop i cs)"

subsection \<open>Termination of the queue\<close>

lemma drain_loop_empty: "ec_queue c = [] \<Longrightarrow> drain_loop handlers n c = Some (n, c)"
  by (subst drain_loop.simps) simp

lemma drain_loop_step:
  "ec_queue c = e # q \<Longrightarrow> drain_loop handlers n c = drain_loop handlers (n + 1) (dispatcher_publish handlers e (c\<lparr>ec_queue := q\<rparr>))"
  by (subst drain_loop.simps) simp

lemma queue_shrinks:
  assumes "\<forall>e' \<in> set new. rank e' < (rank e :: nat)"
  shows "(mset (map rank (q @ new)), mset (map rank (e # q))) \<in> mult less_than"
proof -
  have "\<forall>k \<in># mset (map rank new). \<exists>j \<in># {#rank e#}. (k, j) \<in> less_than" using assms by auto
  then have "(mset (map rank q) + mset (map rank new), mset (map rank q) + {#rank e#}) \<in> mult less_than"
    by (intro one_step_implies_mult) simp_all
  then show ?thesis by (simp add: add.commute)
qed

text \<open>
  C32. \<open>drain\<close> comes to an end whenever handlers only enqueue events of a smaller rank than the one they
  handle, for some ranking of events by natural numbers: it then returns, the queue is empty, and at least
  the events queued at the start were published.
\<close>

theorem drain_terminates:
  assumes "\<And>e c. \<exists>new. ec_queue (dispatcher_publish handlers e c) = ec_queue c @ new \<and> (\<forall>e' \<in> set new. rank e' < (rank e :: nat))"
  shows "\<exists>n c'. drain handlers c = Some (n, c') \<and> ec_queue c' = [] \<and> length (ec_queue c) \<le> n"
proof -
  have "\<exists>n c'. drain_loop handlers k c = Some (n, c') \<and> ec_queue c' = [] \<and> k + length (ec_queue c) \<le> n" for k c
  proof (induction "mset (map rank (ec_queue c))" arbitrary: k c rule: wf_induct_rule [OF wf_mult [OF wf_less_than]])
    case 1
    show ?case
    proof (cases "ec_queue c")
      case Nil
      then show ?thesis by (simp add: drain_loop_empty)
    next
      case (Cons e q)
      define c1 where "c1 = dispatcher_publish handlers e (c\<lparr>ec_queue := q\<rparr>)"
      obtain new where new: "ec_queue c1 = q @ new" "\<forall>e' \<in> set new. rank e' < rank e"
        using assms [of e "c\<lparr>ec_queue := q\<rparr>"] by (auto simp: c1_def)
      have "(mset (map rank (ec_queue c1)), mset (map rank (ec_queue c))) \<in> mult less_than"
        unfolding new(1) Cons using new(2) by (rule queue_shrinks)
      from 1 [OF this, of "k + 1"] obtain n c' where
        "drain_loop handlers (k + 1) c1 = Some (n, c')" "ec_queue c' = []" "k + 1 + length (ec_queue c1) \<le> n" by auto
      then show ?thesis by (simp add: drain_loop_step [OF Cons] new(1) Cons flip: c1_def)
    qed
  qed
  from this [of 0 c] show ?thesis by (simp add: drain_def)
qed

text \<open>A handler that answers every transaction command with one timer event.\<close>

definition echo_handler :: "(mock_source, nat) engine_controller handler" where
  "echo_handler e c = (case e of TransactionCommand _ \<Rightarrow> enqueue (TimerEvent \<lparr>tm_timer_id = ''echo'', tm_timestamp = 0\<rparr>) c
     | _ \<Rightarrow> c\<lparr>ec_app := ec_app c + 1\<rparr>)"

definition echo_command :: transaction_command where
  "echo_command = \<lparr>tx_transaction_id = ''t1'', tx_user_id = ''u'', tx_account_id = ''a'', tx_command_type = ''place'',
     tx_instrument_symbol = ''BTC'', tx_quantity = 1, tx_price = None, tx_kafka_topic = ''t'', tx_kafka_partition = 0, tx_kafka_offset = 0\<rparr>"

theorem drain_terminates_witness:
  "\<exists>n c'. drain [echo_handler] (enqueue (TransactionCommand echo_command) (engine_controller_new 0)) = Some (n, c') \<and> ec_queue c' = [] \<and> 1 \<le> n"
proof -
  have "\<exists>new. ec_queue (dispatcher_publish [echo_handler] e c) = ec_queue c @ new \<and>
      (\<forall>e' \<in> set new. (case e' of TransactionCommand _ \<Rightarrow> 1 | _ \<Rightarrow> 0) < (case e of TransactionCommand _ \<Rightarrow> 1 | _ \<Rightarrow> (0::nat)))" for e c
    by (cases e) (simp_all add: echo_handler_def enqueue_def)
  from drain_terminates [OF this, of "enqueue (TransactionCommand echo_command) (engine_controller_new 0)"]
  show ?thesis by (simp add: enqueue_def engine_controller_new_def)
qed

subsection \<open>Cycles\<close>

text \<open>An event source yields the events it holds one by one, and nothing once it holds none.\<close>

locale event_source =
  fixes poll :: "'s \<Rightarrow> engine_event option \<times> 's"
    and remaining :: "'s \<Rightarrow> engine_event list"
  assumes poll_none: "remaining s = [] \<Longrightarrow> poll s = (None, s)"
    and poll_some: "remaining s = e # es \<Longrightarrow> \<exists>s'. poll s = (Some e, s') \<and> remaining s' = es"
begin

lemma poll_each_events:
  "fst (poll_each poll srcs) = concat (map (take 1 \<circ> remaining) srcs) \<and>
   map remaining (snd (poll_each poll srcs)) = map (drop 1 \<circ> remaining) srcs"
proof (induction srcs)
  case (Cons s srcs)
  show ?case
  proof (cases "remaining s")
    case Nil
    then show ?thesis using Cons poll_none [of s] by (simp add: case_prod_beta)
  next
    case (Cons e es)
    then show ?thesis using Cons.IH poll_some [OF Cons] by (auto simp: case_prod_beta)
  qed
qed simp

end

interpretation mock_sources: event_source mock_source_poll mock_source_remaining
proof
  fix s assume "mock_source_remaining s = []"
  then show "mock_source_poll s = (None, s)" by (cases s) simp_all
next
  fix s e es assume "mock_source_remaining s = e # es"
  then show "\<exists>s'. mock_source_poll s = (Some e, s') \<and> mock_source_remaining s' = es"
  proof (cases s)
    case (Mock_market_data xs i)
    then have "i < length xs" using \<open>mock_source_remaining s = e # es\<close> by (auto simp: not_le intro: ccontr)
    then show ?thesis using \<open>mock_source_remaining s = e # es\<close> Cons_nth_drop_Suc [of i xs] by (auto simp: Mock_market_data)
  next
    case (Mock_transactions xs i)
    then have "i < length xs" using \<open>mock_source_remaining s = e # es\<close> by (auto simp: not_le intro: ccontr)
    then show ?thesis using \<open>mock_source_remaining s = e # es\<close> Cons_nth_drop_Suc [of i xs] by (auto simp: Mock_transactions)
  qed
qed

text \<open>Handlers that do not touch the controller act on the application state only.\<close>

definition on_app :: "'a handler \<Rightarrow> ('s, 'a) engine_controller handler" where
  "on_app h e c = c\<lparr>ec_app := h e (ec_app c)\<rparr>"

lemma publish_on_app: "dispatcher_publish (map on_app hs) e c = c\<lparr>ec_app := dispatcher_publish hs e (ec_app c)\<rparr>"
  by (induction hs arbitrary: c) (simp_all add: on_app_def)

lemma drain_on_app:
  "drain (map on_app hs) c =
     Some (length (ec_queue c), c\<lparr>ec_queue := [], ec_app := fold (dispatcher_publish hs) (ec_queue c) (ec_app c)\<rparr>)"
proof -
  have "drain_loop (map on_app hs) n c =
     Some (n + length (ec_queue c), c\<lparr>ec_queue := [], ec_app := fold (dispatcher_publish hs) (ec_queue c) (ec_app c)\<rparr>)" for n
  proof (induction "ec_queue c" arbitrary: n c)
    case Nil
    then have "c\<lparr>ec_queue := []\<rparr> = c" by simp
    then show ?case using Nil [symmetric] by (simp add: drain_loop_empty)
  next
    case (Cons e q)
    then show ?case
      using Cons.hyps(1) [of "dispatcher_publish (map on_app hs) e (c\<lparr>ec_queue := q\<rparr>)" "n + 1"]
      by (simp add: drain_loop_step [OF Cons.hyps(2) [symmetric]] publish_on_app flip: Cons.hyps(2))
  qed
  then show ?thesis by (simp add: drain_def)
qed

fun run_cycles ::
  "('s \<Rightarrow> engine_event option \<times> 's) \<Rightarrow> ('s, 'a) engine_controller event_dispatcher \<Rightarrow> int64 list \<Rightarrow> ('s, 'a) engine_controller \<Rightarrow>
   (nat \<times> ('s, 'a) engine_controller) option" where
  "run_cycles poll handlers [] c = Some (0, c)"
| "run_cycles poll handlers (now # nows) c =
     (case run_once poll handlers now c of None \<Rightarrow> None
      | Some (n, c1) \<Rightarrow> map_option (\<lambda>(m, c2). (n + m, c2)) (run_cycles poll handlers nows c1))"

text \<open>The schedule the controller promises: in every cycle the timers that came due, then one event of each source.\<close>

fun cycle_schedule :: "int64 list \<Rightarrow> scheduled_timer list \<Rightarrow> engine_event list list \<Rightarrow> engine_event list" where
  "cycle_schedule [] ts srcs = []"
| "cycle_schedule (now # nows) ts srcs =
     map timer_event_of (filter (timer_due now) ts) @ concat (map (take 1) srcs) @
     cycle_schedule nows (map (mark_due now) ts) (map (drop 1) srcs)"

fun timer_schedule :: "int64 list \<Rightarrow> scheduled_timer list \<Rightarrow> scheduled_timer list" where
  "timer_schedule [] ts = []"
| "timer_schedule (now # nows) ts = filter (timer_due now) ts @ timer_schedule nows (map (mark_due now) ts)"

lemma run_once_events:
  assumes "event_source poll remaining"
  shows "\<exists>c'. run_once poll (map on_app hs) now c =
      Some (length (ec_queue c @ cycle_schedule [now] (ec_timers c) (map remaining (ec_sources c))), c') \<and>
    ec_queue c' = [] \<and> ec_timers c' = map (mark_due now) (ec_timers c) \<and> map remaining (ec_sources c') = map (drop 1 \<circ> remaining) (ec_sources c) \<and>
    ec_app c' = fold (dispatcher_publish hs) (ec_queue c @ cycle_schedule [now] (ec_timers c) (map remaining (ec_sources c))) (ec_app c)"
  using event_source.poll_each_events [OF assms, of "ec_sources c"]
  by (simp add: run_once_def enqueue_due_timers_def poll_sources_once_def Let_def drain_on_app case_prod_beta comp_def)

lemma run_cycles_events:
  assumes "event_source poll remaining" "ec_queue c = []"
  shows "\<exists>c'. run_cycles poll (map on_app hs) nows c =
      Some (length (cycle_schedule nows (ec_timers c) (map remaining (ec_sources c))), c') \<and> ec_queue c' = [] \<and>
    ec_app c' = fold (dispatcher_publish hs) (cycle_schedule nows (ec_timers c) (map remaining (ec_sources c))) (ec_app c)"
  using assms(2)
proof (induction nows arbitrary: c)
  case (Cons now nows)
  obtain c1 where c1: "run_once poll (map on_app hs) now c = Some (length (cycle_schedule [now] (ec_timers c) (map remaining (ec_sources c))), c1)"
    "ec_queue c1 = []" "ec_timers c1 = map (mark_due now) (ec_timers c)" "map remaining (ec_sources c1) = map (drop 1 \<circ> remaining) (ec_sources c)"
    "ec_app c1 = fold (dispatcher_publish hs) (cycle_schedule [now] (ec_timers c) (map remaining (ec_sources c))) (ec_app c)"
    using run_once_events [OF assms(1), of hs now c] Cons.prems by auto
  have eq: "cycle_schedule (now # nows) (ec_timers c) (map remaining (ec_sources c)) =
      cycle_schedule [now] (ec_timers c) (map remaining (ec_sources c)) @ cycle_schedule nows (ec_timers c1) (map remaining (ec_sources c1))"
    by (simp add: c1(3,4))
  from Cons.IH [OF c1(2)] obtain c2 where "run_cycles poll (map on_app hs) nows c1 =
      Some (length (cycle_schedule nows (ec_timers c1) (map remaining (ec_sources c1))), c2)" "ec_queue c2 = []"
    "ec_app c2 = fold (dispatcher_publish hs) (cycle_schedule nows (ec_timers c1) (map remaining (ec_sources c1))) (ec_app c1)" by auto
  then show ?case unfolding eq by (simp add: c1(1,5) del: cycle_schedule.simps)
qed simp

lemma timers_once:
  "mset (timer_schedule nows ts) = mset (filter (\<lambda>t. \<not> sd_emitted t \<and> (\<exists>now \<in> set nows. sd_due_timestamp_ms t \<le> now)) ts)"
proof (induction nows arbitrary: ts)
  case (Cons now nows)
  have "mset (filter (\<lambda>t. \<not> sd_emitted t \<and> (\<exists>now \<in> set nows. sd_due_timestamp_ms t \<le> now)) (map (mark_due now) ts)) =
      mset (filter (\<lambda>t. \<not> timer_due now t \<and> \<not> sd_emitted t \<and> (\<exists>now \<in> set nows. sd_due_timestamp_ms t \<le> now)) ts)"
    by (induction ts) (auto simp: mark_due_def)
  moreover have "mset (filter (timer_due now) ts) + mset (filter (\<lambda>t. \<not> timer_due now t \<and> \<not> sd_emitted t \<and> (\<exists>now \<in> set nows. sd_due_timestamp_ms t \<le> now)) ts) =
      mset (filter (\<lambda>t. \<not> sd_emitted t \<and> (\<exists>now \<in> set (now # nows). sd_due_timestamp_ms t \<le> now)) ts)"
    by (induction ts) (auto simp: timer_due_def)
  ultimately show ?case by (simp add: Cons.IH)
qed simp

text \<open>
  C31. The controller's cycles are deterministic and live: with handlers that only touch the application
  (they neither enqueue events nor register timers or sources) and a queue that is empty at the start, running
  one cycle per clock reading returns, leaves the queue empty, and publishes exactly the promised schedule in
  order: per cycle the timers that came due in registration order, then one event of every source that
  still has one, in registration order. Over any run each timer fires exactly once if some cycle saw its due
  time, and never otherwise.
\<close>

theorem controller_cycles:
  assumes "ec_queue c = []"
  shows "(\<exists>c'. run_cycles mock_source_poll (map on_app hs) nows c =
        Some (length (cycle_schedule nows (ec_timers c) (map mock_source_remaining (ec_sources c))), c') \<and> ec_queue c' = [] \<and>
      ec_app c' = fold (dispatcher_publish hs) (cycle_schedule nows (ec_timers c) (map mock_source_remaining (ec_sources c))) (ec_app c)) \<and>
    filter (\<lambda>e. \<exists>t. e = TimerEvent t) (cycle_schedule nows (ec_timers c) (map mock_source_remaining (ec_sources c))) =
      map timer_event_of (timer_schedule nows (ec_timers c)) \<and>
    mset (timer_schedule nows (ec_timers c)) =
      mset (filter (\<lambda>t. \<not> sd_emitted t \<and> (\<exists>now \<in> set nows. sd_due_timestamp_ms t \<le> now)) (ec_timers c))"
proof -
  have src: "filter (\<lambda>e. \<exists>t. e = TimerEvent t) (concat (map (take 1) rs)) = []"
    if "\<forall>r \<in> set rs. \<forall>e \<in> set r. \<not> (\<exists>t. e = TimerEvent t)" for rs
    using that by (induction rs) (auto simp: filter_empty_conv dest: in_set_takeD)
  have sched: "filter (\<lambda>e. \<exists>t. e = TimerEvent t) (cycle_schedule nows ts rs) = map timer_event_of (timer_schedule nows ts)"
    if "\<forall>r \<in> set rs. \<forall>e \<in> set r. \<not> (\<exists>t. e = TimerEvent t)" for ts rs
    using that
  proof (induction nows ts rs rule: cycle_schedule.induct)
    case (2 now nows ts rs)
    have "\<forall>r \<in> set (map (drop 1) rs). \<forall>e \<in> set r. \<not> (\<exists>t. e = TimerEvent t)"
      using 2(2) by (auto dest: in_set_dropD)
    then show ?case using 2 src [OF 2(2)] by (simp add: timer_event_of_def filter_map comp_def)
  qed simp
  have mock: "\<forall>r \<in> set (map mock_source_remaining srcs). \<forall>e \<in> set r. \<not> (\<exists>t. e = TimerEvent t)" for srcs
  proof -
    have "\<forall>e \<in> set (mock_source_remaining s). \<not> (\<exists>t. e = TimerEvent t)" for s by (cases s) auto
    then show ?thesis by simp
  qed
  show ?thesis
    using run_cycles_events [OF mock_sources.event_source_axioms assms, of hs nows] sched [OF mock] timers_once [of nows "ec_timers c"] by simp
qed

theorem controller_cycles_witness:
  "\<exists>c'. run_cycles mock_source_poll (map on_app [\<lambda>e seen. seen @ [e]]) [5, 20]
      (add_source (Mock_transactions [echo_command] 0) (schedule_timer ''t'' 10 (engine_controller_new []))) = Some (2, c') \<and>
    ec_app c' = [TransactionCommand echo_command, TimerEvent \<lparr>tm_timer_id = ''t'', tm_timestamp = 10\<rparr>]"
  using controller_cycles [of "add_source (Mock_transactions [echo_command] 0) (schedule_timer ''t'' 10 (engine_controller_new []))" "[\<lambda>e seen. seen @ [e]]" "[5, 20]"]
  by (auto simp: add_source_def schedule_timer_def engine_controller_new_def timer_due_def mark_due_def timer_event_of_def numeral_2_eq_2
      simp del: run_cycles.simps)

end
