(* ===== verification/Tsv.thy ===== *)
theory Tsv
  imports Cpp_Format Core_Types
begin

section \<open>Tab-separated lines\<close>

text \<open>
  What the replay log and the file-backed repositories share: the splitting of a line into its fields,
  the encoding of optional numbers with \<open>std::to_string\<close>, and the class of texts and numbers that a line
  keeps. Both source files have these helpers in their anonymous namespaces. A conversion that throws is an
  \<open>Inl\<close>, and \<open>caught\<close> is the \<open>try\<close> whose handler returns \<open>nullopt\<close>.
\<close>

abbreviation tab :: char where
  "tab \<equiv> CHR 0x09"

abbreviation newline :: char where
  "newline \<equiv> CHR 0x0A"

definition split_tsv :: "string \<Rightarrow> string list" where
  "split_tsv line = getline_split tab line"

definition encode_optional_double :: "double option \<Rightarrow> string" where
  "encode_optional_double v = (case v of Some x \<Rightarrow> to_string_double x | None \<Rightarrow> [])"

definition decode_optional_double :: "string \<Rightarrow> std_exception + double option" where
  "decode_optional_double s = (if s = [] then Inr None else map_sum id Some (stod s))"

definition caught :: "std_exception + 'a \<Rightarrow> 'a option" where
  "caught r = (case r of Inl _ \<Rightarrow> None | Inr x \<Rightarrow> Some x)"

subsection \<open>What a line keeps\<close>

definition text_safe :: "string \<Rightarrow> bool" where
  "text_safe s \<longleftrightarrow> tab \<notin> set s \<and> newline \<notin> set s"

abbreviation int64_ok :: "int \<Rightarrow> bool" where
  "int64_ok i \<equiv> - (2 ^ 63) \<le> i \<and> i < 2 ^ 63"

abbreviation int32_ok :: "int \<Rightarrow> bool" where
  "int32_ok i \<equiv> - (2 ^ 31) \<le> i \<and> i < 2 ^ 31"

definition quote_safe :: "double option \<Rightarrow> bool" where
  "quote_safe v \<longleftrightarrow> (\<forall>x. v = Some x \<longrightarrow> six_decimals x)"

lemma to_string_double_plain: "c \<in> set (to_string_double x) \<Longrightarrow> num_char c \<or> c \<in> set ''infa''"
proof (cases x)
  case (Fin r)
  have "num_char c" if "c \<in> set (show_fixed6 y)" for y
    using that by (auto simp: show_fixed6_def Let_def num_char_def is_digit_def dest: show_nat_digits)
  moreover assume "c \<in> set (to_string_double x)"
  ultimately show ?thesis using Fin by (auto simp: num_char_def split: if_splits)
qed (auto simp: num_char_def)

lemma to_string_double_not_Nil: "to_string_double x \<noteq> []"
  by (cases x) (auto simp: show_fixed6_def Let_def)

lemma text_safe_plain: "(\<And>c. c \<in> set s \<Longrightarrow> num_char c \<or> c \<in> set ''infa'') \<Longrightarrow> text_safe s"
  unfolding text_safe_def using plain_not_separator by blast

lemma text_safe_show_int [simp]: "text_safe (show_int i)"
  unfolding text_safe_def using show_int_plain by blast

lemma text_safe_simps [simp]:
  "text_safe (show_double x)" "text_safe (to_string_double x)" "text_safe []"
  by (rule text_safe_plain, erule show_double_plain, rule text_safe_plain, erule to_string_double_plain)
    (simp add: text_safe_def)

lemma text_safe_optional [simp]: "text_safe (encode_optional_double v)"
  by (cases v) (simp_all add: encode_optional_double_def)

lemma text_safe_literal: "text_safe ''market''" "text_safe ''transaction''" "text_safe ''timer''"
  by (simp_all add: text_safe_def)

lemma decode_encode_quote: "quote_safe v \<Longrightarrow> decode_optional_double (encode_optional_double v) = Inr v"
  by (cases v) (auto simp: decode_optional_double_def encode_optional_double_def quote_safe_def stod_to_string_double to_string_double_not_Nil)


subsection \<open>Lines of a file\<close>

definition join_tsv :: "string list \<Rightarrow> string" where
  "join_tsv fs = join_with tab fs"

lemma split_join_tsv: "\<forall>x \<in> set fs. text_safe x \<Longrightarrow> fs \<noteq> [] \<Longrightarrow> last fs \<noteq> [] \<Longrightarrow> split_tsv (join_tsv fs) = fs"
  unfolding split_tsv_def join_tsv_def by (rule getline_split_join) (auto simp: text_safe_def)

lemma split_join_tsv_empty: "\<forall>x \<in> set fs. text_safe x \<Longrightarrow> split_tsv (join_tsv (fs @ [[]])) = fs"
  unfolding split_tsv_def join_tsv_def by (rule getline_split_join_empty) (auto simp: text_safe_def)

lemma join_tsv_no_newline: "\<forall>x \<in> set fs. text_safe x \<Longrightarrow> newline \<notin> set (join_tsv fs)"
  unfolding join_tsv_def by (rule join_with_no_delim) (auto simp: text_safe_def)

lemma file_lines:
  "\<forall>l \<in> set ls. newline \<notin> set l \<Longrightarrow> getline_split newline (concat (map (\<lambda>l. l @ [newline]) ls)) = ls"
  by (induction ls) (simp_all add: getline_split_field)

end
