(* ===== verification/Replay.thy ===== *)
theory Replay
  imports Tsv "HOL-Library.Monad_Syntax"
begin

section \<open>The replay log\<close>

text \<open>
  \<open>include/storage/replay_service.hpp\<close> and \<open>src/storage/replay_service.cpp\<close>: an append-only log of engine
  events, one tab-delimited line each. The log file is its contents, or \<open>None\<close> when it does not exist.
  Prices and quantities are written with \<open>operator<<\<close> and optional quotes with \<open>std::to_string\<close>, which
  print six significant digits and six decimals. A conversion that throws is an \<open>Inl\<close>.
\<close>

subsection \<open>Lines\<close>

definition encode_level :: "book_level \<Rightarrow> string" where
  "encode_level l = show_double (bl_price l) @ CHR '':'' # show_double (bl_quantity l)"

definition encode_book_levels :: "book_level list \<Rightarrow> string" where
  "encode_book_levels levels = join_with CHR '','' (map encode_level levels)"

fun decode_levels :: "string list \<Rightarrow> std_exception + book_level list option" where
  "decode_levels [] = Inr (Some [])"
| "decode_levels (level # levels) =
     (case split_at_char CHR '':'' level of None \<Rightarrow> Inr None
      | Some (p, q) \<Rightarrow>
        (case stod p of Inl ex \<Rightarrow> Inl ex
         | Inr price \<Rightarrow>
           (case stod q of Inl ex \<Rightarrow> Inl ex
            | Inr quantity \<Rightarrow> map_sum id (map_option ((#) \<lparr>bl_price = price, bl_quantity = quantity\<rparr>)) (decode_levels levels))))"

definition decode_book_levels :: "string \<Rightarrow> std_exception + book_level list option" where
  "decode_book_levels s = (if s = [] then Inr (Some []) else decode_levels (getline_split CHR '','' s))"

text \<open>\<open>static_cast\<close> between \<open>MarketEventType\<close> and \<open>int\<close>.\<close>

fun market_type_code :: "market_event_type \<Rightarrow> int" where
  "market_type_code Book_snapshot = 0"
| "market_type_code Trade = 1"
| "market_type_code Ticker = 2"
| "market_type_code Timer = 3"
| "market_type_code (Unlisted_type n) = n"

definition market_type_cast :: "int \<Rightarrow> market_event_type" where
  "market_type_cast n = (if n = 0 then Book_snapshot else if n = 1 then Trade else if n = 2 then Ticker
     else if n = 3 then Timer else Unlisted_type n)"

fun event_fields :: "engine_event \<Rightarrow> string list" where
  "event_fields (MarketEvent e) = [''market'', me_event_id e, show_int (market_type_code (me_type e)),
     instrument_id (me_instrument e), exchange (me_instrument e), symbol (me_instrument e), base_asset (me_instrument e),
     quote_asset (me_instrument e), show_double (tick_size (me_instrument e)), show_double (lot_size (me_instrument e)),
     show_double (me_price e), show_double (me_quantity e), encode_optional_double (me_bid_price e),
     encode_optional_double (me_ask_price e), encode_book_levels (me_bid_levels e), encode_book_levels (me_ask_levels e),
     show_int (me_exchange_timestamp e), show_int (me_receive_timestamp e), show_int (me_process_timestamp e)]"
| "event_fields (TransactionCommand c) = [''transaction'', tx_transaction_id c, tx_user_id c, tx_account_id c, tx_command_type c,
     tx_instrument_symbol c, show_double (tx_quantity c), encode_optional_double (tx_price c), tx_kafka_topic c,
     show_int (tx_kafka_partition c), show_int (tx_kafka_offset c)]"
| "event_fields (TimerEvent t) = [''timer'', tm_timer_id t, show_int (tm_timestamp t)]"

definition serialize_event :: "engine_event \<Rightarrow> string" where
  "serialize_event e = join_tsv (event_fields e)"

text \<open>Every branch of the source that is not a success returns \<open>nullopt\<close>, exceptions included, so the
  order in which the conversions are evaluated does not show.\<close>

definition deserialize_market :: "string list \<Rightarrow> market_event option" where
  "deserialize_market fs =
     (if length fs \<noteq> 17 \<and> length fs \<noteq> 19 then None
      else
        let full = (length fs = 19); ts = (\<lambda>i. if full then i + 2 else i)
        in do {
          bid_levels \<leftarrow> (if full then Option.bind (caught (decode_book_levels (fs ! 14))) id else Some []);
          ask_levels \<leftarrow> (if full then Option.bind (caught (decode_book_levels (fs ! 15))) id else Some []);
          type \<leftarrow> caught (stoi (fs ! 2));
          tick \<leftarrow> caught (stod (fs ! 8));
          lot \<leftarrow> caught (stod (fs ! 9));
          price \<leftarrow> caught (stod (fs ! 10));
          quantity \<leftarrow> caught (stod (fs ! 11));
          bid \<leftarrow> caught (decode_optional_double (fs ! 12));
          ask \<leftarrow> caught (decode_optional_double (fs ! 13));
          exchange_ts \<leftarrow> caught (stoll (fs ! ts 14));
          receive_ts \<leftarrow> caught (stoll (fs ! ts 15));
          process_ts \<leftarrow> caught (stoll (fs ! ts 16));
          Some \<lparr>me_event_id = fs ! 1, me_type = market_type_cast type,
            me_instrument = \<lparr>instrument_id = fs ! 3, exchange = fs ! 4, symbol = fs ! 5, base_asset = fs ! 6,
              quote_asset = fs ! 7, tick_size = tick, lot_size = lot\<rparr>,
            me_price = price, me_quantity = quantity, me_bid_price = bid, me_ask_price = ask, me_bid_levels = bid_levels,
            me_ask_levels = ask_levels, me_exchange_timestamp = exchange_ts, me_receive_timestamp = receive_ts,
            me_process_timestamp = process_ts\<rparr>
        })"

definition deserialize_transaction :: "string list \<Rightarrow> transaction_command option" where
  "deserialize_transaction fs =
     (if length fs \<noteq> 11 then None
      else do {
        quantity \<leftarrow> caught (stod (fs ! 6));
        price \<leftarrow> caught (decode_optional_double (fs ! 7));
        part \<leftarrow> caught (stoi (fs ! 9));
        offset \<leftarrow> caught (stoll (fs ! 10));
        Some \<lparr>tx_transaction_id = fs ! 1, tx_user_id = fs ! 2, tx_account_id = fs ! 3, tx_command_type = fs ! 4,
          tx_instrument_symbol = fs ! 5, tx_quantity = quantity, tx_price = price, tx_kafka_topic = fs ! 8,
          tx_kafka_partition = part, tx_kafka_offset = offset\<rparr>
      })"

definition deserialize_timer :: "string list \<Rightarrow> timer_event option" where
  "deserialize_timer fs =
     (if length fs \<noteq> 3 then None
      else do { ts \<leftarrow> caught (stoll (fs ! 2)); Some \<lparr>tm_timer_id = fs ! 1, tm_timestamp = ts\<rparr> })"

definition deserialize_event :: "string \<Rightarrow> engine_event option" where
  "deserialize_event line =
     (let fs = split_tsv line
      in if fs = [] then None
         else if fs ! 0 = ''market'' then map_option MarketEvent (deserialize_market fs)
         else if fs ! 0 = ''transaction'' then map_option TransactionCommand (deserialize_transaction fs)
         else if fs ! 0 = ''timer'' then map_option TimerEvent (deserialize_timer fs)
         else None)"

subsection \<open>The log\<close>

type_synonym event_log = "string option"

record replay_stats =
  rp_total_records :: nat
  rp_replayed_records :: nat
  rp_skipped_records :: nat

definition reset_log :: "event_log \<Rightarrow> event_log" where
  "reset_log file = None"

definition append_event :: "engine_event \<Rightarrow> event_log \<Rightarrow> event_log" where
  "append_event e file = Some ((case file of None \<Rightarrow> [] | Some contents \<Rightarrow> contents) @ serialize_event e @ [newline])"

fun replay_lines :: "'s handler \<Rightarrow> string list \<Rightarrow> replay_stats \<Rightarrow> 's \<Rightarrow> replay_stats \<times> 's" where
  "replay_lines h [] stats s = (stats, s)"
| "replay_lines h (line # lines) stats s =
     (let stats' = stats\<lparr>rp_total_records := rp_total_records stats + 1\<rparr>
      in case deserialize_event line of
           Some e \<Rightarrow> replay_lines h lines (stats'\<lparr>rp_replayed_records := rp_replayed_records stats' + 1\<rparr>) (h e s)
         | None \<Rightarrow> replay_lines h lines (stats'\<lparr>rp_skipped_records := rp_skipped_records stats' + 1\<rparr>) s)"

definition replay :: "'s handler \<Rightarrow> event_log \<Rightarrow> 's \<Rightarrow> replay_stats \<times> 's" where
  "replay h file s =
     (let stats = \<lparr>rp_total_records = 0, rp_replayed_records = 0, rp_skipped_records = 0\<rparr>
      in case file of None \<Rightarrow> (stats, s) | Some contents \<Rightarrow> replay_lines h (getline_split newline contents) stats s)"

subsection \<open>Round trip\<close>

text \<open>
  The events the log keeps exactly: no text with a tab or a line break, numbers that survive being printed
  with six significant digits (optional quotes: six decimals), and integers in the range of their types.
\<close>

definition level_safe :: "book_level \<Rightarrow> bool" where
  "level_safe l \<longleftrightarrow> six_digit_decimal (bl_price l) \<and> six_digit_decimal (bl_quantity l)"

fun log_safe :: "engine_event \<Rightarrow> bool" where
  "log_safe (MarketEvent e) \<longleftrightarrow>
     (\<forall>s \<in> {me_event_id e, instrument_id (me_instrument e), exchange (me_instrument e), symbol (me_instrument e),
        base_asset (me_instrument e), quote_asset (me_instrument e)}. text_safe s) \<and>
     (\<forall>x \<in> {tick_size (me_instrument e), lot_size (me_instrument e), me_price e, me_quantity e}. six_digit_decimal x) \<and>
     quote_safe (me_bid_price e) \<and> quote_safe (me_ask_price e) \<and>
     (\<forall>l \<in> set (me_bid_levels e) \<union> set (me_ask_levels e). level_safe l) \<and>
     (\<forall>i \<in> {me_exchange_timestamp e, me_receive_timestamp e, me_process_timestamp e}. int64_ok i) \<and>
     int32_ok (market_type_code (me_type e)) \<and> market_type_cast (market_type_code (me_type e)) = me_type e"
| "log_safe (TransactionCommand c) \<longleftrightarrow>
     (\<forall>s \<in> {tx_transaction_id c, tx_user_id c, tx_account_id c, tx_command_type c, tx_instrument_symbol c, tx_kafka_topic c}. text_safe s) \<and>
     six_digit_decimal (tx_quantity c) \<and> quote_safe (tx_price c) \<and> int32_ok (tx_kafka_partition c) \<and> int64_ok (tx_kafka_offset c)"
| "log_safe (TimerEvent t) \<longleftrightarrow> text_safe (tm_timer_id t) \<and> int64_ok (tm_timestamp t)"

lemma level_chars: "c \<in> set (encode_level l) \<Longrightarrow> c \<noteq> tab \<and> c \<noteq> newline \<and> c \<noteq> CHR '',''"
  using plain_not_separator show_double_plain by (fastforce simp: encode_level_def)

lemma text_safe_levels [simp]: "text_safe (encode_book_levels ls)"
proof -
  have "tab \<notin> set (encode_level l)" "newline \<notin> set (encode_level l)" for l using level_chars by blast+
  then show ?thesis by (simp add: text_safe_def encode_book_levels_def join_with_no_delim)
qed

lemma decode_levels_encode: "\<forall>l \<in> set ls. level_safe l \<Longrightarrow> decode_levels (map encode_level ls) = Inr (Some ls)"
proof (induction ls)
  case (Cons l ls)
  have "CHR '':'' \<notin> set (show_double (bl_price l))"
    using plain_not_separator show_double_plain by blast
  then have "split_at_char CHR '':'' (encode_level l) = Some (show_double (bl_price l), show_double (bl_quantity l))"
    by (simp add: encode_level_def split_at_char_append)
  then show ?case using Cons by (simp add: level_safe_def stod_show_double)
qed simp

lemma decode_encode_levels:
  assumes "\<forall>l \<in> set ls. level_safe l"
  shows "decode_book_levels (encode_book_levels ls) = Inr (Some ls)"
proof (cases ls rule: rev_cases)
  case Nil
  then show ?thesis by (simp add: decode_book_levels_def encode_book_levels_def)
next
  case (snoc ms m)
  have "encode_level m \<noteq> []" by (simp add: encode_level_def)
  then have "last (map encode_level ls) \<noteq> []" "map encode_level ls \<noteq> []" using snoc by simp_all
  moreover have "\<forall>x \<in> set (map encode_level ls). CHR '','' \<notin> set x" using level_chars by auto
  ultimately have "getline_split CHR '','' (encode_book_levels ls) = map encode_level ls"
    unfolding encode_book_levels_def by (intro getline_split_join)
  moreover have "encode_book_levels ls \<noteq> []" using calculation snoc by auto
  ultimately show ?thesis using decode_levels_encode [OF assms] by (simp add: decode_book_levels_def)
qed

lemma show_double_not_Nil_caught: "six_digit_decimal x \<Longrightarrow> caught (stod (show_double x)) = Some x"
  by (simp add: stod_show_double caught_def)

lemma caught_ints: "int64_ok i \<Longrightarrow> caught (stoll (show_int i)) = Some i" "int32_ok i \<Longrightarrow> caught (stoi (show_int i)) = Some i"
  by (simp_all add: caught_def stoll_show_int stoi_show_int)

lemmas read_back = show_double_not_Nil_caught caught_ints decode_encode_quote decode_encode_levels

lemma event_fields_ok:
  assumes "log_safe e"
  shows "\<forall>x \<in> set (event_fields e). text_safe x" "event_fields e \<noteq> []" "last (event_fields e) \<noteq> []"
  using assms by (cases e; simp add: text_safe_literal)+

lemma deserialize_serialize:
  assumes "log_safe e"
  shows "deserialize_event (serialize_event e) = Some e"
proof -
  have fs: "split_tsv (serialize_event e) = event_fields e"
    unfolding serialize_event_def by (rule split_join_tsv) (use event_fields_ok [OF assms] in auto)
  show ?thesis
  proof (cases e)
    case (MarketEvent m)
    have "deserialize_market (event_fields e) = Some m"
      using assms by (simp add: MarketEvent deserialize_market_def read_back caught_def [of "Inr _"])
    then show ?thesis by (simp add: deserialize_event_def fs) (simp add: MarketEvent)
  next
    case (TransactionCommand c)
    have "deserialize_transaction (event_fields e) = Some c"
      using assms by (simp add: TransactionCommand deserialize_transaction_def read_back caught_def [of "Inr _"])
    then show ?thesis by (simp add: deserialize_event_def fs) (simp add: TransactionCommand)
  next
    case (TimerEvent t)
    have "deserialize_timer (event_fields e) = Some t"
      using assms by (simp add: TimerEvent deserialize_timer_def read_back)
    then show ?thesis by (simp add: deserialize_event_def fs) (simp add: TimerEvent)
  qed
qed

lemma append_events:
  "fold append_event es (Some contents) = Some (contents @ concat (map (\<lambda>l. l @ [newline]) (map serialize_event es)))"
  by (induction es arbitrary: contents) (simp_all add: append_event_def)

lemma replay_lines_safe:
  "\<forall>e \<in> set es. log_safe e \<Longrightarrow> replay_lines h (map serialize_event es) stats s =
     (stats\<lparr>rp_total_records := rp_total_records stats + length es, rp_replayed_records := rp_replayed_records stats + length es\<rparr>,
      fold h es s)"
  by (induction es arbitrary: stats s) (simp_all add: deserialize_serialize Let_def)

lemma replay_appended:
  assumes "\<forall>e \<in> set es. log_safe e"
  shows "replay h (fold append_event es (reset_log file)) s =
    (\<lparr>rp_total_records = length es, rp_replayed_records = length es, rp_skipped_records = 0\<rparr>, fold h es s)"
proof (cases es)
  case Nil
  then show ?thesis by (simp add: replay_def reset_log_def)
next
  case (Cons e rest)
  have "append_event e None = append_event e (Some [])" by (simp add: append_event_def)
  then have "fold append_event es (reset_log file) = fold append_event es (Some [])" by (simp add: Cons reset_log_def)
  then have f: "fold append_event es (reset_log file) = Some (concat (map (\<lambda>l. l @ [newline]) (map serialize_event es)))"
    by (simp add: append_events)
  have "\<forall>l \<in> set (map serialize_event es). newline \<notin> set l"
    using assms by (auto simp: serialize_event_def dest!: bspec intro!: join_tsv_no_newline event_fields_ok(1))
  then have "getline_split newline (concat (map (\<lambda>l. l @ [newline]) (map serialize_event es))) = map serialize_event es"
    by (rule file_lines)
  then show ?thesis using assms unfolding f by (simp add: replay_def replay_lines_safe)
qed

text \<open>
  C21. Replaying a log reproduces the run that wrote it: after resetting the log and appending any events
  whose texts have no tab or line break and whose numbers survive their printed form, a replay hands
  exactly these events, in order and unchanged, to the handler, counts every one of them and skips none.
\<close>

theorem replay_roundtrip:
  assumes "\<forall>e \<in> set es. log_safe e"
  shows "replay h (fold append_event es (reset_log file)) s =
    (\<lparr>rp_total_records = length es, rp_replayed_records = length es, rp_skipped_records = 0\<rparr>, fold h es s)"
  using assms by (rule replay_appended)

definition sample_log :: "engine_event list" where
  "sample_log = [TimerEvent \<lparr>tm_timer_id = ''t1'', tm_timestamp = 17\<rparr>,
     MarketEvent \<lparr>me_event_id = ''e1'', me_type = Trade, me_instrument = default_instrument\<lparr>instrument_id := ''BTC-USD''\<rparr>,
       me_price = Fin 100, me_quantity = Fin 2, me_bid_price = None, me_ask_price = None,
       me_bid_levels = [\<lparr>bl_price = Fin 99, bl_quantity = Fin 1\<rparr>, \<lparr>bl_price = Fin 98, bl_quantity = Fin 4\<rparr>], me_ask_levels = [],
       me_exchange_timestamp = 1, me_receive_timestamp = 2, me_process_timestamp = - 3\<rparr>]"

lemma sample_log_safe: "\<forall>e \<in> set sample_log. log_safe e"
proof -
  have "six_digit_decimal (Fin 1)" using six_digit_nat [of 1] by simp
  then show ?thesis
    by (simp add: sample_log_def text_safe_def default_instrument_def quote_safe_def level_safe_def market_type_cast_def six_digit_numeral)
qed

theorem replay_roundtrip_witness:
  "replay (\<lambda>e es. es @ [e]) (fold append_event sample_log (reset_log (Some ''old''))) [] =
    (\<lparr>rp_total_records = 2, rp_replayed_records = 2, rp_skipped_records = 0\<rparr>, sample_log)"
proof -
  have "replay (\<lambda>e es. es @ [e]) (fold append_event sample_log (reset_log (Some ''old''))) [] =
    (\<lparr>rp_total_records = length sample_log, rp_replayed_records = length sample_log, rp_skipped_records = 0\<rparr>,
     fold (\<lambda>e es. es @ [e]) sample_log [])"
    using sample_log_safe by (rule replay_roundtrip)
  moreover have "length sample_log = 2" "fold (\<lambda>e es. es @ [e]) sample_log [] = sample_log" by (simp_all add: sample_log_def)
  ultimately show ?thesis by simp
qed

end
