(* ===== verification/Config_Loader.thy ===== *)
theory Config_Loader
  imports Tsv Risk_Engine
begin

section \<open>Loading and validating the configuration\<close>

text \<open>
  \<open>src/config/config_loader.cpp\<close>: the key-value file, the environment overrides and the validation.
  The file system gives the contents of the file or nothing when it cannot be opened; the process
  environment is a partial function from variable names. Every \<open>std::runtime_error\<close> of the loader is
  the left value of the result.
\<close>

type_synonym value_map = "string \<rightharpoonup> string"
type_synonym environment = "string \<rightharpoonup> string"

definition split_csv :: "string \<Rightarrow> string list" where
  "split_csv value = filter (\<lambda>item. item \<noteq> []) (map trim (getline_split CHR '','' value))"

definition kKnownKeys :: "string list" where
  "kKnownKeys = [''mode'', ''exchange.name'', ''instruments'', ''infrastructure.allow_fallback'', ''redis.host'', ''redis.port'',
     ''postgres.host'', ''postgres.port'', ''postgres.database'', ''postgres.user'', ''postgres.password'', ''kafka.brokers'',
     ''kafka.transaction_topic'', ''kafka.consumer_group'', ''risk.max_order_quantity'', ''risk.max_order_notional'',
     ''risk.max_position_quantity'', ''risk.stale_after_ms'', ''risk.kill_switch_enabled'', ''strategy.id'',
     ''strategy.trigger_instrument_id'', ''strategy.trigger_price'', ''strategy.order_quantity'', ''strategy.side'',
     ''simulation.partial_fill_threshold'', ''simulation.partial_fill_ratio'', ''simulation.auto_complete_partial_fills'']"

definition env_name_for_key :: "string \<Rightarrow> string" where
  "env_name_for_key key = ''TRADING_'' @ map (\<lambda>c. if c = CHR ''.'' then CHR ''_'' else to_upper c) key"

definition get_string :: "value_map \<Rightarrow> string \<Rightarrow> string" where
  "get_string values key = (case values key of None \<Rightarrow> '''' | Some v \<Rightarrow> v)"

definition invalid_number :: "string \<Rightarrow> string \<Rightarrow> std_exception" where
  "invalid_number key text = Runtime_error (''Invalid numeric value for config key '' @ [CHR 0x27] @ key @ [CHR 0x27] @ '': '' @ text)"

definition parse_number :: "(string \<Rightarrow> std_exception + 'a \<times> nat) \<Rightarrow> value_map \<Rightarrow> string \<Rightarrow> 'a \<Rightarrow> std_exception + 'a" where
  "parse_number parser values key default_value =
     (let text = get_string values key
      in if text = [] then Inr default_value
         else case parser text of
           Inl _ \<Rightarrow> Inl (invalid_number key text)
         | Inr (x, consumed) \<Rightarrow> if consumed \<noteq> length text then Inl (invalid_number key text) else Inr x)"

definition get_int :: "value_map \<Rightarrow> string \<Rightarrow> int \<Rightarrow> std_exception + int" where
  "get_int = parse_number stoi_pos"

definition get_int64 :: "value_map \<Rightarrow> string \<Rightarrow> int64 \<Rightarrow> std_exception + int64" where
  "get_int64 = parse_number stoll_pos"

definition get_double :: "value_map \<Rightarrow> string \<Rightarrow> double \<Rightarrow> std_exception + double" where
  "get_double = parse_number stod_pos"

definition parse_bool :: "string \<Rightarrow> bool" where
  "parse_bool v \<longleftrightarrow> v = ''1'' \<or> v = ''true'' \<or> v = ''TRUE'' \<or> v = ''yes'' \<or> v = ''on''"

subsection \<open>The three steps of the loader\<close>

definition parse_line :: "string \<Rightarrow> value_map \<Rightarrow> std_exception + value_map" where
  "parse_line line values =
     (let trimmed = trim line
      in if trimmed = [] \<or> hd trimmed = CHR ''#'' then Inr values
         else case split_at_char CHR ''='' trimmed of
           None \<Rightarrow> Inl (Runtime_error (''Invalid config line: '' @ trimmed))
         | Some (k, v) \<Rightarrow> Inr (values(trim k \<mapsto> trim v)))"

fun parse_lines :: "string list \<Rightarrow> value_map \<Rightarrow> std_exception + value_map" where
  "parse_lines [] values = Inr values"
| "parse_lines (line # lines) values = bindE (parse_line line values) (parse_lines lines)"

definition override_value :: "environment \<Rightarrow> string \<Rightarrow> string \<Rightarrow> value_map \<Rightarrow> value_map" where
  "override_value env name key values = (case env name of None \<Rightarrow> values | Some v \<Rightarrow> values(key \<mapsto> v))"

definition apply_environment :: "environment \<Rightarrow> value_map \<Rightarrow> value_map" where
  "apply_environment env values =
     override_value env ''TRADING_KILL_SWITCH_ENABLED'' ''risk.kill_switch_enabled''
       (override_value env ''TRADING_KAFKA_TOPIC'' ''kafka.transaction_topic''
         (fold (\<lambda>key. override_value env (env_name_for_key key) key) kKnownKeys values))"

definition read_values :: "value_map \<Rightarrow> std_exception + app_config" where
  "read_values values =
     bindE (get_int values ''redis.port'' 6379) (\<lambda>redis_port.
     bindE (get_int values ''postgres.port'' 5432) (\<lambda>postgres_port.
     bindE (get_double values ''risk.max_order_quantity'' 0) (\<lambda>max_order_quantity.
     bindE (get_double values ''risk.max_order_notional'' 0) (\<lambda>max_order_notional.
     bindE (get_double values ''risk.max_position_quantity'' 0) (\<lambda>max_position_quantity.
     bindE (get_int64 values ''risk.stale_after_ms'' 0) (\<lambda>stale_after_ms.
     bindE (get_double values ''strategy.trigger_price'' 0) (\<lambda>trigger_price.
     bindE (get_double values ''strategy.order_quantity'' 0) (\<lambda>order_quantity.
     bindE (get_double values ''simulation.partial_fill_threshold'' 0) (\<lambda>partial_fill_threshold.
     bindE (get_double values ''simulation.partial_fill_ratio'' 0) (\<lambda>partial_fill_ratio.
     Inr \<lparr>ac_mode = get_string values ''mode'', ac_exchange_name = get_string values ''exchange.name'',
       ac_instruments = split_csv (get_string values ''instruments''),
       ac_redis = \<lparr>rd_host = get_string values ''redis.host'', rd_port = redis_port\<rparr>,
       ac_postgres = \<lparr>pg_host = get_string values ''postgres.host'', pg_port = postgres_port,
         pg_database = get_string values ''postgres.database'', pg_user = get_string values ''postgres.user'',
         pg_password = get_string values ''postgres.password''\<rparr>,
       ac_kafka = \<lparr>kf_brokers = split_csv (get_string values ''kafka.brokers''),
         kf_transaction_topic = get_string values ''kafka.transaction_topic'',
         kf_consumer_group = get_string values ''kafka.consumer_group''\<rparr>,
       ac_risk = \<lparr>rk_max_order_quantity = max_order_quantity, rk_max_order_notional = max_order_notional,
         rk_max_position_quantity = max_position_quantity, rk_stale_after_ms = stale_after_ms,
         rk_kill_switch_enabled = parse_bool (get_string values ''risk.kill_switch_enabled'')\<rparr>,
       ac_strategy = \<lparr>sg_strategy_id = get_string values ''strategy.id'',
         sg_trigger_instrument_id = get_string values ''strategy.trigger_instrument_id'',
         sg_trigger_price = trigger_price, sg_order_quantity = order_quantity, sg_side = get_string values ''strategy.side''\<rparr>,
       ac_simulation = \<lparr>sm_partial_fill_threshold = partial_fill_threshold, sm_partial_fill_ratio = partial_fill_ratio,
         sm_auto_complete_partial_fills = parse_bool (get_string values ''simulation.auto_complete_partial_fills'')\<rparr>,
       ac_allow_fallback = parse_bool (get_string values ''infrastructure.allow_fallback'')\<rparr>))))))))))"

definition load_from_file :: "environment \<Rightarrow> string \<Rightarrow> string option \<Rightarrow> std_exception + app_config" where
  "load_from_file env path contents =
     (case contents of
        None \<Rightarrow> Inl (Runtime_error (''Unable to open config file: '' @ path))
      | Some text \<Rightarrow>
          bindE (parse_lines (getline_split newline text) Map.empty) (\<lambda>values. read_values (apply_environment env values)))"

subsection \<open>Validation\<close>

definition validate :: "app_config \<Rightarrow> config_validation_result" where
  "validate c =
     (let bad = (\<lambda>e. \<lparr>cv_valid = False, cv_error = Some e\<rparr>); risk = ac_risk c; st = ac_strategy c; sim = ac_simulation c
      in if ac_mode c = [] then bad ''mode is required''
         else if rd_host (ac_redis c) = [] then bad ''redis.host is required''
         else if pg_host (ac_postgres c) = [] \<or> pg_database (ac_postgres c) = [] \<or> pg_user (ac_postgres c) = []
         then bad ''postgres connection settings are required''
         else if kf_brokers (ac_kafka c) = [] \<or> kf_transaction_topic (ac_kafka c) = [] \<or> kf_consumer_group (ac_kafka c) = []
         then bad ''kafka settings are required''
         else if rk_max_order_quantity risk \<le> 0 \<or> rk_max_order_notional risk \<le> 0 \<or> rk_max_position_quantity risk \<le> 0 \<or>
           rk_stale_after_ms risk \<le> 0
         then bad ''risk settings are required''
         else if sg_strategy_id st = [] \<or> sg_trigger_instrument_id st = [] \<or> sg_trigger_price st \<le> 0 \<or> sg_order_quantity st \<le> 0
         then bad ''strategy settings are required''
         else if sg_side st \<noteq> ''buy'' \<and> sg_side st \<noteq> ''sell''
         then bad ''strategy.side must be buy or sell''
         else if sm_partial_fill_threshold sim \<le> 0 \<or> sm_partial_fill_ratio sim \<le> 0 \<or> 1 < sm_partial_fill_ratio sim
         then bad ''simulation settings are required''
         else \<lparr>cv_valid = True, cv_error = None\<rparr>)"


subsection \<open>What a key is set to\<close>

text \<open>
  The specification of the overrides: the legacy variable of a key wins over its \<open>TRADING_\<close> variable,
  which wins over the last line of the file that assigns the key; a key set nowhere is empty.
\<close>

definition legacy_name :: "string \<Rightarrow> string option" where
  "legacy_name key = (if key = ''kafka.transaction_topic'' then Some ''TRADING_KAFKA_TOPIC''
     else if key = ''risk.kill_switch_enabled'' then Some ''TRADING_KILL_SWITCH_ENABLED'' else None)"

definition setting :: "environment \<Rightarrow> (string \<times> string) list \<Rightarrow> string \<Rightarrow> string" where
  "setting env kvs key =
     (case Option.bind (legacy_name key) env of Some v \<Rightarrow> v
      | None \<Rightarrow> (case env (env_name_for_key key) of Some v \<Rightarrow> v
        | None \<Rightarrow> (case map_of (rev kvs) key of Some v \<Rightarrow> v | None \<Rightarrow> '''')))"

lemma fold_override:
  "fold (\<lambda>key. override_value env (env_name_for_key key) key) keys m k =
     (if k \<in> set keys \<and> env (env_name_for_key k) \<noteq> None then env (env_name_for_key k) else m k)"
  by (induction keys arbitrary: m) (auto simp: override_value_def split: option.splits)

lemma get_string_setting:
  assumes "k \<in> set kKnownKeys"
  shows "get_string (apply_environment env (map_of (rev kvs))) k = setting env kvs k"
proof -
  define m where "m = fold (\<lambda>key. override_value env (env_name_for_key key) key) kKnownKeys (map_of (rev kvs))"
  have "get_string m k = (case env (env_name_for_key k) of Some v \<Rightarrow> v
      | None \<Rightarrow> (case map_of (rev kvs) k of Some v \<Rightarrow> v | None \<Rightarrow> []))"
    using assms by (auto simp: m_def fold_override get_string_def split: option.splits)
  moreover have "get_string (apply_environment env (map_of (rev kvs))) k =
      (case Option.bind (legacy_name k) env of Some v \<Rightarrow> v | None \<Rightarrow> get_string m k)"
    by (auto simp: apply_environment_def override_value_def get_string_def legacy_name_def m_def split: option.splits)
  ultimately show ?thesis by (simp only: setting_def)
qed

subsection \<open>Lines\<close>

lemma trim_id: "trim s = s \<longleftrightarrow> (s = [] \<or> \<not> trim_chars (hd s) \<and> \<not> trim_chars (last s))"
proof -
  have len: "length (trim s) \<le> length (dropWhile trim_chars s)"
    using length_dropWhile_le [of trim_chars "rev (dropWhile trim_chars s)"] by (simp add: trim_def)
  have "trim s = s \<Longrightarrow> dropWhile trim_chars s = s"
    using len dropWhile_eq_self_iff [of trim_chars s] length_dropWhile_le [of trim_chars s]
    by (metis antisym append_same_eq length_append self_append_conv2 takeWhile_dropWhile_id le_add2 le_antisym append_eq_append_conv)
  then have "trim s = s \<longleftrightarrow> dropWhile trim_chars s = s \<and> dropWhile trim_chars (rev s) = rev s"
    by (metis rev_swap trim_def)
  then show ?thesis by (cases "s = []") (auto simp: dropWhile_eq_self_iff hd_rev)
qed

lemma trim_trim [simp]: "trim (trim s) = trim s"
proof (cases "trim s = []")
  case False
  define t where "t = dropWhile trim_chars s"
  define u where "u = dropWhile trim_chars (rev t)"
  have u: "trim s = rev u" by (simp add: trim_def t_def u_def)
  have "u \<noteq> []" using False u by simp
  then have "\<not> trim_chars (hd u)" using hd_dropWhile [of trim_chars "rev t"] by (simp add: u_def)
  moreover have "last u = hd t"
  proof -
    have "rev t = takeWhile trim_chars (rev t) @ u" by (simp add: u_def)
    then have "last (rev t) = last u" using \<open>u \<noteq> []\<close> by (metis last_appendR)
    moreover have "t \<noteq> []" using \<open>u \<noteq> []\<close> u_def by auto
    ultimately show ?thesis by (simp add: last_rev)
  qed
  moreover have "t \<noteq> []" using \<open>u \<noteq> []\<close> u_def by auto
  then have "\<not> trim_chars (hd t)" using hd_dropWhile [of trim_chars s] by (simp add: t_def)
  ultimately show ?thesis using \<open>u \<noteq> []\<close> unfolding trim_id u by (simp add: hd_rev last_rev)
next
  case True
  then show ?thesis by (simp only: True) (simp add: trim_def)
qed

text \<open>A line of a configuration file: an assignment, or a blank line or comment.\<close>

datatype config_line = Setting string string | Remark string

fun render_line :: "config_line \<Rightarrow> string" where
  "render_line (Setting k v) = k @ CHR ''='' # v"
| "render_line (Remark t) = t"

fun line_ok :: "config_line \<Rightarrow> bool" where
  "line_ok (Setting k v) \<longleftrightarrow> k \<noteq> [] \<and> trim k = k \<and> trim v = v \<and> hd k \<noteq> CHR ''#'' \<and> CHR ''='' \<notin> set k \<and>
     newline \<notin> set k \<and> newline \<notin> set v"
| "line_ok (Remark t) \<longleftrightarrow> (trim t = [] \<or> hd (trim t) = CHR ''#'') \<and> newline \<notin> set t"

fun assignments :: "config_line list \<Rightarrow> (string \<times> string) list" where
  "assignments [] = []"
| "assignments (Setting k v # ls) = (k, v) # assignments ls"
| "assignments (Remark t # ls) = assignments ls"

lemma line_ok_newline: "line_ok l \<Longrightarrow> newline \<notin> set (render_line l)"
  by (cases l) auto

definition config_text :: "config_line list \<Rightarrow> string" where
  "config_text ls = concat (map (\<lambda>l. l @ [newline]) (map render_line ls))"

lemma parse_line_setting:
  assumes "line_ok (Setting k v)"
  shows "parse_line (render_line (Setting k v)) m = Inr (m(k \<mapsto> v))"
proof -
  have eq: "\<not> trim_chars CHR ''=''" by (simp add: trim_chars_def)
  have "trim (k @ CHR ''='' # v) = k @ CHR ''='' # v"
    using assms eq by (cases "v = []") (auto simp: trim_id)
  then show ?thesis
    using assms by (simp add: parse_line_def Let_def split_at_char_append)
qed

lemma parse_lines_text:
  "\<forall>l \<in> set ls. line_ok l \<Longrightarrow> parse_lines (map render_line ls)  m = Inr (m ++ map_of (rev (assignments ls)))"
proof (induction ls arbitrary: m rule: assignments.induct)
  case (2 k v ls)
  have "parse_lines (map render_line (Setting k v # ls)) m = parse_lines (map render_line ls) (m(k \<mapsto> v))"
    using 2(2) parse_line_setting [of k v m] by simp
  also have "\<dots> = Inr (m(k \<mapsto> v) ++ map_of (rev (assignments ls)))" using 2 by simp
  finally show ?case by simp
qed (auto simp: parse_line_def Let_def)

lemma load_config_text:
  assumes "\<forall>l \<in> set ls. line_ok l"
  shows "load_from_file env path (Some (config_text ls)) = read_values (apply_environment env (map_of (rev (assignments ls))))"
proof -
  have "\<forall>l \<in> set (map render_line ls). newline \<notin> set l"
    using assms by (auto dest!: bspec line_ok_newline)
  then have "getline_split newline (config_text ls) = map render_line ls" unfolding config_text_def by (rule file_lines)
  then show ?thesis using parse_lines_text [OF assms, of Map.empty] by (simp add: load_from_file_def)
qed


subsection \<open>Numbers and lists in a configuration\<close>

lemma parse_number_show:
  assumes "get_string m key = text" "text \<noteq> []" "parser text = Inr (x, length text)"
  shows "parse_number parser m key d = Inr x"
  using assms by (simp add: parse_number_def Let_def)

lemma get_double_show: "get_string m key = show_double x \<Longrightarrow> six_digit_decimal x \<Longrightarrow> get_double m key d = Inr x"
  unfolding get_double_def using show_double_not_Nil stod_pos_show_double by (intro parse_number_show [of _ _ "show_double x"]) simp_all

lemma get_int_show: "get_string m key = show_int i \<Longrightarrow> int32_ok i \<Longrightarrow> get_int m key d = Inr i"
  unfolding get_int_def by (rule parse_number_show [of _ _ "show_int i"]) (simp_all add: stoi_pos_def stoi_range_show_int)

lemma get_int64_show: "get_string m key = show_int i \<Longrightarrow> int64_ok i \<Longrightarrow> get_int64 m key d = Inr i"
  unfolding get_int64_def by (rule parse_number_show [of _ _ "show_int i"]) (simp_all add: stoll_pos_def stoi_range_show_int)

definition csv_item :: "string \<Rightarrow> bool" where
  "csv_item x \<longleftrightarrow> x \<noteq> [] \<and> trim x = x \<and> CHR '','' \<notin> set x"

lemma split_csv_join:
  assumes "\<forall>x \<in> set xs. csv_item x"
  shows "split_csv (join_with CHR '','' xs) = xs"
proof (cases "xs = []")
  case False
  have "getline_split CHR '','' (join_with CHR '','' xs) = xs"
    using assms False by (intro getline_split_join) (auto simp: csv_item_def)
  moreover have "map trim xs = xs" using assms by (simp add: csv_item_def map_idI)
  ultimately show ?thesis using assms by (simp add: split_csv_def filter_id_conv csv_item_def)
qed (simp add: split_csv_def)

lemma parse_bool_text [simp]: "parse_bool ''true''" "\<not> parse_bool ''false''"
  by (simp_all add: parse_bool_def)

text \<open>The text of every known key for a given configuration.\<close>

abbreviation show_bool :: "bool \<Rightarrow> string" where
  "show_bool b \<equiv> if b then ''true'' else ''false''"

definition config_settings :: "app_config \<Rightarrow> (string \<times> string) list" where
  "config_settings c = zip kKnownKeys
     [ac_mode c, ac_exchange_name c, join_with CHR '','' (ac_instruments c), show_bool (ac_allow_fallback c),
      rd_host (ac_redis c), show_int (rd_port (ac_redis c)),
      pg_host (ac_postgres c), show_int (pg_port (ac_postgres c)), pg_database (ac_postgres c), pg_user (ac_postgres c), pg_password (ac_postgres c),
      join_with CHR '','' (kf_brokers (ac_kafka c)), kf_transaction_topic (ac_kafka c), kf_consumer_group (ac_kafka c),
      show_double (rk_max_order_quantity (ac_risk c)), show_double (rk_max_order_notional (ac_risk c)),
      show_double (rk_max_position_quantity (ac_risk c)), show_int (rk_stale_after_ms (ac_risk c)), show_bool (rk_kill_switch_enabled (ac_risk c)),
      sg_strategy_id (ac_strategy c), sg_trigger_instrument_id (ac_strategy c), show_double (sg_trigger_price (ac_strategy c)),
      show_double (sg_order_quantity (ac_strategy c)), sg_side (ac_strategy c),
      show_double (sm_partial_fill_threshold (ac_simulation c)), show_double (sm_partial_fill_ratio (ac_simulation c)),
      show_bool (sm_auto_complete_partial_fills (ac_simulation c))]"

definition config_printable :: "app_config \<Rightarrow> bool" where
  "config_printable c \<longleftrightarrow> list_all csv_item (ac_instruments c) \<and> list_all csv_item (kf_brokers (ac_kafka c)) \<and>
     int32_ok (rd_port (ac_redis c)) \<and> int32_ok (pg_port (ac_postgres c)) \<and> int64_ok (rk_stale_after_ms (ac_risk c)) \<and>
     list_all six_digit_decimal [rk_max_order_quantity (ac_risk c), rk_max_order_notional (ac_risk c), rk_max_position_quantity (ac_risk c),
       sg_trigger_price (ac_strategy c), sg_order_quantity (ac_strategy c),
       sm_partial_fill_threshold (ac_simulation c), sm_partial_fill_ratio (ac_simulation c)]"

lemma read_values_settings:
  assumes "config_printable c" "\<forall>(k, v) \<in> set (config_settings c). get_string m k = v"
  shows "read_values m = Inr c"
proof -
  note eq = assms(2) [unfolded config_settings_def kKnownKeys_def zip_Cons_Cons zip_Nil list.set ball_simps prod.case]
  have num: "get_int m ''redis.port'' d1 = Inr (rd_port (ac_redis c))" "get_int m ''postgres.port'' d1 = Inr (pg_port (ac_postgres c))"
    "get_int64 m ''risk.stale_after_ms'' d1 = Inr (rk_stale_after_ms (ac_risk c))"
    "get_double m ''risk.max_order_quantity'' d2 = Inr (rk_max_order_quantity (ac_risk c))"
    "get_double m ''risk.max_order_notional'' d2 = Inr (rk_max_order_notional (ac_risk c))"
    "get_double m ''risk.max_position_quantity'' d2 = Inr (rk_max_position_quantity (ac_risk c))"
    "get_double m ''strategy.trigger_price'' d2 = Inr (sg_trigger_price (ac_strategy c))"
    "get_double m ''strategy.order_quantity'' d2 = Inr (sg_order_quantity (ac_strategy c))"
    "get_double m ''simulation.partial_fill_threshold'' d2 = Inr (sm_partial_fill_threshold (ac_simulation c))"
    "get_double m ''simulation.partial_fill_ratio'' d2 = Inr (sm_partial_fill_ratio (ac_simulation c))" for d1 d2
    using eq assms(1) by (auto intro!: get_int_show get_int64_show get_double_show simp: config_printable_def)
  have csv: "split_csv (join_with CHR '','' (ac_instruments c)) = ac_instruments c"
    "split_csv (join_with CHR '','' (kf_brokers (ac_kafka c))) = kf_brokers (ac_kafka c)"
    using assms(1) by (simp_all add: config_printable_def split_csv_join list_all_iff)
  show ?thesis
    using eq by (simp add: read_values_def num csv)
qed


lemma load_printed:
  assumes "\<forall>l \<in> set ls. line_ok l" "config_printable c"
    and "\<forall>(k, v) \<in> set (config_settings c). setting env (assignments ls) k = v"
  shows "load_from_file env path (Some (config_text ls)) = Inr c"
proof -
  have "k \<in> set kKnownKeys" if "(k, v) \<in> set (config_settings c)" for k v
    using that by (auto simp: config_settings_def dest: set_zip_leftD)
  then have "\<forall>(k, v) \<in> set (config_settings c). get_string (apply_environment env (map_of (rev (assignments ls)))) k = v"
    using assms(3) by (auto simp: get_string_setting)
  then show ?thesis using load_config_text [OF assms(1)] read_values_settings [OF assms(2)] by simp
qed

text \<open>
  C22. Configuration round trip with overrides: whatever comments and assignments the file has and whatever
  the environment defines, when every known key is set (legacy variable before \<open>TRADING_\<close> variable before
  the last assignment in the file) to the text of a printable configuration, the loader returns exactly
  that configuration.
\<close>

theorem config_roundtrip:
  assumes "\<forall>l \<in> set ls. line_ok l" "config_printable c"
    and "\<forall>(k, v) \<in> set (config_settings c). setting env (assignments ls) k = v"
  shows "load_from_file env path (Some (config_text ls)) = Inr c"
  using assms by (rule load_printed)

definition sample_config :: app_config where
  "sample_config = \<lparr>ac_mode = ''paper'', ac_exchange_name = ''binance'', ac_instruments = [''BTCUSDT'', ''ETHUSDT''],
     ac_redis = \<lparr>rd_host = ''localhost'', rd_port = 6379\<rparr>,
     ac_postgres = \<lparr>pg_host = ''db'', pg_port = 5432, pg_database = ''trading'', pg_user = ''svc'', pg_password = ''a=b''\<rparr>,
     ac_kafka = \<lparr>kf_brokers = [''k1:9092''], kf_transaction_topic = ''tx'', kf_consumer_group = ''g''\<rparr>,
     ac_risk = \<lparr>rk_max_order_quantity = Fin 5, rk_max_order_notional = Fin 1000, rk_max_position_quantity = Fin 10,
       rk_stale_after_ms = 500, rk_kill_switch_enabled = True\<rparr>,
     ac_strategy = \<lparr>sg_strategy_id = ''s'', sg_trigger_instrument_id = ''BTC'', sg_trigger_price = Fin 100, sg_order_quantity = Fin 2, sg_side = ''buy''\<rparr>,
     ac_simulation = \<lparr>sm_partial_fill_threshold = Fin 1, sm_partial_fill_ratio = Fin 1, sm_auto_complete_partial_fills = False\<rparr>,
     ac_allow_fallback = True\<rparr>"

definition sample_lines :: "config_line list" where
  "sample_lines = Remark ''# sample'' # Remark '''' # Setting ''mode'' ''ignored'' #
     map (\<lambda>(k, v). Setting k (if k = ''risk.kill_switch_enabled'' then ''false'' else v)) (config_settings sample_config)"

definition sample_environment :: environment where
  "sample_environment name = (if name = ''TRADING_KILL_SWITCH_ENABLED'' then Some ''true'' else None)"

lemma number_trim: "(\<And>c. c \<in> set s \<Longrightarrow> num_char c) \<Longrightarrow> trim s = s \<and> newline \<notin> set s"
proof -
  have sep: "num_char c \<Longrightarrow> \<not> trim_chars c \<and> c \<noteq> newline" for c
    by (auto simp: num_char_def is_digit_def trim_chars_def)
  then show "(\<And>c. c \<in> set s \<Longrightarrow> num_char c) \<Longrightarrow> ?thesis" by (cases "s = []") (auto simp: trim_id)
qed

lemma show_positive_trim [simp]: "trim (show_positive x) = show_positive x" "newline \<notin> set (show_positive x)"
  using number_trim [of "show_positive x"] show_positive_plain by blast+

lemma show_int_trim [simp]: "trim (show_int i) = show_int i" "newline \<notin> set (show_int i)"
  using number_trim [of "show_int i"] show_nat_digits by (fastforce simp: show_int_def num_char_def split: if_splits)+

lemma sample_settings:
  "config_settings sample_config = [(''mode'', ''paper''), (''exchange.name'', ''binance''), (''instruments'', ''BTCUSDT,ETHUSDT''),
     (''infrastructure.allow_fallback'', ''true''), (''redis.host'', ''localhost''), (''redis.port'', show_int 6379),
     (''postgres.host'', ''db''), (''postgres.port'', show_int 5432), (''postgres.database'', ''trading''), (''postgres.user'', ''svc''),
     (''postgres.password'', ''a=b''), (''kafka.brokers'', ''k1:9092''), (''kafka.transaction_topic'', ''tx''), (''kafka.consumer_group'', ''g''),
     (''risk.max_order_quantity'', show_positive 5), (''risk.max_order_notional'', show_positive 1000), (''risk.max_position_quantity'', show_positive 10),
     (''risk.stale_after_ms'', show_int 500), (''risk.kill_switch_enabled'', ''true''), (''strategy.id'', ''s''),
     (''strategy.trigger_instrument_id'', ''BTC''), (''strategy.trigger_price'', show_positive 100), (''strategy.order_quantity'', show_positive 2),
     (''strategy.side'', ''buy''), (''simulation.partial_fill_threshold'', show_positive 1), (''simulation.partial_fill_ratio'', show_positive 1),
     (''simulation.auto_complete_partial_fills'', ''false'')]"
  by (simp add: config_settings_def sample_config_def kKnownKeys_def)

lemma sample_printed:
  "\<forall>l \<in> set sample_lines. line_ok l" "config_printable sample_config"
  "\<forall>(k, v) \<in> set (config_settings sample_config). setting sample_environment (assignments sample_lines) k = v"
proof -
  show "\<forall>l \<in> set sample_lines. line_ok l"
    by (simp add: sample_lines_def sample_settings)
      (simp add: trim_def trim_chars_def)
  show "config_printable sample_config"
    using six_digit_numeral [of "num.One"] six_digit_nat [of 1]
    by (simp add: config_printable_def sample_config_def csv_item_def trim_id trim_chars_def six_digit_numeral)
  show "\<forall>(k, v) \<in> set (config_settings sample_config). setting sample_environment (assignments sample_lines) k = v"
    by (simp add: sample_lines_def sample_settings setting_def sample_environment_def legacy_name_def env_name_for_key_def to_upper_def)
qed

lemma sample_config_valid: "cv_valid (validate sample_config)"
  by (simp add: validate_def Let_def sample_config_def double_eval)

theorem config_roundtrip_witness:
  "load_from_file sample_environment ''app.conf'' (Some (config_text sample_lines)) = Inr sample_config"
  by (rule config_roundtrip [OF sample_printed])

subsection \<open>Types of a loaded configuration\<close>

lemma stod_pos_valid: "stod_pos s = Inr (x, n) \<Longrightarrow> valid_double x"
  by (auto simp: stod_pos_def Let_def case_prod_beta split: if_splits option.splits)

lemma stoi_range_bounds: "stoi_range lo hi s = Inr (x, n) \<Longrightarrow> lo \<le> x \<and> x \<le> hi"
  by (auto simp: stoi_range_def Let_def case_prod_beta split: if_splits)

lemma parse_number_Inr: "parse_number parser m key d = Inr x \<Longrightarrow> x = d \<or> (\<exists>t n. parser t = Inr (x, n))"
  by (auto simp: parse_number_def Let_def split: if_splits sum.splits)

lemma get_int_ok: "get_int m key d = Inr x \<Longrightarrow> int32_ok d \<Longrightarrow> int32_ok x"
  unfolding get_int_def stoi_pos_def by (drule parse_number_Inr) (auto dest: stoi_range_bounds)

lemma get_int64_ok: "get_int64 m key d = Inr x \<Longrightarrow> int64_ok d \<Longrightarrow> int64_ok x"
  unfolding get_int64_def stoll_pos_def by (drule parse_number_Inr) (auto dest: stoi_range_bounds)

lemma get_double_ok: "get_double m key 0 = Inr x \<Longrightarrow> valid_double x"
  unfolding get_double_def by (drule parse_number_Inr) (auto dest: stod_pos_valid simp: zero_double_def)

lemma getline_split_delim: "x \<in> set (getline_split d s) \<Longrightarrow> d \<notin> set x"
proof (induction d s rule: getline_split.induct)
  case (1 d s)
  then show ?case by (subst (asm) (2) getline_split.simps) (auto split: if_splits dest: set_takeWhileD)
qed

lemma set_trim: "set (trim s) \<subseteq> set s"
  by (auto simp: trim_def dest!: set_dropWhileD)

lemma split_csv_items: "list_all csv_item (split_csv s)"
  using set_trim getline_split_delim by (fastforce simp: split_csv_def csv_item_def list_all_iff)

definition config_typed :: "app_config \<Rightarrow> bool" where
  "config_typed c \<longleftrightarrow> list_all csv_item (ac_instruments c) \<and> list_all csv_item (kf_brokers (ac_kafka c)) \<and>
     int32_ok (rd_port (ac_redis c)) \<and> int32_ok (pg_port (ac_postgres c)) \<and> int64_ok (rk_stale_after_ms (ac_risk c)) \<and>
     list_all valid_double [rk_max_order_quantity (ac_risk c), rk_max_order_notional (ac_risk c), rk_max_position_quantity (ac_risk c),
       sg_trigger_price (ac_strategy c), sg_order_quantity (ac_strategy c),
       sm_partial_fill_threshold (ac_simulation c), sm_partial_fill_ratio (ac_simulation c)]"

lemma read_values_typed: "read_values m = Inr c \<Longrightarrow> config_typed c"
  unfolding read_values_def bindE_Inr
  by (elim exE conjE, drule Inr_inject, hypsubst)
    (simp add: config_typed_def split_csv_items get_int_ok [simplified] get_int64_ok [simplified] get_double_ok)

text \<open>
  C23. A configuration the loader returns, from any file and environment, holds machine values: ports within
  \<open>int\<close>, the staleness limit within \<open>std::int64_t\<close>, doubles for all limits, and list items that are not
  empty, are trimmed and hold no separator.
\<close>

theorem load_typed: "load_from_file env path contents = Inr c \<Longrightarrow> config_typed c"
  by (auto simp: load_from_file_def bindE_Inr split: option.splits dest: read_values_typed)

subsection \<open>Errors of the loader\<close>

text \<open>The numeric keys in the order the loader reads them, each with the test for a well-formed text.\<close>

definition parses :: "(string \<Rightarrow> std_exception + 'a \<times> nat) \<Rightarrow> string \<Rightarrow> bool" where
  "parses parser t \<longleftrightarrow> (case parser t of Inl _ \<Rightarrow> False | Inr (x, n) \<Rightarrow> n = length t)"

definition numeric_keys :: "(string \<times> (string \<Rightarrow> bool)) list" where
  "numeric_keys = [(''redis.port'', parses stoi_pos), (''postgres.port'', parses stoi_pos),
     (''risk.max_order_quantity'', parses stod_pos), (''risk.max_order_notional'', parses stod_pos),
     (''risk.max_position_quantity'', parses stod_pos), (''risk.stale_after_ms'', parses stoll_pos),
     (''strategy.trigger_price'', parses stod_pos), (''strategy.order_quantity'', parses stod_pos),
     (''simulation.partial_fill_threshold'', parses stod_pos), (''simulation.partial_fill_ratio'', parses stod_pos)]"

definition malformed :: "(string \<Rightarrow> string) \<Rightarrow> string \<times> (string \<Rightarrow> bool) \<Rightarrow> bool" where
  "malformed text kp \<longleftrightarrow> text (fst kp) \<noteq> [] \<and> \<not> snd kp (text (fst kp))"

lemma parse_number_malformed:
  "malformed (get_string m) (key, parses parser) \<Longrightarrow> parse_number parser m key d = Inl (invalid_number key (get_string m key))"
  "\<not> malformed (get_string m) (key, parses parser) \<Longrightarrow> \<exists>x. parse_number parser m key d = Inr x"
  by (auto simp: malformed_def parses_def parse_number_def Let_def split: sum.splits)

lemma bind_number:
  "(bindE (parse_number parser m key d) f) =
     (if malformed (get_string m) (key, parses parser) then Inl (invalid_number key (get_string m key))
      else f (projr (parse_number parser m key d)))"
  using parse_number_malformed [of m key parser d] by auto

lemma find_step:
  assumes "a = g k" "X = Inl e \<longleftrightarrow> (\<exists>kp. F = Some kp \<and> e = g kp)"
  shows "(if b then Inl a else X) = Inl e \<longleftrightarrow> (\<exists>kp. (if b then Some k else F) = Some kp \<and> e = g kp)"
  using assms by auto

lemma read_values_error:
  "read_values m = Inl e \<longleftrightarrow>
     (\<exists>kp. find (malformed (get_string m)) numeric_keys = Some kp \<and> e = invalid_number (fst kp) (get_string m (fst kp)))"
  unfolding read_values_def get_int_def get_int64_def get_double_def bind_number numeric_keys_def find.simps
  by (rule find_step, simp only: fst_conv)+ simp

lemma load_number_error:
  assumes "\<forall>l \<in> set ls. line_ok l"
  shows "load_from_file env path (Some (config_text ls)) = Inl e \<longleftrightarrow>
    (\<exists>kp. find (malformed (setting env (assignments ls))) numeric_keys = Some kp \<and>
       e = invalid_number (fst kp) (setting env (assignments ls) (fst kp)))"
proof -
  define m where "m = apply_environment env (map_of (rev (assignments ls)))"
  have known: "fst kp \<in> set kKnownKeys" if "kp \<in> set numeric_keys" for kp
    using that by (auto simp: numeric_keys_def kKnownKeys_def)
  then have same: "get_string m (fst kp) = setting env (assignments ls) (fst kp)" if "kp \<in> set numeric_keys" for kp
    using that by (simp add: m_def get_string_setting)
  have find: "find (malformed (get_string m)) numeric_keys = find (malformed (setting env (assignments ls))) numeric_keys"
    by (rule find_cong) (simp_all add: malformed_def same)
  have "find (malformed (setting env (assignments ls))) numeric_keys = Some kp \<Longrightarrow> kp \<in> set numeric_keys" for kp
    by (auto simp: find_Some_iff)
  then show ?thesis
    unfolding load_config_text [OF assms] m_def [symmetric] read_values_error find using same by metis
qed

theorem load_typed_witness:
  "\<exists>c. load_from_file Map.empty ''app.conf'' (Some (config_text [Setting ''kafka.brokers'' ''a, ,b''])) = Inr c \<and> config_typed c"
proof -
  let ?ls = "[Setting ''kafka.brokers'' ''a, ,b'']"
  have "\<forall>l \<in> set ?ls. line_ok l" by (simp add: trim_id trim_chars_def)
  moreover have "find (malformed (setting Map.empty (assignments ?ls))) numeric_keys = None"
    by (simp add: numeric_keys_def malformed_def setting_def legacy_name_def)
  ultimately have "load_from_file Map.empty ''app.conf'' (Some (config_text ?ls)) \<noteq> Inl e" for e
    using load_number_error by simp
  then show ?thesis using load_typed by (metis sum.exhaust)
qed

lemma invalid_line_error:
  assumes "\<forall>l \<in> set ls. line_ok l" "trim bad \<noteq> []" "hd (trim bad) \<noteq> CHR ''#''" "CHR ''='' \<notin> set bad" "newline \<notin> set bad"
  shows "load_from_file env path (Some (config_text ls @ bad @ newline # rest)) = Inl (Runtime_error (''Invalid config line: '' @ trim bad))"
proof -
  have "split_at_char CHR ''='' (trim bad) = None"
    using assms(4) set_trim [of bad] by (auto simp: split_at_char_None)
  then have err: "parse_line bad m = Inl (Runtime_error (''Invalid config line: '' @ trim bad))" for m
    using assms(2,3) by (simp add: parse_line_def Let_def)
  have "parse_lines (getline_split newline (config_text ls @ bad @ newline # rest)) m =
      Inl (Runtime_error (''Invalid config line: '' @ trim bad))" for m
    using assms(1)
  proof (induction ls arbitrary: m)
    case Nil
    then show ?case using err assms(5) by (simp add: config_text_def getline_split_field)
  next
    case (Cons l ls)
    have "parse_line (render_line l) m = Inr (m ++ map_of (assignments [l]))"
      using Cons.prems parse_line_setting by (cases l) (auto simp: parse_line_def Let_def)
    then show ?case
      using Cons line_ok_newline [of l] by (simp add: config_text_def getline_split_field)
  qed
  then show ?thesis by (simp add: load_from_file_def)
qed

text \<open>
  C24. The loader reports the first error, and every one: a file that cannot be opened, then the first line
  that is neither blank, a comment nor an assignment, then the first numeric key, in the order they are
  read, whose text is not a complete number of its type and range; nothing else makes it fail.
\<close>

theorem load_errors:
  assumes "\<forall>l \<in> set ls. line_ok l"
  shows "load_from_file env path None = Inl (Runtime_error (''Unable to open config file: '' @ path)) \<and>
    (trim bad \<noteq> [] \<and> hd (trim bad) \<noteq> CHR ''#'' \<and> CHR ''='' \<notin> set bad \<and> newline \<notin> set bad \<longrightarrow>
      load_from_file env path (Some (config_text ls @ bad @ newline # rest)) = Inl (Runtime_error (''Invalid config line: '' @ trim bad))) \<and>
    (load_from_file env path (Some (config_text ls)) = Inl e \<longleftrightarrow>
      (\<exists>kp. find (malformed (setting env (assignments ls))) numeric_keys = Some kp \<and>
         e = invalid_number (fst kp) (setting env (assignments ls) (fst kp))))"
  using invalid_line_error [OF assms] load_number_error [OF assms, of env path e] by (simp add: load_from_file_def)

theorem load_errors_witness:
  "load_from_file Map.empty ''app.conf'' (Some (config_text [Setting ''redis.port'' ''63x'', Setting ''redis.host'' ''h''])) =
     Inl (invalid_number ''redis.port'' ''63x'')"
proof -
  let ?ls = "[Setting ''redis.port'' ''63x'', Setting ''redis.host'' ''h'']"
  have ok: "\<forall>l \<in> set ?ls. line_ok l" by (simp add: trim_id trim_chars_def)
  have "stoi_pos ''63x'' = Inr (63, 2)"
    by (simp add: stoi_pos_def stoi_range_def is_space_def read_sign_def is_digit_def read_digits_def)
  then have "find (malformed (setting Map.empty (assignments ?ls))) numeric_keys = Some (''redis.port'', parses stoi_pos)"
    by (simp add: numeric_keys_def malformed_def setting_def legacy_name_def parses_def)
  then show ?thesis using load_errors [OF ok, of Map.empty "''app.conf''" "[]" "[]" "invalid_number ''redis.port'' ''63x''"] by (simp add: setting_def legacy_name_def)
qed

subsection \<open>Limits that are not numbers\<close>

text \<open>
  Validation rejects limits by comparison, so a limit \<open>nan\<close>, which the loader accepts as a number, is
  valid, and the risk engine then enforces no limit at all.
\<close>

lemma nan_limit_valid:
  "cv_valid (validate c) \<Longrightarrow>
     cv_valid (validate (c\<lparr>ac_risk := (ac_risk c)\<lparr>rk_max_order_quantity := NaN, rk_max_order_notional := NaN, rk_max_position_quantity := NaN\<rparr>\<rparr>))"
  by (simp add: validate_def Let_def split: if_splits)

lemma nan_limit_unbounded:
  "evaluate (c\<lparr>rk_max_order_quantity := NaN, rk_max_order_notional := NaN, rk_max_position_quantity := NaN\<rparr>) =
     evaluate (c\<lparr>rk_max_order_quantity := PInf, rk_max_order_notional := PInf, rk_max_position_quantity := PInf\<rparr>)"
proof -
  have "\<not> PInf < x" for x by (cases x) simp_all
  then show ?thesis by (intro ext) (simp add: evaluate_def cong: if_cong option.case_cong)
qed

end
