(* ===== verification/Runtime.thy ===== *)
theory Runtime
  imports Strategy Risk_Engine Portfolio Simulated_Execution
begin

section \<open>The simulation runtime\<close>

text \<open>
  \<open>include/app/simulation_runtime.hpp\<close>, \<open>src/app/simulation_runtime.cpp\<close> and
  \<open>include/app/runtime_operational_controls.hpp\<close>: one engine event goes through the market state, the
  matching engine, the portfolio and the strategies, whose requests go through the controls, the risk
  engine and the matching engine, with every outcome persisted. The repositories are the in-memory ones,
  each behind a nullable pointer (\<open>None\<close> is the null pointer), as are the controls and the metrics.

  The clock is a sequence of readings with the number of those made so far: each call of \<open>now_ms\<close> takes
  the next one. The reading inside the risk check is taken whether or not the check gets that far, which
  only skips an element of an arbitrary sequence. The strategy type and its \<open>on_event\<close> are arguments as
  in the coordinator. \<open>None\<close> as the result of \<open>on_event\<close> is a matching loop that does not return.
\<close>

subsection \<open>State\<close>

definition pause_trading :: "bool \<Rightarrow> bool" where
  "pause_trading controls = True"

definition resume_trading :: "bool \<Rightarrow> bool" where
  "resume_trading controls = False"

record 's simulation_runtime_config =
  rc_strategy :: sample_threshold_config
  rc_strategy_coordinator :: "'s strategy_coordinator option"
  rc_execution :: simulated_execution_config
  rc_auto_complete_partial_fills :: bool
  rc_order_repository :: "order_repository option"
  rc_fill_repository :: "fill_event list option"
  rc_position_repository :: "(string, position) umap option"
  rc_balance_repository :: "(string, balance_snapshot) umap option"
  rc_market_state_cache :: "(string \<rightharpoonup> market_snapshot) option"

record 's simulation_runtime =
  rt_clock :: "nat \<Rightarrow> int64"
  rt_clock_reads :: nat
  rt_market_state_store :: market_state_store
  rt_strategy_coordinator :: "'s strategy_coordinator"
  rt_risk_config :: risk_config
  rt_portfolio_service :: portfolio_service
  rt_execution_engine :: matching_engine
  rt_order_repository :: "order_repository option"
  rt_fill_repository :: "fill_event list option"
  rt_position_repository :: "(string, position) umap option"
  rt_balance_repository :: "(string, balance_snapshot) umap option"
  rt_market_state_cache :: "(string \<rightharpoonup> market_snapshot) option"
  rt_controls :: "bool option"
  rt_metrics :: "metrics option"
  rt_auto_complete_partial_fills :: bool
  rt_risk_approved_count :: nat
  rt_risk_rejected_count :: nat
  rt_applied_fill_count :: nat

definition simulation_runtime_new ::
  "(nat \<Rightarrow> int64) \<Rightarrow> risk_config \<Rightarrow> strategy simulation_runtime_config \<Rightarrow> bool option \<Rightarrow> metrics option \<Rightarrow>
   strategy simulation_runtime" where
  "simulation_runtime_new clock risk cfg controls metrics = \<lparr>rt_clock = clock, rt_clock_reads = 0,
     rt_market_state_store = Map.empty,
     rt_strategy_coordinator = (case rc_strategy_coordinator cfg of Some c \<Rightarrow> c
       | None \<Rightarrow> add_strategy strategy_id (Some (Sample_threshold (sample_threshold_new (rc_strategy cfg)))) []),
     rt_risk_config = risk, rt_portfolio_service = portfolio_service_new, rt_execution_engine = matching_engine_new,
     rt_order_repository = rc_order_repository cfg, rt_fill_repository = rc_fill_repository cfg,
     rt_position_repository = rc_position_repository cfg, rt_balance_repository = rc_balance_repository cfg,
     rt_market_state_cache = rc_market_state_cache cfg, rt_controls = controls, rt_metrics = metrics,
     rt_auto_complete_partial_fills = rc_auto_complete_partial_fills cfg,
     rt_risk_approved_count = 0, rt_risk_rejected_count = 0, rt_applied_fill_count = 0\<rparr>"

definition trading_paused :: "'s simulation_runtime \<Rightarrow> bool" where
  "trading_paused rt = (case rt_controls rt of Some paused \<Rightarrow> paused | None \<Rightarrow> False)"

subsection \<open>Operations\<close>

definition now_ms :: "'s simulation_runtime \<Rightarrow> int64 \<times> 's simulation_runtime" where
  "now_ms rt = (rt_clock rt (rt_clock_reads rt), rt\<lparr>rt_clock_reads := rt_clock_reads rt + 1\<rparr>)"

definition runtime_count :: "string \<Rightarrow> 's simulation_runtime \<Rightarrow> 's simulation_runtime" where
  "runtime_count name rt = rt\<lparr>rt_metrics := map_option (increment name 1) (rt_metrics rt)\<rparr>"

definition runtime_latency :: "string \<Rightarrow> int64 \<Rightarrow> 's simulation_runtime \<Rightarrow> 's simulation_runtime" where
  "runtime_latency name started rt =
     (case rt_metrics rt of None \<Rightarrow> rt
      | Some m \<Rightarrow> (case now_ms rt of (now, rt') \<Rightarrow> rt'\<lparr>rt_metrics := Some (observe_latency name (now - started) m)\<rparr>))"

definition runtime_apply_fill :: "fill_event \<Rightarrow> 's simulation_runtime \<Rightarrow> 's simulation_runtime" where
  "runtime_apply_fill f rt = runtime_count ''fills_applied''
     (rt\<lparr>rt_fill_repository := map_option (append_fill f) (rt_fill_repository rt),
         rt_portfolio_service := portfolio_apply_fill f (rt_portfolio_service rt),
         rt_applied_fill_count := rt_applied_fill_count rt + 1\<rparr>)"

definition handle_execution_result :: "execution_result \<Rightarrow> 's simulation_runtime \<Rightarrow> 's simulation_runtime" where
  "handle_execution_result res rt =
     (let rt1 = rt\<lparr>rt_order_repository := map_option (fold save_order_update (xr_updates res)) (rt_order_repository rt)\<rparr>;
          rt2 = fold runtime_apply_fill (xr_fills res) rt1;
          rt3 = rt2\<lparr>rt_position_repository :=
            map_option (fold save_position (portfolio_all_positions (rt_portfolio_service rt2))) (rt_position_repository rt2)\<rparr>
      in rt3\<lparr>rt_balance_repository :=
            map_option (fold save_balance (portfolio_all_balances (rt_portfolio_service rt3))) (rt_balance_repository rt3)\<rparr>)"

definition persist_new_order :: "order_request \<Rightarrow> execution_result \<Rightarrow> 's simulation_runtime \<Rightarrow> 's simulation_runtime" where
  "persist_new_order rq res rt =
     (case rt_order_repository rt of None \<Rightarrow> rt
      | Some s \<Rightarrow>
        if xr_order_id res = '''' then rt
        else if get_order (xr_order_id res) s = None
        then rt\<lparr>rt_order_repository := Some (save_order rq (xr_order_id res) (xr_client_order_id res) s)\<rparr>
        else rt)"

definition persist_market_snapshot :: "market_event \<Rightarrow> 's simulation_runtime \<Rightarrow> 's simulation_runtime" where
  "persist_market_snapshot e rt = rt\<lparr>rt_market_state_cache := map_option (upsert_snapshot
     \<lparr>ms_instrument_id = instrument_id (me_instrument e),
      ms_best_bid = (case me_bid_levels e of l # _ \<Rightarrow> Some (bl_price l) | [] \<Rightarrow> me_bid_price e),
      ms_best_ask = (case me_ask_levels e of l # _ \<Rightarrow> Some (bl_price l) | [] \<Rightarrow> me_ask_price e),
      ms_last_trade_price = (if 0 < me_price e then Some (me_price e) else None),
      ms_last_trade_quantity = (if 0 < me_quantity e then Some (me_quantity e) else None),
      ms_last_process_timestamp = me_process_timestamp e\<rparr>) (rt_market_state_cache rt)\<rparr>"

definition handle_market_event :: "market_event \<Rightarrow> 's simulation_runtime \<Rightarrow> 's simulation_runtime option" where
  "handle_market_event e rt =
     (let rt1 = persist_market_snapshot e (rt\<lparr>rt_market_state_store := market_apply e (rt_market_state_store rt)\<rparr>)
      in case process_market_event e (rt_execution_engine rt1) of None \<Rightarrow> None
         | Some (res, engine) \<Rightarrow>
           let rt2 = handle_execution_result res (rt1\<lparr>rt_execution_engine := engine\<rparr>)
           in Some (if 0 < me_price e
                    then rt2\<lparr>rt_portfolio_service :=
                      set_mark_price (instrument_id (me_instrument e)) (me_price e) (rt_portfolio_service rt2)\<rparr>
                    else rt2))"

definition handle_request :: "order_request \<Rightarrow> 's simulation_runtime \<Rightarrow> 's simulation_runtime option" where
  "handle_request rq rt =
     (case now_ms rt of (started, rt0) \<Rightarrow>
      if trading_paused rt0
      then Some (runtime_latency ''order_processing_latency_ms'' started (runtime_count ''orders_paused'' rt0))
      else case now_ms rt0 of (now, rt1) \<Rightarrow>
        if \<not> rd_approved (evaluate (rt_risk_config rt1) (rt_market_state_store rt1) now rq)
        then Some (runtime_latency ''order_processing_latency_ms'' started (runtime_count ''risk_rejects''
               (rt1\<lparr>rt_risk_rejected_count := rt_risk_rejected_count rt1 + 1\<rparr>)))
        else
          let rt2 = runtime_count ''orders_approved'' (rt1\<lparr>rt_risk_approved_count := rt_risk_approved_count rt1 + 1\<rparr>)
          in case submit rq (rt_execution_engine rt2) of None \<Rightarrow> None
             | Some (res, engine) \<Rightarrow>
               Some (runtime_latency ''order_processing_latency_ms'' started
                 (handle_execution_result res (persist_new_order rq res (rt2\<lparr>rt_execution_engine := engine\<rparr>)))))"

fun process_requests :: "order_request list \<Rightarrow> 's simulation_runtime \<Rightarrow> 's simulation_runtime option" where
  "process_requests [] rt = Some rt"
| "process_requests (rq # rqs) rt =
     (case handle_request rq rt of None \<Rightarrow> None | Some rt' \<Rightarrow> process_requests rqs rt')"

definition finish_event :: "engine_event \<Rightarrow> int64 \<Rightarrow> 's simulation_runtime \<Rightarrow> 's simulation_runtime" where
  "finish_event event started rt = runtime_latency ''runtime_event_latency_ms'' started
     (case event of TransactionCommand _ \<Rightarrow> runtime_count ''transaction_events'' rt
      | MarketEvent _ \<Rightarrow> runtime_count ''market_events'' rt
      | TimerEvent _ \<Rightarrow> rt)"

definition on_event ::
  "(engine_event \<Rightarrow> strategy_context \<Rightarrow> 's \<Rightarrow> order_request list option \<times> 's) \<Rightarrow> engine_event \<Rightarrow>
   's simulation_runtime \<Rightarrow> 's simulation_runtime option" where
  "on_event on_ev event rt =
     (case now_ms rt of (started, rt0) \<Rightarrow>
      case (case event of MarketEvent e \<Rightarrow> handle_market_event e rt0 | _ \<Rightarrow> Some rt0) of None \<Rightarrow> None
      | Some rt1 \<Rightarrow>
        (case coordinator_on_event on_ev event
            \<lparr>sx_market_state_store = rt_market_state_store rt1, sx_now_ms = rt_clock rt1 (rt_clock_reads rt1)\<rparr>
            (rt_strategy_coordinator rt1) of (rqs, slots) \<Rightarrow>
         map_option (finish_event event started)
           (process_requests rqs (rt1\<lparr>rt_strategy_coordinator := slots\<rparr>))))"

subsection \<open>Restoring persisted state\<close>

definition restored_request :: "order_record \<Rightarrow> order_request" where
  "restored_request r = \<lparr>rq_request_id = or_order_id r, rq_strategy_id = or_strategy_id r,
     rq_instrument = default_instrument\<lparr>instrument_id := or_instrument_id r\<rparr>, rq_side = or_side r,
     rq_type = or_order_type r, rq_quantity = or_quantity r, rq_price = or_price r\<rparr>"

definition runtime_restore_open_order :: "order_record \<Rightarrow> 's simulation_runtime \<Rightarrow> 's simulation_runtime" where
  "runtime_restore_open_order r rt = rt\<lparr>rt_execution_engine :=
     restore_open_order (or_order_id r) (or_client_order_id r) (restored_request r) (or_filled_quantity r) (rt_execution_engine rt)\<rparr>"

definition runtime_restore_position :: "position \<Rightarrow> 's simulation_runtime \<Rightarrow> 's simulation_runtime" where
  "runtime_restore_position p rt = rt\<lparr>rt_portfolio_service := restore_position p (rt_portfolio_service rt)\<rparr>"

definition runtime_restore_balance :: "balance_snapshot \<Rightarrow> 's simulation_runtime \<Rightarrow> 's simulation_runtime" where
  "runtime_restore_balance b rt = rt\<lparr>rt_portfolio_service := restore_balance b (rt_portfolio_service rt)\<rparr>"

definition runtime_restore_market_snapshot :: "market_snapshot \<Rightarrow> 's simulation_runtime \<Rightarrow> 's simulation_runtime" where
  "runtime_restore_market_snapshot s rt =
     (let rt1 = rt\<lparr>rt_market_state_store := restore_snapshot (ms_instrument_id s)
            (default_market_state\<lparr>mst_best_bid := ms_best_bid s, mst_best_ask := ms_best_ask s,
               mst_last_trade_price := ms_last_trade_price s, mst_last_trade_quantity := ms_last_trade_quantity s,
               mst_last_process_timestamp := ms_last_process_timestamp s\<rparr>) (rt_market_state_store rt)\<rparr>
      in case ms_last_trade_price s of None \<Rightarrow> rt1
         | Some p \<Rightarrow> rt1\<lparr>rt_portfolio_service := set_mark_price (ms_instrument_id s) p (rt_portfolio_service rt1)\<rparr>)"

subsection \<open>What each operation touches\<close>

text \<open>The state that metrics and clock readings leave alone.\<close>

definition observed :: "'s simulation_runtime \<Rightarrow> 's simulation_runtime" where
  "observed rt = rt\<lparr>rt_clock_reads := 0, rt_metrics := None\<rparr>"

lemma observed_simps [simp]:
  "observed (runtime_count n rt) = observed rt" "observed (runtime_latency n t rt) = observed rt"
  "observed (snd (now_ms rt)) = observed rt" "observed (observed rt) = observed rt"
  "observed (finish_event ev t rt) = observed rt"
  by (auto simp: observed_def runtime_count_def runtime_latency_def now_ms_def finish_event_def
      split: option.splits engine_event.splits)

lemma observed_eqD:
  assumes "observed rt = observed rt'"
  shows "rt_market_state_store rt = rt_market_state_store rt' \<and> rt_strategy_coordinator rt = rt_strategy_coordinator rt' \<and>
    rt_risk_config rt = rt_risk_config rt' \<and> rt_portfolio_service rt = rt_portfolio_service rt' \<and>
    rt_execution_engine rt = rt_execution_engine rt' \<and> rt_order_repository rt = rt_order_repository rt' \<and>
    rt_fill_repository rt = rt_fill_repository rt' \<and> rt_position_repository rt = rt_position_repository rt' \<and>
    rt_balance_repository rt = rt_balance_repository rt' \<and> rt_controls rt = rt_controls rt' \<and>
    rt_applied_fill_count rt = rt_applied_fill_count rt' \<and> rt_risk_approved_count rt = rt_risk_approved_count rt' \<and>
    rt_market_state_cache rt = rt_market_state_cache rt'"
  using assms by (cases rt; cases rt') (simp add: observed_def)

lemma runtime_apply_fills:
  "observed (fold runtime_apply_fill fs rt) = observed (rt\<lparr>rt_fill_repository := map_option (\<lambda>s. s @ fs) (rt_fill_repository rt),
     rt_portfolio_service := fold portfolio_apply_fill fs (rt_portfolio_service rt),
     rt_applied_fill_count := rt_applied_fill_count rt + length fs\<rparr>)"
proof (induction fs arbitrary: rt)
  case (Cons f fs)
  then show ?case
    by (simp add: runtime_apply_fill_def observed_def runtime_count_def append_fill_def option.map_comp comp_def)
qed (simp add: option.map_ident)

lemma handle_execution_result_observed:
  "observed (handle_execution_result res rt) = observed (rt\<lparr>
     rt_order_repository := map_option (fold save_order_update (xr_updates res)) (rt_order_repository rt),
     rt_fill_repository := map_option (\<lambda>s. s @ xr_fills res) (rt_fill_repository rt),
     rt_portfolio_service := fold portfolio_apply_fill (xr_fills res) (rt_portfolio_service rt),
     rt_applied_fill_count := rt_applied_fill_count rt + length (xr_fills res),
     rt_position_repository := map_option (fold save_position (portfolio_all_positions
       (fold portfolio_apply_fill (xr_fills res) (rt_portfolio_service rt)))) (rt_position_repository rt),
     rt_balance_repository := map_option (fold save_balance (portfolio_all_balances
       (fold portfolio_apply_fill (xr_fills res) (rt_portfolio_service rt)))) (rt_balance_repository rt)\<rparr>)"
proof -
  let ?rt1 = "rt\<lparr>rt_order_repository := map_option (fold save_order_update (xr_updates res)) (rt_order_repository rt)\<rparr>"
  note o = runtime_apply_fills [of "xr_fills res" ?rt1]
  note f = observed_eqD [OF o]
  show ?thesis using o f by (cases rt; cases "fold runtime_apply_fill (xr_fills res) ?rt1") (simp add: handle_execution_result_def Let_def observed_def)
qed


subsection \<open>What the matching engine promises the runtime\<close>

text \<open>
  Both operations return under the engine invariant and keep it. A submission registers exactly the new
  order, under a fresh id that all its updates carry; a market event changes no order's terms and updates
  registered orders only. \<open>accounts\<close> says how far the updates tell what became of the records: the last
  update of an order gives the status and, within the tolerance, the filled quantity of its record, and a
  record without an update is the one before the step or was traded against by one of the step's fills.
\<close>

definition reported :: "order_status \<Rightarrow> double \<Rightarrow> order_record \<Rightarrow> bool" where
  "reported status filled r \<longleftrightarrow> or_status r = status \<and>
     (or_filled_quantity r = filled \<or> \<bar>filled - or_filled_quantity r\<bar> \<le> kQuantityTolerance)"

definition traded_against :: "fill_event list \<Rightarrow> order_record \<Rightarrow> bool" where
  "traded_against fs r \<longleftrightarrow> (\<exists>f \<in> set fs. instrument_id (fl_instrument f) = or_instrument_id r \<and>
     fl_side f = opposite (or_side r) \<and> or_price r = Some (fl_price f) \<and> fl_order_id f \<noteq> or_order_id r)"

lemma traded_against_append [simp]: "traded_against (fs @ gs) r \<longleftrightarrow> traded_against fs r \<or> traded_against gs r"
  by (auto simp: traded_against_def)

definition accounts ::
  "order_update list \<Rightarrow> fill_event list \<Rightarrow> (string \<rightharpoonup> order_record) \<Rightarrow> (string \<rightharpoonup> order_record) \<Rightarrow> bool" where
  "accounts us fs orders orders' \<longleftrightarrow> (\<forall>i r. orders' i = Some r \<longrightarrow>
     (let mine = filter (\<lambda>u. ou_order_id u = i) us
      in if mine = [] then orders i = Some r \<or> traded_against fs r
         else reported (ou_status (last mine)) (ou_filled_quantity (last mine)) r))"

lemma submit_outcome_reported:
  assumes f: "filled = std_max 0 (x - y)" and u: "u = last (make_update i c Acknowledged 0 None # submit_outcome rq i c ok filled)"
  shows "reported (ou_status u) (ou_filled_quantity u) (submitted_record rq i c ok filled)"
proof -
  have small: "\<bar>0 - filled\<bar> \<le> kQuantityTolerance" if "\<not> kQuantityTolerance < filled"
  proof -
    have v: "valid_double filled" "0 \<le> filled" "filled \<noteq> NaN" using filled_ok [of x y] by (simp_all add: f)
    then have "filled \<le> kQuantityTolerance" using that double_not_less tolerance_simps(1) by blast
    moreover have "\<bar>0 - filled\<bar> = filled" using v
      by (cases filled) (auto simp: double_simps to_double_valid rnd64_neg)
    ultimately show ?thesis by simp
  qed
  show ?thesis unfolding u reported_def submitted_record_def submit_status_def submit_outcome_def
    using small by (auto simp: make_update_def)
qed

text \<open>The resting orders that a submission executes are traded against by its fills.\<close>

lemma submit_fill_of:
  "(r, x) \<in> set xs \<Longrightarrow> \<exists>f \<in> set (submit_fills rq i n xs). fl_order_id f = i \<and> fl_instrument f = rq_instrument rq \<and>
     fl_side f = rq_side rq \<and> fl_price f = order_price r"
proof (induction xs arbitrary: n)
  case (Cons a xs)
  then show ?case by (cases "(r, x) = a") (force simp: submit_fills_def match_fill_def order_price_def)+
qed simp

lemma submit_accounts:
  assumes inv: "engine_inv e" and fin: "request_finite rq" and acc: "accepted rq" and s: "submit rq e = Some (res, e')"
    and e': "engine_inv e'"
  shows "accounts (xr_updates res) (xr_fills res) (mx_orders e) (mx_orders e')"
proof -
  define b where "b = book_for (rq_instrument rq) (mx_books e)"
  define i where "i = engine_order_id (mx_next_order_id e)"
  obtain q xs rs where mq: "match_queue (crosses rq) (rq_quantity rq) (resting_side (opposite (rq_side rq)) b) = (q, xs, rs)"
    by (metis prod_cases3)
  from submit_effect [OF inv acc fin b_def i_def mq s] obtain ok c where
    o: "mx_orders e' = (record_fills xs (mx_orders e))(i \<mapsto> submitted_record rq i c ok (std_max 0 (rq_quantity rq - q)))"
    and f: "xr_fills res = submit_fills rq i (mx_next_fill_id e) xs"
    and u: "xr_updates res = make_update i c Acknowledged 0 None # submit_outcome rq i c ok (std_max 0 (rq_quantity rq - q))"
    by blast
  have ids: "ou_order_id u = i" if "u \<in> set (xr_updates res)" for u
    using that u submit_outcome_id by (auto simp: make_update_def)
  have bi: "book_inv b" using engine_inv_book_for(1) [OF inv] by (simp add: b_def)
  have "if filter (\<lambda>u. ou_order_id u = j) (xr_updates res) = [] then mx_orders e j = Some r \<or> traded_against (xr_fills res) r
      else reported (ou_status (last (filter (\<lambda>u. ou_order_id u = j) (xr_updates res))))
        (ou_filled_quantity (last (filter (\<lambda>u. ou_order_id u = j) (xr_updates res)))) r"
    if j: "mx_orders e' j = Some r" for j r
  proof (cases "j = i")
    case True
    then have "filter (\<lambda>u. ou_order_id u = j) (xr_updates res) = xr_updates res" using ids by (simp add: filter_id_conv)
    moreover have "reported (ou_status (last (xr_updates res))) (ou_filled_quantity (last (xr_updates res)))
        (submitted_record rq i c ok (std_max 0 (rq_quantity rq - q)))"
      by (rule submit_outcome_reported [OF refl]) (simp only: u)
    ultimately show ?thesis using j True o u by simp
  next
    case False
    then have none: "filter (\<lambda>u. ou_order_id u = j) (xr_updates res) = []" using ids by (auto simp: filter_empty_conv)
    show ?thesis
    proof (cases "j \<in> ro_order_id ` fst ` set xs")
      case True
      then obtain r0 x where x: "(r0, x) \<in> set xs" "j = ro_order_id r0" by auto
      then have r0: "r0 \<in> set (book_orders b)" "rq_side (ro_request r0) = opposite (rq_side rq)"
        using match_queue_executions [OF mq x(1)] side_member [OF bi] by auto
      have "registered (mx_orders e) (instrument_id (rq_instrument rq)) r0"
        using engine_inv_book_for(3) [OF inv] r0(1) by (simp add: b_def)
      then have "registered (record_fills xs (mx_orders e)) (instrument_id (rq_instrument rq)) r0"
        using registered_statics [OF statics_record_fills] by blast
      then have "or_instrument_id r = instrument_id (rq_instrument rq) \<and> or_side r = opposite (rq_side rq) \<and>
          or_price r = Some (order_price r0)"
        using j False o x(2) r0(2) order_price_not_NaN(2) [OF bi r0(1)] by (auto simp: registered_def)
      moreover have "or_order_id r = j" using e' j by (simp add: engine_inv_def)
      moreover from submit_fill_of [OF x(1), of rq i "mx_next_fill_id e"] obtain g where
        "g \<in> set (xr_fills res)" "fl_order_id g = i" "fl_instrument g = rq_instrument rq" "fl_side g = rq_side rq"
        "fl_price g = order_price r0" unfolding f by blast
      ultimately have "traded_against (xr_fills res) r"
        unfolding traded_against_def using False by (intro bexI [of _ g]) simp_all
      then show ?thesis using none by simp
    next
      case not_executed: False
      then have "mx_orders e j = Some r" using record_fills_other [OF not_executed] False j o by simp
      then show ?thesis using none by simp
    qed
  qed
  then show ?thesis unfolding accounts_def Let_def by blast
qed

lemma submit_registers:
  assumes inv: "engine_inv e" and fin: "request_finite rq"
  obtains res e' where "submit rq e = Some (res, e')" "engine_inv e'" "xr_order_id res \<noteq> ''''"
    "mx_orders e (xr_order_id res) = None"
    "statics (mx_orders e') = (statics (mx_orders e))
       (xr_order_id res \<mapsto> order_static (order_record_of rq (xr_order_id res) (xr_client_order_id res)))"
    "\<forall>u \<in> set (xr_updates res). ou_order_id u = xr_order_id res \<and> ou_client_order_id u = xr_client_order_id res"
    "xr_updates res \<noteq> []" "accounts (xr_updates res) (xr_fills res) (mx_orders e) (mx_orders e')"
proof -
  have new: "mx_orders e (engine_order_id (mx_next_order_id e)) = None" using inv by (simp add: engine_inv_def)
  have out: "ou_client_order_id u = c" if "u \<in> set (submit_outcome rq i c ok f)" for u i c ok f
    using that by (auto simp: submit_outcome_def make_update_def split: if_splits)
  obtain res e' where s: "submit rq e = Some (res, e')" "engine_inv e'" using submit_engine_inv [OF inv fin] by blast
  have "xr_order_id res \<noteq> '''' \<and> mx_orders e (xr_order_id res) = None \<and>
    statics (mx_orders e') = (statics (mx_orders e))
       (xr_order_id res \<mapsto> order_static (order_record_of rq (xr_order_id res) (xr_client_order_id res))) \<and>
    (\<forall>u \<in> set (xr_updates res). ou_order_id u = xr_order_id res \<and> ou_client_order_id u = xr_client_order_id res) \<and>
    xr_updates res \<noteq> [] \<and> accounts (xr_updates res) (xr_fills res) (mx_orders e) (mx_orders e')"
  proof (cases "accepted rq")
    case False
    then show ?thesis using submit_rejected [OF False refl refl, of e] s(1) new
      by (auto simp: make_update_def accounts_def reported_def order_record_of_def)
  next
    case True
    note acc = submit_accounts [OF inv fin True s]
    obtain q xs rs where mq: "match_queue (crosses rq) (rq_quantity rq) (resting_side (opposite (rq_side rq))
        (book_for (rq_instrument rq) (mx_books e))) = (q, xs, rs)" by (metis prod_cases3)
    from submit_accepted [OF engine_inv_book_for(1) [OF inv] True refl refl refl mq next_id_unexecuted [OF inv mq]] s(1) new acc
    show ?thesis by (auto simp: make_update_def intro: submit_outcome_id out)
  qed
  with s that show thesis by blast
qed

text \<open>The updates of a market event: one for each touched order, with what its record says.\<close>

lemma append_order_updates:
  assumes self: "\<And>j r. orders j = Some r \<Longrightarrow> or_order_id r = j"
  shows "\<forall>u \<in> set us. \<exists>r. orders (ou_order_id u) = Some r \<and> u = make_update (or_order_id r) (or_client_order_id r) (or_status r) (or_filled_quantity r) None \<Longrightarrow>
      u \<in> set (fold (append_order_update orders) ids us) \<Longrightarrow>
      \<exists>r. orders (ou_order_id u) = Some r \<and> u = make_update (or_order_id r) (or_client_order_id r) (or_status r) (or_filled_quantity r) None"
    and "j \<in> set ids \<or> j \<in> ou_order_id ` set us \<Longrightarrow> orders j = Some r \<Longrightarrow> j \<in> ou_order_id ` set (fold (append_order_update orders) ids us)"
proof -
  show "\<forall>u \<in> set us. \<exists>r. orders (ou_order_id u) = Some r \<and> u = make_update (or_order_id r) (or_client_order_id r) (or_status r) (or_filled_quantity r) None \<Longrightarrow>
      u \<in> set (fold (append_order_update orders) ids us) \<Longrightarrow>
      \<exists>r. orders (ou_order_id u) = Some r \<and> u = make_update (or_order_id r) (or_client_order_id r) (or_status r) (or_filled_quantity r) None"
  proof (induction ids arbitrary: us)
    case (Cons i ids)
    show ?case
      by (rule Cons.IH [OF _ Cons.prems(2) [simplified]])
        (use Cons.prems(1) self in \<open>auto simp: append_order_update_def make_update_def split: option.splits\<close>)
  qed simp
  show "j \<in> set ids \<or> j \<in> ou_order_id ` set us \<Longrightarrow> orders j = Some r \<Longrightarrow> j \<in> ou_order_id ` set (fold (append_order_update orders) ids us)"
  proof (induction ids arbitrary: us)
    case (Cons i ids)
    have "j \<in> set ids \<or> j \<in> ou_order_id ` set (append_order_update orders i us)"
      using Cons.prems self by (auto simp: append_order_update_def make_update_def split: option.splits)
    then show ?case using Cons.IH Cons.prems(2) by simp
  qed simp
qed

lemma market_event_keeps_terms:
  assumes inv: "engine_inv e"
  obtains res e' where "process_market_event event e = Some (res, e')" "engine_inv e'"
    "statics (mx_orders e') = statics (mx_orders e)" "mx_next_order_id e' = mx_next_order_id e"
    "\<forall>u \<in> set (xr_updates res). \<exists>r. statics (mx_orders e) (ou_order_id u) = Some r \<and> or_client_order_id r = ou_client_order_id u"
    "accounts (xr_updates res) (xr_fills res) (mx_orders e) (mx_orders e')"
proof -
  obtain res e' where s: "process_market_event event e = Some (res, e')" "engine_inv e'"
    using market_engine_inv [OF inv] by blast
  have "statics (mx_orders e') = statics (mx_orders e) \<and> mx_next_order_id e' = mx_next_order_id e \<and>
    (\<forall>u \<in> set (xr_updates res). \<exists>r. statics (mx_orders e) (ou_order_id u) = Some r \<and> or_client_order_id r = ou_client_order_id u) \<and>
    accounts (xr_updates res) (xr_fills res) (mx_orders e) (mx_orders e')"
  proof (cases "mx_books e (instrument_id (me_instrument event))")
    case None
    then show ?thesis using s(1) by (auto simp: process_market_event_def accounts_def)
  next
    case (Some b)
    obtain ys bs where bm: "match_levels buy_reaches (me_ask_levels event) (resting_side Buy b) = (ys, bs)" by force
    obtain zs ss where sm: "match_levels sell_reaches (me_bid_levels event) (resting_side Sell b) = (zs, ss)" by force
    let ?ids = "sort_unique (map (\<lambda>(l, r, x). ro_order_id r) (ys @ zs))"
    from process_market_event_eq [OF inv Some bm sm] s(1) obtain orders where
      st: "statics orders = statics (mx_orders e)" "mx_orders e' = orders" "mx_next_order_id e' = mx_next_order_id e"
      and rf: "orders = record_fills (map snd (ys @ zs)) (mx_orders e)"
      and us: "xr_updates res = fold (append_order_update orders) ?ids []" by auto
    have ids: "or_order_id r = j" if "orders j = Some r" for j r
      using s(2) that st(2) by (auto simp: engine_inv_def)
    have told: "\<exists>r. orders (ou_order_id u) = Some r \<and> u = make_update (or_order_id r) (or_client_order_id r)
        (or_status r) (or_filled_quantity r) None" if "u \<in> set (xr_updates res)" for u
      by (rule append_order_updates(1) [where us = "[]" and ids = ?ids]) (use that us ids in auto)
    have touched: "j \<in> ou_order_id ` set (xr_updates res)" if "j \<in> set ?ids" "orders j = Some r" for j r
      unfolding us by (rule append_order_updates(2)) (use that ids in auto)
    have clients: "\<exists>r. statics orders (ou_order_id u) = Some r \<and> or_client_order_id r = ou_client_order_id u"
      if "u \<in> set (xr_updates res)" for u
      using told [OF that] by (auto simp: make_update_def statics_def order_static_def)
    have "if filter (\<lambda>u. ou_order_id u = j) (xr_updates res) = [] then mx_orders e j = Some r \<or> traded_against (xr_fills res) r
        else reported (ou_status (last (filter (\<lambda>u. ou_order_id u = j) (xr_updates res))))
          (ou_filled_quantity (last (filter (\<lambda>u. ou_order_id u = j) (xr_updates res)))) r"
      if j: "orders j = Some r" for j r
    proof (cases "filter (\<lambda>u. ou_order_id u = j) (xr_updates res)" rule: rev_cases)
      case Nil
      have "j \<notin> set ?ids"
      proof
        assume "j \<in> set ?ids"
        from touched [OF this j] Nil show False by (auto simp: filter_empty_conv)
      qed
      moreover have "set ?ids = ro_order_id ` fst ` set (map snd (ys @ zs))"
        by (simp add: set_sort_unique image_image image_Un case_prod_beta)
      ultimately have "j \<notin> ro_order_id ` fst ` set (map snd (ys @ zs))" by (simp only: not_False_eq_True)
      then show ?thesis using Nil record_fills_other [of j "map snd (ys @ zs)" "mx_orders e"] j rf by simp
    next
      case (snoc vs u)
      then have "u \<in> set (xr_updates res)" "ou_order_id u = j"
        using filter_set [of "\<lambda>u. ou_order_id u = j" "xr_updates res"] by auto
      then show ?thesis using told [of u] j snoc by (auto simp: reported_def make_update_def)
    qed
    then have "accounts (xr_updates res) (xr_fills res) (mx_orders e) (mx_orders e')"
      unfolding accounts_def Let_def st(2) by blast
    then show ?thesis using st clients by simp
  qed
  with s that show thesis by blast
qed

subsection \<open>Repositories in step with the live state\<close>

text \<open>
  What the attached repositories hold of the live state: the terms of every order, every fill, every
  balance, and every position up to its unrealized profit, which the next mark price changes after the
  position was saved.
\<close>

definition orders_synced :: "order_repository \<Rightarrow> matching_engine \<Rightarrow> bool" where
  "orders_synced s e \<longleftrightarrow> keyed_inv or_order_id s \<and> statics (\<lambda>i. get_order i s) = statics (mx_orders e)"

definition net_of :: "string \<Rightarrow> fill_event list \<Rightarrow> double option" where
  "net_of iid fills = (let mine = filter (\<lambda>f. instrument_id (fl_instrument f) = iid) fills
     in if mine = [] then None else Some (foldl (\<lambda>q f. q + signed_quantity f) 0 mine))"

definition fills_synced :: "fill_event list \<Rightarrow> nat \<Rightarrow> portfolio_service \<Rightarrow> bool" where
  "fills_synced fs n p \<longleftrightarrow> length fs = n \<and>
     (\<forall>iid. map_option po_net_quantity (portfolio_get_position iid p) = net_of iid fs)"

definition unmarked :: "position \<Rightarrow> position" where
  "unmarked p = p\<lparr>po_unrealized_pnl := 0\<rparr>"

definition positions_synced :: "(string, position) umap \<Rightarrow> portfolio_service \<Rightarrow> bool" where
  "positions_synced s p \<longleftrightarrow> keyed_inv (\<lambda>p. instrument_id (po_instrument p)) s \<and>
     (\<forall>iid. map_option unmarked (get_position iid s) = map_option unmarked (portfolio_get_position iid p))"

definition balances_synced :: "(string, balance_snapshot) umap \<Rightarrow> portfolio_service \<Rightarrow> bool" where
  "balances_synced s p \<longleftrightarrow> keyed_inv ba_asset s \<and> (\<forall>a. get_balance a s = map_of (pf_balances p) a)"

lemma orders_synced_update:
  assumes s: "orders_synced s e" and u: "statics (mx_orders e) (ou_order_id u) = Some r" "or_client_order_id r = ou_client_order_id u"
  shows "orders_synced (save_order_update u s) e"
proof -
  have k: "keyed_inv or_order_id s" using s by (simp add: orders_synced_def)
  have eq: "statics (\<lambda>i. get_order i s) (ou_order_id u) = Some r" using s u(1) by (simp add: orders_synced_def)
  then obtain r0 where r0: "get_order (ou_order_id u) s = Some r0" "r = order_static r0" by (auto simp: statics_def)
  have "statics (\<lambda>i. get_order i (save_order_update u s)) = statics (\<lambda>i. get_order i s)"
    using r0 u(2) by (auto simp: statics_def fun_eq_iff in_memory_orders.lookup_update [OF k] apply_order_update_def order_static_def)
  then show ?thesis using s in_memory_orders.inv_update [OF k] by (simp add: orders_synced_def)
qed

lemma orders_synced_updates:
  assumes "orders_synced s e"
    and "\<forall>u \<in> set us. \<exists>r. statics (mx_orders e) (ou_order_id u) = Some r \<and> or_client_order_id r = ou_client_order_id u"
  shows "orders_synced (fold save_order_update us s) e"
  using assms by (induction us arbitrary: s) (auto intro: orders_synced_update)

lemma get_order_updates:
  assumes k: "keyed_inv or_order_id s" and "filter (\<lambda>u. ou_order_id u = i) us \<noteq> []"
  shows "\<exists>r. get_order i (fold save_order_update us s) = Some r \<and>
    or_status r = ou_status (last (filter (\<lambda>u. ou_order_id u = i) us)) \<and>
    or_filled_quantity r = ou_filled_quantity (last (filter (\<lambda>u. ou_order_id u = i) us))"
  using assms(2)
proof (induction us rule: rev_induct)
  case (snoc u us)
  then show ?case using in_memory_orders.inv_updates [OF k, of us]
    by (cases "ou_order_id u = i") (auto simp: in_memory_orders.lookup_update apply_order_update_def)
qed simp

text \<open>How the order repository lags: what it holds of an order is what was last reported of it, which is the
  engine's record unless a later order was filled against it, because such fills report no update.\<close>

definition reports_kept :: "order_repository \<Rightarrow> fill_event list \<Rightarrow> (string \<rightharpoonup> order_record) \<Rightarrow> bool" where
  "reports_kept s fs orders \<longleftrightarrow> (\<forall>i kept r. get_order i s = Some kept \<longrightarrow> orders i = Some r \<longrightarrow>
     reported (or_status kept) (or_filled_quantity kept) r \<or> traded_against fs r)"

lemma reports_kept_updates:
  assumes old: "reports_kept s fs orders" and k: "keyed_inv or_order_id s'" and acc: "accounts us gs orders orders'"
    and same: "\<And>i. \<forall>u \<in> set us. ou_order_id u \<noteq> i \<Longrightarrow> get_order i s' = get_order i s"
  shows "reports_kept (fold save_order_update us s') (fs @ gs) orders'"
  unfolding reports_kept_def
proof (intro allI impI)
  fix i kept r
  assume g: "get_order i (fold save_order_update us s') = Some kept" and o: "orders' i = Some r"
  let ?mine = "filter (\<lambda>u. ou_order_id u = i) us"
  show "reported (or_status kept) (or_filled_quantity kept) r \<or> traded_against (fs @ gs) r"
  proof (cases "?mine = []")
    case True
    then have none: "\<forall>u \<in> set us. ou_order_id u \<noteq> i" by (simp add: filter_empty_conv)
    have "get_order i s = Some kept" using g in_memory_orders.lookup_updates_other [OF k none] same [OF none] by simp
    moreover have "let mine = ?mine in if mine = [] then orders i = Some r \<or> traded_against gs r
        else reported (ou_status (last mine)) (ou_filled_quantity (last mine)) r"
      using acc o unfolding accounts_def by blast
    then have "orders i = Some r \<or> traded_against gs r" using True by simp
    ultimately show ?thesis using old by (auto simp: reports_kept_def)
  next
    case False
    have "let mine = ?mine in if mine = [] then orders i = Some r \<or> traded_against gs r
        else reported (ou_status (last mine)) (ou_filled_quantity (last mine)) r"
      using acc o unfolding accounts_def by blast
    then have "reported (ou_status (last ?mine)) (ou_filled_quantity (last ?mine)) r" using False by (simp add: Let_def)
    then show ?thesis using get_order_updates [OF k False] g by auto
  qed
qed

lemma orders_synced_statics: "orders_synced s e \<Longrightarrow> statics (mx_orders e') = statics (mx_orders e) \<Longrightarrow> orders_synced s e'"
  by (simp add: orders_synced_def)

lemma orders_synced_save:
  assumes s: "orders_synced s e"
    and e': "statics (mx_orders e') = (statics (mx_orders e))(i \<mapsto> order_static (order_record_of rq i c))"
  shows "orders_synced (save_order rq i c s) e'"
proof -
  have k: "keyed_inv or_order_id s" using s by (simp add: orders_synced_def)
  have "statics (\<lambda>j. get_order j (save_order rq i c s)) = (statics (\<lambda>j. get_order j s))(i \<mapsto> order_static (order_record_of rq i c))"
    by (auto simp: statics_def fun_eq_iff in_memory_orders.lookup_save [OF k])
  then show ?thesis using s e' in_memory_orders.inv_save [OF k] by (simp add: orders_synced_def)
qed

lemma get_position_apply_fill:
  "portfolio_get_position iid (portfolio_apply_fill f s) =
     (if instrument_id (fl_instrument f) = iid then Some (filled_position f s) else portfolio_get_position iid s)"
  by (simp add: portfolio_get_position_def positions_apply_fill update_conv')

lemma filled_position_net:
  "po_net_quantity (filled_position f s) =
     (case portfolio_get_position (instrument_id (fl_instrument f)) s of Some p \<Rightarrow> po_net_quantity p | None \<Rightarrow> 0) + signed_quantity f"
  by (auto simp: filled_position_def Let_def apply_fill_to_position_net portfolio_get_position_def default_position_def split: option.splits)

lemma fills_synced_fill:
  assumes "fills_synced fs n p"
  shows "fills_synced (fs @ [f]) (Suc n) (portfolio_apply_fill f p)"
proof -
  have "map_option po_net_quantity (portfolio_get_position iid (portfolio_apply_fill f p)) = net_of iid (fs @ [f])" for iid
  proof (cases "instrument_id (fl_instrument f) = iid")
    case True
    have "map_option po_net_quantity (portfolio_get_position iid p) = net_of iid fs" using assms by (simp add: fills_synced_def)
    then show ?thesis using True
      by (cases "portfolio_get_position iid p")
        (auto simp: get_position_apply_fill filled_position_net net_of_def Let_def split: if_splits)
  next
    case False
    then show ?thesis using assms by (simp add: get_position_apply_fill fills_synced_def net_of_def)
  qed
  then show ?thesis using assms by (simp add: fills_synced_def)
qed

lemma fills_synced_fills:
  "fills_synced fs n p \<Longrightarrow> fills_synced (fs @ gs) (n + length gs) (fold portfolio_apply_fill gs p)"
proof (induction gs arbitrary: fs n p)
  case (Cons g gs)
  then show ?case using Cons.IH [OF fills_synced_fill [OF Cons.prems, of g]] by simp
qed simp

lemma portfolio_inv_fills: "portfolio_inv p \<Longrightarrow> portfolio_inv (fold portfolio_apply_fill gs p)"
  by (induction gs arbitrary: p) (auto intro: portfolio_inv_apply_fill)

text \<open>Saving everything a keyed store holds into a repository that holds no other key copies it.\<close>

lemma find_keyed: "keyed_inv key xs \<Longrightarrow> find (\<lambda>v. key v = k) (map snd xs) = map_of xs k"
  by (induction xs) (auto simp: keyed_inv_def)

lemma saved_positions:
  assumes p: "portfolio_inv p" and s: "keyed_inv (\<lambda>p. instrument_id (po_instrument p)) s"
    and keys: "\<And>iid. portfolio_get_position iid p = None \<Longrightarrow> get_position iid s = None"
  shows "get_position iid (fold save_position (portfolio_all_positions p) s) = portfolio_get_position iid p"
proof -
  have k: "keyed_inv (\<lambda>p. instrument_id (po_instrument p)) (pf_positions p)" using p by (simp add: portfolio_inv_def)
  show ?thesis
    using in_memory_positions.lookup_saves [OF s portfolio_positions.entries_distinct [OF p]] find_keyed [OF k, of iid] keys [of iid]
    by (auto simp: portfolio_all_positions_def portfolio_get_position_def split: option.splits)
qed

lemma positions_synced_save:
  assumes p: "portfolio_inv p" and s: "keyed_inv (\<lambda>p. instrument_id (po_instrument p)) s"
    and keys: "\<And>iid. portfolio_get_position iid p = None \<Longrightarrow> get_position iid s = None"
  shows "positions_synced (fold save_position (portfolio_all_positions p) s) p"
  using saved_positions [OF p s keys] in_memory_positions.inv_saves [OF s] by (simp add: positions_synced_def)

lemma balances_synced_save:
  assumes p: "portfolio_inv p" and s: "keyed_inv ba_asset s"
    and keys: "\<And>a. map_of (pf_balances p) a = None \<Longrightarrow> get_balance a s = None"
  shows "balances_synced (fold save_balance (portfolio_all_balances p) s) p"
proof -
  have k: "keyed_inv ba_asset (pf_balances p)" using p by (simp add: portfolio_inv_def)
  have "get_balance a (fold save_balance (portfolio_all_balances p) s) = map_of (pf_balances p) a" for a
    using in_memory_balances.lookup_saves [OF s portfolio_balances.entries_distinct [OF p]] find_keyed [OF k, of a] keys [of a]
    by (auto simp: portfolio_all_balances_def split: option.splits)
  then show ?thesis using in_memory_balances.inv_saves [OF s] by (simp add: balances_synced_def)
qed

lemma fills_keep_keys:
  "portfolio_get_position iid (fold portfolio_apply_fill gs p) = None \<Longrightarrow> portfolio_get_position iid p = None"
  "map_of (pf_balances (fold portfolio_apply_fill gs p)) a = None \<Longrightarrow> map_of (pf_balances p) a = None"
proof -
  have b: "map_of (pf_balances p) a = None" if "map_of (pf_balances (portfolio_apply_fill f p)) a = None" for f p
    using that by (auto simp: portfolio_apply_fill_def apply_fill_to_balances_def Let_def split: if_splits)
  have q: "portfolio_get_position iid p = None" if "portfolio_get_position iid (portfolio_apply_fill f p) = None" for f p
    using that by (simp add: get_position_apply_fill split: if_splits)
  show "portfolio_get_position iid (fold portfolio_apply_fill gs p) = None \<Longrightarrow> portfolio_get_position iid p = None"
    by (induction gs arbitrary: p) (auto dest: q)
  show "map_of (pf_balances (fold portfolio_apply_fill gs p)) a = None \<Longrightarrow> map_of (pf_balances p) a = None"
    by (induction gs arbitrary: p) (auto dest: b)
qed

lemma positions_synced_fills:
  assumes "positions_synced s p" "portfolio_inv p"
  shows "positions_synced (fold save_position (portfolio_all_positions (fold portfolio_apply_fill gs p)) s) (fold portfolio_apply_fill gs p)"
proof (rule positions_synced_save [OF portfolio_inv_fills [OF assms(2)]])
  fix iid assume "portfolio_get_position iid (fold portfolio_apply_fill gs p) = None"
  then have "portfolio_get_position iid p = None" by (rule fills_keep_keys)
  then show "get_position iid s = None"
    using assms(1) unfolding positions_synced_def by (metis option.map_disc_iff)
qed (use assms in \<open>simp add: positions_synced_def\<close>)

lemma balances_synced_fills:
  assumes "balances_synced s p" "portfolio_inv p"
  shows "balances_synced (fold save_balance (portfolio_all_balances (fold portfolio_apply_fill gs p)) s) (fold portfolio_apply_fill gs p)"
  by (rule balances_synced_save [OF portfolio_inv_fills [OF assms(2)]])
    (use assms fills_keep_keys(2) in \<open>auto simp: balances_synced_def\<close>)

lemma set_mark_price_effect:
  "map_option unmarked (portfolio_get_position iid (set_mark_price i m p)) = map_option unmarked (portfolio_get_position iid p)"
  "map_option po_net_quantity (portfolio_get_position iid (set_mark_price i m p)) = map_option po_net_quantity (portfolio_get_position iid p)"
  "pf_balances (set_mark_price i m p) = pf_balances p"
proof -
  have u: "unmarked (update_unrealized m q) = unmarked q" for q by (simp add: unmarked_def update_unrealized_def)
  show "map_option unmarked (portfolio_get_position iid (set_mark_price i m p)) = map_option unmarked (portfolio_get_position iid p)"
    "map_option po_net_quantity (portfolio_get_position iid (set_mark_price i m p)) = map_option po_net_quantity (portfolio_get_position iid p)"
    "pf_balances (set_mark_price i m p) = pf_balances p"
    by (auto simp: set_mark_price_def Let_def portfolio_get_position_def update_conv' u split: option.splits)
qed

subsection \<open>The invariant of the runtime\<close>

text \<open>An order the risk engine let through: its quantity, and its notional at the price it names.\<close>

definition within_limits :: "risk_config \<Rightarrow> order_record \<Rightarrow> bool" where
  "within_limits c r \<longleftrightarrow> \<not> rk_kill_switch_enabled c \<and> \<not> or_quantity r \<le> 0 \<and> \<not> rk_max_order_quantity c < or_quantity r \<and>
     \<not> rk_max_position_quantity c < or_quantity r \<and>
     (\<forall>p. or_price r = Some p \<longrightarrow> \<not> rk_max_order_notional c < or_quantity r * p)"

definition runtime_inv :: "'s simulation_runtime \<Rightarrow> bool" where
  "runtime_inv rt \<longleftrightarrow> engine_inv (rt_execution_engine rt) \<and> portfolio_inv (rt_portfolio_service rt) \<and>
     (\<forall>s. rt_order_repository rt = Some s \<longrightarrow> orders_synced s (rt_execution_engine rt)) \<and>
     (\<forall>fs. rt_fill_repository rt = Some fs \<longrightarrow> fills_synced fs (rt_applied_fill_count rt) (rt_portfolio_service rt)) \<and>
     (\<forall>s. rt_position_repository rt = Some s \<longrightarrow> positions_synced s (rt_portfolio_service rt)) \<and>
     (\<forall>s. rt_balance_repository rt = Some s \<longrightarrow> balances_synced s (rt_portfolio_service rt)) \<and>
     (\<forall>i r. statics (mx_orders (rt_execution_engine rt)) i = Some r \<longrightarrow> within_limits (rt_risk_config rt) r)"

text \<open>Between two events the repository also holds what was last reported of every order.\<close>

definition runtime_reports :: "'s simulation_runtime \<Rightarrow> bool" where
  "runtime_reports rt \<longleftrightarrow> (\<forall>s fs. rt_order_repository rt = Some s \<longrightarrow> rt_fill_repository rt = Some fs \<longrightarrow>
     reports_kept s fs (mx_orders (rt_execution_engine rt)))"

definition runtime_sound :: "'s simulation_runtime \<Rightarrow> bool" where
  "runtime_sound rt \<longleftrightarrow> runtime_inv rt \<and> runtime_reports rt"

lemma runtime_reports_observed: "observed rt = observed rt' \<Longrightarrow> runtime_reports rt = runtime_reports rt'"
  by (drule observed_eqD) (simp add: runtime_reports_def)

lemma runtime_inv_observed: "observed rt = observed rt' \<Longrightarrow> runtime_inv rt = runtime_inv rt'"
  by (drule observed_eqD) (simp add: runtime_inv_def)

lemma runtime_inv_frame [simp]:
  "runtime_inv (runtime_count n rt) = runtime_inv rt" "runtime_inv (runtime_latency n t rt) = runtime_inv rt"
  "runtime_inv (snd (now_ms rt)) = runtime_inv rt" "runtime_inv (finish_event ev t rt) = runtime_inv rt"
  by (rule runtime_inv_observed, simp)+

lemma runtime_inv_result:
  assumes inv: "runtime_inv rt"
    and us: "\<forall>u \<in> set (xr_updates res). \<exists>r. statics (mx_orders (rt_execution_engine rt)) (ou_order_id u) = Some r \<and>
      or_client_order_id r = ou_client_order_id u"
  shows "runtime_inv (handle_execution_result res rt)"
  using inv orders_synced_updates [OF _ us] fills_synced_fills [of _ _ "rt_portfolio_service rt" "xr_fills res"]
    positions_synced_fills [of _ "rt_portfolio_service rt" "xr_fills res"]
    balances_synced_fills [of _ "rt_portfolio_service rt" "xr_fills res"]
    portfolio_inv_fills [of "rt_portfolio_service rt" "xr_fills res"]
  unfolding runtime_inv_observed [OF handle_execution_result_observed]
  by (auto simp: runtime_inv_def)

lemma runtime_reports_result:
  assumes inv: "runtime_inv rt" and old: "runtime_reports rt0"
    and fills: "rt_fill_repository rt = rt_fill_repository rt0"
    and repo: "rt_order_repository rt = None \<and> rt_order_repository rt0 = None \<or>
      (\<exists>s s0. rt_order_repository rt = Some s \<and> rt_order_repository rt0 = Some s0 \<and>
        (\<forall>i. (\<forall>u \<in> set (xr_updates res). ou_order_id u \<noteq> i) \<longrightarrow> get_order i s = get_order i s0))"
    and acc: "accounts (xr_updates res) (xr_fills res) (mx_orders (rt_execution_engine rt0)) (mx_orders (rt_execution_engine rt))"
  shows "runtime_reports (handle_execution_result res rt)"
proof (cases "rt_order_repository rt")
  case None
  then show ?thesis
    using observed_eqD [OF handle_execution_result_observed [of res rt]] by (simp add: runtime_reports_def)
next
  case (Some s)
  then obtain s0 where s0: "rt_order_repository rt0 = Some s0"
    "\<And>i. \<forall>u \<in> set (xr_updates res). ou_order_id u \<noteq> i \<Longrightarrow> get_order i s = get_order i s0" using repo by auto
  have k: "keyed_inv or_order_id s" using inv Some by (simp add: runtime_inv_def orders_synced_def)
  have "reports_kept (fold save_order_update (xr_updates res) s) (fs @ xr_fills res) (mx_orders (rt_execution_engine rt))"
    if "rt_fill_repository rt0 = Some fs" for fs
    using reports_kept_updates [OF _ k acc s0(2)] old that s0(1) by (simp add: runtime_reports_def)
  then show ?thesis
    using observed_eqD [OF handle_execution_result_observed [of res rt]] Some fills by (auto simp: runtime_reports_def)
qed

text \<open>What one event or request leaves alone: the configuration, and the parts that only the operator or the
  market changes.\<close>

definition same_setup :: "'s simulation_runtime \<Rightarrow> 's simulation_runtime \<Rightarrow> bool" where
  "same_setup rt rt' \<longleftrightarrow> rt_risk_config rt' = rt_risk_config rt \<and> rt_controls rt' = rt_controls rt \<and>
     (rt_order_repository rt' = None \<longleftrightarrow> rt_order_repository rt = None) \<and>
     (rt_fill_repository rt' = None \<longleftrightarrow> rt_fill_repository rt = None) \<and>
     (rt_position_repository rt' = None \<longleftrightarrow> rt_position_repository rt = None) \<and>
     (rt_balance_repository rt' = None \<longleftrightarrow> rt_balance_repository rt = None)"

lemma same_setup_refl [simp]: "same_setup rt rt"
  by (simp add: same_setup_def)

lemma same_setup_trans: "same_setup rt rt' \<Longrightarrow> same_setup rt' rt'' \<Longrightarrow> same_setup rt rt''"
  by (simp add: same_setup_def)

lemma same_setup_observed: "observed rt = observed rt' \<Longrightarrow> same_setup rt rt'"
  by (drule observed_eqD) (simp add: same_setup_def)

lemma same_setup_result: "same_setup rt (handle_execution_result res rt)"
  using observed_eqD [OF handle_execution_result_observed [of res rt]] by (simp add: same_setup_def)

lemma result_frame:
  "rt_market_state_store (handle_execution_result res rt) = rt_market_state_store rt"
  "rt_strategy_coordinator (handle_execution_result res rt) = rt_strategy_coordinator rt"
  "rt_execution_engine (handle_execution_result res rt) = rt_execution_engine rt"
  using observed_eqD [OF handle_execution_result_observed [of res rt]] by simp_all

lemma persist_new_order_frame:
  "rt_market_state_store (persist_new_order rq res rt) = rt_market_state_store rt"
  "rt_strategy_coordinator (persist_new_order rq res rt) = rt_strategy_coordinator rt"
  "rt_execution_engine (persist_new_order rq res rt) = rt_execution_engine rt"
  "same_setup rt (persist_new_order rq res rt)"
  by (auto simp: persist_new_order_def same_setup_def split: option.splits)

lemma persist_new_order_stores:
  assumes "\<And>s. rt_order_repository rt = Some s \<Longrightarrow> keyed_inv or_order_id s"
  shows "rt_fill_repository (persist_new_order rq res rt) = rt_fill_repository rt"
    and "rt_order_repository (persist_new_order rq res rt) = None \<and> rt_order_repository rt = None \<or>
      (\<exists>s s0. rt_order_repository (persist_new_order rq res rt) = Some s \<and> rt_order_repository rt = Some s0 \<and>
        (\<forall>i. i \<noteq> xr_order_id res \<longrightarrow> get_order i s = get_order i s0))"
  using assms in_memory_orders.lookup_save
  by (cases "rt_order_repository rt"; simp add: persist_new_order_def)+

lemma runtime_inv_submitted:
  assumes inv: "runtime_inv rt" and e': "engine_inv e'" and new: "mx_orders (rt_execution_engine rt) (xr_order_id res) = None"
    and i: "xr_order_id res \<noteq> ''''"
    and st: "statics (mx_orders e') = (statics (mx_orders (rt_execution_engine rt)))
       (xr_order_id res \<mapsto> order_static (order_record_of rq (xr_order_id res) (xr_client_order_id res)))"
    and ok: "within_limits (rt_risk_config rt) (order_static (order_record_of rq (xr_order_id res) (xr_client_order_id res)))"
  shows "runtime_inv (persist_new_order rq res (rt\<lparr>rt_execution_engine := e'\<rparr>))"
proof -
  have fresh: "get_order (xr_order_id res) s = None" if "orders_synced s (rt_execution_engine rt)" for s
  proof -
    have "statics (\<lambda>i. get_order i s) (xr_order_id res) = None" using that new by (simp add: orders_synced_def)
    then show ?thesis by simp
  qed
  have lim: "within_limits (rt_risk_config rt) r" if "statics (mx_orders e') j = Some r" for j r
    using that inv ok st by (auto simp: runtime_inv_def split: if_splits)
  have p: "persist_new_order rq res (rt\<lparr>rt_execution_engine := e'\<rparr>) = rt\<lparr>rt_execution_engine := e',
      rt_order_repository := map_option (save_order rq (xr_order_id res) (xr_client_order_id res)) (rt_order_repository rt)\<rparr>"
    using inv fresh i by (cases rt; cases "rt_order_repository rt") (simp_all add: persist_new_order_def runtime_inv_def)
  show ?thesis unfolding p
    using inv e' lim orders_synced_save [OF _ st] by (auto simp: runtime_inv_def)
qed

lemma approved_within_limits:
  assumes "rd_approved (evaluate c store now rq)"
  shows "within_limits c (order_static (order_record_of rq i k))"
  using assms
  by (auto simp: evaluate_approved within_limits_def order_static_def order_record_of_def resolve_reference_price_def
      split: option.splits)

lemma trading_paused_observed: "observed rt = observed rt' \<Longrightarrow> trading_paused rt = trading_paused rt'"
  by (drule observed_eqD) (simp add: trading_paused_def)

lemma handle_request_inv:
  assumes sound: "runtime_sound rt" and fin: "request_finite rq"
  obtains rt' where "handle_request rq rt = Some rt'" "runtime_sound rt'" "same_setup rt rt'"
    "rt_market_state_store rt' = rt_market_state_store rt" "rt_strategy_coordinator rt' = rt_strategy_coordinator rt"
    "trading_paused rt \<or> rk_kill_switch_enabled (rt_risk_config rt) \<Longrightarrow>
       rt_execution_engine rt' = rt_execution_engine rt \<and> rt_order_repository rt' = rt_order_repository rt"
proof -
  define rt0 where "rt0 = snd (now_ms rt)"
  define rt1 where "rt1 = snd (now_ms rt0)"
  let ?started = "fst (now_ms rt)" and ?l = "''order_processing_latency_ms''"
  let ?ok = "rd_approved (evaluate (rt_risk_config rt1) (rt_market_state_store rt1) (fst (now_ms rt0)) rq)"
  let ?rt2 = "runtime_count ''orders_approved'' (rt1\<lparr>rt_risk_approved_count := rt_risk_approved_count rt1 + 1\<rparr>)"
  have o: "observed rt0 = observed rt" "observed rt1 = observed rt" by (simp_all add: rt0_def rt1_def)
  note f0 = observed_eqD [OF o(1)] and f1 = observed_eqD [OF o(2)] and result = that
  have inv: "runtime_inv rt" and reports: "runtime_reports rt" using sound by (simp_all add: runtime_sound_def)
  have quiet: thesis
    if h: "handle_request rq rt = Some rt'" and q: "observed rt' = observed (rt\<lparr>rt_risk_rejected_count := n\<rparr>)" for rt' n
  proof (rule result [OF h])
    show "runtime_sound rt'" using inv reports runtime_inv_observed [OF q] runtime_reports_observed [OF q]
      by (simp add: runtime_sound_def runtime_inv_def runtime_reports_def)
    show "same_setup rt rt'" using observed_eqD [OF q] by (simp add: same_setup_def)
  qed (use observed_eqD [OF q] in simp_all)
  consider (paused) "trading_paused rt" | (rejected) "\<not> trading_paused rt" "\<not> ?ok" | (approved) "\<not> trading_paused rt" "?ok" by blast
  then show thesis
  proof cases
    case paused
    show ?thesis
      by (rule quiet [of "runtime_latency ?l ?started (runtime_count ''orders_paused'' rt0)" "rt_risk_rejected_count rt"])
        (use paused trading_paused_observed [OF o(1)] o in \<open>simp_all add: handle_request_def case_prod_beta rt0_def\<close>)
  next
    case rejected
    have "observed (rt1\<lparr>rt_risk_rejected_count := n\<rparr>) = observed (rt\<lparr>rt_risk_rejected_count := n\<rparr>)" for n
      by (simp add: rt1_def rt0_def now_ms_def observed_def)
    then show ?thesis
      by (intro quiet [of "runtime_latency ?l ?started (runtime_count ''risk_rejects'' (rt1\<lparr>rt_risk_rejected_count := rt_risk_rejected_count rt1 + 1\<rparr>))"
          "rt_risk_rejected_count rt1 + 1"])
        (use rejected trading_paused_observed [OF o(1)] in \<open>simp_all add: handle_request_def case_prod_beta rt0_def rt1_def\<close>)
  next
    case approved
    have e: "rt_execution_engine ?rt2 = rt_execution_engine rt" "rt_risk_config ?rt2 = rt_risk_config rt"
      using f1 by (simp_all add: runtime_count_def)
    have i2: "runtime_inv ?rt2" unfolding runtime_inv_frame using inv f1 by (simp add: runtime_inv_def)
    have no: "\<not> rk_kill_switch_enabled (rt_risk_config rt)" using approved(2) f1 by (auto simp: evaluate_approved)
    from inv have ie: "engine_inv (rt_execution_engine ?rt2)" using e by (simp add: runtime_inv_def)
    from submit_registers [OF ie fin] obtain res e' where s: "submit rq (rt_execution_engine ?rt2) = Some (res, e')"
      "engine_inv e'" "xr_order_id res \<noteq> ''''" "mx_orders (rt_execution_engine ?rt2) (xr_order_id res) = None"
      and st: "statics (mx_orders e') = (statics (mx_orders (rt_execution_engine ?rt2)))
        (xr_order_id res \<mapsto> order_static (order_record_of rq (xr_order_id res) (xr_client_order_id res)))"
      and us: "\<forall>u \<in> set (xr_updates res). ou_order_id u = xr_order_id res \<and> ou_client_order_id u = xr_client_order_id res"
      and acc: "xr_updates res \<noteq> []"
        "accounts (xr_updates res) (xr_fills res) (mx_orders (rt_execution_engine ?rt2)) (mx_orders e')" by blast
    let ?rt3 = "persist_new_order rq res (?rt2\<lparr>rt_execution_engine := e'\<rparr>)"
    let ?rt4 = "handle_execution_result res ?rt3"
    have lim: "within_limits (rt_risk_config ?rt2) (order_static (order_record_of rq (xr_order_id res) (xr_client_order_id res)))"
      using approved_within_limits [OF approved(2)] f1 e by simp
    have i3: "runtime_inv ?rt3" by (rule runtime_inv_submitted [OF i2 s(2) s(4) s(3) st lim])
    have i4: "runtime_inv ?rt4"
    proof (rule runtime_inv_result [OF i3], rule ballI)
      fix u assume "u \<in> set (xr_updates res)"
      then show "\<exists>r. statics (mx_orders (rt_execution_engine ?rt3)) (ou_order_id u) = Some r \<and> or_client_order_id r = ou_client_order_id u"
        using us st by (simp add: persist_new_order_frame order_static_def order_record_of_def)
    qed
    have r4: "runtime_reports ?rt4"
    proof (rule runtime_reports_result [OF i3, of "?rt2\<lparr>rt_execution_engine := rt_execution_engine rt\<rparr>"])
      show "runtime_reports (?rt2\<lparr>rt_execution_engine := rt_execution_engine rt\<rparr>)"
        using reports f1 by (simp add: runtime_reports_def runtime_count_def)
      have k: "keyed_inv or_order_id s" if "rt_order_repository (?rt2\<lparr>rt_execution_engine := e'\<rparr>) = Some s" for s
        using i2 that by (simp add: runtime_inv_def orders_synced_def)
      note stores = persist_new_order_stores [of "?rt2\<lparr>rt_execution_engine := e'\<rparr>", OF k, where rq = rq and res = res]
      show "rt_fill_repository ?rt3 = rt_fill_repository (?rt2\<lparr>rt_execution_engine := rt_execution_engine rt\<rparr>)"
        using stores(1) by simp
      have new_id: "i \<noteq> xr_order_id res" if "\<forall>u \<in> set (xr_updates res). ou_order_id u \<noteq> i" for i
        using that us acc(1) by (metis last_in_set)
      show "rt_order_repository ?rt3 = None \<and> rt_order_repository (?rt2\<lparr>rt_execution_engine := rt_execution_engine rt\<rparr>) = None \<or>
        (\<exists>s s0. rt_order_repository ?rt3 = Some s \<and>
          rt_order_repository (?rt2\<lparr>rt_execution_engine := rt_execution_engine rt\<rparr>) = Some s0 \<and>
          (\<forall>i. (\<forall>u \<in> set (xr_updates res). ou_order_id u \<noteq> i) \<longrightarrow> get_order i s = get_order i s0))"
        using stores(2) new_id by fastforce
      show "accounts (xr_updates res) (xr_fills res)
          (mx_orders (rt_execution_engine (?rt2\<lparr>rt_execution_engine := rt_execution_engine rt\<rparr>))) (mx_orders (rt_execution_engine ?rt3))"
        using acc(2) e(1) by (simp add: persist_new_order_frame)
    qed
    have kept2: "same_setup rt (?rt2\<lparr>rt_execution_engine := e'\<rparr>)" using f1 by (simp add: same_setup_def runtime_count_def)
    have kept: "same_setup rt ?rt4"
      using kept2 persist_new_order_frame(4) same_setup_result same_setup_trans by blast
    have h: "handle_request rq rt = Some (runtime_latency ?l ?started ?rt4)"
      using approved s(1) trading_paused_observed [OF o(1)] by (simp add: handle_request_def case_prod_beta rt0_def rt1_def Let_def)
    note fl = observed_eqD [OF observed_simps(2) [of ?l ?started ?rt4]]
    show ?thesis
    proof (rule result [OF h])
      show "runtime_sound (runtime_latency ?l ?started ?rt4)"
        using i4 r4 runtime_reports_observed [OF observed_simps(2) [of ?l ?started ?rt4]] by (simp add: runtime_sound_def)
      show "same_setup rt (runtime_latency ?l ?started ?rt4)"
        using kept same_setup_trans same_setup_observed [of ?rt4 "runtime_latency ?l ?started ?rt4"] by simp
    qed (use fl f1 no approved in \<open>simp_all add: result_frame persist_new_order_frame runtime_count_def\<close>)
  qed
qed

lemma process_requests_inv:
  assumes "runtime_sound rt" "\<forall>rq \<in> set rqs. request_finite rq"
  obtains rt' where "process_requests rqs rt = Some rt'" "runtime_sound rt'" "same_setup rt rt'"
    "rt_market_state_store rt' = rt_market_state_store rt" "rt_strategy_coordinator rt' = rt_strategy_coordinator rt"
    "trading_paused rt \<or> rk_kill_switch_enabled (rt_risk_config rt) \<Longrightarrow>
       rt_execution_engine rt' = rt_execution_engine rt \<and> rt_order_repository rt' = rt_order_repository rt"
  using assms
proof (induction rqs arbitrary: rt thesis)
  case Nil
  show ?case by (rule Nil.prems(1) [of rt]) (use Nil in auto)
next
  case (Cons rq rqs)
  obtain rt1 where h: "handle_request rq rt = Some rt1" "runtime_sound rt1" "same_setup rt rt1"
    "rt_market_state_store rt1 = rt_market_state_store rt" "rt_strategy_coordinator rt1 = rt_strategy_coordinator rt"
    "trading_paused rt \<or> rk_kill_switch_enabled (rt_risk_config rt) \<Longrightarrow>
       rt_execution_engine rt1 = rt_execution_engine rt \<and> rt_order_repository rt1 = rt_order_repository rt"
    using handle_request_inv [of rt rq] Cons.prems by auto
  obtain rt2 where p: "process_requests rqs rt1 = Some rt2" "runtime_sound rt2" "same_setup rt1 rt2"
    "rt_market_state_store rt2 = rt_market_state_store rt1" "rt_strategy_coordinator rt2 = rt_strategy_coordinator rt1"
    "trading_paused rt1 \<or> rk_kill_switch_enabled (rt_risk_config rt1) \<Longrightarrow>
       rt_execution_engine rt2 = rt_execution_engine rt1 \<and> rt_order_repository rt2 = rt_order_repository rt1"
    using Cons.IH [of rt1] h(2) Cons.prems(3) by auto
  have "trading_paused rt1 = trading_paused rt" "rt_risk_config rt1 = rt_risk_config rt"
    using h(3) by (simp_all add: same_setup_def trading_paused_def)
  then show ?case
    using h p same_setup_trans [OF h(3) p(3)] by (intro Cons.prems(1) [of rt2]) simp_all
qed

lemma handle_market_event_inv:
  assumes sound: "runtime_sound rt"
  obtains rt' where "handle_market_event e rt = Some rt'" "runtime_sound rt'" "same_setup rt rt'"
    "rt_market_state_store rt' = market_apply e (rt_market_state_store rt)"
    "rt_strategy_coordinator rt' = rt_strategy_coordinator rt"
    "statics (mx_orders (rt_execution_engine rt')) = statics (mx_orders (rt_execution_engine rt))"
    "mx_next_order_id (rt_execution_engine rt') = mx_next_order_id (rt_execution_engine rt)"
proof -
  let ?rt1 = "persist_market_snapshot e (rt\<lparr>rt_market_state_store := market_apply e (rt_market_state_store rt)\<rparr>)"
  have inv: "runtime_inv rt" and reports: "runtime_reports rt" using sound by (simp_all add: runtime_sound_def)
  have e1: "rt_execution_engine ?rt1 = rt_execution_engine rt" by (simp add: persist_market_snapshot_def)
  from inv have "engine_inv (rt_execution_engine ?rt1)" by (simp add: e1 runtime_inv_def)
  from market_event_keeps_terms [OF this, where event = e] obtain res e' where
    s: "process_market_event e (rt_execution_engine ?rt1) = Some (res, e')" "engine_inv e'"
    and st: "statics (mx_orders e') = statics (mx_orders (rt_execution_engine rt))"
      "mx_next_order_id e' = mx_next_order_id (rt_execution_engine rt)"
    and us: "\<forall>u \<in> set (xr_updates res). \<exists>r. statics (mx_orders (rt_execution_engine rt)) (ou_order_id u) = Some r \<and>
      or_client_order_id r = ou_client_order_id u"
    and acc: "accounts (xr_updates res) (xr_fills res) (mx_orders (rt_execution_engine rt)) (mx_orders e')"
    unfolding e1 by blast
  let ?rt2 = "?rt1\<lparr>rt_execution_engine := e'\<rparr>"
  let ?rt3 = "handle_execution_result res ?rt2"
  let ?rt4 = "if 0 < me_price e then ?rt3\<lparr>rt_portfolio_service :=
    set_mark_price (instrument_id (me_instrument e)) (me_price e) (rt_portfolio_service ?rt3)\<rparr> else ?rt3"
  have i2: "runtime_inv ?rt2"
    using inv s(2) st orders_synced_statics [of _ "rt_execution_engine rt" e']
    by (auto simp: runtime_inv_def persist_market_snapshot_def)
  have i3: "runtime_inv ?rt3" by (rule runtime_inv_result [OF i2]) (use us st in simp)
  have "runtime_reports ?rt3"
    by (rule runtime_reports_result [OF i2 reports]) (use acc in \<open>auto simp: persist_market_snapshot_def\<close>)
  then have r4: "runtime_reports ?rt4" by (simp add: runtime_reports_def)
  have i4: "runtime_inv ?rt4" using i3
    by (auto simp: runtime_inv_def portfolio_inv_set_mark fills_synced_def positions_synced_def balances_synced_def set_mark_price_effect)
  have k2: "same_setup rt ?rt2" by (simp add: same_setup_def persist_market_snapshot_def)
  have k4: "same_setup ?rt3 ?rt4" by (simp add: same_setup_def)
  show thesis
  proof (rule that)
    show "handle_market_event e rt = Some ?rt4" using s(1) by (simp add: handle_market_event_def Let_def)
    show "same_setup rt ?rt4" using k2 same_setup_result k4 same_setup_trans by blast
  qed (use i4 r4 st in \<open>simp_all add: result_frame persist_market_snapshot_def runtime_sound_def\<close>)
qed

subsection \<open>Strategies that emit well-formed requests\<close>

text \<open>
  The matching engine orders its levels by price, so a request that is not a number must not reach it. A
  strategy is well behaved when it emits no such request as long as the quotes it sees are numbers.
\<close>

definition quotes_finite :: "engine_event \<Rightarrow> bool" where
  "quotes_finite event = (case event of MarketEvent e \<Rightarrow> me_bid_price e \<noteq> Some NaN \<and> me_ask_price e \<noteq> Some NaN \<and>
     (\<forall>l \<in> set (me_bid_levels e @ me_ask_levels e). bl_price l \<noteq> NaN) | _ \<Rightarrow> True)"

definition store_finite :: "market_state_store \<Rightarrow> bool" where
  "store_finite store \<longleftrightarrow> (\<forall>iid s. store iid = Some s \<longrightarrow> mst_best_bid s \<noteq> Some NaN \<and> mst_best_ask s \<noteq> Some NaN)"

lemma store_finite_apply:
  assumes "store_finite store" "quotes_finite (MarketEvent e)"
  shows "store_finite (market_apply e store)"
proof -
  let ?s0 = "case store (instrument_id (me_instrument e)) of Some s \<Rightarrow> s | None \<Rightarrow> default_market_state"
  have s0: "mst_best_bid ?s0 \<noteq> Some NaN \<and> mst_best_ask ?s0 \<noteq> Some NaN"
    using assms(1) by (auto simp: store_finite_def default_market_state_def split: option.splits)
  then have "mst_best_bid (update_quotes e ?s0) \<noteq> Some NaN \<and> mst_best_ask (update_quotes e ?s0) \<noteq> Some NaN"
    using assms(2) by (auto simp: update_quotes_def Let_def quotes_finite_def split: list.splits)
  then show ?thesis using s0 assms(1) by (auto simp: store_finite_def market_apply_def Let_def split: if_splits)
qed

locale sane_strategy =
  fixes on_ev :: "engine_event \<Rightarrow> strategy_context \<Rightarrow> 's \<Rightarrow> order_request list option \<times> 's"
    and sane :: "'s \<Rightarrow> bool"
  assumes sane_kept: "sane s \<Longrightarrow> sane (snd (on_ev e ctx s))"
    and sane_requests: "sane s \<Longrightarrow> store_finite (sx_market_state_store ctx) \<Longrightarrow> on_ev e ctx s = (Some rqs, s') \<Longrightarrow>
      rq \<in> set rqs \<Longrightarrow> request_finite rq"
begin

abbreviation all_sane :: "'s strategy_coordinator \<Rightarrow> bool" where
  "all_sane slots \<equiv> \<forall>slot \<in> set slots. sane (sl_strategy slot)"

lemma coordinator_sane:
  assumes "all_sane slots" "store_finite (sx_market_state_store ctx)" "coordinator_on_event on_ev e ctx slots = (rqs, slots')"
  shows "all_sane slots' \<and> (\<forall>rq \<in> set rqs. request_finite rq)"
  using assms
proof (induction slots arbitrary: rqs slots')
  case (Cons slot slots)
  obtain rqs1 slot1 where s: "slot_on_event on_ev e ctx slot = (rqs1, slot1)" by force
  obtain rqs2 slots2 where c: "coordinator_on_event on_ev e ctx slots = (rqs2, slots2)" by force
  have "sane (sl_strategy slot)" using Cons.prems(1) by simp
  then have "sane (sl_strategy slot1) \<and> (\<forall>rq \<in> set rqs1. request_finite rq)"
    using s Cons.prems(2) sane_kept [of "sl_strategy slot" e ctx] sane_requests [of "sl_strategy slot" ctx e]
    by (auto simp: slot_on_event_def Let_def split: if_splits prod.splits option.splits)
  then show ?case using Cons.IH [OF _ Cons.prems(2) c] Cons.prems(1,3) s c by auto
qed auto

text \<open>One event: the runtime returns, keeps its invariant and its strategies, and places no order while
  trading is paused or the kill switch is on.\<close>

lemma on_event_inv:
  assumes inv: "runtime_sound rt" and fin: "store_finite (rt_market_state_store rt)" "quotes_finite event"
    and sane: "all_sane (rt_strategy_coordinator rt)"
  obtains rt' where "on_event on_ev event rt = Some rt'" "runtime_sound rt'" "same_setup rt rt'"
    "store_finite (rt_market_state_store rt')" "all_sane (rt_strategy_coordinator rt')"
    "trading_paused rt \<or> rk_kill_switch_enabled (rt_risk_config rt) \<Longrightarrow>
       statics (mx_orders (rt_execution_engine rt')) = statics (mx_orders (rt_execution_engine rt)) \<and>
       mx_next_order_id (rt_execution_engine rt') = mx_next_order_id (rt_execution_engine rt)"
proof -
  define rt0 where "rt0 = snd (now_ms rt)"
  have o: "observed rt0 = observed rt" by (simp add: rt0_def)
  note f0 = observed_eqD [OF o]
  have i0: "runtime_sound rt0" using inv runtime_reports_observed [OF o] runtime_inv_observed [OF o] by (simp add: runtime_sound_def)
  obtain rt1 where m: "(case event of MarketEvent e \<Rightarrow> handle_market_event e rt0 | _ \<Rightarrow> Some rt0) = Some rt1"
    "runtime_sound rt1" "same_setup rt0 rt1" "store_finite (rt_market_state_store rt1)"
    "rt_strategy_coordinator rt1 = rt_strategy_coordinator rt"
    "statics (mx_orders (rt_execution_engine rt1)) = statics (mx_orders (rt_execution_engine rt))"
    "mx_next_order_id (rt_execution_engine rt1) = mx_next_order_id (rt_execution_engine rt)"
  proof (cases event)
    case (MarketEvent e)
    from handle_market_event_inv [OF i0, where e = e] obtain rt1 where h: "handle_market_event e rt0 = Some rt1"
      "runtime_sound rt1" "same_setup rt0 rt1" "rt_market_state_store rt1 = market_apply e (rt_market_state_store rt0)"
      "rt_strategy_coordinator rt1 = rt_strategy_coordinator rt0"
      "statics (mx_orders (rt_execution_engine rt1)) = statics (mx_orders (rt_execution_engine rt0))"
      "mx_next_order_id (rt_execution_engine rt1) = mx_next_order_id (rt_execution_engine rt0)" by blast
    then show ?thesis using that [of rt1] f0 fin store_finite_apply MarketEvent by simp
  qed (use that [of rt0] i0 f0 fin in simp_all)
  obtain rqs slots where c: "coordinator_on_event on_ev event \<lparr>sx_market_state_store = rt_market_state_store rt1,
      sx_now_ms = rt_clock rt1 (rt_clock_reads rt1)\<rparr> (rt_strategy_coordinator rt1) = (rqs, slots)" by force
  have s: "all_sane slots" "\<forall>rq \<in> set rqs. request_finite rq"
    using coordinator_sane [OF _ _ c] sane m(4,5) by simp_all
  have i1: "runtime_sound (rt1\<lparr>rt_strategy_coordinator := slots\<rparr>)" using m(2) by (simp add: runtime_sound_def runtime_inv_def runtime_reports_def)
  from process_requests_inv [OF i1 s(2)] obtain rt2 where p:
    "process_requests rqs (rt1\<lparr>rt_strategy_coordinator := slots\<rparr>) = Some rt2" "runtime_sound rt2"
    "same_setup (rt1\<lparr>rt_strategy_coordinator := slots\<rparr>) rt2" "rt_market_state_store rt2 = rt_market_state_store rt1"
    "rt_strategy_coordinator rt2 = slots"
    "trading_paused rt1 \<or> rk_kill_switch_enabled (rt_risk_config rt1) \<Longrightarrow> rt_execution_engine rt2 = rt_execution_engine rt1"
    by (auto simp: trading_paused_def)
  let ?rt3 = "finish_event event (fst (now_ms rt)) rt2"
  note o3 = observed_simps(5) [of event "fst (now_ms rt)" rt2]
  note f3 = observed_eqD [OF o3]
  have i3: "runtime_sound ?rt3"
    using p(2) runtime_reports_observed [OF o3] runtime_inv_observed [OF o3] by (simp add: runtime_sound_def)
  have keep: "trading_paused rt1 = trading_paused rt" "rt_risk_config rt1 = rt_risk_config rt"
    using m(3) f0 by (simp_all add: same_setup_def trading_paused_def)
  show thesis
  proof (rule that)
    show "on_event on_ev event rt = Some ?rt3"
      unfolding on_event_def case_prod_beta using m(1) [unfolded rt0_def] c p(1) by simp
    show "same_setup rt ?rt3"
      using m(3) p(3) f0 f3 by (auto simp: same_setup_def)
  qed (use p m keep s f3 i3 in simp_all)
qed

end

fun strategy_sane :: "strategy \<Rightarrow> bool" where
  "strategy_sane (Sample_threshold s) \<longleftrightarrow> st_order_quantity (st_config s) \<noteq> NaN"
| "strategy_sane (Spread_capture s) \<longleftrightarrow> sc_order_quantity (sc_config s) \<noteq> NaN"

text \<open>The threshold strategy compares the trade price, which filters a price that is not a number.\<close>

lemma threshold_requests:
  assumes "st_order_quantity (st_config s) \<noteq> NaN" "sample_threshold_on_event e ctx s = (rqs, s')" "rq \<in> set rqs"
  shows "request_finite rq"
proof (cases e)
  case (MarketEvent m)
  have "me_price m \<noteq> NaN" if "should_emit_for_trade_price (me_price m) s"
    using that by (auto simp: should_emit_for_trade_price_def split: if_splits)
  then show ?thesis using assms MarketEvent
    by (auto simp: st_build_order_request_def Let_def request_finite_def split: if_splits)
qed (use assms in auto)

lemma spread_requests:
  assumes "sc_order_quantity (sc_config s) \<noteq> NaN" "store_finite (sx_market_state_store ctx)"
    and "spread_capture_on_event e ctx s = (rqs, s')" "rq \<in> set rqs"
  shows "request_finite rq"
proof (cases e)
  case (MarketEvent m)
  then show ?thesis using assms
    by (auto simp: sc_build_order_request_def Let_def request_finite_def market_get_def store_finite_def split: if_splits option.splits)
qed (use assms in auto)

interpretation builtin_runtime: sane_strategy strategy_on_event strategy_sane
proof
  fix s e ctx
  show "strategy_sane s \<Longrightarrow> strategy_sane (snd (strategy_on_event e ctx s))"
    by (cases s) (auto split: prod.splits dest!: sample_threshold_step spread_capture_step)
next
  fix s ctx e rqs s' rq
  assume "strategy_sane s" "store_finite (sx_market_state_store ctx)" "strategy_on_event e ctx s = (Some rqs, s')" "rq \<in> set rqs"
  then show "request_finite rq"
    by (cases s) (auto split: prod.splits dest: threshold_requests spread_requests)
qed

subsection \<open>Runs\<close>

fun runtime_run ::
  "(engine_event \<Rightarrow> strategy_context \<Rightarrow> 's \<Rightarrow> order_request list option \<times> 's) \<Rightarrow> engine_event list \<Rightarrow>
   's simulation_runtime \<Rightarrow> 's simulation_runtime option" where
  "runtime_run on_ev [] rt = Some rt"
| "runtime_run on_ev (event # events) rt = (case on_event on_ev event rt of None \<Rightarrow> None | Some rt' \<Rightarrow> runtime_run on_ev events rt')"

definition runtime_ready :: "strategy simulation_runtime \<Rightarrow> bool" where
  "runtime_ready rt \<longleftrightarrow> runtime_sound rt \<and> store_finite (rt_market_state_store rt) \<and> builtin_runtime.all_sane (rt_strategy_coordinator rt)"

lemma runtime_run_ready:
  assumes "runtime_ready rt" "\<forall>event \<in> set events. quotes_finite event"
  obtains rt' where "runtime_run strategy_on_event events rt = Some rt'" "runtime_ready rt'" "same_setup rt rt'"
    "trading_paused rt \<or> rk_kill_switch_enabled (rt_risk_config rt) \<Longrightarrow>
       statics (mx_orders (rt_execution_engine rt')) = statics (mx_orders (rt_execution_engine rt)) \<and>
       mx_next_order_id (rt_execution_engine rt') = mx_next_order_id (rt_execution_engine rt)"
  using assms
proof (induction events arbitrary: rt thesis)
  case Nil
  show ?case by (rule Nil.prems(1) [of rt]) (use Nil in auto)
next
  case (Cons event events)
  obtain rt1 where h: "on_event strategy_on_event event rt = Some rt1" "runtime_ready rt1" "same_setup rt rt1"
    "trading_paused rt \<or> rk_kill_switch_enabled (rt_risk_config rt) \<Longrightarrow>
       statics (mx_orders (rt_execution_engine rt1)) = statics (mx_orders (rt_execution_engine rt)) \<and>
       mx_next_order_id (rt_execution_engine rt1) = mx_next_order_id (rt_execution_engine rt)"
  proof -
    have pre: "runtime_sound rt" "store_finite (rt_market_state_store rt)" "quotes_finite event"
      "builtin_runtime.all_sane (rt_strategy_coordinator rt)" using Cons.prems(2,3) by (simp_all add: runtime_ready_def)
    show ?thesis by (rule builtin_runtime.on_event_inv [OF pre]) (rule that, simp_all add: runtime_ready_def)
  qed
  obtain rt2 where p: "runtime_run strategy_on_event events rt1 = Some rt2" "runtime_ready rt2" "same_setup rt1 rt2"
    "trading_paused rt1 \<or> rk_kill_switch_enabled (rt_risk_config rt1) \<Longrightarrow>
       statics (mx_orders (rt_execution_engine rt2)) = statics (mx_orders (rt_execution_engine rt1)) \<and>
       mx_next_order_id (rt_execution_engine rt2) = mx_next_order_id (rt_execution_engine rt1)"
    using Cons.IH [of rt1] h(2) Cons.prems(3) by auto
  have "trading_paused rt1 = trading_paused rt" "rt_risk_config rt1 = rt_risk_config rt"
    using h(3) by (simp_all add: same_setup_def trading_paused_def)
  then show ?case
    using h p same_setup_trans [OF h(3) p(3)] by (intro Cons.prems(1) [of rt2]) simp_all
qed

text \<open>A first start: every attached repository is empty, and every configured strategy trades a number.\<close>

definition first_start :: "strategy simulation_runtime_config \<Rightarrow> bool" where
  "first_start cfg \<longleftrightarrow> rc_order_repository cfg \<in> {None, Some []} \<and> rc_fill_repository cfg \<in> {None, Some []} \<and>
     rc_position_repository cfg \<in> {None, Some []} \<and> rc_balance_repository cfg \<in> {None, Some []} \<and>
     (case rc_strategy_coordinator cfg of Some slots \<Rightarrow> \<forall>slot \<in> set slots. strategy_sane (sl_strategy slot)
      | None \<Rightarrow> st_order_quantity (rc_strategy cfg) \<noteq> NaN)"

lemma runtime_ready_new:
  assumes "first_start cfg"
  shows "runtime_ready (simulation_runtime_new clock risk cfg controls metrics)"
proof -
  have "orders_synced [] matching_engine_new" by (simp add: orders_synced_def statics_def get_order_def matching_engine_new_def)
  moreover have "fills_synced [] 0 portfolio_service_new" "positions_synced [] portfolio_service_new" "balances_synced [] portfolio_service_new"
    by (simp_all add: fills_synced_def positions_synced_def balances_synced_def net_of_def portfolio_get_position_def
        portfolio_service_new_def get_position_def get_balance_def)
  moreover have "statics (mx_orders matching_engine_new) = Map.empty" by (simp add: matching_engine_new_def statics_def)
  ultimately have "runtime_inv (simulation_runtime_new clock risk cfg controls metrics)"
    using assms engine_inv_new
    by (auto simp: runtime_inv_def simulation_runtime_new_def first_start_def portfolio_inv_def portfolio_service_new_def)
  moreover have "runtime_reports (simulation_runtime_new clock risk cfg controls metrics)"
    using assms by (auto simp: runtime_reports_def simulation_runtime_new_def first_start_def reports_kept_def get_order_def)
  ultimately show ?thesis using assms
    by (auto simp: runtime_ready_def runtime_sound_def simulation_runtime_new_def store_finite_def first_start_def add_strategy_def
        sample_threshold_new_def split: option.splits)
qed

subsection \<open>Properties\<close>

text \<open>
  C5. From a first start with all repositories attached, any sequence of events with numeric quotes is
  processed to the end, and afterwards the repositories account for the live state. The fill repository
  holds exactly the applied fills, and the running sum of its signed quantities is the net position of
  every instrument; the balance repository equals the portfolio's balances; the position repository equals
  its positions up to the unrealized profit. The order repository holds exactly the orders the matching
  engine tracks, each with the terms the engine has, and with the engine's status and filled quantity
  (within the tolerance), except that an order may lag which a later order was filled against: then the fill
  repository holds a fill of the other side at the order's price, in its instrument.
\<close>

theorem runtime_books_reconcile:
  assumes "rc_order_repository cfg = Some []" "rc_fill_repository cfg = Some []" "rc_position_repository cfg = Some []"
    "rc_balance_repository cfg = Some []" "first_start cfg" "\<forall>event \<in> set events. quotes_finite event"
  shows "\<exists>rt orders fills positions balances.
    runtime_run strategy_on_event events (simulation_runtime_new clock risk cfg controls metrics) = Some rt \<and>
    rt_order_repository rt = Some orders \<and> rt_fill_repository rt = Some fills \<and>
    rt_position_repository rt = Some positions \<and> rt_balance_repository rt = Some balances \<and>
    length fills = rt_applied_fill_count rt \<and>
    (\<forall>iid. map_option po_net_quantity (portfolio_get_position iid (rt_portfolio_service rt)) = net_of iid fills) \<and>
    (\<forall>iid. map_option unmarked (get_position iid positions) =
       map_option unmarked (portfolio_get_position iid (rt_portfolio_service rt))) \<and>
    (\<forall>a. get_balance a balances = map_of (pf_balances (rt_portfolio_service rt)) a) \<and>
    (\<forall>i. map_option order_static (get_order i orders) = map_option order_static (engine_get_order i (rt_execution_engine rt))) \<and>
    (\<forall>i kept r. get_order i orders = Some kept \<longrightarrow> engine_get_order i (rt_execution_engine rt) = Some r \<longrightarrow>
       or_status r = or_status kept \<and> (or_filled_quantity r = or_filled_quantity kept \<or>
         \<bar>or_filled_quantity kept - or_filled_quantity r\<bar> \<le> kQuantityTolerance) \<or>
       traded_against fills r)"
proof -
  let ?new = "simulation_runtime_new clock risk cfg controls metrics"
  obtain rt where r: "runtime_run strategy_on_event events ?new = Some rt" "runtime_ready rt" "same_setup ?new rt"
    using runtime_run_ready [OF runtime_ready_new [OF assms(5)] assms(6)] by blast
  have att: "rt_order_repository rt \<noteq> None" "rt_fill_repository rt \<noteq> None" "rt_position_repository rt \<noteq> None"
    "rt_balance_repository rt \<noteq> None"
    using r(3) assms(1-4) by (simp_all add: same_setup_def simulation_runtime_new_def)
  then obtain orders fills positions balances where s: "rt_order_repository rt = Some orders" "rt_fill_repository rt = Some fills"
    "rt_position_repository rt = Some positions" "rt_balance_repository rt = Some balances" by blast
  have inv: "orders_synced orders (rt_execution_engine rt)" "fills_synced fills (rt_applied_fill_count rt) (rt_portfolio_service rt)"
    "positions_synced positions (rt_portfolio_service rt)" "balances_synced balances (rt_portfolio_service rt)"
    "reports_kept orders fills (mx_orders (rt_execution_engine rt))"
    using r(2) s by (simp_all add: runtime_ready_def runtime_sound_def runtime_inv_def runtime_reports_def)
  show ?thesis using r(1) s inv
    by (intro exI [of _ rt] exI [of _ orders] exI [of _ fills] exI [of _ positions] exI [of _ balances])
      (simp add: orders_synced_def fills_synced_def positions_synced_def balances_synced_def statics_def fun_eq_iff
        engine_get_order_def reports_kept_def reported_def)
qed

definition sample_runtime_config :: "strategy simulation_runtime_config" where
  "sample_runtime_config = \<lparr>rc_strategy = \<lparr>st_strategy_id = ''s1'', st_instrument_id = ''BTC-USD'',
     st_instrument = default_instrument, st_trigger_price = Fin 100, st_order_quantity = Fin 2, st_side = Buy\<rparr>,
     rc_strategy_coordinator = None, rc_execution = \<lparr>sc_partial_fill_threshold = 0, sc_partial_fill_ratio = 1\<rparr>,
     rc_auto_complete_partial_fills = False, rc_order_repository = Some [], rc_fill_repository = Some [],
     rc_position_repository = Some [], rc_balance_repository = Some [], rc_market_state_cache = None\<rparr>"

definition sample_events :: "engine_event list" where
  "sample_events = [MarketEvent (sample_event\<lparr>me_price := Fin 100, me_quantity := Fin 1\<rparr>), MarketEvent sample_event]"

lemma sample_runtime_ok: "first_start sample_runtime_config" "\<forall>event \<in> set sample_events. quotes_finite event"
  by (simp_all add: first_start_def sample_runtime_config_def sample_events_def quotes_finite_def sample_event_def)

theorem runtime_books_reconcile_witness:
  "\<exists>rt fills. runtime_run strategy_on_event sample_events (simulation_runtime_new (\<lambda>_. 0) sample_risk sample_runtime_config None None) = Some rt \<and>
     rt_fill_repository rt = Some fills \<and> length fills = rt_applied_fill_count rt"
  using runtime_books_reconcile [OF _ _ _ _ sample_runtime_ok, of "\<lambda>_. 0" sample_risk None None]
  by (force simp: sample_runtime_config_def)

text \<open>
  C6. From a first start, whatever the events with numeric quotes, every order that the matching engine
  tracks and every order in the attached order repository is one the risk engine may approve: its quantity
  is positive and within the order and position limits, its notional at the price it names is within the
  notional limit, and the kill switch is off.
\<close>

theorem runtime_orders_within_limits:
  assumes "first_start cfg" "\<forall>event \<in> set events. quotes_finite event"
  shows "\<exists>rt. runtime_run strategy_on_event events (simulation_runtime_new clock risk cfg controls metrics) = Some rt \<and>
    (\<forall>i r. engine_get_order i (rt_execution_engine rt) = Some r \<longrightarrow> within_limits risk r) \<and>
    (\<forall>s i r. rt_order_repository rt = Some s \<longrightarrow> get_order i s = Some r \<longrightarrow> within_limits risk r)"
proof -
  let ?new = "simulation_runtime_new clock risk cfg controls metrics"
  obtain rt where r: "runtime_run strategy_on_event events ?new = Some rt" "runtime_ready rt" "same_setup ?new rt"
    using runtime_run_ready [OF runtime_ready_new [OF assms(1)] assms(2)] by blast
  have c: "rt_risk_config rt = risk" using r(3) by (simp add: same_setup_def simulation_runtime_new_def)
  have st: "within_limits risk r" if "within_limits risk (order_static r)" for r
    using that by (simp add: within_limits_def order_static_def)
  have lim: "within_limits risk r" if "statics (mx_orders (rt_execution_engine rt)) i = Some r" for i r
    using r(2) c that by (auto simp: runtime_ready_def runtime_sound_def runtime_inv_def)
  have "within_limits risk r" if "engine_get_order i (rt_execution_engine rt) = Some r" for i r
    by (rule st, rule lim [of i]) (use that in \<open>simp add: statics_def engine_get_order_def\<close>)
  moreover have "within_limits risk r" if "rt_order_repository rt = Some s" "get_order i s = Some r" for s i r
  proof (rule st, rule lim [of i])
    have "orders_synced s (rt_execution_engine rt)"
      using r(2) that(1) by (simp add: runtime_ready_def runtime_sound_def runtime_inv_def)
    then show "statics (mx_orders (rt_execution_engine rt)) i = Some (order_static r)"
      using that(2) unfolding orders_synced_def by (metis statics_def option.simps(9))
  qed
  ultimately show ?thesis using r(1) by blast
qed

theorem runtime_orders_within_limits_witness:
  "\<exists>rt. runtime_run strategy_on_event sample_events (simulation_runtime_new (\<lambda>_. 0) sample_risk sample_runtime_config None None) = Some rt \<and>
    (\<forall>i r. engine_get_order i (rt_execution_engine rt) = Some r \<longrightarrow> within_limits sample_risk r) \<and>
    (\<forall>s i r. rt_order_repository rt = Some s \<longrightarrow> get_order i s = Some r \<longrightarrow> within_limits sample_risk r)"
  by (rule runtime_orders_within_limits [OF sample_runtime_ok])

text \<open>
  C7. Pausing trading, or starting with the kill switch on, stops order placement: whatever events
  follow, the matching engine tracks exactly the orders it tracked before with the terms they had, and
  hands out no order id, and the order repository, when one is attached, holds exactly the orders it held
  before with the terms they had. Orders that already rest may still be filled.
\<close>

theorem runtime_halts_trading:
  assumes "first_start cfg" "\<forall>event \<in> set (events @ later). quotes_finite event"
    and "runtime_run strategy_on_event events (simulation_runtime_new clock risk cfg controls metrics) = Some rt"
    and "rt' = rt\<lparr>rt_controls := map_option pause_trading (rt_controls rt)\<rparr>"
    and "controls \<noteq> None \<or> rk_kill_switch_enabled risk"
  shows "\<exists>rt''. runtime_run strategy_on_event later rt' = Some rt'' \<and>
    (\<forall>i. map_option order_static (engine_get_order i (rt_execution_engine rt'')) =
       map_option order_static (engine_get_order i (rt_execution_engine rt))) \<and>
    mx_next_order_id (rt_execution_engine rt'') = mx_next_order_id (rt_execution_engine rt) \<and>
    (case rt_order_repository rt of None \<Rightarrow> rt_order_repository rt'' = None
     | Some s \<Rightarrow> \<exists>s''. rt_order_repository rt'' = Some s'' \<and>
         (\<forall>i. map_option order_static (get_order i s'') = map_option order_static (get_order i s)))"
proof -
  let ?new = "simulation_runtime_new clock risk cfg controls metrics"
  have r: "runtime_ready rt" "same_setup ?new rt"
    using runtime_run_ready [OF runtime_ready_new [OF assms(1)], of events clock risk controls metrics] assms(2,3) by auto
  have k: "rt_controls rt = controls" "rt_risk_config rt = risk"
    using r(2) by (simp_all add: same_setup_def simulation_runtime_new_def)
  have halted: "trading_paused rt' \<or> rk_kill_switch_enabled (rt_risk_config rt')"
    using assms(4,5) k by (auto simp: trading_paused_def pause_trading_def)
  have ready: "runtime_ready rt'" using r(1) assms(4)
    by (simp add: runtime_ready_def runtime_sound_def runtime_inv_def runtime_reports_def)
  have e: "rt_execution_engine rt' = rt_execution_engine rt" "rt_order_repository rt' = rt_order_repository rt"
    using assms(4) by simp_all
  have "\<forall>event \<in> set later. quotes_finite event" using assms(2) by simp
  from runtime_run_ready [OF ready this] halted obtain rt'' where
    run: "runtime_run strategy_on_event later rt' = Some rt''" and ready'': "runtime_ready rt''" and kept: "same_setup rt' rt''"
    and st: "statics (mx_orders (rt_execution_engine rt'')) = statics (mx_orders (rt_execution_engine rt'))"
      "mx_next_order_id (rt_execution_engine rt'') = mx_next_order_id (rt_execution_engine rt')" by blast
  have "case rt_order_repository rt of None \<Rightarrow> rt_order_repository rt'' = None
     | Some s \<Rightarrow> \<exists>s''. rt_order_repository rt'' = Some s'' \<and>
         (\<forall>i. map_option order_static (get_order i s'') = map_option order_static (get_order i s))"
  proof (cases "rt_order_repository rt")
    case None
    then show ?thesis using kept e by (simp add: same_setup_def)
  next
    case (Some s)
    then obtain s'' where s'': "rt_order_repository rt'' = Some s''" using kept e by (auto simp: same_setup_def)
    have "orders_synced s (rt_execution_engine rt)" "orders_synced s'' (rt_execution_engine rt'')"
      using r(1) ready'' Some s'' by (simp_all add: runtime_ready_def runtime_sound_def runtime_inv_def)
    then have "statics (\<lambda>i. get_order i s'') = statics (\<lambda>i. get_order i s)"
      using st(1) e(1) by (simp add: orders_synced_def)
    then show ?thesis using Some s'' by (simp add: statics_def fun_eq_iff)
  qed
  then show ?thesis using run st unfolding e by (auto simp: statics_def fun_eq_iff engine_get_order_def)
qed

theorem runtime_halts_trading_witness:
  "\<exists>rt rt''. runtime_run strategy_on_event sample_events (simulation_runtime_new (\<lambda>_. 0) sample_risk sample_runtime_config (Some False) None) = Some rt \<and>
    runtime_run strategy_on_event sample_events (rt\<lparr>rt_controls := map_option pause_trading (rt_controls rt)\<rparr>) = Some rt'' \<and>
    mx_next_order_id (rt_execution_engine rt'') = mx_next_order_id (rt_execution_engine rt)"
proof -
  obtain rt where r: "runtime_run strategy_on_event sample_events (simulation_runtime_new (\<lambda>_. 0) sample_risk sample_runtime_config (Some False) None) = Some rt"
    using runtime_run_ready [OF runtime_ready_new [OF sample_runtime_ok(1)] sample_runtime_ok(2)] by blast
  show ?thesis
    using r runtime_halts_trading [OF sample_runtime_ok(1) _ r refl, of sample_events] sample_runtime_ok(2) by auto
qed

end
