(* ===== verification/Recovery.thy ===== *)
theory Recovery
  imports Runtime Actions Cpp_Strings
begin

section \<open>Recovery at start-up\<close>

text \<open>
  \<open>include/app/recovery_service.hpp\<close> and \<open>src/app/recovery_service.cpp\<close>: collecting what the repositories
  hold, warming the caches, restoring a runtime and seeking the Kafka client. The repositories and caches
  are the in-memory ones; the map of checkpoints by partition is iterated and is an association list.
\<close>

record recovery_snapshot =
  rs_open_orders :: "order_record list"
  rs_positions :: "position list"
  rs_balances :: "balance_snapshot list"
  rs_kafka_checkpoints :: "kafka_checkpoint list"

record recovery_stores =
  rv_transaction_repository :: transaction_repository
  rv_order_repository :: order_repository
  rv_position_repository :: "(string, position) umap"
  rv_balance_repository :: "(string, balance_snapshot) umap"
  rv_market_cache :: "string \<rightharpoonup> market_snapshot"
  rv_transaction_cache :: transaction_cache

definition checkpoint_key :: "string \<Rightarrow> int \<Rightarrow> string" where
  "checkpoint_key topic part = topic @ ''#'' @ show_int part"

definition note_checkpoint :: "transaction_record \<Rightarrow> (string, kafka_checkpoint) umap \<Rightarrow> (string, kafka_checkpoint) umap" where
  "note_checkpoint r m =
     (let key = checkpoint_key (tr_kafka_topic r) (tr_kafka_partition r)
      in if (case map_of m key of None \<Rightarrow> True | Some c \<Rightarrow> kc_offset c < tr_kafka_offset r)
         then AList.update key \<lparr>kc_topic = tr_kafka_topic r, kc_partition = tr_kafka_partition r, kc_offset = tr_kafka_offset r\<rparr> m
         else m)"

fun scan_records :: "bool \<Rightarrow> transaction_record list \<Rightarrow> (string, kafka_checkpoint) umap \<Rightarrow> transaction_cache \<Rightarrow>
    (string, kafka_checkpoint) umap \<times> transaction_cache" where
  "scan_records has_explicit [] m cache = (m, cache)"
| "scan_records has_explicit (r # rs) m cache =
     (let cache' = set_status (tr_transaction_id r) (tr_status r) cache
      in if has_explicit \<or> tr_status r \<noteq> ''processed'' then scan_records has_explicit rs m cache'
         else scan_records has_explicit rs (note_checkpoint r m) cache')"

definition entry_snapshot :: "position \<Rightarrow> market_snapshot" where
  "entry_snapshot p = \<lparr>ms_instrument_id = instrument_id (po_instrument p), ms_best_bid = None, ms_best_ask = None,
     ms_last_trade_price = (if 0 < po_average_entry_price p then Some (po_average_entry_price p) else None),
     ms_last_trade_quantity = None, ms_last_process_timestamp = 0\<rparr>"

definition recover :: "market_snapshot list \<Rightarrow> recovery_stores \<Rightarrow> recovery_snapshot \<times> recovery_stores" where
  "recover exchange_snapshots v =
     (let positions = all_positions (rv_position_repository v);
          explicit = all_checkpoints (rv_transaction_repository v)
      in case scan_records (explicit \<noteq> []) (all_records (rv_transaction_repository v)) [] (rv_transaction_cache v) of (m, cache) \<Rightarrow>
         (\<lparr>rs_open_orders = all_open_orders (rv_order_repository v), rs_positions = positions,
           rs_balances = all_balances (rv_balance_repository v),
           rs_kafka_checkpoints = (if explicit \<noteq> [] then explicit else map snd m)\<rparr>,
          v\<lparr>rv_transaction_cache := cache,
            rv_market_cache := fold upsert_snapshot
              (if exchange_snapshots \<noteq> [] then exchange_snapshots else map entry_snapshot positions) (rv_market_cache v)\<rparr>))"

definition restore_market_of :: "(string \<rightharpoonup> market_snapshot) \<Rightarrow> position \<Rightarrow> 's simulation_runtime \<Rightarrow> 's simulation_runtime" where
  "restore_market_of cache p rt = (case get_snapshot (instrument_id (po_instrument p)) cache of None \<Rightarrow> rt
     | Some s \<Rightarrow> runtime_restore_market_snapshot s rt)"

definition restore_runtime :: "(string \<rightharpoonup> market_snapshot) \<Rightarrow> recovery_snapshot \<Rightarrow> 's simulation_runtime \<Rightarrow> 's simulation_runtime" where
  "restore_runtime cache snapshot rt =
     fold (restore_market_of cache) (rs_positions snapshot)
       (fold runtime_restore_open_order (rs_open_orders snapshot)
         (fold runtime_restore_balance (rs_balances snapshot)
           (fold runtime_restore_position (rs_positions snapshot) rt)))"

fun seek_all :: "(string \<Rightarrow> int \<Rightarrow> int64 \<Rightarrow> (unit, 'c) action) \<Rightarrow> kafka_checkpoint list \<Rightarrow> (unit, 'c) action" where
  "seek_all seek [] = ret ()"
| "seek_all seek (c # cs) = bindA (seek (kc_topic c) (kc_partition c) (kc_offset c + 1)) (\<lambda>_. seek_all seek cs)"

definition resume_kafka :: "(string \<Rightarrow> int \<Rightarrow> int64 \<Rightarrow> (unit, 'c) action) \<Rightarrow> recovery_snapshot \<Rightarrow> (unit, 'c) action" where
  "resume_kafka seek snapshot = seek_all seek (rs_kafka_checkpoints snapshot)"

subsection \<open>Checkpoints\<close>

lemma show_int_no_hash: "CHR ''#'' \<notin> set (show_int i)"
proof -
  have "\<not> is_digit (CHR ''#'')" by (simp add: is_digit_def)
  then show ?thesis by (auto simp: show_int_def dest: show_nat_digits)
qed

lemma show_int_inj: "show_int i = show_int j \<longleftrightarrow> i = j"
proof
  assume eq: "show_int i = show_int j"
  have "stoi_range (min i j) (max i j) (show_int i) = Inr (i, length (show_int i))"
    by (rule stoi_range_show_int) auto
  moreover have "stoi_range (min i j) (max i j) (show_int j) = Inr (j, length (show_int j))"
    by (rule stoi_range_show_int) auto
  ultimately show "i = j" unfolding eq by (metis sum.inject(2) prod.inject)
qed simp

lemma split_at_first: "x \<notin> set a \<Longrightarrow> x \<notin> set b \<Longrightarrow> a @ x # c = b @ x # d \<longleftrightarrow> a = b \<and> c = d"
proof (induction a arbitrary: b)
  case Nil
  then show ?case by (cases b) auto
next
  case (Cons y a)
  then show ?case by (cases b) auto
qed

text \<open>The key determines the topic and the partition even when a topic contains the separator.\<close>

lemma checkpoint_key_inj: "checkpoint_key t p = checkpoint_key t' p' \<longleftrightarrow> t = t' \<and> p = p'"
proof
  assume eq: "checkpoint_key t p = checkpoint_key t' p'"
  have "rev (show_int p) @ CHR ''#'' # rev t = rev (show_int p') @ CHR ''#'' # rev t'"
    using arg_cong [OF eq, of rev] by (simp add: checkpoint_key_def)
  then have "rev (show_int p) = rev (show_int p') \<and> rev t = rev t'"
    using split_at_first [of "CHR ''#''"] show_int_no_hash by simp
  then show "t = t' \<and> p = p'" by (simp add: show_int_inj)
qed simp

lemma scan_records_eq:
  "scan_records has_explicit rs m cache =
     (if has_explicit then m else fold note_checkpoint (filter (\<lambda>r. tr_status r = ''processed'') rs) m,
      fold (\<lambda>r. set_status (tr_transaction_id r) (tr_status r)) rs cache)"
  by (induction rs arbitrary: m cache) (auto simp: Let_def)

abbreviation own_key :: "kafka_checkpoint \<Rightarrow> string" where
  "own_key c \<equiv> checkpoint_key (kc_topic c) (kc_partition c)"

lemma note_checkpoint_inv: "keyed_inv own_key m \<Longrightarrow> keyed_inv own_key (note_checkpoint r m)"
  by (auto simp: note_checkpoint_def Let_def intro!: keyed_inv_update)

text \<open>The offset a map of checkpoints holds for a partition, and the processed offsets of a partition.\<close>

definition offset_of :: "string \<Rightarrow> int \<Rightarrow> (string, kafka_checkpoint) umap \<Rightarrow> int64 option" where
  "offset_of t p m = map_option kc_offset (map_of m (checkpoint_key t p))"

definition offsets_of :: "string \<Rightarrow> int \<Rightarrow> transaction_record list \<Rightarrow> int64 set" where
  "offsets_of t p rs = {tr_kafka_offset r | r. r \<in> set rs \<and> tr_kafka_topic r = t \<and> tr_kafka_partition r = p}"

lemma offset_of_note:
  "offset_of t p (note_checkpoint r m) = (if tr_kafka_topic r = t \<and> tr_kafka_partition r = p
     then Some (case offset_of t p m of None \<Rightarrow> tr_kafka_offset r | Some n \<Rightarrow> max n (tr_kafka_offset r)) else offset_of t p m)"
  by (auto simp: note_checkpoint_def offset_of_def Let_def update_conv' checkpoint_key_inj split: option.splits)

lemma offsets_of_snoc: "offsets_of t p (rs @ [r]) =
    (if tr_kafka_topic r = t \<and> tr_kafka_partition r = p then insert (tr_kafka_offset r) (offsets_of t p rs) else offsets_of t p rs)"
  by (auto simp: offsets_of_def)

lemma finite_offsets [simp]: "finite (offsets_of t p rs)"
proof -
  have "offsets_of t p rs \<subseteq> tr_kafka_offset ` set rs" by (auto simp: offsets_of_def)
  then show ?thesis using finite_surj by blast
qed

lemma offset_of_scan:
  "offset_of t p (fold note_checkpoint rs []) = (if offsets_of t p rs = {} then None else Some (Max (offsets_of t p rs)))"
proof (induction rs rule: rev_induct)
  case Nil
  then show ?case by (simp add: offset_of_def offsets_of_def)
next
  case (snoc r rs)
  then show ?case by (auto simp: offset_of_note offsets_of_snoc Max_insert max.commute)
qed

lemma scan_inv: "keyed_inv own_key m \<Longrightarrow> keyed_inv own_key (fold note_checkpoint rs m)"
  by (induction rs arbitrary: m) (auto intro: note_checkpoint_inv)

lemma scan_members:
  assumes "keyed_inv own_key m"
  shows "\<lparr>kc_topic = t, kc_partition = p, kc_offset = n\<rparr> \<in> set (map snd m) \<longleftrightarrow> offset_of t p m = Some n"
proof -
  have "c = \<lparr>kc_topic = t, kc_partition = p, kc_offset = kc_offset c\<rparr>" if "map_of m (checkpoint_key t p) = Some c" for c
    using keyed_inv_lookup [OF assms that] by (simp add: checkpoint_key_inj)
  then show ?thesis
    using keyed_inv_entry [OF assms, of "\<lparr>kc_topic = t, kc_partition = p, kc_offset = n\<rparr>"] by (force simp: offset_of_def)
qed

lemma seek_all_records:
  "seek_all (\<lambda>t p n s. (Some (), s @ [(t, p, n)])) cs s = (Some (), s @ map (\<lambda>c. (kc_topic c, kc_partition c, kc_offset c + 1)) cs)"
  by (induction cs arbitrary: s) (simp_all add: action_defs)

text \<open>
  Without explicit checkpoints, recovery derives exactly one checkpoint for every topic and partition
  with a processed transaction, namely its largest processed offset, also when topic names contain the
  separator of the map's keys; and resuming seeks the client to the offset after each checkpoint, in the
  order of the list.
\<close>

theorem recover_checkpoints:
  assumes "all_checkpoints (rv_transaction_repository v) = []"
  shows "let cs = rs_kafka_checkpoints (fst (recover snapshots v));
      processed = filter (\<lambda>r. tr_status r = ''processed'') (all_records (rv_transaction_repository v)) in
    distinct (map (\<lambda>c. (kc_topic c, kc_partition c)) cs) \<and>
    (\<forall>t p n. \<lparr>kc_topic = t, kc_partition = p, kc_offset = n\<rparr> \<in> set cs \<longleftrightarrow>
       offsets_of t p processed \<noteq> {} \<and> n = Max (offsets_of t p processed)) \<and>
    resume_kafka (\<lambda>t p n s. (Some (), s @ [(t, p, n)])) (fst (recover snapshots v)) [] =
      (Some (), map (\<lambda>c. (kc_topic c, kc_partition c, kc_offset c + 1)) cs)"
proof -
  let ?rs = "filter (\<lambda>r. tr_status r = ''processed'') (all_records (rv_transaction_repository v))"
  let ?m = "fold note_checkpoint ?rs []"
  have cs: "rs_kafka_checkpoints (fst (recover snapshots v)) = map snd ?m"
    using assms by (simp add: recover_def Let_def scan_records_eq)
  have inv: "keyed_inv own_key ?m" by (rule scan_inv) simp
  have "distinct (map own_key (map snd ?m))" using keyed_inv_keys [OF inv] .
  then have "distinct (map (\<lambda>(t, p). checkpoint_key t p) (map (\<lambda>c. (kc_topic c, kc_partition c)) (map snd ?m)))"
    by (simp add: comp_def)
  then have "distinct (map (\<lambda>c. (kc_topic c, kc_partition c)) (map snd ?m))" by (simp only: distinct_map)
  then show ?thesis
    using scan_members [OF inv] offset_of_scan [of _ _ ?rs] by (auto simp: cs Let_def resume_kafka_def seek_all_records)
qed

definition sample_record :: "string \<Rightarrow> string \<Rightarrow> int64 \<Rightarrow> transaction_record" where
  "sample_record i status n = \<lparr>tr_transaction_id = i, tr_status = status, tr_kafka_topic = ''tx'', tr_kafka_partition = 0, tr_kafka_offset = n\<rparr>"

definition sample_stores :: recovery_stores where
  "sample_stores = \<lparr>rv_transaction_repository = \<lparr>tx_records = [sample_record ''a'' ''processed'' 4, sample_record ''b'' ''processed'' 7,
     sample_record ''c'' ''received'' 8], tx_checkpoints = []\<rparr>, rv_order_repository = [], rv_position_repository = [],
     rv_balance_repository = [], rv_market_cache = Map.empty, rv_transaction_cache = []\<rparr>"

theorem recover_checkpoints_witness:
  "\<lparr>kc_topic = ''tx'', kc_partition = 0, kc_offset = 7\<rparr> \<in> set (rs_kafka_checkpoints (fst (recover [] sample_stores)))"
proof -
  have "offsets_of ''tx'' 0 (filter (\<lambda>r. tr_status r = ''processed'') (all_records (rv_transaction_repository sample_stores))) = {4, 7}"
    by (force simp: offsets_of_def sample_stores_def sample_record_def all_records_def)
  then show ?thesis
    using recover_checkpoints [of sample_stores "[]"] by (simp add: Let_def sample_stores_def all_checkpoints_def)
qed

subsection \<open>Restoring the portfolio\<close>

lemma restore_positions_fold:
  "rt_portfolio_service (fold runtime_restore_position ps rt) = fold restore_position ps (rt_portfolio_service rt)"
  by (induction ps arbitrary: rt) (simp_all add: runtime_restore_position_def)

lemma restore_balances_fold:
  "rt_portfolio_service (fold runtime_restore_balance bs rt) = fold restore_balance bs (rt_portfolio_service rt)"
  by (induction bs arbitrary: rt) (simp_all add: runtime_restore_balance_def)

lemma restore_orders_fold:
  "rt_portfolio_service (fold runtime_restore_open_order rs rt) = rt_portfolio_service rt"
  by (induction rs arbitrary: rt) (simp_all add: runtime_restore_open_order_def)

lemma restore_market_portfolio:
  "map_option unmarked (portfolio_get_position iid (rt_portfolio_service (fold (restore_market_of cache) ps rt))) =
     map_option unmarked (portfolio_get_position iid (rt_portfolio_service rt))"
  "pf_balances (rt_portfolio_service (fold (restore_market_of cache) ps rt)) = pf_balances (rt_portfolio_service rt)"
  by (induction ps arbitrary: rt)
    (simp_all add: restore_market_of_def runtime_restore_market_snapshot_def set_mark_price_effect Let_def split: option.splits)

lemma fold_restore_balance_positions: "pf_positions (fold restore_balance bs p) = pf_positions p"
  by (induction bs arbitrary: p) (simp_all add: restore_balance_def)

lemma fold_restore_position_balances: "pf_balances (fold restore_position ps p) = pf_balances p"
  by (induction ps arbitrary: p) (simp_all add: restore_position_def)

text \<open>Without the marks: the positions and balances are those of the snapshot.\<close>

lemma restored_before_marks:
  assumes "keyed_inv (\<lambda>p. instrument_id (po_instrument p)) ps" "keyed_inv ba_asset bs"
    and "rs_positions snapshot = all_positions ps" "rs_balances snapshot = all_balances bs"
    and "rt_portfolio_service rt = portfolio_service_new"
  obtains rt1 where "restore_runtime cache snapshot rt = fold (restore_market_of cache) (all_positions ps) rt1"
    "\<And>iid. portfolio_get_position iid (rt_portfolio_service rt1) = get_position iid ps"
    "\<And>a. map_of (pf_balances (rt_portfolio_service rt1)) a = get_balance a bs"
proof -
  let ?p = "fold restore_position (all_positions ps) portfolio_service_new"
  have inv: "portfolio_inv portfolio_service_new" by (simp add: portfolio_inv_def portfolio_service_new_def)
  have p: "portfolio_get_position iid ?p = get_position iid ps" for iid
    using portfolio_positions.lookup_saves [OF inv in_memory_positions.entries_distinct [OF assms(1)], of iid] find_keyed [OF assms(1), of iid]
    by (auto simp: all_positions_def get_position_def portfolio_get_position_def portfolio_service_new_def split: option.splits)
  have b: "map_of (pf_balances (fold restore_balance (all_balances bs) ?p)) a = get_balance a bs" for a
    using portfolio_balances.lookup_saves [OF portfolio_positions.inv_saves [OF inv] in_memory_balances.entries_distinct [OF assms(2)], of "all_positions ps" a]
      find_keyed [OF assms(2), of a]
    by (auto simp: all_balances_def get_balance_def fold_restore_position_balances portfolio_service_new_def split: option.splits)
  let ?rt1 = "fold runtime_restore_open_order (rs_open_orders snapshot) (fold runtime_restore_balance (rs_balances snapshot)
      (fold runtime_restore_position (rs_positions snapshot) rt))"
  have pf: "rt_portfolio_service ?rt1 = fold restore_balance (all_balances bs) ?p"
    using assms(3-5) by (simp add: restore_orders_fold restore_balances_fold restore_positions_fold)
  have "portfolio_get_position iid (fold restore_balance (all_balances bs) ?p) = get_position iid ps" for iid
    using p by (simp add: portfolio_get_position_def fold_restore_balance_positions)
  then show thesis
    using b by (intro that [of ?rt1]) (simp_all only: pf, simp add: restore_runtime_def assms(3))
qed

lemma restore_runtime_portfolio:
  assumes "keyed_inv (\<lambda>p. instrument_id (po_instrument p)) ps" "keyed_inv ba_asset bs"
    and "rs_positions snapshot = all_positions ps" "rs_balances snapshot = all_balances bs"
    and "rt_portfolio_service rt = portfolio_service_new"
  shows "map_option unmarked (portfolio_get_position iid (rt_portfolio_service (restore_runtime cache snapshot rt))) =
      map_option unmarked (get_position iid ps)"
    "map_of (pf_balances (rt_portfolio_service (restore_runtime cache snapshot rt))) a = get_balance a bs"
proof -
  obtain rt1 where rt1: "restore_runtime cache snapshot rt = fold (restore_market_of cache) (all_positions ps) rt1"
    "\<And>iid. portfolio_get_position iid (rt_portfolio_service rt1) = get_position iid ps"
    "\<And>a. map_of (pf_balances (rt_portfolio_service rt1)) a = get_balance a bs"
    using restored_before_marks [OF assms] by blast
  then show "map_option unmarked (portfolio_get_position iid (rt_portfolio_service (restore_runtime cache snapshot rt))) =
      map_option unmarked (get_position iid ps)"
    "map_of (pf_balances (rt_portfolio_service (restore_runtime cache snapshot rt))) a = get_balance a bs"
    by (simp_all add: restore_market_portfolio)
qed

subsection \<open>Restoring the open orders\<close>

definition restorable :: "order_record \<Rightarrow> bool" where
  "restorable r \<longleftrightarrow> or_order_id r \<noteq> '''' \<and> or_client_order_id r \<noteq> '''' \<and> or_order_type r = Limit \<and>
     (\<exists>p. or_price r = Some p \<and> \<not> p \<le> 0) \<and> \<not> or_quantity r \<le> 0 \<and> \<not> or_filled_quantity r < 0 \<and>
     \<not> or_quantity r - kQuantityTolerance \<le> or_filled_quantity r"

definition reopened :: "order_record \<Rightarrow> order_record" where
  "reopened r = r\<lparr>or_status := if 0 < or_filled_quantity r then Partially_filled else Acknowledged\<rparr>"

text \<open>Books sit under their own instrument and index tracked orders only.\<close>

definition books_tracked :: "matching_engine \<Rightarrow> bool" where
  "books_tracked e \<longleftrightarrow> (\<forall>iid b. mx_books e iid = Some b \<longrightarrow> instrument_id (ob_instrument b) = iid \<and>
     (\<forall>i. ob_order_index b i \<noteq> None \<longrightarrow> mx_orders e i \<noteq> None))"

lemma add_order_index:
  assumes "add_order b rq i c f = (ok, b')"
  shows "ok = is_request_compatible b rq i c f \<and> ob_instrument b' = ob_instrument b \<and>
    (\<forall>j. ob_order_index b' j \<noteq> None \<longrightarrow> ob_order_index b j \<noteq> None \<or> ok \<and> j = i)"
  using assms by (auto simp: add_order_def Let_def split: if_splits)

lemma restore_one:
  assumes e: "books_tracked e" and new: "mx_orders e (or_order_id r) = None"
    and e': "e' = restore_open_order (or_order_id r) (or_client_order_id r) (restored_request r) (or_filled_quantity r) e"
  shows "books_tracked e' \<and> mx_orders e' = (if restorable r then (mx_orders e)(or_order_id r \<mapsto> reopened r) else mx_orders e)"
proof -
  let ?b = "book_for (rq_instrument (restored_request r)) (mx_books e)"
  obtain ok b' where a: "add_order ?b (restored_request r) (or_order_id r) (or_client_order_id r) (or_filled_quantity r) = (ok, b')" by force
  note idx = add_order_index [OF a]
  have iid: "instrument_id (ob_instrument ?b) = or_instrument_id r"
    using e by (auto simp: books_tracked_def book_for_def restored_request_def order_book_new_def split: option.splits)
  have tracked: "mx_orders e j \<noteq> None" if "ob_order_index ?b j \<noteq> None" for j
    using that e by (auto simp: books_tracked_def book_for_def order_book_new_def split: option.splits)
  then have free: "ob_order_index ?b (or_order_id r) = None" using new by metis
  have record_eq: "(order_record_of (restored_request r) (or_order_id r) (or_client_order_id r))
      \<lparr>or_status := if 0 < or_filled_quantity r then Partially_filled else Acknowledged, or_filled_quantity := or_filled_quantity r\<rparr> = reopened r"
    by (simp add: order_record_of_def restored_request_def reopened_def)
  show ?thesis
  proof (cases "(case or_price r of None \<Rightarrow> True | Some p \<Rightarrow> p \<le> 0) \<or> or_quantity r \<le> 0 \<or> or_filled_quantity r < 0 \<or>
      or_quantity r - kQuantityTolerance \<le> or_filled_quantity r")
    case True
    then have "e' = e" "\<not> restorable r" using e' by (auto simp: restore_open_order_def restored_request_def restorable_def)
    then show ?thesis using e by simp
  next
    case False
    have ok: "ok = restorable r"
      using idx free iid False by (auto simp: is_request_compatible_def restored_request_def restorable_def split: option.splits)
    have eq: "e' = e\<lparr>mx_books := (mx_books e)(or_instrument_id r \<mapsto> b'),
        mx_orders := if ok then (mx_orders e)(or_order_id r \<mapsto> reopened r) else mx_orders e\<rparr>"
      using False e' a new record_eq by (auto simp: restore_open_order_def restored_request_def Let_def fun_upd_idem)
    show ?thesis using e iid idx tracked unfolding eq by (auto simp: books_tracked_def ok)
  qed
qed

lemma restore_open_orders:
  assumes "books_tracked (rt_execution_engine rt)" "distinct (map or_order_id rs)"
    "\<forall>r \<in> set rs. mx_orders (rt_execution_engine rt) (or_order_id r) = None"
  shows "mx_orders (rt_execution_engine (fold runtime_restore_open_order rs rt)) i = Some x \<longleftrightarrow>
    mx_orders (rt_execution_engine rt) i = Some x \<or> (\<exists>r \<in> set rs. or_order_id r = i \<and> restorable r \<and> x = reopened r)"
  using assms
proof (induction rs arbitrary: rt)
  case (Cons r rs)
  let ?rt = "runtime_restore_open_order r rt"
  have one: "books_tracked (rt_execution_engine ?rt) \<and> mx_orders (rt_execution_engine ?rt) =
      (if restorable r then (mx_orders (rt_execution_engine rt))(or_order_id r \<mapsto> reopened r) else mx_orders (rt_execution_engine rt))"
    using restore_one [OF Cons.prems(1) _ refl, of r] Cons.prems(3) by (simp add: runtime_restore_open_order_def)
  have "\<forall>r' \<in> set rs. mx_orders (rt_execution_engine ?rt) (or_order_id r') = None"
    using one Cons.prems(2,3) by (auto simp: image_iff)
  then show ?case using Cons.IH [of ?rt] one Cons.prems(2,3) by (auto split: if_splits)
qed simp

lemma restore_keeps_engine:
  "rt_execution_engine (fold runtime_restore_position ps rt) = rt_execution_engine rt"
  "rt_execution_engine (fold runtime_restore_balance bs rt') = rt_execution_engine rt'"
  "rt_execution_engine (fold (restore_market_of cache) ps rt'') = rt_execution_engine rt''"
proof -
  have m: "rt_execution_engine (restore_market_of cache p rt) = rt_execution_engine rt" for p and rt :: "'c simulation_runtime"
    by (simp add: restore_market_of_def runtime_restore_market_snapshot_def Let_def split: option.splits)
  show "rt_execution_engine (fold runtime_restore_position ps rt) = rt_execution_engine rt"
    by (induction ps arbitrary: rt) (simp_all add: runtime_restore_position_def)
  show "rt_execution_engine (fold runtime_restore_balance bs rt') = rt_execution_engine rt'"
    by (induction bs arbitrary: rt') (simp_all add: runtime_restore_balance_def)
  show "rt_execution_engine (fold (restore_market_of cache) ps rt'') = rt_execution_engine rt''"
    by (induction ps arbitrary: rt'') (simp_all add: m)
qed

text \<open>What a restored runtime holds, for repositories in agreement with an engine and a portfolio.\<close>

lemma restore_synced:
  assumes sync: "orders_synced (rv_order_repository v) engine" "positions_synced (rv_position_repository v) portfolio"
      "balances_synced (rv_balance_repository v) portfolio"
    and "recover snapshots v = (snapshot, v')"
  shows "let rt' = restore_runtime (rv_market_cache v') snapshot (simulation_runtime_new clock' risk' cfg' controls' metrics') in
    (\<forall>iid. map_option unmarked (portfolio_get_position iid (rt_portfolio_service rt')) =
       map_option unmarked (portfolio_get_position iid portfolio)) \<and>
    (\<forall>a. portfolio_get_balance a (rt_portfolio_service rt') = portfolio_get_balance a portfolio) \<and>
    (\<forall>i x. engine_get_order i (rt_execution_engine rt') = Some x \<longleftrightarrow>
       (\<exists>r. get_order i (rv_order_repository v) = Some r \<and> is_open_status (or_status r) \<and> restorable r \<and> x = reopened r))"
proof -
  let ?new = "simulation_runtime_new clock' risk' cfg' controls' metrics'"
  let ?rt' = "restore_runtime (rv_market_cache v') snapshot ?new"
  have keyed: "keyed_inv or_order_id (rv_order_repository v)" "keyed_inv (\<lambda>p. instrument_id (po_instrument p)) (rv_position_repository v)"
    "keyed_inv ba_asset (rv_balance_repository v)"
    using sync by (simp_all add: orders_synced_def positions_synced_def balances_synced_def)
  have snap: "rs_positions snapshot = all_positions (rv_position_repository v)" "rs_balances snapshot = all_balances (rv_balance_repository v)"
    "rs_open_orders snapshot = all_open_orders (rv_order_repository v)"
    using assms(4) by (auto simp: recover_def Let_def split: prod.splits)
  have new: "rt_portfolio_service ?new = portfolio_service_new" "rt_execution_engine ?new = matching_engine_new"
    by (simp_all add: simulation_runtime_new_def)
  note pf = restore_runtime_portfolio [OF keyed(2,3) snap(1,2) new(1), where cache = "rv_market_cache v'"]
  have bal: "portfolio_get_balance a (rt_portfolio_service ?rt') = portfolio_get_balance a portfolio" for a
    using pf(2) [of a] sync(3) by (simp add: portfolio_get_balance_def balances_synced_def)
  have "mx_orders (rt_execution_engine ?rt') i = Some x \<longleftrightarrow>
      (\<exists>r \<in> set (all_open_orders (rv_order_repository v)). or_order_id r = i \<and> restorable r \<and> x = reopened r)" for i x
    using restore_open_orders [of "fold runtime_restore_balance (rs_balances snapshot) (fold runtime_restore_position (rs_positions snapshot) ?new)"
        "all_open_orders (rv_order_repository v)" i x] in_memory_orders.open_distinct [OF keyed(1)]
    by (simp add: restore_runtime_def restore_keeps_engine new snap books_tracked_def matching_engine_new_def)
  moreover have "(\<exists>r \<in> set (all_open_orders (rv_order_repository v)). or_order_id r = i \<and> restorable r \<and> x = reopened r) \<longleftrightarrow>
      (\<exists>r. get_order i (rv_order_repository v) = Some r \<and> is_open_status (or_status r) \<and> restorable r \<and> x = reopened r)" for i x
    using in_memory_orders.open_iff [OF keyed(1)] in_memory_orders.lookup_id [OF keyed(1)] by metis
  ultimately have "engine_get_order i (rt_execution_engine ?rt') = Some x \<longleftrightarrow>
      (\<exists>r. get_order i (rv_order_repository v) = Some r \<and> is_open_status (or_status r) \<and> restorable r \<and> x = reopened r)" for i x
    by (simp add: engine_get_order_def)
  then show ?thesis using pf(1) bal sync(2) by (simp add: Let_def positions_synced_def)
qed

text \<open>
  C8. Recovery round trip: after any run from a first start with the repositories attached, recovering
  from these repositories and restoring into a new runtime rebuilds the portfolio the run ended with
  (balances exactly, positions up to the unrealized profit), and a matching engine that tracks exactly the
  orders the order repository holds as open and that can rest, with their terms and filled quantities.
\<close>

theorem recovery_roundtrip:
  assumes "first_start cfg" "\<forall>event \<in> set events. quotes_finite event"
    and "runtime_run strategy_on_event events (simulation_runtime_new clock risk cfg controls metrics) = Some rt"
    and "rt_order_repository rt = Some (rv_order_repository v)" "rt_position_repository rt = Some (rv_position_repository v)"
      "rt_balance_repository rt = Some (rv_balance_repository v)"
    and "recover snapshots v = (snapshot, v')"
  shows "let rt' = restore_runtime (rv_market_cache v') snapshot (simulation_runtime_new clock' risk' cfg' controls' metrics') in
    (\<forall>iid. map_option unmarked (portfolio_get_position iid (rt_portfolio_service rt')) =
       map_option unmarked (portfolio_get_position iid (rt_portfolio_service rt))) \<and>
    (\<forall>a. portfolio_get_balance a (rt_portfolio_service rt') = portfolio_get_balance a (rt_portfolio_service rt)) \<and>
    (\<forall>i x. engine_get_order i (rt_execution_engine rt') = Some x \<longleftrightarrow>
       (\<exists>r. get_order i (rv_order_repository v) = Some r \<and> is_open_status (or_status r) \<and> restorable r \<and> x = reopened r))"
proof -
  have "runtime_ready rt"
    using runtime_run_ready [OF runtime_ready_new [OF assms(1)], of events clock risk controls metrics] assms(2,3) by auto
  then show ?thesis
    using assms(4-6) by (intro restore_synced [where engine = "rt_execution_engine rt", OF _ _ _ assms(7)]) (simp_all add: runtime_ready_def runtime_sound_def runtime_inv_def)
qed

theorem recovery_roundtrip_witness:
  "\<exists>rt v snapshot v'. runtime_run strategy_on_event sample_events (simulation_runtime_new (\<lambda>_. 0) sample_risk sample_runtime_config None None) = Some rt \<and>
     recover [] v = (snapshot, v') \<and>
     portfolio_get_balance ''BTC'' (rt_portfolio_service (restore_runtime (rv_market_cache v') snapshot
       (simulation_runtime_new (\<lambda>_. 0) sample_risk sample_runtime_config None None))) =
     portfolio_get_balance ''BTC'' (rt_portfolio_service rt)"
proof -
  let ?new = "simulation_runtime_new (\<lambda>_. 0) sample_risk sample_runtime_config None None"
  obtain rt where r: "runtime_run strategy_on_event sample_events ?new = Some rt" "same_setup ?new rt"
    using runtime_run_ready [OF runtime_ready_new [OF sample_runtime_ok(1)] sample_runtime_ok(2)] by blast
  then obtain os ps bs where s: "rt_order_repository rt = Some os" "rt_position_repository rt = Some ps" "rt_balance_repository rt = Some bs"
    by (auto simp: same_setup_def simulation_runtime_new_def sample_runtime_config_def)
  let ?v = "sample_stores\<lparr>rv_order_repository := os, rv_position_repository := ps, rv_balance_repository := bs\<rparr>"
  obtain snapshot v' where c: "recover [] ?v = (snapshot, v')" by force
  have "portfolio_get_balance ''BTC'' (rt_portfolio_service (restore_runtime (rv_market_cache v') snapshot ?new)) =
      portfolio_get_balance ''BTC'' (rt_portfolio_service rt)"
    using recovery_roundtrip [OF sample_runtime_ok r(1) _ _ _ c, of "\<lambda>_. 0" sample_risk sample_runtime_config None None] s
    by (simp add: Let_def)
  then show ?thesis using r(1) c by blast
qed

end
