(* ===== verification/Record_Files.thy ===== *)
theory Record_Files
  imports Tsv Storage
begin

section \<open>Repositories kept in tab-separated files\<close>

text \<open>
  What the file-backed repositories of \<open>src/infrastructure/postgres_repositories.cpp\<close> share: every
  mutation rewrites the whole file from memory, and the constructor loads it. A repository is its memory
  and the contents of its file, which does not exist before the first flush. Loading skips lines with the
  wrong number of fields; a number that does not parse throws out of the constructor (\<open>Throws\<close>). The
  loader casts integers to enums unchecked: a value that names no enumerator has no counterpart in the
  datatypes of the model, which ends there with \<open>Outside_enum\<close>.
\<close>

datatype load_failure = Throws std_exception | Outside_enum int

definition throwing :: "std_exception + 'a \<Rightarrow> load_failure + 'a" where
  "throwing r = map_sum Throws id r"

record 'm file_backed =
  fb_memory :: 'm
  fb_file :: "string option"

definition file_text :: "('v \<Rightarrow> string list) \<Rightarrow> 'v list \<Rightarrow> string" where
  "file_text encode vs = concat (map (\<lambda>l. l @ [newline]) (map (\<lambda>v. join_tsv (encode v)) vs))"

fun load_lines :: "nat \<Rightarrow> (string list \<Rightarrow> load_failure + 'v) \<Rightarrow> ('v \<Rightarrow> 'm \<Rightarrow> 'm) \<Rightarrow> string list \<Rightarrow> 'm \<Rightarrow> load_failure + 'm" where
  "load_lines n decode store [] m = Inr m"
| "load_lines n decode store (line # lines) m =
     (let fs = split_tsv line
      in if length fs \<noteq> n then load_lines n decode store lines m
         else bindE (decode fs) (\<lambda>v. load_lines n decode store lines (store v m)))"

definition load_file :: "nat \<Rightarrow> (string list \<Rightarrow> load_failure + 'v) \<Rightarrow> ('v \<Rightarrow> 'm \<Rightarrow> 'm) \<Rightarrow> 'm \<Rightarrow> string option \<Rightarrow> load_failure + 'm" where
  "load_file n decode store m0 file =
     (case file of None \<Rightarrow> Inr m0 | Some text \<Rightarrow> load_lines n decode store (getline_split newline text) m0)"

text \<open>Keyed repositories write their entries in the order of the sorted keys.\<close>

definition sorted_entries :: "(string, 'v) umap \<Rightarrow> 'v list" where
  "sorted_entries m = map (\<lambda>k. the (map_of m k)) (sort (map fst m))"

definition flush_keyed :: "('v \<Rightarrow> string list) \<Rightarrow> (string, 'v) umap file_backed \<Rightarrow> (string, 'v) umap file_backed" where
  "flush_keyed encode s = s\<lparr>fb_file := Some (file_text encode (sorted_entries (fb_memory s)))\<rparr>"

definition flush_list :: "('v \<Rightarrow> string list) \<Rightarrow> 'v list file_backed \<Rightarrow> 'v list file_backed" where
  "flush_list encode s = s\<lparr>fb_file := Some (file_text encode (fb_memory s))\<rparr>"

text \<open>The file mirrors the memory, from the constructor on an absent file and through every flush.\<close>

definition mirrors :: "('v \<Rightarrow> string list) \<Rightarrow> (string, 'v) umap file_backed \<Rightarrow> bool" where
  "mirrors encode s \<longleftrightarrow> fb_file s = Some (file_text encode (sorted_entries (fb_memory s))) \<or> fb_file s = None \<and> fb_memory s = []"

lemma mirrors_flush [simp]: "mirrors encode (flush_keyed encode s)"
  by (simp add: mirrors_def flush_keyed_def)

lemma memory_flush [simp]: "fb_memory (flush_keyed encode s) = fb_memory s" "fb_memory (flush_list encode' l) = fb_memory l"
  by (simp_all add: flush_keyed_def flush_list_def)

subsection \<open>Enums in files\<close>

fun side_code :: "order_side \<Rightarrow> int" where
  "side_code Buy = 0"
| "side_code Sell = 1"

fun type_code :: "order_type \<Rightarrow> int" where
  "type_code Market = 0"
| "type_code Limit = 1"

fun status_code :: "order_status \<Rightarrow> int" where
  "status_code Created = 0"
| "status_code Pending_submit = 1"
| "status_code Acknowledged = 2"
| "status_code Partially_filled = 3"
| "status_code Filled = 4"
| "status_code Pending_cancel = 5"
| "status_code Canceled = 6"
| "status_code Rejected = 7"
| "status_code Expired = 8"

definition cast_enum :: "('e \<Rightarrow> int) \<Rightarrow> 'e list \<Rightarrow> int \<Rightarrow> load_failure + 'e" where
  "cast_enum code enumerators i =
     (case find (\<lambda>e. code e = i) enumerators of None \<Rightarrow> Inl (Outside_enum i) | Some e \<Rightarrow> Inr e)"

definition read_enum :: "('e \<Rightarrow> int) \<Rightarrow> 'e list \<Rightarrow> string \<Rightarrow> load_failure + 'e" where
  "read_enum code enumerators s = bindE (throwing (stoi s)) (cast_enum code enumerators)"

definition read_side :: "string \<Rightarrow> load_failure + order_side" where
  "read_side = read_enum side_code [Buy, Sell]"

definition read_type :: "string \<Rightarrow> load_failure + order_type" where
  "read_type = read_enum type_code [Market, Limit]"

definition read_status :: "string \<Rightarrow> load_failure + order_status" where
  "read_status = read_enum status_code
     [Created, Pending_submit, Acknowledged, Partially_filled, Filled, Pending_cancel, Canceled, Rejected, Expired]"

lemma throwing_Inr [simp]: "throwing (Inr x) = Inr x"
  by (simp add: throwing_def)

lemma read_enum_codes [simp]:
  "read_side (show_int (side_code sd)) = Inr sd" "read_type (show_int (type_code ty)) = Inr ty"
  "read_status (show_int (status_code st)) = Inr st"
  by (cases sd, simp_all add: read_side_def read_enum_def cast_enum_def stoi_show_int)
    (cases ty, simp_all add: read_type_def read_enum_def cast_enum_def stoi_show_int,
     cases st, simp_all add: read_status_def read_enum_def cast_enum_def stoi_show_int)

subsection \<open>Records and lines\<close>

text \<open>
  A record format: the fields of a record, and how the loader reads a line of that many fields.
  \<open>safe\<close> describes the records the format keeps.
\<close>

locale record_format =
  fixes arity :: nat and encode :: "'v \<Rightarrow> string list" and decode :: "string list \<Rightarrow> load_failure + 'v"
    and safe :: "'v \<Rightarrow> bool"
  assumes fields_count: "safe v \<Longrightarrow> length (encode v) = arity"
    and some_field: "0 < arity"
    and fields_text: "safe v \<Longrightarrow> f \<in> set (encode v) \<Longrightarrow> text_safe f"
    and last_field: "safe v \<Longrightarrow> last (encode v) \<noteq> []"
    and decode_encode: "safe v \<Longrightarrow> decode (encode v) = Inr v"
begin

lemma split_line: "safe v \<Longrightarrow> split_tsv (join_tsv (encode v)) = encode v"
  using fields_count [of v] some_field fields_text [of v] last_field [of v] by (intro split_join_tsv) auto

lemma text_lines: "\<forall>v \<in> set vs. safe v \<Longrightarrow> getline_split newline (file_text encode vs) = map (\<lambda>v. join_tsv (encode v)) vs"
  unfolding file_text_def using fields_text join_tsv_no_newline by (intro file_lines) auto

lemma load_lines_encode:
  "\<forall>v \<in> set vs. safe v \<Longrightarrow> load_lines arity decode store (map (\<lambda>v. join_tsv (encode v)) vs) m = Inr (fold store vs m)"
  by (induction vs arbitrary: m) (simp_all add: split_line fields_count decode_encode Let_def)

text \<open>Loading the file of any list of safe records stores these records in file order.\<close>

lemma load_text:
  "\<forall>v \<in> set vs. safe v \<Longrightarrow> load_file arity decode store m (Some (file_text encode vs)) = Inr (fold store vs m)"
  by (simp add: load_file_def text_lines load_lines_encode)

lemma reload_list:
  "\<forall>v \<in> set vs. safe v \<Longrightarrow>
     load_file arity decode (\<lambda>v m. m @ [v]) [] (fb_file (flush_list encode \<lparr>fb_memory = vs, fb_file = file\<rparr>)) = Inr vs"
proof -
  have "fold (\<lambda>v m. m @ [v]) vs m = m @ vs" for vs m :: "'v list" by (induction vs arbitrary: m) simp_all
  then show "\<forall>v \<in> set vs. safe v \<Longrightarrow> ?thesis" by (simp add: flush_list_def load_text)
qed

end

locale keyed_format = record_format arity encode decode safe
  for arity and encode :: "'v \<Rightarrow> string list" and decode and safe +
  fixes key :: "'v \<Rightarrow> string"
begin

abbreviation store :: "'v \<Rightarrow> (string, 'v) umap \<Rightarrow> (string, 'v) umap" where
  "store v m \<equiv> AList.update (key v) v m"

lemma stored_entries:
  "keyed_inv key m \<Longrightarrow> keyed_inv key (fold store vs m)"
  by (induction vs arbitrary: m) (simp_all add: keyed_inv_update)

lemma stored_lookup:
  "distinct (map key vs) \<Longrightarrow> map_of (fold store vs m) k = (if k \<in> key ` set vs then find (\<lambda>v. key v = k) vs else map_of m k)"
proof (induction vs arbitrary: m)
  case (Cons v vs)
  then show ?case by (auto simp: update_conv)
qed simp

lemma sorted_entries_keys:
  assumes "keyed_inv key m"
  shows "set (sorted_entries m) = snd ` set m" "map key (sorted_entries m) = sort (map fst m)"
proof -
  have k: "\<exists>v. map_of m k = Some v \<and> key v = k" if k: "k \<in> set (map fst m)" for k
  proof -
    obtain v where "map_of m k = Some v" using k by (cases "map_of m k") (auto simp: map_of_eq_None_iff)
    then show ?thesis using keyed_inv_lookup [OF assms] by auto
  qed
  then have "map (\<lambda>k. key (the (map_of m k))) (sort (map fst m)) = map id (sort (map fst m))"
    by (intro map_cong [OF refl]) (fastforce dest: k)
  then show "map key (sorted_entries m) = sort (map fst m)" by (simp add: sorted_entries_def comp_def)
  show "set (sorted_entries m) = snd ` set m"
  proof (intro set_eqI iffI)
    fix v assume "v \<in> set (sorted_entries m)"
    then obtain i where i: "i \<in> set (map fst m)" "v = the (map_of m i)" by (auto simp: sorted_entries_def)
    then obtain w where "map_of m i = Some w" using k by blast
    then show "v \<in> snd ` set m" using i(2) map_of_SomeD [of m i w] by (force simp: image_iff)
  next
    fix v assume "v \<in> snd ` set m"
    moreover from this have "map_of m (key v) = Some v" using keyed_inv_entry [OF assms] by simp
    moreover from this have "key v \<in> set (map fst m)" by (force dest: map_of_SomeD)
    ultimately show "v \<in> set (sorted_entries m)" by (force simp: sorted_entries_def)
  qed
qed

text \<open>Reloading the file of a keyed repository gives a repository with the same entries.\<close>

lemma reload_keyed:
  assumes "mirrors encode s" "keyed_inv key (fb_memory s)" "\<forall>v \<in> snd ` set (fb_memory s). safe v"
  shows "\<exists>m'. load_file arity decode store [] (fb_file s) = Inr m' \<and> keyed_inv key m' \<and> map_of m' = map_of (fb_memory s)"
proof -
  define m where "m = fb_memory s"
  note inv = assms(2) [folded m_def]
  let ?vs = "sorted_entries m"
  note keys = sorted_entries_keys [OF inv]
  have d: "distinct (map key ?vs)" using inv by (simp add: keys(2) keyed_inv_def)
  have "map_of (fold store ?vs []) k = map_of m k" for k
  proof (cases "k \<in> key ` set ?vs")
    case True
    then obtain v where v: "v \<in> set ?vs" "key v = k" by auto
    then have "find (\<lambda>v. key v = k) ?vs = Some v"
      using d by (auto simp: find_Some_iff in_set_conv_nth distinct_conv_nth)
    moreover have "map_of m k = Some v" using v keys(1) keyed_inv_entry [OF inv, of v] by auto
    ultimately show ?thesis using True stored_lookup [OF d] by simp
  next
    case False
    then have "k \<notin> fst ` set m" using keys(2) by (metis list.set_map set_sort)
    then have "map_of m k = None" by (simp add: map_of_eq_None_iff)
    then show ?thesis using False stored_lookup [OF d] by simp
  qed
  then have "map_of (fold store ?vs []) = map_of m" by (rule ext)
  moreover have "\<forall>v \<in> set ?vs. safe v" using assms(3) keys(1) by (simp add: m_def)
  ultimately show ?thesis
    using assms(1) load_text [of ?vs store "[]"] stored_entries [of "[]" ?vs]
    by (auto simp: mirrors_def m_def load_file_def [of _ _ _ _ None])
qed

end

end
