(* ===== verification/Postgres_Files.thy ===== *)
theory Postgres_Files
  imports Record_Files
begin

section \<open>The file-backed repositories\<close>

text \<open>
  \<open>src/infrastructure/postgres_repositories.cpp\<close>, the \<open>Postgres*Repository\<close> classes: their record
  formats, loaders and operations. Each operation changes the memory the way the in-memory repository does
  (the bodies are the same code, the transaction repository apart, which keeps one record per id) and then
  flushes. Order, fill and position files are written with six significant digits, the intent, report and
  balance files with seventeen.
\<close>

subsection \<open>Transactions and checkpoints\<close>

definition transaction_fields :: "transaction_record \<Rightarrow> string list" where
  "transaction_fields r = [tr_transaction_id r, tr_status r, tr_kafka_topic r, show_int (tr_kafka_partition r), show_int (tr_kafka_offset r)]"

definition transaction_of_fields :: "string list \<Rightarrow> load_failure + transaction_record" where
  "transaction_of_fields f =
     bindE (throwing (stoi (f ! 3))) (\<lambda>p. bindE (throwing (stoll (f ! 4))) (\<lambda>n.
     Inr \<lparr>tr_transaction_id = f ! 0, tr_status = f ! 1, tr_kafka_topic = f ! 2, tr_kafka_partition = p, tr_kafka_offset = n\<rparr>))"

definition checkpoint_fields :: "kafka_checkpoint \<Rightarrow> string list" where
  "checkpoint_fields c = [kc_topic c, show_int (kc_partition c), show_int (kc_offset c)]"

definition checkpoint_of_fields :: "string list \<Rightarrow> load_failure + kafka_checkpoint" where
  "checkpoint_of_fields f =
     bindE (throwing (stoi (f ! 1))) (\<lambda>p. bindE (throwing (stoll (f ! 2))) (\<lambda>n.
     Inr \<lparr>kc_topic = f ! 0, kc_partition = p, kc_offset = n\<rparr>))"

definition own_checkpoint_key :: "kafka_checkpoint \<Rightarrow> string" where
  "own_checkpoint_key c = kc_topic c @ ''#'' @ show_int (kc_partition c)"

record postgres_transactions =
  pt_records :: "(string, transaction_record) umap file_backed"
  pt_checkpoints :: "(string, kafka_checkpoint) umap file_backed"

definition load_transactions :: "string option \<Rightarrow> load_failure + (string, transaction_record) umap" where
  "load_transactions = load_file 5 transaction_of_fields (\<lambda>r. AList.update (tr_transaction_id r) r) []"

definition load_checkpoints :: "string option \<Rightarrow> load_failure + (string, kafka_checkpoint) umap" where
  "load_checkpoints = load_file 3 checkpoint_of_fields (\<lambda>c. AList.update (own_checkpoint_key c) c) []"

definition postgres_transactions_new :: "string option \<Rightarrow> string option \<Rightarrow> load_failure + postgres_transactions" where
  "postgres_transactions_new file checkpoint_file =
     bindE (load_transactions file) (\<lambda>rs. bindE (load_checkpoints checkpoint_file) (\<lambda>cs.
     Inr \<lparr>pt_records = \<lparr>fb_memory = rs, fb_file = file\<rparr>, pt_checkpoints = \<lparr>fb_memory = cs, fb_file = checkpoint_file\<rparr>\<rparr>))"

definition flush_transactions :: "(string, transaction_record) umap \<Rightarrow> postgres_transactions \<Rightarrow> postgres_transactions" where
  "flush_transactions rs s = s\<lparr>pt_records := flush_keyed transaction_fields ((pt_records s)\<lparr>fb_memory := rs\<rparr>)\<rparr>"

definition flush_checkpoints :: "(string, kafka_checkpoint) umap \<Rightarrow> postgres_transactions \<Rightarrow> postgres_transactions" where
  "flush_checkpoints cs s = s\<lparr>pt_checkpoints := flush_keyed checkpoint_fields ((pt_checkpoints s)\<lparr>fb_memory := cs\<rparr>)\<rparr>"

definition pg_save_received :: "transaction_command \<Rightarrow> postgres_transactions \<Rightarrow> postgres_transactions" where
  "pg_save_received c s = flush_transactions
     (AList.update (tx_transaction_id c) \<lparr>tr_transaction_id = tx_transaction_id c, tr_status = ''received'',
        tr_kafka_topic = tx_kafka_topic c, tr_kafka_partition = tx_kafka_partition c, tr_kafka_offset = tx_kafka_offset c\<rparr>
        (fb_memory (pt_records s))) s"

definition pg_save_processed :: "string \<Rightarrow> string \<Rightarrow> postgres_transactions \<Rightarrow> postgres_transactions" where
  "pg_save_processed transaction_id status s =
     (let rs = fb_memory (pt_records s) in flush_transactions
        (case map_of rs transaction_id of
           Some r \<Rightarrow> AList.update transaction_id (r\<lparr>tr_status := status\<rparr>) rs
         | None \<Rightarrow> AList.update transaction_id \<lparr>tr_transaction_id = transaction_id, tr_status = status, tr_kafka_topic = '''',
             tr_kafka_partition = 0, tr_kafka_offset = 0\<rparr> rs) s)"

definition pg_save_checkpoint :: "kafka_checkpoint \<Rightarrow> postgres_transactions \<Rightarrow> postgres_transactions" where
  "pg_save_checkpoint c s = flush_checkpoints (AList.update (own_checkpoint_key c) c (fb_memory (pt_checkpoints s))) s"

definition pg_all_records :: "postgres_transactions \<Rightarrow> transaction_record list" where
  "pg_all_records s = map snd (fb_memory (pt_records s))"

definition pg_all_checkpoints :: "postgres_transactions \<Rightarrow> kafka_checkpoint list" where
  "pg_all_checkpoints s = map snd (fb_memory (pt_checkpoints s))"

definition pg_get_record :: "string \<Rightarrow> postgres_transactions \<Rightarrow> transaction_record option" where
  "pg_get_record transaction_id s = map_of (fb_memory (pt_records s)) transaction_id"

subsection \<open>Orders\<close>

definition order_fields :: "order_record \<Rightarrow> string list" where
  "order_fields r = [or_order_id r, or_client_order_id r, or_strategy_id r, or_instrument_id r,
     show_int (side_code (or_side r)), show_int (type_code (or_order_type r)), show_int (status_code (or_status r)),
     show_double (or_quantity r), encode_optional_double (or_price r), show_double (or_filled_quantity r)]"

definition order_of_fields :: "string list \<Rightarrow> load_failure + order_record" where
  "order_of_fields f =
     bindE (read_side (f ! 4)) (\<lambda>sd. bindE (read_type (f ! 5)) (\<lambda>ty. bindE (read_status (f ! 6)) (\<lambda>st.
     bindE (throwing (stod (f ! 7))) (\<lambda>q. bindE (throwing (decode_optional_double (f ! 8))) (\<lambda>p. bindE (throwing (stod (f ! 9))) (\<lambda>fq.
     Inr \<lparr>or_order_id = f ! 0, or_client_order_id = f ! 1, or_strategy_id = f ! 2, or_instrument_id = f ! 3, or_side = sd,
       or_order_type = ty, or_status = st, or_quantity = q, or_price = p, or_filled_quantity = fq\<rparr>))))))"

definition postgres_orders_new :: "string option \<Rightarrow> load_failure + order_repository file_backed" where
  "postgres_orders_new file = bindE (load_file 10 order_of_fields (\<lambda>r. AList.update (or_order_id r) r) [] file)
     (\<lambda>m. Inr \<lparr>fb_memory = m, fb_file = file\<rparr>)"

definition pg_save_order :: "order_request \<Rightarrow> string \<Rightarrow> string \<Rightarrow> order_repository file_backed \<Rightarrow> order_repository file_backed" where
  "pg_save_order rq i c s = flush_keyed order_fields (s\<lparr>fb_memory := save_order rq i c (fb_memory s)\<rparr>)"

definition pg_save_order_update :: "order_update \<Rightarrow> order_repository file_backed \<Rightarrow> order_repository file_backed" where
  "pg_save_order_update u s = flush_keyed order_fields (s\<lparr>fb_memory := save_order_update u (fb_memory s)\<rparr>)"

definition pg_get_order :: "string \<Rightarrow> order_repository file_backed \<Rightarrow> order_record option" where
  "pg_get_order i s = get_order i (fb_memory s)"

definition pg_all_open_orders :: "order_repository file_backed \<Rightarrow> order_record list" where
  "pg_all_open_orders s = all_open_orders (fb_memory s)"

subsection \<open>Fills, intents and reports\<close>

definition instrument_fields :: "instrument \<Rightarrow> string list" where
  "instrument_fields i = [instrument_id i, exchange i, symbol i, base_asset i, quote_asset i, show_double (tick_size i), show_double (lot_size i)]"

definition instrument_of_fields :: "string list \<Rightarrow> load_failure + instrument" where
  "instrument_of_fields f =
     bindE (throwing (stod (f ! 5))) (\<lambda>tick. bindE (throwing (stod (f ! 6))) (\<lambda>lot.
     Inr \<lparr>instrument_id = f ! 0, exchange = f ! 1, symbol = f ! 2, base_asset = f ! 3, quote_asset = f ! 4, tick_size = tick, lot_size = lot\<rparr>))"

definition fill_fields :: "fill_event \<Rightarrow> string list" where
  "fill_fields x = [fl_fill_id x, fl_order_id x] @ instrument_fields (fl_instrument x) @
     [show_int (side_code (fl_side x)), show_double (fl_price x), show_double (fl_quantity x), show_double (fl_fee x)]"

definition fill_of_fields :: "string list \<Rightarrow> load_failure + fill_event" where
  "fill_of_fields f =
     bindE (instrument_of_fields (take 7 (drop 2 f))) (\<lambda>i. bindE (read_side (f ! 9)) (\<lambda>sd.
     bindE (throwing (stod (f ! 10))) (\<lambda>p. bindE (throwing (stod (f ! 11))) (\<lambda>q. bindE (throwing (stod (f ! 12))) (\<lambda>fee.
     Inr \<lparr>fl_fill_id = f ! 0, fl_order_id = f ! 1, fl_instrument = i, fl_side = sd, fl_price = p, fl_quantity = q, fl_fee = fee\<rparr>)))))"

definition load_list :: "nat \<Rightarrow> (string list \<Rightarrow> load_failure + 'v) \<Rightarrow> string option \<Rightarrow> load_failure + 'v list file_backed" where
  "load_list n decode file = bindE (load_file n decode (\<lambda>v m. m @ [v]) [] file) (\<lambda>m. Inr \<lparr>fb_memory = m, fb_file = file\<rparr>)"

definition postgres_fills_new :: "string option \<Rightarrow> load_failure + fill_event list file_backed" where
  "postgres_fills_new = load_list 13 fill_of_fields"

definition pg_append_fill :: "fill_event \<Rightarrow> fill_event list file_backed \<Rightarrow> fill_event list file_backed" where
  "pg_append_fill x s = flush_list fill_fields (s\<lparr>fb_memory := append_fill x (fb_memory s)\<rparr>)"

definition pg_all_fills :: "fill_event list file_backed \<Rightarrow> fill_event list" where
  "pg_all_fills s = fb_memory s"

definition intent_fields :: "order_intent_record \<Rightarrow> string list" where
  "intent_fields x = [oi_request_id x, oi_strategy_id x, oi_instrument_id x, show_int (side_code (oi_side x)),
     show_int (type_code (oi_order_type x)), show_double_prec 17 (oi_quantity x), encode_optional_double (oi_price x)]"

definition intent_of_fields :: "string list \<Rightarrow> load_failure + order_intent_record" where
  "intent_of_fields f =
     bindE (read_side (f ! 3)) (\<lambda>sd. bindE (read_type (f ! 4)) (\<lambda>ty. bindE (throwing (stod (f ! 5))) (\<lambda>q.
     bindE (throwing (decode_optional_double (f ! 6))) (\<lambda>p.
     Inr \<lparr>oi_request_id = f ! 0, oi_strategy_id = f ! 1, oi_instrument_id = f ! 2, oi_side = sd, oi_order_type = ty, oi_quantity = q, oi_price = p\<rparr>))))"

definition postgres_intents_new :: "string option \<Rightarrow> load_failure + order_intent_record list file_backed" where
  "postgres_intents_new = load_list 7 intent_of_fields"

definition pg_append_intent :: "order_intent_record \<Rightarrow> order_intent_record list file_backed \<Rightarrow> order_intent_record list file_backed" where
  "pg_append_intent x s = flush_list intent_fields (s\<lparr>fb_memory := append_intent x (fb_memory s)\<rparr>)"

definition pg_all_intents :: "order_intent_record list file_backed \<Rightarrow> order_intent_record list" where
  "pg_all_intents s = fb_memory s"

definition report_fields :: "execution_report_record \<Rightarrow> string list" where
  "report_fields x = [er_report_id x, er_order_id x, er_client_order_id x, er_instrument_id x,
     show_int (side_code (er_side x)), show_int (status_code (er_status x)), show_double_prec 17 (er_cumulative_filled_quantity x),
     encode_optional_double (er_last_fill_price x), show_double_prec 17 (er_last_fill_fee x),
     (case er_reason x of Some t \<Rightarrow> t | None \<Rightarrow> ''''), show_int (er_exchange_timestamp x)]"

definition report_of_fields :: "string list \<Rightarrow> load_failure + execution_report_record" where
  "report_of_fields f =
     bindE (read_side (f ! 4)) (\<lambda>sd. bindE (read_status (f ! 5)) (\<lambda>st. bindE (throwing (stod (f ! 6))) (\<lambda>q.
     bindE (throwing (decode_optional_double (f ! 7))) (\<lambda>p. bindE (throwing (stod (f ! 8))) (\<lambda>fee. bindE (throwing (stoll (f ! 10))) (\<lambda>t.
     Inr \<lparr>er_report_id = f ! 0, er_order_id = f ! 1, er_client_order_id = f ! 2, er_instrument_id = f ! 3, er_side = sd, er_status = st,
       er_cumulative_filled_quantity = q, er_last_fill_price = p, er_last_fill_fee = fee,
       er_reason = (if f ! 9 = [] then None else Some (f ! 9)), er_exchange_timestamp = t\<rparr>))))))"

definition postgres_reports_new :: "string option \<Rightarrow> load_failure + execution_report_record list file_backed" where
  "postgres_reports_new = load_list 11 report_of_fields"

definition pg_append_report :: "execution_report_record \<Rightarrow> execution_report_record list file_backed \<Rightarrow> execution_report_record list file_backed" where
  "pg_append_report x s = flush_list report_fields (s\<lparr>fb_memory := append_report x (fb_memory s)\<rparr>)"

definition pg_all_reports :: "execution_report_record list file_backed \<Rightarrow> execution_report_record list" where
  "pg_all_reports s = fb_memory s"

subsection \<open>Positions and balances\<close>

definition position_fields :: "position \<Rightarrow> string list" where
  "position_fields p = [po_position_id p] @ instrument_fields (po_instrument p) @
     [show_double (po_net_quantity p), show_double (po_average_entry_price p), show_double (po_realized_pnl p), show_double (po_unrealized_pnl p)]"

definition position_of_fields :: "string list \<Rightarrow> load_failure + position" where
  "position_of_fields f =
     bindE (instrument_of_fields (take 7 (drop 1 f))) (\<lambda>i. bindE (throwing (stod (f ! 8))) (\<lambda>n. bindE (throwing (stod (f ! 9))) (\<lambda>a.
     bindE (throwing (stod (f ! 10))) (\<lambda>r. bindE (throwing (stod (f ! 11))) (\<lambda>u.
     Inr \<lparr>po_position_id = f ! 0, po_instrument = i, po_net_quantity = n, po_average_entry_price = a, po_realized_pnl = r, po_unrealized_pnl = u\<rparr>)))))"

abbreviation position_key :: "position \<Rightarrow> string" where
  "position_key p \<equiv> instrument_id (po_instrument p)"

definition postgres_positions_new :: "string option \<Rightarrow> load_failure + (string, position) umap file_backed" where
  "postgres_positions_new file = bindE (load_file 12 position_of_fields (\<lambda>p. AList.update (position_key p) p) [] file)
     (\<lambda>m. Inr \<lparr>fb_memory = m, fb_file = file\<rparr>)"

definition pg_save_position :: "position \<Rightarrow> (string, position) umap file_backed \<Rightarrow> (string, position) umap file_backed" where
  "pg_save_position p s = flush_keyed position_fields (s\<lparr>fb_memory := save_position p (fb_memory s)\<rparr>)"

definition pg_get_position :: "string \<Rightarrow> (string, position) umap file_backed \<Rightarrow> position option" where
  "pg_get_position i s = get_position i (fb_memory s)"

definition pg_all_positions :: "(string, position) umap file_backed \<Rightarrow> position list" where
  "pg_all_positions s = all_positions (fb_memory s)"

definition balance_fields :: "balance_snapshot \<Rightarrow> string list" where
  "balance_fields x = [ba_asset x, show_double_prec 17 (ba_total_balance x), show_double_prec 17 (ba_available_balance x)]"

definition balance_of_fields :: "string list \<Rightarrow> load_failure + balance_snapshot" where
  "balance_of_fields f = bindE (throwing (stod (f ! 1))) (\<lambda>t. bindE (throwing (stod (f ! 2))) (\<lambda>a.
     Inr \<lparr>ba_asset = f ! 0, ba_total_balance = t, ba_available_balance = a\<rparr>))"

definition postgres_balances_new :: "string option \<Rightarrow> load_failure + (string, balance_snapshot) umap file_backed" where
  "postgres_balances_new file = bindE (load_file 3 balance_of_fields (\<lambda>x. AList.update (ba_asset x) x) [] file)
     (\<lambda>m. Inr \<lparr>fb_memory = m, fb_file = file\<rparr>)"

definition pg_save_balance :: "balance_snapshot \<Rightarrow> (string, balance_snapshot) umap file_backed \<Rightarrow> (string, balance_snapshot) umap file_backed" where
  "pg_save_balance x s = flush_keyed balance_fields (s\<lparr>fb_memory := save_balance x (fb_memory s)\<rparr>)"

definition pg_get_balance :: "string \<Rightarrow> (string, balance_snapshot) umap file_backed \<Rightarrow> balance_snapshot option" where
  "pg_get_balance a s = get_balance a (fb_memory s)"

definition pg_all_balances :: "(string, balance_snapshot) umap file_backed \<Rightarrow> balance_snapshot list" where
  "pg_all_balances s = all_balances (fb_memory s)"

lemmas pg_reads = pg_get_position_def pg_all_positions_def pg_get_balance_def pg_all_balances_def
  pg_all_fills_def pg_all_intents_def pg_all_reports_def


subsection \<open>What each format keeps\<close>

definition transaction_safe :: "transaction_record \<Rightarrow> bool" where
  "transaction_safe r \<longleftrightarrow> text_safe (tr_transaction_id r) \<and> text_safe (tr_status r) \<and> text_safe (tr_kafka_topic r) \<and>
     int32_ok (tr_kafka_partition r) \<and> int64_ok (tr_kafka_offset r)"

definition checkpoint_safe :: "kafka_checkpoint \<Rightarrow> bool" where
  "checkpoint_safe c \<longleftrightarrow> text_safe (kc_topic c) \<and> int32_ok (kc_partition c) \<and> int64_ok (kc_offset c)"

definition order_safe :: "order_record \<Rightarrow> bool" where
  "order_safe r \<longleftrightarrow> text_safe (or_order_id r) \<and> text_safe (or_client_order_id r) \<and> text_safe (or_strategy_id r) \<and>
     text_safe (or_instrument_id r) \<and> six_digit_decimal (or_quantity r) \<and> quote_safe (or_price r) \<and> six_digit_decimal (or_filled_quantity r)"

definition instrument_safe :: "instrument \<Rightarrow> bool" where
  "instrument_safe i \<longleftrightarrow> text_safe (instrument_id i) \<and> text_safe (exchange i) \<and> text_safe (symbol i) \<and> text_safe (base_asset i) \<and>
     text_safe (quote_asset i) \<and> six_digit_decimal (tick_size i) \<and> six_digit_decimal (lot_size i)"

definition fill_safe :: "fill_event \<Rightarrow> bool" where
  "fill_safe x \<longleftrightarrow> text_safe (fl_fill_id x) \<and> text_safe (fl_order_id x) \<and> instrument_safe (fl_instrument x) \<and>
     six_digit_decimal (fl_price x) \<and> six_digit_decimal (fl_quantity x) \<and> six_digit_decimal (fl_fee x)"

text \<open>An intent without a price ends in an empty field, which the loader does not see.\<close>

definition intent_writable :: "order_intent_record \<Rightarrow> bool" where
  "intent_writable x \<longleftrightarrow> text_safe (oi_request_id x) \<and> text_safe (oi_strategy_id x) \<and> text_safe (oi_instrument_id x) \<and>
     normal_double (oi_quantity x) \<and> quote_safe (oi_price x)"

abbreviation intent_safe :: "order_intent_record \<Rightarrow> bool" where
  "intent_safe x \<equiv> intent_writable x \<and> oi_price x \<noteq> None"

definition report_safe :: "execution_report_record \<Rightarrow> bool" where
  "report_safe x \<longleftrightarrow> text_safe (er_report_id x) \<and> text_safe (er_order_id x) \<and> text_safe (er_client_order_id x) \<and>
     text_safe (er_instrument_id x) \<and> normal_double (er_cumulative_filled_quantity x) \<and> quote_safe (er_last_fill_price x) \<and>
     normal_double (er_last_fill_fee x) \<and> (\<forall>t. er_reason x = Some t \<longrightarrow> text_safe t \<and> t \<noteq> []) \<and> int64_ok (er_exchange_timestamp x)"

definition position_safe :: "position \<Rightarrow> bool" where
  "position_safe p \<longleftrightarrow> text_safe (po_position_id p) \<and> instrument_safe (po_instrument p) \<and> six_digit_decimal (po_net_quantity p) \<and>
     six_digit_decimal (po_average_entry_price p) \<and> six_digit_decimal (po_realized_pnl p) \<and> six_digit_decimal (po_unrealized_pnl p)"

definition balance_safe :: "balance_snapshot \<Rightarrow> bool" where
  "balance_safe x \<longleftrightarrow> text_safe (ba_asset x) \<and> normal_double (ba_total_balance x) \<and> normal_double (ba_available_balance x)"

lemma text_safe_prec [simp]: "text_safe (show_double_prec p x)"
  using show_double_plain by (rule text_safe_plain)

lemma show_exact_not_Nil: "normal_double x \<Longrightarrow> show_double_prec 17 x \<noteq> []"
  by (rule stod_not_Nil [OF stod_show_exact])

lemma text_safe_Nil [simp]: "text_safe []"
  by (simp add: text_safe_def)

lemmas field_rules = stod_show_double stod_show_exact stoi_show_int stoll_show_int decode_encode_quote show_double_not_Nil show_exact_not_Nil

interpretation transaction_file: keyed_format 5 transaction_fields transaction_of_fields transaction_safe tr_transaction_id
  by unfold_locales (auto simp: transaction_fields_def transaction_of_fields_def transaction_safe_def field_rules)

interpretation checkpoint_file: keyed_format 3 checkpoint_fields checkpoint_of_fields checkpoint_safe own_checkpoint_key
  by unfold_locales (auto simp: checkpoint_fields_def checkpoint_of_fields_def checkpoint_safe_def field_rules)

interpretation order_file: keyed_format 10 order_fields order_of_fields order_safe or_order_id
  by unfold_locales (auto simp: order_fields_def order_of_fields_def order_safe_def field_rules)

lemma instrument_decode: "instrument_safe i \<Longrightarrow> instrument_of_fields (instrument_fields i) = Inr i"
  by (simp add: instrument_fields_def instrument_of_fields_def instrument_safe_def field_rules)

lemma instrument_text: "instrument_safe i \<Longrightarrow> f \<in> set (instrument_fields i) \<Longrightarrow> text_safe f"
  by (auto simp: instrument_fields_def instrument_safe_def)

lemma instrument_length [simp]: "length (instrument_fields i) = 7"
  by (simp add: instrument_fields_def)

interpretation fill_file: record_format 13 fill_fields fill_of_fields fill_safe
  by unfold_locales (auto simp: fill_fields_def fill_of_fields_def fill_safe_def field_rules instrument_decode nth_append dest: instrument_text)

interpretation intent_file: record_format 7 intent_fields intent_of_fields intent_safe
  by unfold_locales
    (auto simp: intent_fields_def intent_of_fields_def intent_writable_def field_rules encode_optional_double_def to_string_double_not_Nil
      quote_safe_def decode_optional_double_def stod_to_string_double)

interpretation report_file: record_format 11 report_fields report_of_fields report_safe
  by unfold_locales (auto simp: report_fields_def report_of_fields_def report_safe_def field_rules split: option.splits)

interpretation position_file: keyed_format 12 position_fields position_of_fields position_safe position_key
  by unfold_locales (auto simp: position_fields_def position_of_fields_def position_safe_def field_rules instrument_decode nth_append dest: instrument_text)

interpretation balance_file: keyed_format 3 balance_fields balance_of_fields balance_safe ba_asset
  by unfold_locales (auto simp: balance_fields_def balance_of_fields_def balance_safe_def field_rules)


subsection \<open>The file-backed repositories keep the contracts of repositories\<close>

interpretation postgres_orders: order_store pg_save_order pg_save_order_update pg_get_order pg_all_open_orders
  "\<lambda>s. keyed_inv or_order_id (fb_memory s)"
  by unfold_locales
    (simp_all add: pg_save_order_def pg_save_order_update_def pg_get_order_def pg_all_open_orders_def
      in_memory_orders.inv_save in_memory_orders.inv_update in_memory_orders.lookup_save in_memory_orders.lookup_update
      in_memory_orders.lookup_id in_memory_orders.open_iff in_memory_orders.open_distinct)

interpretation postgres_positions: keyed_store position_key pg_save_position pg_get_position pg_all_positions
  "\<lambda>s. keyed_inv position_key (fb_memory s)"
  by unfold_locales
    (simp_all add: pg_save_position_def pg_get_position_def pg_all_positions_def in_memory_positions.inv_save
      in_memory_positions.lookup_save in_memory_positions.entries_iff in_memory_positions.entries_distinct)

interpretation postgres_balances: keyed_store ba_asset pg_save_balance pg_get_balance pg_all_balances
  "\<lambda>s. keyed_inv ba_asset (fb_memory s)"
  by unfold_locales
    (simp_all add: pg_save_balance_def pg_get_balance_def pg_all_balances_def in_memory_balances.inv_save
      in_memory_balances.lookup_save in_memory_balances.entries_iff in_memory_balances.entries_distinct)

datatype order_op = Save_order order_request string string | Update_order order_update

fun memory_step :: "order_op \<Rightarrow> order_repository \<Rightarrow> order_repository" where
  "memory_step (Save_order rq i c) s = save_order rq i c s"
| "memory_step (Update_order u) s = save_order_update u s"

fun file_step :: "order_op \<Rightarrow> order_repository file_backed \<Rightarrow> order_repository file_backed" where
  "file_step (Save_order rq i c) s = pg_save_order rq i c s"
| "file_step (Update_order u) s = pg_save_order_update u s"

lemma file_steps:
  "fb_memory (fold file_step ops s) = fold memory_step ops (fb_memory s)"
  "mirrors order_fields s \<Longrightarrow> mirrors order_fields (fold file_step ops s)"
proof -
  have step: "fb_memory (file_step oper s) = memory_step oper (fb_memory s)" "mirrors order_fields (file_step oper s)" for oper s
    by (cases oper; simp add: pg_save_order_def pg_save_order_update_def)+
  show "fb_memory (fold file_step ops s) = fold memory_step ops (fb_memory s)"
    by (induction ops arbitrary: s) (simp_all add: step)
  show "mirrors order_fields s \<Longrightarrow> mirrors order_fields (fold file_step ops s)"
    by (induction ops arbitrary: s) (simp_all add: step)
qed

lemma memory_steps_inv: "keyed_inv or_order_id m \<Longrightarrow> keyed_inv or_order_id (fold memory_step ops m)"
proof (induction ops arbitrary: m)
  case (Cons oper ops)
  then show ?case
    using in_memory_orders.inv_save in_memory_orders.inv_update by (cases oper) auto
qed simp

text \<open>
  C14. The file-backed order repository refines the in-memory one and is durable: from a first start, through
  any sequence of saves and updates, it answers as the in-memory repository does, and a process that opens
  the file it left behind sees the same orders and the same open orders, when the numbers have six
  significant digits (prices six decimals) and the texts hold no separators.
\<close>

theorem order_files_durable:
  assumes "postgres_orders_new None = Inr s0" "m = fold memory_step ops []" "\<forall>r \<in> snd ` set m. order_safe r"
  shows "fb_memory (fold file_step ops s0) = m \<and>
    (\<exists>s'. postgres_orders_new (fb_file (fold file_step ops s0)) = Inr s' \<and> (\<forall>i. pg_get_order i s' = get_order i m) \<and>
       set (pg_all_open_orders s') = set (all_open_orders m) \<and> length (pg_all_open_orders s') = length (all_open_orders m))"
proof -
  have s0: "s0 = \<lparr>fb_memory = [], fb_file = None\<rparr>" using assms(1) by (simp add: postgres_orders_new_def load_file_def)
  have mem: "fb_memory (fold file_step ops s0) = m" using assms(2) by (simp add: file_steps s0)
  have inv: "keyed_inv or_order_id m" unfolding assms(2) by (rule memory_steps_inv) simp
  have "mirrors order_fields (fold file_step ops s0)" by (rule file_steps) (simp add: s0 mirrors_def)
  then obtain m' where m': "load_file 10 order_of_fields (\<lambda>r. AList.update (or_order_id r) r) [] (fb_file (fold file_step ops s0)) = Inr m'"
    "keyed_inv or_order_id m'" "map_of m' = map_of m"
    using order_file.reload_keyed [of "fold file_step ops s0"] inv assms(3) by (auto simp: mem)
  have get: "get_order i m' = get_order i m" for i using m'(3) by (simp add: get_order_def)
  have same: "set (all_open_orders m') = set (all_open_orders m)"
    by (rule set_eqI) (simp add: in_memory_orders.open_iff [OF m'(2)] in_memory_orders.open_iff [OF inv] get)
  have "distinct (all_open_orders n)" if "keyed_inv or_order_id n" for n
    using in_memory_orders.open_distinct [OF that] by (simp add: distinct_map)
  then have "length (all_open_orders m') = length (all_open_orders m)"
    using same m'(2) inv by (metis distinct_card)
  then show ?thesis
    using m'(1) get same by (simp add: mem postgres_orders_new_def pg_get_order_def pg_all_open_orders_def)
qed

definition sample_order_ops :: "order_op list" where
  "sample_order_ops = [Save_order \<lparr>rq_request_id = ''r1'', rq_strategy_id = ''s'', rq_instrument = \<lparr>instrument_id = ''BTC'', exchange = ''x'',
       symbol = ''BTCUSDT'', base_asset = ''BTC'', quote_asset = ''USDT'', tick_size = Fin 1, lot_size = Fin 1\<rparr>, rq_side = Sell, rq_type = Limit,
       rq_quantity = Fin 5, rq_price = None\<rparr> ''o1'' ''c1'',
     Update_order \<lparr>ou_order_id = ''o1'', ou_client_order_id = ''c1'', ou_status = Partially_filled, ou_filled_quantity = Fin 2, ou_reason = None\<rparr>,
     Update_order \<lparr>ou_order_id = ''o2'', ou_client_order_id = ''c2'', ou_status = Filled, ou_filled_quantity = Fin 3, ou_reason = None\<rparr>]"

theorem order_files_durable_witness:
  "\<exists>s' r. postgres_orders_new (fb_file (fold file_step sample_order_ops \<lparr>fb_memory = [], fb_file = None\<rparr>)) = Inr s' \<and>
     pg_get_order ''o1'' s' = Some r \<and> or_filled_quantity r = Fin 2 \<and> map or_order_id (pg_all_open_orders s') = [''o1'']"
proof -
  let ?m = "fold memory_step sample_order_ops []"
  have m: "\<exists>r r2. ?m = [(''o1'', r), (''o2'', r2)] \<and> or_order_id r = ''o1'' \<and> or_filled_quantity r = Fin 2 \<and> or_status r = Partially_filled \<and> or_status r2 = Filled"
    "\<forall>r \<in> snd ` set ?m. order_safe r"
    by (simp_all add: sample_order_ops_def save_order_def save_order_update_def order_record_of_def order_safe_def text_safe_def quote_safe_def
        six_digit_numeral)
  have "postgres_orders_new None = Inr \<lparr>fb_memory = [], fb_file = None\<rparr>" by (simp add: postgres_orders_new_def load_file_def)
  from order_files_durable [OF this refl m(2)] obtain s' where
    s': "postgres_orders_new (fb_file (fold file_step sample_order_ops \<lparr>fb_memory = [], fb_file = None\<rparr>)) = Inr s'"
    "\<forall>i. pg_get_order i s' = get_order i ?m" "set (pg_all_open_orders s') = set (all_open_orders ?m)"
    "length (pg_all_open_orders s') = length (all_open_orders ?m)" by blast
  obtain r r2 where r: "?m = [(''o1'', r), (''o2'', r2)]" "or_order_id r = ''o1''" "or_filled_quantity r = Fin 2"
    "or_status r = Partially_filled" "or_status r2 = Filled" using m(1) by blast
  then have "all_open_orders ?m = [r]" by (simp add: all_open_orders_def)
  then have "pg_all_open_orders s' = [r]" using s'(3,4) by (auto simp: length_Suc_conv)
  then show ?thesis using s'(1,2) r by (auto simp: get_order_def)
qed


subsection \<open>Order intents\<close>

lemma intent_line:
  assumes "intent_writable x"
  shows "oi_price x = None \<Longrightarrow> length (split_tsv (join_tsv (intent_fields x))) = 6"
    "newline \<notin> set (join_tsv (intent_fields x))"
proof -
  have plain: "\<forall>f \<in> set (intent_fields x). text_safe f" using assms by (auto simp: intent_fields_def intent_writable_def)
  then show "newline \<notin> set (join_tsv (intent_fields x))" by (rule join_tsv_no_newline)
  assume "oi_price x = None"
  then have "intent_fields x = butlast (intent_fields x) @ [[]]"
    by (simp add: intent_fields_def encode_optional_double_def)
  moreover have "\<forall>f \<in> set (butlast (intent_fields x)). text_safe f" using plain by (auto dest: in_set_butlastD)
  ultimately have "split_tsv (join_tsv (intent_fields x)) = butlast (intent_fields x)"
    using split_join_tsv_empty by metis
  then show "length (split_tsv (join_tsv (intent_fields x))) = 6" by (simp add: intent_fields_def)
qed

lemma load_intents:
  "\<forall>x \<in> set xs. intent_writable x \<Longrightarrow>
     load_lines 7 intent_of_fields (\<lambda>v m. m @ [v]) (map (\<lambda>x. join_tsv (intent_fields x)) xs) m = Inr (m @ filter (\<lambda>x. oi_price x \<noteq> None) xs)"
proof (induction xs arbitrary: m)
  case (Cons x xs)
  show ?case
  proof (cases "oi_price x = None")
    case True
    then show ?thesis using Cons intent_line(1) [of x] by (simp add: Let_def)
  next
    case False
    then have "intent_safe x" using Cons.prems by simp
    then have "split_tsv (join_tsv (intent_fields x)) = intent_fields x" "length (intent_fields x) = 7" "intent_of_fields (intent_fields x) = Inr x"
      by (rule intent_file.split_line intent_file.fields_count intent_file.decode_encode)+
    then show ?thesis using Cons False by (simp add: Let_def)
  qed
qed simp

lemma append_intents:
  "fb_memory (fold pg_append_intent xs s) = fb_memory s @ xs"
  "fb_file (fold pg_append_intent xs s) = (if xs = [] then fb_file s else Some (file_text intent_fields (fb_memory s @ xs)))"
  by (induction xs arbitrary: s) (auto simp: pg_append_intent_def append_intent_def flush_list_def)

text \<open>
  C20. Order intents survive a restart exactly when they have a price: the price is the last field of a line,
  an intent without one is written with an empty last field, the loader counts six fields instead of seven
  and drops the line. Quantities come back bit for bit.
\<close>

theorem intents_without_price_lost:
  assumes "\<forall>x \<in> set xs. intent_writable x"
  shows "\<exists>s'. postgres_intents_new (fb_file (fold pg_append_intent xs \<lparr>fb_memory = [], fb_file = None\<rparr>)) = Inr s' \<and>
    fb_memory s' = filter (\<lambda>x. oi_price x \<noteq> None) xs"
proof -
  have "getline_split newline (file_text intent_fields xs) = map (\<lambda>x. join_tsv (intent_fields x)) xs"
    unfolding file_text_def using assms intent_line(2) by (intro file_lines) auto
  then show ?thesis
    using load_intents [OF assms] by (auto simp: append_intents postgres_intents_new_def load_list_def load_file_def)
qed

theorem intents_without_price_lost_witness:
  "\<exists>s'. postgres_intents_new (fb_file (pg_append_intent \<lparr>oi_request_id = ''r1'', oi_strategy_id = ''s'', oi_instrument_id = ''BTC'',
      oi_side = Buy, oi_order_type = Market, oi_quantity = Fin 5, oi_price = None\<rparr> \<lparr>fb_memory = [], fb_file = None\<rparr>)) = Inr s' \<and>
    fb_memory s' = []"
proof -
  let ?x = "\<lparr>oi_request_id = ''r1'', oi_strategy_id = ''s'', oi_instrument_id = ''BTC'',
      oi_side = Buy, oi_order_type = Market, oi_quantity = Fin 5, oi_price = None\<rparr>"
  have "rnd64 (of_int 5 * 2 powi 0) = of_int 5 * 2 powi 0" by (rule rnd64_grid) simp_all
  then have "valid_double (Fin 5)" by (simp add: valid_double_def)
  moreover have "(1::rat) / 2 ^ 1022 < 5" by (rule less_trans [of _ 1]) simp_all
  ultimately have "intent_writable ?x"
    by (simp add: intent_writable_def text_safe_def quote_safe_def normal_double_def)
  then show ?thesis using intents_without_price_lost [of "[?x]"] by simp
qed

subsection \<open>Balances\<close>

lemma save_balances:
  assumes "mirrors balance_fields s" "keyed_inv ba_asset (fb_memory s)"
  shows "mirrors balance_fields (fold pg_save_balance xs s) \<and> keyed_inv ba_asset (fb_memory (fold pg_save_balance xs s)) \<and>
    map_of (fb_memory (fold pg_save_balance xs s)) a =
      (case find (\<lambda>x. ba_asset x = a) (rev xs) of Some x \<Rightarrow> Some x | None \<Rightarrow> map_of (fb_memory s) a)"
  using assms
proof (induction xs rule: rev_induct)
  case (snoc x xs)
  let ?s = "fold pg_save_balance xs s"
  have m: "fb_memory (pg_save_balance x ?s) = AList.update (ba_asset x) x (fb_memory ?s)"
    by (simp add: pg_save_balance_def save_balance_def)
  have "mirrors balance_fields (pg_save_balance x ?s)" by (simp add: pg_save_balance_def)
  then show ?case using snoc by (simp add: m update_conv keyed_inv_update)
qed simp

text \<open>
  Balances survive a restart bit for bit: from a first start, after any sequence of saved balances whose
  amounts are not subnormal (infinities and NaN included), reopening the file yields for every asset
  exactly the balance saved last.
\<close>

theorem balance_files_exact:
  assumes "\<forall>x \<in> set xs. balance_safe x"
  shows "\<exists>s'. postgres_balances_new (fb_file (fold pg_save_balance xs \<lparr>fb_memory = [], fb_file = None\<rparr>)) = Inr s' \<and>
    (\<forall>a. get_balance a (fb_memory s') = find (\<lambda>x. ba_asset x = a) (rev xs))"
proof -
  let ?s = "fold pg_save_balance xs \<lparr>fb_memory = [], fb_file = None\<rparr>"
  have start: "mirrors balance_fields \<lparr>fb_memory = [], fb_file = None\<rparr>" by (simp add: mirrors_def)
  have inv: "mirrors balance_fields ?s" "keyed_inv ba_asset (fb_memory ?s)"
    and look: "map_of (fb_memory ?s) a = find (\<lambda>x. ba_asset x = a) (rev xs)" for a
    using save_balances [OF start, of xs] by (auto split: option.splits)
  have "\<forall>x \<in> snd ` set (fb_memory ?s). balance_safe x"
  proof
    fix x assume "x \<in> snd ` set (fb_memory ?s)"
    then have "find (\<lambda>y. ba_asset y = ba_asset x) (rev xs) = Some x" using keyed_inv_entry [OF inv(2)] look by simp
    then obtain i where "i < length (rev xs)" "x = rev xs ! i" by (auto simp: find_Some_iff)
    then have "x \<in> set (rev xs)" by (simp only: nth_mem)
    then show "balance_safe x" using assms by simp
  qed
  then obtain m' where "load_file 3 balance_of_fields (\<lambda>x. AList.update (ba_asset x) x) [] (fb_file ?s) = Inr m'" "map_of m' = map_of (fb_memory ?s)"
    using balance_file.reload_keyed [OF inv] by blast
  then show ?thesis by (simp add: postgres_balances_new_def get_balance_def look)
qed

theorem balance_files_exact_witness:
  "\<exists>s' x. postgres_balances_new (fb_file (fold pg_save_balance [\<lparr>ba_asset = ''USDT'', ba_total_balance = to_double (1 / 3), ba_available_balance = NInf\<rparr>]
      \<lparr>fb_memory = [], fb_file = None\<rparr>)) = Inr s' \<and>
    get_balance ''USDT'' (fb_memory s') = Some x \<and> ba_total_balance x = to_double (1 / 3)"
proof -
  let ?x = "\<lparr>ba_asset = ''USDT'', ba_total_balance = to_double (1 / 3), ba_available_balance = NInf\<rparr>"
  have "rnd64 (1 / 3) = of_int 6004799503160661 * 2 powi (- 2 - 52)"
    by (rule rnd64_unique) (simp_all add: power_int_minus divide_simps abs_less_iff)
  then have "to_double (1 / 3) = Fin (6004799503160661 / 2 ^ 54)"
    by (simp add: to_double_def power_int_minus divide_simps)
  moreover have "(1::rat) / 2 ^ 1022 < 6004799503160661 / 2 ^ 54" by (simp add: divide_simps)
  ultimately have "normal_double (to_double (1 / 3))" using valid_to_double [of "1 / 3"] by (simp add: normal_double_def)
  then have "balance_safe ?x" by (simp add: balance_safe_def text_safe_def normal_double_def)
  then show ?thesis using balance_files_exact [of "[?x]"] by auto
qed


subsection \<open>Fills and reports\<close>

lemma append_fills:
  "fb_file (fold pg_append_fill xs s) = (if xs = [] then fb_file s else Some (file_text fill_fields (fb_memory s @ xs)))"
  by (induction xs arbitrary: s) (auto simp: pg_append_fill_def append_fill_def flush_list_def)

lemma append_reports:
  "fb_file (fold pg_append_report xs s) = (if xs = [] then fb_file s else Some (file_text report_fields (fb_memory s @ xs)))"
  by (induction xs arbitrary: s) (auto simp: pg_append_report_def append_report_def flush_list_def)

lemma fold_snoc: "fold (\<lambda>v m. m @ [v]) vs m = m @ vs"
  by (induction vs arbitrary: m) simp_all

lemma fill_files_durable:
  "\<forall>x \<in> set xs. fill_safe x \<Longrightarrow>
     \<exists>s'. postgres_fills_new (fb_file (fold pg_append_fill xs \<lparr>fb_memory = [], fb_file = None\<rparr>)) = Inr s' \<and> fb_memory s' = xs"
  using fill_file.load_text [of xs "\<lambda>v m. m @ [v]" "[]"]
  by (auto simp: postgres_fills_new_def load_list_def append_fills fold_snoc load_file_def [of _ _ _ _ None])

lemma report_files_durable:
  "\<forall>x \<in> set xs. report_safe x \<Longrightarrow>
     \<exists>s'. postgres_reports_new (fb_file (fold pg_append_report xs \<lparr>fb_memory = [], fb_file = None\<rparr>)) = Inr s' \<and> fb_memory s' = xs"
  using report_file.load_text [of xs "\<lambda>v m. m @ [v]" "[]"]
  by (auto simp: postgres_reports_new_def load_list_def append_reports fold_snoc load_file_def [of _ _ _ _ None])

subsection \<open>Transactions\<close>

datatype transaction_op = Received transaction_command | Processed string string | Checkpoint kafka_checkpoint

fun transaction_step :: "transaction_op \<Rightarrow> postgres_transactions \<Rightarrow> postgres_transactions" where
  "transaction_step (Received c) s = pg_save_received c s"
| "transaction_step (Processed i st) s = pg_save_processed i st s"
| "transaction_step (Checkpoint c) s = pg_save_checkpoint c s"

definition transactions_ok :: "postgres_transactions \<Rightarrow> bool" where
  "transactions_ok s \<longleftrightarrow> mirrors transaction_fields (pt_records s) \<and> keyed_inv tr_transaction_id (fb_memory (pt_records s)) \<and>
     mirrors checkpoint_fields (pt_checkpoints s) \<and> keyed_inv own_checkpoint_key (fb_memory (pt_checkpoints s))"

lemma transaction_step_ok: "transactions_ok s \<Longrightarrow> transactions_ok (transaction_step oper s)"
proof (cases oper)
  case (Processed i st)
  assume "transactions_ok s"
  then show ?thesis
    using keyed_inv_lookup [of tr_transaction_id "fb_memory (pt_records s)" i]
    by (auto simp: Processed transactions_ok_def pg_save_processed_def flush_transactions_def Let_def keyed_inv_update split: option.splits)
qed (simp_all add: transactions_ok_def pg_save_received_def pg_save_checkpoint_def flush_transactions_def flush_checkpoints_def keyed_inv_update)

lemma transaction_steps_ok: "transactions_ok s \<Longrightarrow> transactions_ok (fold transaction_step ops s)"
  by (induction ops arbitrary: s) (simp_all add: transaction_step_ok)

lemma keyed_inv_same:
  "keyed_inv key m \<Longrightarrow> keyed_inv key m' \<Longrightarrow> map_of m = map_of m' \<Longrightarrow> snd ` set m = snd ` set m'"
  by (rule set_eqI) (simp only: keyed_inv_entry)

text \<open>A repository opened on the files that another one left behind has the same records and checkpoints.\<close>

lemma transactions_reopen:
  assumes "transactions_ok s" "\<forall>r \<in> set (pg_all_records s). transaction_safe r" "\<forall>c \<in> set (pg_all_checkpoints s). checkpoint_safe c"
  shows "\<exists>s'. postgres_transactions_new (fb_file (pt_records s)) (fb_file (pt_checkpoints s)) = Inr s' \<and>
    (\<forall>i. pg_get_record i s' = pg_get_record i s) \<and> set (pg_all_records s') = set (pg_all_records s) \<and>
    set (pg_all_checkpoints s') = set (pg_all_checkpoints s)"
proof -
  note ok = assms(1) [unfolded transactions_ok_def]
  obtain rs where rs: "load_transactions (fb_file (pt_records s)) = Inr rs" "keyed_inv tr_transaction_id rs" "map_of rs = map_of (fb_memory (pt_records s))"
    using transaction_file.reload_keyed [of "pt_records s"] ok assms(2) by (auto simp: load_transactions_def pg_all_records_def)
  obtain cs where cs: "load_checkpoints (fb_file (pt_checkpoints s)) = Inr cs" "keyed_inv own_checkpoint_key cs" "map_of cs = map_of (fb_memory (pt_checkpoints s))"
    using checkpoint_file.reload_keyed [of "pt_checkpoints s"] ok assms(3) by (auto simp: load_checkpoints_def pg_all_checkpoints_def)
  have "snd ` set rs = snd ` set (fb_memory (pt_records s))" "snd ` set cs = snd ` set (fb_memory (pt_checkpoints s))"
    using ok by (simp_all add: keyed_inv_same [OF rs(2) _ rs(3)] keyed_inv_same [OF cs(2) _ cs(3)])
  then show ?thesis
    using rs(1,3) cs(1)
    by (simp add: postgres_transactions_new_def pg_get_record_def pg_all_records_def pg_all_checkpoints_def)
qed

end
