(* ===== verification/Durable_Recovery.thy ===== *)
theory Durable_Recovery
  imports Recovery Postgres_Files
begin

section \<open>Restart from files\<close>

text \<open>
  The composition of the runtime, the file-backed repositories and the recovery service: a run persists into
  the repositories, the process ends, a new process opens the files, recovers and resumes. The repositories
  of the runtime are in-memory ones in the model; what a file-backed repository holds in memory follows
  them operation by operation, and its file is that memory flushed.
\<close>

abbreviation order_file_of :: "order_repository \<Rightarrow> string option" where
  "order_file_of m \<equiv> fb_file (flush_keyed order_fields \<lparr>fb_memory = m, fb_file = None\<rparr>)"

abbreviation position_file_of :: "(string, position) umap \<Rightarrow> string option" where
  "position_file_of m \<equiv> fb_file (flush_keyed position_fields \<lparr>fb_memory = m, fb_file = None\<rparr>)"

abbreviation balance_file_of :: "(string, balance_snapshot) umap \<Rightarrow> string option" where
  "balance_file_of m \<equiv> fb_file (flush_keyed balance_fields \<lparr>fb_memory = m, fb_file = None\<rparr>)"

text \<open>The repositories of a new process, opened on the files, as the recovery service sees them.\<close>

definition open_stores :: "string option \<Rightarrow> string option \<Rightarrow> string option \<Rightarrow> string option \<Rightarrow> string option \<Rightarrow>
    (string \<rightharpoonup> market_snapshot) \<Rightarrow> transaction_cache \<Rightarrow> load_failure + recovery_stores" where
  "open_stores transactions checkpoints orders positions balances market_cache cache =
     bindE (postgres_transactions_new transactions checkpoints) (\<lambda>t.
     bindE (postgres_orders_new orders) (\<lambda>os.
     bindE (postgres_positions_new positions) (\<lambda>ps.
     bindE (postgres_balances_new balances) (\<lambda>bs.
     Inr \<lparr>rv_transaction_repository = \<lparr>tx_records = pg_all_records t, tx_checkpoints = pg_all_checkpoints t\<rparr>,
       rv_order_repository = fb_memory os, rv_position_repository = fb_memory ps, rv_balance_repository = fb_memory bs,
       rv_market_cache = market_cache, rv_transaction_cache = cache\<rparr>))))"

lemma synced_same:
  "orders_synced m e \<Longrightarrow> keyed_inv or_order_id m' \<Longrightarrow> map_of m' = map_of m \<Longrightarrow> orders_synced m' e"
  "positions_synced ps p \<Longrightarrow> keyed_inv position_key ps' \<Longrightarrow> map_of ps' = map_of ps \<Longrightarrow> positions_synced ps' p"
  "balances_synced bs p \<Longrightarrow> keyed_inv ba_asset bs' \<Longrightarrow> map_of bs' = map_of bs \<Longrightarrow> balances_synced bs' p"
  by (simp_all add: orders_synced_def positions_synced_def balances_synced_def get_order_def get_position_def get_balance_def)

lemma open_files:
  assumes "keyed_inv or_order_id os" "keyed_inv position_key ps" "keyed_inv ba_asset bs"
    and "\<forall>r \<in> snd ` set os. order_safe r" "\<forall>p \<in> snd ` set ps. position_safe p" "\<forall>x \<in> snd ` set bs. balance_safe x"
    and "postgres_transactions_new tf cf = Inr t"
  obtains v where "open_stores tf cf (order_file_of os) (position_file_of ps) (balance_file_of bs) market cache = Inr v"
    "keyed_inv or_order_id (rv_order_repository v)" "map_of (rv_order_repository v) = map_of os"
    "keyed_inv position_key (rv_position_repository v)" "map_of (rv_position_repository v) = map_of ps"
    "keyed_inv ba_asset (rv_balance_repository v)" "map_of (rv_balance_repository v) = map_of bs"
proof -
  obtain os' where os': "load_file 10 order_of_fields (\<lambda>r. AList.update (or_order_id r) r) [] (order_file_of os) = Inr os'"
    "keyed_inv or_order_id os'" "map_of os' = map_of os"
    using order_file.reload_keyed [OF mirrors_flush, of "\<lparr>fb_memory = os, fb_file = None\<rparr>"] assms(1,4) by auto
  obtain ps' where ps': "load_file 12 position_of_fields (\<lambda>p. AList.update (position_key p) p) [] (position_file_of ps) = Inr ps'"
    "keyed_inv position_key ps'" "map_of ps' = map_of ps"
    using position_file.reload_keyed [OF mirrors_flush, of "\<lparr>fb_memory = ps, fb_file = None\<rparr>"] assms(2,5) by auto
  obtain bs' where bs': "load_file 3 balance_of_fields (\<lambda>x. AList.update (ba_asset x) x) [] (balance_file_of bs) = Inr bs'"
    "keyed_inv ba_asset bs'" "map_of bs' = map_of bs"
    using balance_file.reload_keyed [OF mirrors_flush, of "\<lparr>fb_memory = bs, fb_file = None\<rparr>"] assms(3,6) by auto
  show thesis
    using os' ps' bs' assms(7)
    by (intro that [of "\<lparr>rv_transaction_repository = \<lparr>tx_records = pg_all_records t, tx_checkpoints = pg_all_checkpoints t\<rparr>,
        rv_order_repository = os', rv_position_repository = ps', rv_balance_repository = bs', rv_market_cache = market, rv_transaction_cache = cache\<rparr>"])
      (simp_all add: open_stores_def postgres_orders_new_def postgres_positions_new_def postgres_balances_new_def)
qed

text \<open>
  C9. Restart from files: after any run from a first start whose repositories hold records the file formats
  keep (orders and positions with numbers of at most six significant digits, balances that are not subnormal, texts
  without tabs and line ends), a new process that opens the order, position and balance files, recovers and restores into a new
  runtime rebuilds the portfolio the run ended with (balances exactly, positions up to the unrealized
  profit) and an engine that tracks exactly the open orders of the files that can rest.
\<close>

theorem restart_from_files:
  assumes "first_start cfg" "\<forall>event \<in> set events. quotes_finite event"
    and "runtime_run strategy_on_event events (simulation_runtime_new clock risk cfg controls metrics) = Some rt"
    and "rt_order_repository rt = Some os" "rt_position_repository rt = Some ps" "rt_balance_repository rt = Some bs"
    and "\<forall>r \<in> snd ` set os. order_safe r" "\<forall>p \<in> snd ` set ps. position_safe p" "\<forall>x \<in> snd ` set bs. balance_safe x"
    and "postgres_transactions_new tf cf = Inr t"
  shows "\<exists>v. open_stores tf cf (order_file_of os) (position_file_of ps) (balance_file_of bs) market cache = Inr v \<and>
    (let (snapshot, v') = recover snapshots v;
         rt' = restore_runtime (rv_market_cache v') snapshot (simulation_runtime_new clock' risk' cfg' controls' metrics') in
    (\<forall>iid. map_option unmarked (portfolio_get_position iid (rt_portfolio_service rt')) =
       map_option unmarked (portfolio_get_position iid (rt_portfolio_service rt))) \<and>
    (\<forall>a. portfolio_get_balance a (rt_portfolio_service rt') = portfolio_get_balance a (rt_portfolio_service rt)) \<and>
    (\<forall>i x. engine_get_order i (rt_execution_engine rt') = Some x \<longleftrightarrow>
       (\<exists>r. get_order i os = Some r \<and> is_open_status (or_status r) \<and> restorable r \<and> x = reopened r)))"
proof -
  have "runtime_ready rt"
    using runtime_run_ready [OF runtime_ready_new [OF assms(1)], of events clock risk controls metrics] assms(2,3) by auto
  then have sync: "orders_synced os (rt_execution_engine rt)" "positions_synced ps (rt_portfolio_service rt)"
    "balances_synced bs (rt_portfolio_service rt)"
    using assms(4-6) by (simp_all add: runtime_ready_def runtime_sound_def runtime_inv_def)
  then have "keyed_inv or_order_id os" "keyed_inv position_key ps" "keyed_inv ba_asset bs"
    by (simp_all add: orders_synced_def positions_synced_def balances_synced_def)
  from open_files [OF this assms(7-10)] obtain v where
    v: "open_stores tf cf (order_file_of os) (position_file_of ps) (balance_file_of bs) market cache = Inr v"
    "keyed_inv or_order_id (rv_order_repository v)" "map_of (rv_order_repository v) = map_of os"
    "keyed_inv position_key (rv_position_repository v)" "map_of (rv_position_repository v) = map_of ps"
    "keyed_inv ba_asset (rv_balance_repository v)" "map_of (rv_balance_repository v) = map_of bs" .
  obtain snapshot v' where rec: "recover snapshots v = (snapshot, v')" by force
  have get: "get_order i (rv_order_repository v) = get_order i os" for i using v(3) by (simp add: get_order_def)
  show ?thesis
    using restore_synced [OF synced_same(1) [OF sync(1) v(2,3)] synced_same(2) [OF sync(2) v(4,5)] synced_same(3) [OF sync(3) v(6,7)] rec,
        of clock' risk' cfg' controls' metrics']
    by (intro exI [of _ v]) (simp add: v(1) rec get)
qed


lemma sweep_new_book:
  "sweep (best_opposite Buy) p f (order_book_new i) q lg = Some (order_book_new i, q, lg)"
proof -
  have "best_opposite Buy (order_book_new i) = None"
    by (simp add: best_opposite_def best_ask_order_def order_book_new_def front_order_def)
  then show ?thesis by (subst sweep.simps) simp
qed

text \<open>
  A run with a trade: the first event makes the strategy send a buy of 2 at 100, which rests; the second
  event's ask level of 1 at 98 fills half of it.
\<close>

definition sample_signal :: "engine_event list" where
  "sample_signal = [MarketEvent (sample_event\<lparr>me_price := Fin 100, me_quantity := Fin 1, me_ask_levels := []\<rparr>)]"

abbreviation sample_buy :: order_request where
  "sample_buy \<equiv> \<lparr>rq_request_id = strategy_request_id ''s1'' (Suc 0), rq_strategy_id = ''s1'', rq_instrument = sample_instrument,
      rq_side = Buy, rq_type = Limit, rq_quantity = Fin 2, rq_price = Some (Fin 100)\<rparr>"

definition first_resting :: resting_order where
  "first_resting = rested (order_book_new sample_instrument) sample_buy (engine_order_id (Suc 0)) (engine_client_order_id (Suc 0)) 0"

lemma sample_submit:
  "\<exists>e' b. submit sample_buy matching_engine_new =
    Some (\<lparr>xr_order_id = engine_order_id (Suc 0), xr_client_order_id = engine_client_order_id (Suc 0),
      xr_updates = [make_update (engine_order_id (Suc 0)) (engine_client_order_id (Suc 0)) Acknowledged 0 None], xr_fills = []\<rparr>, e') \<and>
    mx_books e' ''BTC-USD'' = Some b \<and> resting_side Buy b = [first_resting] \<and> resting_side Sell b = [] \<and> mx_next_fill_id e' = Suc 0 \<and>
    mx_orders e' = [engine_order_id (Suc 0) \<mapsto> (order_record_of sample_buy (engine_order_id (Suc 0)) (engine_client_order_id (Suc 0)))
      \<lparr>or_status := Acknowledged, or_filled_quantity := 0\<rparr>]"
proof -
  let ?rq = sample_buy
  have comp: "is_request_compatible (order_book_new sample_instrument) ?rq (engine_order_id (Suc 0)) (engine_client_order_id (Suc 0)) 0"
    by (simp add: is_request_compatible_def order_book_new_def double_eval engine_order_id_def engine_client_order_id_def)
  have price: "rq_price ?rq = Some (Fin 100)" by simp
  have num: "\<not> Fin 100 \<le> 0" "\<not> Fin 2 \<le> 0" "\<not> \<bar>0 - Fin 2\<bar> \<le> kQuantityTolerance"
    by (simp_all add: zero_double_def double_diff_Fin)
  have id: "instrument_id sample_instrument = ''BTC-USD''" by (simp add: sample_instrument_def)
  show ?thesis
    by (simp add: submit_def Let_def matching_engine_new_def book_for_def price num sweep_new_book add_order_eq [OF comp price] id)
      (simp add: first_resting_def resting_side_def order_book_new_def set_order_status_def set_order_filled_def std_max_def double_diff_Fin zero_double_def)
qed

lemma sample_signal_run:
  "\<exists>rt b mr. runtime_run strategy_on_event sample_signal (simulation_runtime_new (\<lambda>_. 0) sample_risk sample_runtime_config None None) = Some rt \<and>
     rt_order_repository rt = Some [(engine_order_id (Suc 0), mr)] \<and> rt_position_repository rt = Some [] \<and> rt_balance_repository rt = Some [] \<and>
     mr = (order_record_of sample_buy (engine_order_id (Suc 0)) (engine_client_order_id (Suc 0)))\<lparr>or_status := Acknowledged, or_filled_quantity := 0\<rparr> \<and>
     rt_portfolio_service rt = set_mark_price ''BTC-USD'' (Fin 100) portfolio_service_new \<and>
     (\<forall>ctx. fst (coordinator_on_event strategy_on_event (MarketEvent sample_event) ctx (rt_strategy_coordinator rt)) = []) \<and>
     mx_books (rt_execution_engine rt) ''BTC-USD'' = Some b \<and> resting_side Buy b = [first_resting] \<and> resting_side Sell b = [] \<and>
     mx_next_fill_id (rt_execution_engine rt) = Suc 0 \<and> mx_orders (rt_execution_engine rt) = [engine_order_id (Suc 0) \<mapsto> mr]"
proof -
  obtain e' b where e': "submit sample_buy matching_engine_new =
    Some (\<lparr>xr_order_id = engine_order_id (Suc 0), xr_client_order_id = engine_client_order_id (Suc 0),
      xr_updates = [make_update (engine_order_id (Suc 0)) (engine_client_order_id (Suc 0)) Acknowledged 0 None], xr_fills = []\<rparr>, e')"
    and b: "mx_books e' ''BTC-USD'' = Some b" "resting_side Buy b = [first_resting]" "resting_side Sell b = []" "mx_next_fill_id e' = Suc 0"
    "mx_orders e' = [engine_order_id (Suc 0) \<mapsto> (order_record_of sample_buy (engine_order_id (Suc 0)) (engine_client_order_id (Suc 0)))
      \<lparr>or_status := Acknowledged, or_filled_quantity := 0\<rparr>]"
    using sample_submit by (elim exE conjE) (rule that)
  have id: "engine_order_id (Suc 0) \<noteq> []" by (simp add: engine_order_id_def)
  show ?thesis
    by (simp add: sample_signal_def simulation_runtime_new_def sample_runtime_config_def on_event_def now_ms_def handle_market_event_def
        sample_event_def persist_market_snapshot_def process_market_event_def handle_execution_result_def Let_def
        portfolio_all_positions_def portfolio_all_balances_def portfolio_service_new_def set_mark_price_def
        add_strategy_def sample_threshold_new_def market_apply_def market_get_def
        should_emit_for_trade_price_def st_build_order_request_def slot_on_event_def sample_instrument_def
        zero_double_def default_instrument_def default_market_state_def default_stats_def matching_engine_new_def,
      simp add: handle_request_def now_ms_def trading_paused_def evaluate_def sample_risk_def is_stale_def market_get_def
        resolve_reference_price_def zero_double_def finish_event_def runtime_latency_def runtime_count_def
        e' [unfolded sample_instrument_def matching_engine_new_def One_nat_def],
      simp add: persist_new_order_def id handle_execution_result_def save_order_def get_order_def save_order_update_def make_update_def
        order_record_of_def portfolio_all_positions_def portfolio_all_balances_def
        b(1-4), simp add: b(5) zero_double_def slot_on_event_def order_record_of_def sample_instrument_def fun_eq_iff)
qed

lemma first_resting_sel: "ro_order_id first_resting = engine_order_id (Suc 0)" "ro_request first_resting = sample_buy"
  "ro_remaining_quantity first_resting = Fin 2"
  by (simp_all add: first_resting_def rested_def std_max_def double_diff_Fin zero_double_def)

lemma sample_second_matches:
  "match_levels buy_reaches (me_ask_levels sample_event) [first_resting] =
     ([(\<lparr>bl_price = Fin 98, bl_quantity = Fin 1\<rparr>, first_resting, Fin 1)], [first_resting\<lparr>ro_remaining_quantity := Fin 1\<rparr>])"
  "match_levels sell_reaches (me_bid_levels sample_event) [] = ([], [])"
  by (simp_all add: sample_event_def buy_reaches_def first_resting_sel after_fill_def filled_remaining_def double_eval)

definition sample_match_fill :: fill_event where
  "sample_match_fill = match_fill (Suc 0) (engine_order_id (Suc 0)) sample_instrument Buy (Fin 98) (Fin 1)"

lemma sample_second_run:
  "\<exists>rt mr. runtime_run strategy_on_event (sample_signal @ [MarketEvent sample_event]) (simulation_runtime_new (\<lambda>_. 0) sample_risk sample_runtime_config None None) = Some rt \<and>
     rt_order_repository rt = Some [(engine_order_id (Suc 0), mr)] \<and>
     mr = (order_record_of sample_buy (engine_order_id (Suc 0)) (engine_client_order_id (Suc 0)))\<lparr>or_status := Partially_filled, or_filled_quantity := Fin 1\<rparr> \<and>
     rt_position_repository rt = Some (fold save_position (portfolio_all_positions (rt_portfolio_service rt)) []) \<and>
     rt_balance_repository rt = Some (fold save_balance (portfolio_all_balances (rt_portfolio_service rt)) []) \<and>
     rt_portfolio_service rt = portfolio_apply_fill sample_match_fill (set_mark_price ''BTC-USD'' (Fin 100) portfolio_service_new)"
proof -
  let ?new = "simulation_runtime_new (\<lambda>_. 0) sample_risk sample_runtime_config None None"
  obtain rt b mr where rt: "runtime_run strategy_on_event sample_signal ?new = Some rt" "rt_order_repository rt = Some [(engine_order_id (Suc 0), mr)]"
     "rt_position_repository rt = Some []" "rt_balance_repository rt = Some []"
     "mr = (order_record_of sample_buy (engine_order_id (Suc 0)) (engine_client_order_id (Suc 0)))\<lparr>or_status := Acknowledged, or_filled_quantity := 0\<rparr>"
     "rt_portfolio_service rt = set_mark_price ''BTC-USD'' (Fin 100) portfolio_service_new"
    and quiet: "\<forall>ctx. fst (coordinator_on_event strategy_on_event (MarketEvent sample_event) ctx (rt_strategy_coordinator rt)) = []"
    and e: "mx_books (rt_execution_engine rt) ''BTC-USD'' = Some b" "resting_side Buy b = [first_resting]" "resting_side Sell b = []"
     "mx_next_fill_id (rt_execution_engine rt) = Suc 0" "mx_orders (rt_execution_engine rt) = [engine_order_id (Suc 0) \<mapsto> mr]"
    using sample_signal_run by (elim exE conjE) (rule that)
  have "\<forall>event \<in> set sample_signal. quotes_finite event"
    by (simp add: sample_signal_def quotes_finite_def sample_event_def)
  from runtime_run_ready [OF runtime_ready_new [OF sample_runtime_ok(1)] this, of "\<lambda>_. 0" sample_risk None None] rt(1)
  have inv: "engine_inv (rt_execution_engine rt)" by (auto simp: runtime_ready_def runtime_sound_def runtime_inv_def)
  have i: "instrument_id (me_instrument sample_event) = ''BTC-USD''" by (simp add: sample_event_def sample_instrument_def)
  let ?mr = "mr\<lparr>or_status := Partially_filled, or_filled_quantity := Fin 1\<rparr>"
  have orders: "apply_fill_to_order (engine_order_id (Suc 0)) (Fin 1) (mx_orders (rt_execution_engine rt)) = [engine_order_id (Suc 0) \<mapsto> ?mr]"
    by (simp add: e(5) first_resting_sel apply_fill_to_order_def Let_def rt(5) order_record_of_def double_eval zero_double_def
        numeral_minus_tolerance(2) [of "num.Bit0 num.One" 1, simplified])
  have mr: "or_order_id mr = engine_order_id (Suc 0)" "or_client_order_id mr = engine_client_order_id (Suc 0)"
    by (simp_all add: rt(5) order_record_of_def)
  obtain engine where pm: "process_market_event sample_event (rt_execution_engine rt) = Some
    (\<lparr>xr_order_id = [], xr_client_order_id = [], xr_updates = [make_update (engine_order_id (Suc 0)) (engine_client_order_id (Suc 0)) Partially_filled (Fin 1) None],
      xr_fills = [sample_match_fill]\<rparr>, engine)"
    using process_market_event_eq [OF inv e(1) [folded i] sample_second_matches(1) [folded e(2)] sample_second_matches(2) [folded e(3)]]
    by (auto simp: e(4) orders first_resting_sel sort_unique_def append_order_update_def mr market_fills_def sample_match_fill_def sample_instrument_def)
  obtain rt' where second: "on_event strategy_on_event (MarketEvent sample_event) rt = Some rt'"
    "rt_order_repository rt' = Some [(engine_order_id (Suc 0), ?mr)]"
    "rt_position_repository rt' = Some (fold save_position (portfolio_all_positions (rt_portfolio_service rt')) [])"
    "rt_balance_repository rt' = Some (fold save_balance (portfolio_all_balances (rt_portfolio_service rt')) [])"
    "rt_portfolio_service rt' = portfolio_apply_fill sample_match_fill (set_mark_price ''BTC-USD'' (Fin 100) portfolio_service_new)"
  proof -
    have price: "\<not> 0 < me_price sample_event" by (simp add: sample_event_def)
    have save: "save_order_update (make_update (engine_order_id (Suc 0)) (engine_client_order_id (Suc 0)) Partially_filled (Fin 1) None)
      [(engine_order_id (Suc 0), mr)] = [(engine_order_id (Suc 0), ?mr)]"
      by (simp add: save_order_update_def get_order_def make_update_def rt(5) order_record_of_def)
    have q: "me_price sample_event = 0" "me_quantity sample_event = 0" by (simp_all add: sample_event_def)
    have "\<exists>rt1. handle_market_event sample_event (snd (now_ms rt)) = Some rt1 \<and> rt_strategy_coordinator rt1 = rt_strategy_coordinator rt \<and>
      rt_order_repository rt1 = Some [(engine_order_id (Suc 0), ?mr)] \<and>
      rt_position_repository rt1 = Some (fold save_position (portfolio_all_positions (rt_portfolio_service rt1)) []) \<and>
      rt_balance_repository rt1 = Some (fold save_balance (portfolio_all_balances (rt_portfolio_service rt1)) []) \<and>
      rt_portfolio_service rt1 = portfolio_apply_fill sample_match_fill (set_mark_price ''BTC-USD'' (Fin 100) portfolio_service_new)"
      by (simp add: handle_market_event_def now_ms_def Let_def persist_market_snapshot_def pm q)
        (simp add: handle_execution_result_def Let_def runtime_apply_fill_def runtime_count_def rt(2-4,6) save)
    then obtain rt1 where h: "handle_market_event sample_event (snd (now_ms rt)) = Some rt1" "rt_strategy_coordinator rt1 = rt_strategy_coordinator rt"
      and r: "rt_order_repository rt1 = Some [(engine_order_id (Suc 0), ?mr)]"
      "rt_position_repository rt1 = Some (fold save_position (portfolio_all_positions (rt_portfolio_service rt1)) [])"
      "rt_balance_repository rt1 = Some (fold save_balance (portfolio_all_balances (rt_portfolio_service rt1)) [])"
      "rt_portfolio_service rt1 = portfolio_apply_fill sample_match_fill (set_mark_price ''BTC-USD'' (Fin 100) portfolio_service_new)" by blast
    define slots where "slots = snd (coordinator_on_event strategy_on_event (MarketEvent sample_event)
      \<lparr>sx_market_state_store = rt_market_state_store rt1, sx_now_ms = rt_clock rt1 (rt_clock_reads rt1)\<rparr> (rt_strategy_coordinator rt))"
    let ?rt2 = "finish_event (MarketEvent sample_event) (fst (now_ms rt)) (rt1\<lparr>rt_strategy_coordinator := slots\<rparr>)"
    have "on_event strategy_on_event (MarketEvent sample_event) rt = Some ?rt2"
      by (simp add: on_event_def case_prod_beta h quiet slots_def)
    moreover have "observed ?rt2 = observed (rt1\<lparr>rt_strategy_coordinator := slots\<rparr>)" by simp
    note o = observed_eqD [OF this]
    ultimately show thesis using r by (intro that [of ?rt2]) (simp_all add: o)
  qed
  have "runtime_run strategy_on_event (sample_signal @ [MarketEvent sample_event]) ?new = Some rt'"
    using rt(1) second(1) by (auto simp: sample_signal_def split: option.splits)
  then show ?thesis
    using second(2-5) by (intro exI [of _ rt'] exI [of _ ?mr]) (simp add: rt(5))
qed

definition sample_filled_position :: position where
  "sample_filled_position = \<lparr>po_position_id = ''position-BTC-USD'', po_instrument = sample_instrument, po_net_quantity = Fin 1,
     po_average_entry_price = Fin 98, po_realized_pnl = 0, po_unrealized_pnl = Fin 2\<rparr>"

definition sample_filled_positions :: "(string, position) umap" where
  "sample_filled_positions = [(''BTC-USD'', sample_filled_position)]"

definition sample_filled_balances :: "(string, balance_snapshot) umap" where
  "sample_filled_balances = [(''BTC'', \<lparr>ba_asset = ''BTC'', ba_total_balance = Fin 1, ba_available_balance = Fin 1\<rparr>),
     (''USD'', \<lparr>ba_asset = ''USD'', ba_total_balance = Fin (- 98), ba_available_balance = Fin (- 98)\<rparr>)]"

lemma sample_filled_portfolio:
  "pf_positions (portfolio_apply_fill sample_match_fill (set_mark_price ''BTC-USD'' (Fin 100) portfolio_service_new)) = sample_filled_positions"
  "pf_balances (portfolio_apply_fill sample_match_fill (set_mark_price ''BTC-USD'' (Fin 100) portfolio_service_new)) = sample_filled_balances"
  by (simp add: portfolio_apply_fill_def portfolio_service_new_def set_mark_price_def Let_def sample_match_fill_def match_fill_def sample_instrument_def
      apply_fill_to_position_def default_position_def signed_quantity_def double_eq_def double_eval update_unrealized_def
      sample_filled_position_def sample_filled_positions_def)
    (simp add: portfolio_apply_fill_def portfolio_service_new_def set_mark_price_def Let_def sample_match_fill_def match_fill_def sample_instrument_def
      apply_fill_to_balances_def upd_balance_def balance_entry_def default_balance_def double_eval sample_filled_balances_def)

lemma sample_filled:
  "fold save_position (portfolio_all_positions (portfolio_apply_fill sample_match_fill (set_mark_price ''BTC-USD'' (Fin 100) portfolio_service_new))) [] =
    sample_filled_positions"
  "fold save_balance (portfolio_all_balances (portfolio_apply_fill sample_match_fill (set_mark_price ''BTC-USD'' (Fin 100) portfolio_service_new))) [] =
    sample_filled_balances"
  by (simp_all add: portfolio_all_positions_def portfolio_all_balances_def sample_filled_portfolio sample_filled_positions_def sample_filled_balances_def
      save_position_def save_balance_def sample_filled_position_def sample_instrument_def)

lemma sample_filled_safe:
  "position_safe sample_filled_position"
  "balance_safe \<lparr>ba_asset = ''BTC'', ba_total_balance = Fin 1, ba_available_balance = Fin 1\<rparr>"
  "balance_safe \<lparr>ba_asset = ''USD'', ba_total_balance = Fin (- 98), ba_available_balance = Fin (- 98)\<rparr>"
  "order_safe ((order_record_of sample_buy (engine_order_id (Suc 0)) (engine_client_order_id (Suc 0)))\<lparr>or_status := Partially_filled, or_filled_quantity := Fin 1\<rparr>)"
proof -
  have one: "six_digit_decimal (Fin 1)" using six_digit_nat [of 1] by simp
  then show "position_safe sample_filled_position"
    by (simp add: position_safe_def sample_filled_position_def instrument_safe_def sample_instrument_def text_safe_def six_digit_numeral one_double_def)
  have "valid_double (Fin 1)" "valid_double (Fin (- 98))"
    using valid_to_double [of 1] valid_to_double [of "- 98"] by (simp_all del: valid_to_double)
  then show "balance_safe \<lparr>ba_asset = ''BTC'', ba_total_balance = Fin 1, ba_available_balance = Fin 1\<rparr>"
    "balance_safe \<lparr>ba_asset = ''USD'', ba_total_balance = Fin (- 98), ba_available_balance = Fin (- 98)\<rparr>"
    by (simp_all add: balance_safe_def text_safe_def normal_double_def)
  have "text_safe (engine_order_id (Suc 0))" "text_safe (engine_client_order_id (Suc 0))"
    by (simp_all add: engine_order_id_def engine_client_order_id_def show_nat_one text_safe_def)
  have "six_decimals (Fin 100)"
  proof -
    have "rnd64 (of_int 100 * 2 powi 0) = of_int 100 * 2 powi 0" by (rule rnd64_grid) simp_all
    then show ?thesis by (auto simp: six_decimals_def intro!: exI [of _ "10 ^ 8"])
  qed
  then show "order_safe ((order_record_of sample_buy (engine_order_id (Suc 0)) (engine_client_order_id (Suc 0)))\<lparr>or_status := Partially_filled, or_filled_quantity := Fin 1\<rparr>)"
    using \<open>text_safe (engine_order_id (Suc 0))\<close> \<open>text_safe (engine_client_order_id (Suc 0))\<close> one
    by (simp add: order_safe_def order_record_of_def quote_safe_def six_digit_numeral sample_instrument_def text_safe_def)
qed

theorem restart_from_files_witness:
  "\<exists>rt os v. runtime_run strategy_on_event (sample_signal @ [MarketEvent sample_event])
       (simulation_runtime_new (\<lambda>_. 0) sample_risk sample_runtime_config None None) = Some rt \<and>
     rt_order_repository rt = Some os \<and> rt_position_repository rt = Some sample_filled_positions \<and>
     rt_balance_repository rt = Some sample_filled_balances \<and>
     open_stores None None (order_file_of os) (position_file_of sample_filled_positions) (balance_file_of sample_filled_balances) Map.empty [] = Inr v \<and>
     (let rt' = restore_runtime (rv_market_cache (snd (recover [] v))) (fst (recover [] v))
       (simulation_runtime_new (\<lambda>_. 0) sample_risk sample_runtime_config None None) in
      map_option unmarked (portfolio_get_position ''BTC-USD'' (rt_portfolio_service rt')) = Some (unmarked sample_filled_position) \<and>
      ba_total_balance (portfolio_get_balance ''USD'' (rt_portfolio_service rt')) = Fin (- 98) \<and>
      (\<exists>x. engine_get_order (engine_order_id (Suc 0)) (rt_execution_engine rt') = Some x))"
proof -
  let ?events = "sample_signal @ [MarketEvent sample_event]" and ?new = "simulation_runtime_new (\<lambda>_. 0) sample_risk sample_runtime_config None None"
  obtain rt r where run: "runtime_run strategy_on_event ?events ?new = Some rt" "rt_order_repository rt = Some [(engine_order_id (Suc 0), r)]"
    and r: "r = (order_record_of sample_buy (engine_order_id (Suc 0)) (engine_client_order_id (Suc 0)))\<lparr>or_status := Partially_filled, or_filled_quantity := Fin 1\<rparr>"
    and repos: "rt_position_repository rt = Some (fold save_position (portfolio_all_positions (rt_portfolio_service rt)) [])"
     "rt_balance_repository rt = Some (fold save_balance (portfolio_all_balances (rt_portfolio_service rt)) [])"
     "rt_portfolio_service rt = portfolio_apply_fill sample_match_fill (set_mark_price ''BTC-USD'' (Fin 100) portfolio_service_new)"
    using sample_second_run by (elim exE conjE) (rule that)
  have saved: "rt_position_repository rt = Some sample_filled_positions" "rt_balance_repository rt = Some sample_filled_balances"
    using repos(1,2) unfolding repos(3) sample_filled by simp_all
  have held: "portfolio_get_position ''BTC-USD'' (rt_portfolio_service rt) = Some sample_filled_position"
    "ba_total_balance (portfolio_get_balance ''USD'' (rt_portfolio_service rt)) = Fin (- 98)"
    unfolding repos(3) by (simp_all add: portfolio_get_position_def portfolio_get_balance_def sample_filled_portfolio sample_filled_positions_def sample_filled_balances_def)
  have quotes: "\<forall>event \<in> set ?events. quotes_finite event"
    by (simp add: sample_signal_def quotes_finite_def sample_event_def)
  have new: "postgres_transactions_new None None =
      Inr \<lparr>pt_records = \<lparr>fb_memory = [], fb_file = None\<rparr>, pt_checkpoints = \<lparr>fb_memory = [], fb_file = None\<rparr>\<rparr>"
    by (simp add: postgres_transactions_new_def load_transactions_def load_checkpoints_def load_file_def)
  have safe: "\<forall>r' \<in> snd ` set [(engine_order_id (Suc 0), r)]. order_safe r'" "\<forall>p \<in> snd ` set sample_filled_positions. position_safe p"
    "\<forall>x \<in> snd ` set sample_filled_balances. balance_safe x"
    using sample_filled_safe by (simp_all add: r sample_filled_positions_def sample_filled_balances_def)
  have open_order: "get_order (engine_order_id (Suc 0)) [(engine_order_id (Suc 0), r)] = Some r \<and> is_open_status (or_status r) \<and> restorable r"
    by (simp add: get_order_def r restorable_def order_record_of_def double_eval
        numeral_minus_tolerance(2) [of "num.Bit0 num.One" 1, simplified])
  from restart_from_files [OF sample_runtime_ok(1) quotes run saved safe new, where market = Map.empty and cache = "[]" and snapshots = "[]"
      and clock' = "\<lambda>_. 0" and risk' = sample_risk and cfg' = sample_runtime_config and controls' = None and metrics' = None]
  obtain v where v: "open_stores None None (order_file_of [(engine_order_id (Suc 0), r)]) (position_file_of sample_filled_positions)
      (balance_file_of sample_filled_balances) Map.empty [] = Inr v"
    and v': "let (snapshot, v') = recover [] v; rt' = restore_runtime (rv_market_cache v') snapshot ?new in
      (\<forall>iid. map_option unmarked (portfolio_get_position iid (rt_portfolio_service rt')) =
         map_option unmarked (portfolio_get_position iid (rt_portfolio_service rt))) \<and>
      (\<forall>a. portfolio_get_balance a (rt_portfolio_service rt') = portfolio_get_balance a (rt_portfolio_service rt)) \<and>
      (\<forall>i x. engine_get_order i (rt_execution_engine rt') = Some x \<longleftrightarrow>
        (\<exists>r'. get_order i [(engine_order_id (Suc 0), r)] = Some r' \<and> is_open_status (or_status r') \<and> restorable r' \<and> x = reopened r'))"
    by blast
  let ?rt = "restore_runtime (rv_market_cache (snd (recover [] v))) (fst (recover [] v)) ?new"
  note restored = v' [unfolded Let_def case_prod_beta]
  have "map_option unmarked (portfolio_get_position ''BTC-USD'' (rt_portfolio_service ?rt)) = Some (unmarked sample_filled_position)"
    using restored held(1) by (metis option.simps(9))
  moreover have "ba_total_balance (portfolio_get_balance ''USD'' (rt_portfolio_service ?rt)) = Fin (- 98)"
    using restored held(2) by metis
  moreover have "\<exists>x. engine_get_order (engine_order_id (Suc 0)) (rt_execution_engine ?rt) = Some x"
    using restored open_order by blast
  ultimately show ?thesis
    unfolding Let_def using run saved v by blast
qed

end
