(* ===== verification/Drivers.thy ===== *)
theory Drivers
  imports Record_Files Actions
begin

section \<open>Calls into client libraries\<close>

text \<open>
  The Redis, PostgreSQL and Kafka adapters call C libraries: a call may throw, with a message or because a
  value does not convert, and it changes the state behind the connection. \<open>call\<close> keeps the reason of the
  exception, as loading a file does; strings cross the interface as C strings, which end at the first NUL character.
\<close>

type_synonym ('a, 's) call = "'s \<Rightarrow> (load_failure + 'a) \<times> 's"

abbreviation runtime_error :: "string \<Rightarrow> load_failure" where
  "runtime_error message \<equiv> Throws (Runtime_error message)"

definition retC :: "'a \<Rightarrow> ('a, 's) call" where
  "retC a s = (Inr a, s)"

definition bindC :: "('a, 's) call \<Rightarrow> ('a \<Rightarrow> ('b, 's) call) \<Rightarrow> ('b, 's) call" where
  "bindC m f s = (case m s of (Inl e, s') \<Rightarrow> (Inl e, s') | (Inr a, s') \<Rightarrow> f a s')"

definition reading :: "load_failure + 'a \<Rightarrow> ('a, 's) call" where
  "reading r s = (r, s)"

text \<open>A call on a part of the state, and a call for each element of a list.\<close>

definition at_field :: "('s \<Rightarrow> 'c) \<Rightarrow> ('c \<Rightarrow> 's \<Rightarrow> 's) \<Rightarrow> ('a, 'c) call \<Rightarrow> ('a, 's) call" where
  "at_field get put m s = (case m (get s) of (r, c) \<Rightarrow> (r, put c s))"

fun run_all :: "('o \<Rightarrow> (unit, 'p) call) \<Rightarrow> 'o list \<Rightarrow> (unit, 'p) call" where
  "run_all step [] = retC ()"
| "run_all step (x # xs) = bindC (step x) (\<lambda>_. run_all step xs)"

lemmas call_defs = retC_def bindC_def reading_def

lemma run_all_simulates:
  assumes "\<And>p m x. R p m \<Longrightarrow> ok x \<Longrightarrow> \<exists>p'. step x p = (Inr (), p') \<and> R p' (f x m)"
  shows "R p m \<Longrightarrow> list_all ok xs \<Longrightarrow> \<exists>p'. run_all step xs p = (Inr (), p') \<and> R p' (fold f xs m)"
proof (induction xs arbitrary: p m)
  case (Cons x xs)
  obtain p1 where "step x p = (Inr (), p1)" "R p1 (f x m)" using assms [OF Cons.prems(1)] Cons.prems(2) by auto
  then show ?case using Cons.IH [of p1 "f x m"] Cons.prems(2) by (auto simp: bindC_def)
qed (simp add: retC_def)

definition c_str :: "string \<Rightarrow> string" where
  "c_str s = takeWhile (\<lambda>c. c \<noteq> CHR 0x00) s"

definition nul_free :: "string \<Rightarrow> bool" where
  "nul_free s \<longleftrightarrow> CHR 0x00 \<notin> set s"

lemma c_str_nul_free [simp]: "nul_free s \<Longrightarrow> c_str s = s"
  by (auto simp: c_str_def nul_free_def takeWhile_eq_all_conv)

lemma nul_free_c_str: "nul_free (c_str s)"
  by (auto simp: c_str_def nul_free_def dest: set_takeWhileD)

lemma nul_free_append [simp]: "nul_free (s @ t) \<longleftrightarrow> nul_free s \<and> nul_free t"
  by (auto simp: nul_free_def)

lemma nul_free_Nil [simp]: "nul_free []"
  by (simp add: nul_free_def)

lemma nul_free_Cons [simp]: "nul_free (c # s) \<longleftrightarrow> c \<noteq> CHR 0x00 \<and> nul_free s"
  by (auto simp: nul_free_def)

lemma digit_not_nul: "is_digit c \<Longrightarrow> c \<noteq> CHR 0x00"
  by (auto simp: is_digit_def)

lemma nul_free_show_nat [simp]: "nul_free (show_nat n)"
  unfolding nul_free_def using show_nat_digits [of "CHR 0x00" n] digit_not_nul by blast

lemma nul_free_show_int [simp]: "nul_free (show_int i)"
  by (simp add: show_int_def)

lemma nul_free_replicate [simp]: "c \<noteq> CHR 0x00 \<Longrightarrow> nul_free (replicate n c)"
  by (simp add: nul_free_def)

lemma nul_free_to_string_double [simp]: "nul_free (to_string_double x)"
  by (cases x) (auto simp: show_fixed6_def Let_def)

lemma nul_free_encode [simp]: "nul_free (encode_optional_double v)"
  by (simp add: encode_optional_double_def split: option.split)

end
