(* ===== verification/Redis_Cache.thy ===== *)
theory Redis_Cache
  imports Drivers Actions App_Config
begin

section \<open>Redis caches\<close>

text \<open>
  \<open>src/infrastructure/redis_cache.cpp\<close>: the two in-memory caches and the two that talk to a server
  through hiredis. The library and the server behind it are a parameter, the record \<open>hiredis\<close>:
  \<open>redisConnect\<close>, the \<open>err\<close> and \<open>errstr\<close> fields of the context, and \<open>redisCommand\<close> with its format string and
  arguments. A reply has the fields of \<open>redisReply\<close> the code reads; a null pointer is \<open>None\<close>, and \<open>str\<close> is the
  C string it points to.
\<close>

subsection \<open>In memory\<close>

type_synonym redis_transaction_cache = "string \<rightharpoonup> string"

definition redis_set_status :: "string \<Rightarrow> string \<Rightarrow> redis_transaction_cache \<Rightarrow> redis_transaction_cache" where
  "redis_set_status transaction_id status statuses = statuses(transaction_id \<mapsto> status)"

definition redis_get_status :: "string \<Rightarrow> redis_transaction_cache \<Rightarrow> string" where
  "redis_get_status transaction_id statuses = (case statuses transaction_id of Some status \<Rightarrow> status | None \<Rightarrow> [])"

type_synonym redis_market_state_cache = "string \<rightharpoonup> market_snapshot"

definition redis_upsert_snapshot :: "market_snapshot \<Rightarrow> redis_market_state_cache \<Rightarrow> redis_market_state_cache" where
  "redis_upsert_snapshot snapshot snapshots = snapshots(ms_instrument_id snapshot \<mapsto> snapshot)"

definition redis_get_snapshot :: "string \<Rightarrow> redis_market_state_cache \<Rightarrow> market_snapshot option" where
  "redis_get_snapshot iid snapshots = (case snapshots iid of Some snapshot \<Rightarrow> Some snapshot | None \<Rightarrow> None)"

subsection \<open>The client library\<close>

datatype redis_reply_type = REDIS_REPLY_STRING | REDIS_REPLY_ARRAY | REDIS_REPLY_INTEGER | REDIS_REPLY_NIL | REDIS_REPLY_STATUS | REDIS_REPLY_ERROR

datatype redis_reply = Redis_reply (reply_type: redis_reply_type) (reply_str: "string option") (reply_element: "redis_reply option list")

datatype redis_arg = Str_arg string | Lld_arg int64

record 'r hiredis =
  hr_connect :: "string \<Rightarrow> int \<Rightarrow> 'r option"
  hr_err :: "'r \<Rightarrow> int"
  hr_errstr :: "'r \<Rightarrow> string"
  hr_command :: "string \<Rightarrow> redis_arg list \<Rightarrow> (redis_reply, 'r) action"

definition decode_optional_double_reply :: "redis_reply option \<Rightarrow> load_failure + double option" where
  "decode_optional_double_reply reply =
     (case reply of None \<Rightarrow> Inr None
      | Some r \<Rightarrow>
        if reply_type r = REDIS_REPLY_NIL \<or> reply_str r = None \<or> reply_str r = Some [] then Inr None
        else throwing (map_sum id Some (stod (the (reply_str r)))))"

definition transaction_status_key :: "string \<Rightarrow> string" where
  "transaction_status_key transaction_id = ''wall:transaction_status:'' @ transaction_id"

definition market_snapshot_key :: "string \<Rightarrow> string" where
  "market_snapshot_key iid = ''wall:market_snapshot:'' @ iid"

definition ensure_reply_ok :: "string \<Rightarrow> redis_reply option \<Rightarrow> string \<Rightarrow> load_failure + redis_reply" where
  "ensure_reply_ok errstr reply command_name =
     (case reply of None \<Rightarrow> Inl (runtime_error (''Redis command failed for '' @ command_name @ '': '' @ errstr))
      | Some r \<Rightarrow>
        if reply_type r = REDIS_REPLY_ERROR
        then Inl (runtime_error (''Redis command failed for '' @ command_name @ '': '' @
               (case reply_str r of None \<Rightarrow> ''unknown redis error'' | Some message \<Rightarrow> message)))
        else Inr r)"

definition redis_connection :: "'r hiredis \<Rightarrow> redis_config \<Rightarrow> load_failure + 'r" where
  "redis_connection api config =
     (case hr_connect api (c_str (rd_host config)) (rd_port config) of
        None \<Rightarrow> Inl (runtime_error ''failed to connect to Redis: null connection'')
      | Some ctx \<Rightarrow> if hr_err api ctx \<noteq> 0 then Inl (runtime_error (''failed to connect to Redis: '' @ hr_errstr api ctx)) else Inr ctx)"

text \<open>\<open>redisCommand\<close> followed by \<open>ensure_reply_ok\<close>, as every operation below starts.\<close>

definition redis_call :: "'r hiredis \<Rightarrow> string \<Rightarrow> string \<Rightarrow> redis_arg list \<Rightarrow> (redis_reply, 'r) call" where
  "redis_call api command_name format args ctx =
     (case hr_command api format args ctx of (reply, ctx') \<Rightarrow> (ensure_reply_ok (hr_errstr api ctx') reply command_name, ctx'))"

subsection \<open>Over the connection\<close>

definition hiredis_set_status :: "'r hiredis \<Rightarrow> string \<Rightarrow> string \<Rightarrow> (unit, 'r) call" where
  "hiredis_set_status api transaction_id status =
     bindC (redis_call api ''SET'' ''SET %s %s'' [Str_arg (c_str (transaction_status_key transaction_id)), Str_arg (c_str status)]) (\<lambda>_. retC ())"

definition hiredis_get_status :: "'r hiredis \<Rightarrow> string \<Rightarrow> (string, 'r) call" where
  "hiredis_get_status api transaction_id =
     bindC (redis_call api ''GET'' ''GET %s'' [Str_arg (c_str (transaction_status_key transaction_id))]) (\<lambda>reply.
     retC (case reply_str reply of Some s \<Rightarrow> if reply_type reply = REDIS_REPLY_STRING then s else [] | None \<Rightarrow> []))"

definition hset_format :: string where
  "hset_format = ''HSET %s best_bid %s best_ask %s last_trade_price %s last_trade_quantity %s last_process_timestamp %lld''"

definition hiredis_upsert_snapshot :: "'r hiredis \<Rightarrow> market_snapshot \<Rightarrow> (unit, 'r) call" where
  "hiredis_upsert_snapshot api snapshot =
     bindC (redis_call api ''HSET'' hset_format
       [Str_arg (c_str (market_snapshot_key (ms_instrument_id snapshot))),
        Str_arg (c_str (encode_optional_double (ms_best_bid snapshot))),
        Str_arg (c_str (encode_optional_double (ms_best_ask snapshot))),
        Str_arg (c_str (encode_optional_double (ms_last_trade_price snapshot))),
        Str_arg (c_str (encode_optional_double (ms_last_trade_quantity snapshot))),
        Lld_arg (ms_last_process_timestamp snapshot)]) (\<lambda>_. retC ())"

definition hmget_format :: string where
  "hmget_format = ''HMGET %s best_bid best_ask last_trade_price last_trade_quantity last_process_timestamp''"

definition snapshot_of_reply :: "string \<Rightarrow> redis_reply \<Rightarrow> load_failure + market_snapshot option" where
  "snapshot_of_reply iid reply =
     (if reply_type reply \<noteq> REDIS_REPLY_ARRAY \<or> length (reply_element reply) \<noteq> 5 then Inr None
      else case reply_element reply ! 4 of None \<Rightarrow> Inr None
      | Some timestamp_reply \<Rightarrow>
        if reply_type timestamp_reply = REDIS_REPLY_NIL then Inr None
        else (case reply_str timestamp_reply of None \<Rightarrow> Inr None
        | Some timestamp \<Rightarrow>
          bindE (decode_optional_double_reply (reply_element reply ! 0)) (\<lambda>best_bid.
          bindE (decode_optional_double_reply (reply_element reply ! 1)) (\<lambda>best_ask.
          bindE (decode_optional_double_reply (reply_element reply ! 2)) (\<lambda>last_trade_price.
          bindE (decode_optional_double_reply (reply_element reply ! 3)) (\<lambda>last_trade_quantity.
          bindE (throwing (stoll timestamp)) (\<lambda>last_process_timestamp.
          Inr (Some \<lparr>ms_instrument_id = iid, ms_best_bid = best_bid, ms_best_ask = best_ask, ms_last_trade_price = last_trade_price,
                ms_last_trade_quantity = last_trade_quantity, ms_last_process_timestamp = last_process_timestamp\<rparr>))))))))"

definition hiredis_get_snapshot :: "'r hiredis \<Rightarrow> string \<Rightarrow> (market_snapshot option, 'r) call" where
  "hiredis_get_snapshot api iid =
     bindC (redis_call api ''HMGET'' hmget_format [Str_arg (c_str (market_snapshot_key iid))]) (\<lambda>reply. reading (snapshot_of_reply iid reply))"

subsection \<open>What the caches rely on\<close>

text \<open>
  The four commands as Redis documents them, on a database of strings and hashes: \<open>SET\<close> overwrites any
  value, \<open>GET\<close> of a hash and \<open>HSET\<close>, \<open>HMGET\<close> of a string are errors that change nothing, \<open>HSET\<close> adds
  fields to an existing hash, and \<open>HMGET\<close> answers nil for the fields that are missing.
\<close>

datatype redis_value = Redis_string string | Redis_hash "string \<rightharpoonup> string"

definition nil_reply :: redis_reply where
  "nil_reply = Redis_reply REDIS_REPLY_NIL None []"

definition bulk_reply :: "string \<Rightarrow> redis_reply" where
  "bulk_reply v = Redis_reply REDIS_REPLY_STRING (Some (c_str v)) []"

definition wrong_type_reply :: redis_reply where
  "wrong_type_reply = Redis_reply REDIS_REPLY_ERROR (Some ''WRONGTYPE Operation against a key holding the wrong kind of value'') []"

definition snapshot_fields :: "string list" where
  "snapshot_fields = [''best_bid'', ''best_ask'', ''last_trade_price'', ''last_trade_quantity'', ''last_process_timestamp'']"

fun hash_at :: "redis_value option \<Rightarrow> (string \<rightharpoonup> string) option" where
  "hash_at None = Some Map.empty"
| "hash_at (Some (Redis_hash h)) = Some h"
| "hash_at (Some (Redis_string _)) = None"

fun redis_semantics :: "string \<Rightarrow> redis_arg list \<Rightarrow> (string \<rightharpoonup> redis_value) \<Rightarrow> (redis_reply \<times> (string \<rightharpoonup> redis_value)) option" where
  "redis_semantics format [Str_arg k, Str_arg v] db =
     (if format = ''SET %s %s'' then Some (Redis_reply REDIS_REPLY_STATUS (Some ''OK'') [], db(k \<mapsto> Redis_string v)) else None)"
| "redis_semantics format [Str_arg k] db =
     (if format = ''GET %s'' then
        Some (case db k of None \<Rightarrow> nil_reply | Some (Redis_string v) \<Rightarrow> bulk_reply v | Some (Redis_hash _) \<Rightarrow> wrong_type_reply, db)
      else if format = hmget_format then
        Some (case hash_at (db k) of None \<Rightarrow> wrong_type_reply
              | Some h \<Rightarrow> Redis_reply REDIS_REPLY_ARRAY None
                  (map (\<lambda>f. Some (case h f of None \<Rightarrow> nil_reply | Some v \<Rightarrow> bulk_reply v)) snapshot_fields), db)
      else None)"
| "redis_semantics format [Str_arg k, Str_arg b, Str_arg a, Str_arg p, Str_arg q, Lld_arg t] db =
     (if format = hset_format then
        (case hash_at (db k) of None \<Rightarrow> Some (wrong_type_reply, db)
         | Some h \<Rightarrow> Some (Redis_reply REDIS_REPLY_INTEGER None [],
             db(k \<mapsto> Redis_hash (h(''best_bid'' \<mapsto> b, ''best_ask'' \<mapsto> a, ''last_trade_price'' \<mapsto> p, ''last_trade_quantity'' \<mapsto> q,
               ''last_process_timestamp'' \<mapsto> show_int t)))))
      else None)"
| "redis_semantics _ _ _ = None"

definition redis_server :: "'r hiredis \<Rightarrow> ('r \<Rightarrow> string \<rightharpoonup> redis_value) \<Rightarrow> bool" where
  "redis_server api database \<longleftrightarrow>
     (\<forall>format args ctx reply db. redis_semantics format args (database ctx) = Some (reply, db) \<longrightarrow>
        (\<exists>ctx'. hr_command api format args ctx = (Some reply, ctx') \<and> database ctx' = db))"

lemma redis_call_semantics:
  assumes "redis_server api database" "redis_semantics format args (database ctx) = Some (reply, db)" "reply_type reply \<noteq> REDIS_REPLY_ERROR"
  obtains ctx' where "redis_call api command_name format args ctx = (Inr reply, ctx')" "database ctx' = db"
proof -
  obtain ctx' where "hr_command api format args ctx = (Some reply, ctx')" "database ctx' = db"
    using assms(1,2) unfolding redis_server_def by blast
  then show thesis using assms(3) by (intro that [of ctx']) (simp_all add: redis_call_def ensure_reply_ok_def)
qed

subsection \<open>Failures\<close>

text \<open>
  A failure of Redis is never silent: whatever the library and the server do, an operation of the
  caches whose command gets no reply throws a runtime error that names the command and carries the
  context's error text, and one that gets an error reply throws with the server's message.
\<close>

lemma redis_failures_throw:
  "(\<forall>format args. hr_command api format args ctx = (None, ctx')) \<longrightarrow>
     hiredis_set_status api tid status ctx = (Inl (runtime_error (''Redis command failed for SET: '' @ hr_errstr api ctx')), ctx') \<and>
     hiredis_get_status api tid ctx = (Inl (runtime_error (''Redis command failed for GET: '' @ hr_errstr api ctx')), ctx') \<and>
     hiredis_upsert_snapshot api s ctx = (Inl (runtime_error (''Redis command failed for HSET: '' @ hr_errstr api ctx')), ctx') \<and>
     hiredis_get_snapshot api iid ctx = (Inl (runtime_error (''Redis command failed for HMGET: '' @ hr_errstr api ctx')), ctx')"
  "(\<forall>format args. hr_command api format args ctx = (Some (Redis_reply REDIS_REPLY_ERROR (Some message) es), ctx')) \<longrightarrow>
     hiredis_set_status api tid status ctx = (Inl (runtime_error (''Redis command failed for SET: '' @ message)), ctx') \<and>
     hiredis_get_status api tid ctx = (Inl (runtime_error (''Redis command failed for GET: '' @ message)), ctx') \<and>
     hiredis_upsert_snapshot api s ctx = (Inl (runtime_error (''Redis command failed for HSET: '' @ message)), ctx') \<and>
     hiredis_get_snapshot api iid ctx = (Inl (runtime_error (''Redis command failed for HMGET: '' @ message)), ctx')"
  by (simp_all add: hiredis_set_status_def hiredis_get_status_def hiredis_upsert_snapshot_def hiredis_get_snapshot_def
      bindC_def redis_call_def ensure_reply_ok_def)

subsection \<open>The server refines the in-memory caches\<close>

definition snapshot_safe :: "market_snapshot \<Rightarrow> bool" where
  "snapshot_safe s \<longleftrightarrow> nul_free (ms_instrument_id s) \<and>
     (\<forall>v \<in> set [ms_best_bid s, ms_best_ask s, ms_last_trade_price s, ms_last_trade_quantity s]. quote_safe v) \<and>
     - (2 ^ 63) \<le> ms_last_process_timestamp s \<and> ms_last_process_timestamp s < 2 ^ 63"

definition snapshot_hash :: "market_snapshot \<Rightarrow> (string \<rightharpoonup> string)" where
  "snapshot_hash s = [''best_bid'' \<mapsto> encode_optional_double (ms_best_bid s), ''best_ask'' \<mapsto> encode_optional_double (ms_best_ask s),
     ''last_trade_price'' \<mapsto> encode_optional_double (ms_last_trade_price s),
     ''last_trade_quantity'' \<mapsto> encode_optional_double (ms_last_trade_quantity s),
     ''last_process_timestamp'' \<mapsto> show_int (ms_last_process_timestamp s)]"

lemma decode_encode_reply:
  assumes "quote_safe v"
  shows "decode_optional_double_reply (Some (bulk_reply (encode_optional_double v))) = Inr v"
proof (cases v)
  case (Some x)
  then have "stod (to_string_double x) = Inr x" using assms by (simp add: quote_safe_def stod_to_string_double)
  then show ?thesis
    using Some stod_not_Nil [of "to_string_double x" x]
    by (simp add: decode_optional_double_reply_def bulk_reply_def encode_optional_double_def throwing_def)
qed (simp add: decode_optional_double_reply_def bulk_reply_def encode_optional_double_def c_str_def)

definition hash_reply :: "(string \<rightharpoonup> string) \<Rightarrow> redis_reply" where
  "hash_reply h = Redis_reply REDIS_REPLY_ARRAY None
     (map (\<lambda>f. Some (case h f of None \<Rightarrow> nil_reply | Some v \<Rightarrow> bulk_reply v)) snapshot_fields)"

lemma snapshot_of_hash:
  assumes "snapshot_safe s"
  shows "snapshot_of_reply (ms_instrument_id s) (hash_reply (snapshot_hash s)) = Inr (Some s)"
proof -
  have "\<And>v. v \<in> set [ms_best_bid s, ms_best_ask s, ms_last_trade_price s, ms_last_trade_quantity s] \<Longrightarrow>
      decode_optional_double_reply (Some (bulk_reply (encode_optional_double v))) = Inr v"
    using assms by (intro decode_encode_reply) (auto simp: snapshot_safe_def)
  moreover have "stoll (show_int (ms_last_process_timestamp s)) = Inr (ms_last_process_timestamp s)"
    using assms by (intro stoll_show_int) (simp_all add: snapshot_safe_def)
  ultimately show ?thesis
    by (simp add: snapshot_of_reply_def hash_reply_def snapshot_fields_def snapshot_hash_def) (simp add: bulk_reply_def throwing_def)
qed

lemma snapshot_of_missing: "snapshot_of_reply iid (hash_reply Map.empty) = Inr None"
  by (simp add: snapshot_of_reply_def hash_reply_def snapshot_fields_def nil_reply_def)

text \<open>A database that holds what the in-memory caches hold, under the keys of the two caches.\<close>

definition holds_caches :: "(string \<rightharpoonup> redis_value) \<Rightarrow> redis_transaction_cache \<Rightarrow> redis_market_state_cache \<Rightarrow> bool" where
  "holds_caches db statuses snapshots \<longleftrightarrow>
     (\<forall>tid. nul_free tid \<longrightarrow> db (transaction_status_key tid) = map_option Redis_string (statuses tid)) \<and>
     (\<forall>tid status. statuses tid = Some status \<longrightarrow> nul_free status) \<and>
     (\<forall>iid. nul_free iid \<longrightarrow> db (market_snapshot_key iid) = map_option (\<lambda>s. Redis_hash (snapshot_hash s)) (snapshots iid)) \<and>
     (\<forall>iid s. snapshots iid = Some s \<longrightarrow> snapshot_safe s \<and> ms_instrument_id s = iid)"

lemma cache_keys [simp]:
  "transaction_status_key a = transaction_status_key b \<longleftrightarrow> a = b"
  "market_snapshot_key a = market_snapshot_key b \<longleftrightarrow> a = b"
  "transaction_status_key a \<noteq> market_snapshot_key b"
  "market_snapshot_key b \<noteq> transaction_status_key a"
  "nul_free (transaction_status_key a) \<longleftrightarrow> nul_free a"
  "nul_free (market_snapshot_key a) \<longleftrightarrow> nul_free a"
  by (simp_all add: transaction_status_key_def market_snapshot_key_def)

datatype cache_op = Set_status string string | Get_status string | Upsert_snapshot market_snapshot | Get_snapshot string

datatype cache_result = Stored | Status string | Snapshot "market_snapshot option"

fun memory_cache_step :: "cache_op \<Rightarrow> redis_transaction_cache \<times> redis_market_state_cache \<Rightarrow>
    cache_result \<times> (redis_transaction_cache \<times> redis_market_state_cache)" where
  "memory_cache_step (Set_status tid status) (st, sn) = (Stored, (redis_set_status tid status st, sn))"
| "memory_cache_step (Get_status tid) (st, sn) = (Status (redis_get_status tid st), (st, sn))"
| "memory_cache_step (Upsert_snapshot s) (st, sn) = (Stored, (st, redis_upsert_snapshot s sn))"
| "memory_cache_step (Get_snapshot iid) (st, sn) = (Snapshot (redis_get_snapshot iid sn), (st, sn))"

fun server_cache_step :: "'r hiredis \<Rightarrow> cache_op \<Rightarrow> (cache_result, 'r) call" where
  "server_cache_step api (Set_status tid status) = bindC (hiredis_set_status api tid status) (\<lambda>_. retC Stored)"
| "server_cache_step api (Get_status tid) = bindC (hiredis_get_status api tid) (\<lambda>s. retC (Status s))"
| "server_cache_step api (Upsert_snapshot s) = bindC (hiredis_upsert_snapshot api s) (\<lambda>_. retC Stored)"
| "server_cache_step api (Get_snapshot iid) = bindC (hiredis_get_snapshot api iid) (\<lambda>s. retC (Snapshot s))"

fun cache_op_safe :: "cache_op \<Rightarrow> bool" where
  "cache_op_safe (Set_status tid status) \<longleftrightarrow> nul_free tid \<and> nul_free status"
| "cache_op_safe (Get_status tid) \<longleftrightarrow> nul_free tid"
| "cache_op_safe (Upsert_snapshot s) \<longleftrightarrow> snapshot_safe s"
| "cache_op_safe (Get_snapshot iid) \<longleftrightarrow> nul_free iid"

lemma redis_formats [simp]:
  "hmget_format \<noteq> ''GET %s''" by (simp add: hmget_format_def)

lemma snapshot_hash_overwrites:
  "h = Map.empty \<or> (\<exists>s'. h = snapshot_hash s') \<Longrightarrow>
   h(''best_bid'' \<mapsto> encode_optional_double (ms_best_bid s), ''best_ask'' \<mapsto> encode_optional_double (ms_best_ask s),
     ''last_trade_price'' \<mapsto> encode_optional_double (ms_last_trade_price s),
     ''last_trade_quantity'' \<mapsto> encode_optional_double (ms_last_trade_quantity s),
     ''last_process_timestamp'' \<mapsto> show_int (ms_last_process_timestamp s)) = snapshot_hash s"
  by (auto simp: snapshot_hash_def fun_eq_iff)

lemma server_step_simulates:
  assumes server: "redis_server api database" and holds: "holds_caches (database ctx) st sn" and safe: "cache_op_safe op"
  shows "\<exists>ctx' r st' sn'. memory_cache_step op (st, sn) = (r, (st', sn')) \<and> server_cache_step api op ctx = (Inr r, ctx') \<and>
    holds_caches (database ctx') st' sn'"
proof (cases op)
  case (Set_status tid status)
  have "redis_semantics ''SET %s %s'' [Str_arg (transaction_status_key tid), Str_arg status] (database ctx) =
      Some (Redis_reply REDIS_REPLY_STATUS (Some ''OK'') [], (database ctx)(transaction_status_key tid \<mapsto> Redis_string status))" by simp
  then obtain ctx' where "redis_call api ''SET'' ''SET %s %s'' [Str_arg (transaction_status_key tid), Str_arg status] ctx =
        (Inr (Redis_reply REDIS_REPLY_STATUS (Some ''OK'') []), ctx')"
      and "database ctx' = (database ctx)(transaction_status_key tid \<mapsto> Redis_string status)"
    by (rule redis_call_semantics [OF server]) simp
  then show ?thesis
    using Set_status safe holds by (simp add: hiredis_set_status_def call_defs redis_set_status_def holds_caches_def)
next
  case (Get_status tid)
  have "redis_semantics ''GET %s'' [Str_arg (transaction_status_key tid)] (database ctx) =
      Some (case st tid of None \<Rightarrow> nil_reply | Some v \<Rightarrow> bulk_reply v, database ctx)"
    using holds Get_status safe by (simp add: holds_caches_def split: option.split)
  moreover have "reply_type (case st tid of None \<Rightarrow> nil_reply | Some v \<Rightarrow> bulk_reply v) \<noteq> REDIS_REPLY_ERROR"
    by (simp add: nil_reply_def bulk_reply_def split: option.split)
  ultimately obtain ctx' where "redis_call api ''GET'' ''GET %s'' [Str_arg (transaction_status_key tid)] ctx =
        (Inr (case st tid of None \<Rightarrow> nil_reply | Some v \<Rightarrow> bulk_reply v), ctx')" and "database ctx' = database ctx"
    by (rule redis_call_semantics [OF server])
  moreover have "\<forall>v. st tid = Some v \<longrightarrow> nul_free v" using holds by (simp add: holds_caches_def)
  ultimately show ?thesis
    using Get_status safe holds
    by (cases "st tid") (simp_all add: hiredis_get_status_def call_defs redis_get_status_def nil_reply_def bulk_reply_def)
next
  case (Upsert_snapshot s)
  let ?k = "market_snapshot_key (ms_instrument_id s)"
  let ?args = "[Str_arg ?k, Str_arg (encode_optional_double (ms_best_bid s)), Str_arg (encode_optional_double (ms_best_ask s)),
    Str_arg (encode_optional_double (ms_last_trade_price s)), Str_arg (encode_optional_double (ms_last_trade_quantity s)),
    Lld_arg (ms_last_process_timestamp s)]"
  have free: "nul_free (ms_instrument_id s)" using safe Upsert_snapshot by (simp add: snapshot_safe_def)
  have db: "database ctx ?k = map_option (\<lambda>s. Redis_hash (snapshot_hash s)) (sn (ms_instrument_id s))"
    using holds free by (simp add: holds_caches_def)
  obtain h where h: "hash_at (database ctx ?k) = Some h" "h = Map.empty \<or> (\<exists>s'. h = snapshot_hash s')"
    using db by (cases "sn (ms_instrument_id s)") auto
  have "redis_semantics hset_format ?args (database ctx) =
      Some (Redis_reply REDIS_REPLY_INTEGER None [], (database ctx)(?k \<mapsto> Redis_hash (snapshot_hash s)))"
    by (simp add: h(1) snapshot_hash_overwrites [OF h(2)])
  then obtain ctx' where "redis_call api ''HSET'' hset_format ?args ctx = (Inr (Redis_reply REDIS_REPLY_INTEGER None []), ctx')"
      and "database ctx' = (database ctx)(?k \<mapsto> Redis_hash (snapshot_hash s))"
    by (rule redis_call_semantics [OF server]) simp
  then show ?thesis
    using Upsert_snapshot safe holds free by (simp add: hiredis_upsert_snapshot_def call_defs redis_upsert_snapshot_def holds_caches_def)
next
  case (Get_snapshot iid)
  let ?h = "case sn iid of None \<Rightarrow> Map.empty | Some s \<Rightarrow> snapshot_hash s"
  have "hash_at (database ctx (market_snapshot_key iid)) = Some ?h"
    using holds Get_snapshot safe by (cases "sn iid") (simp_all add: holds_caches_def)
  then have "redis_semantics hmget_format [Str_arg (market_snapshot_key iid)] (database ctx) = Some (hash_reply ?h, database ctx)"
    by (simp add: hash_reply_def)
  then obtain ctx' where ctx': "redis_call api ''HMGET'' hmget_format [Str_arg (market_snapshot_key iid)] ctx = (Inr (hash_reply ?h), ctx')"
      and same: "database ctx' = database ctx"
    by (rule redis_call_semantics [OF server]) (simp add: hash_reply_def)
  have "snapshot_of_reply iid (hash_reply ?h) = Inr (sn iid)"
  proof (cases "sn iid")
    case (Some s)
    then have "snapshot_safe s" "ms_instrument_id s = iid" using holds by (simp_all add: holds_caches_def)
    then show ?thesis using snapshot_of_hash [of s] Some by simp
  qed (simp add: snapshot_of_missing)
  then show ?thesis
    using Get_snapshot safe holds ctx' same
    by (simp add: hiredis_get_snapshot_def call_defs redis_get_snapshot_def split: option.split)
qed

fun memory_cache_run :: "cache_op list \<Rightarrow> redis_transaction_cache \<times> redis_market_state_cache \<Rightarrow> cache_result list" where
  "memory_cache_run [] m = []"
| "memory_cache_run (op # ops) m = (case memory_cache_step op m of (r, m') \<Rightarrow> r # memory_cache_run ops m')"

fun server_cache_run :: "'r hiredis \<Rightarrow> cache_op list \<Rightarrow> (cache_result list, 'r) call" where
  "server_cache_run api [] = retC []"
| "server_cache_run api (op # ops) = bindC (server_cache_step api op) (\<lambda>r. bindC (server_cache_run api ops) (\<lambda>rs. retC (r # rs)))"

lemma server_run_simulates:
  assumes "redis_server api database"
  shows "holds_caches (database ctx) st sn \<Longrightarrow> list_all cache_op_safe ops \<Longrightarrow>
    \<exists>ctx'. server_cache_run api ops ctx = (Inr (memory_cache_run ops (st, sn)), ctx')"
proof (induction ops arbitrary: ctx st sn)
  case (Cons op ops)
  obtain ctx' r st' sn' where step: "memory_cache_step op (st, sn) = (r, (st', sn'))" "server_cache_step api op ctx = (Inr r, ctx')"
      and holds: "holds_caches (database ctx') st' sn'"
    using server_step_simulates [OF assms Cons.prems(1), of op] Cons.prems(2) by auto
  obtain ctx'' where "server_cache_run api ops ctx' = (Inr (memory_cache_run ops (st', sn')), ctx'')"
    using Cons.IH [OF holds] Cons.prems(2) by auto
  then show ?case using step by (simp add: bindC_def retC_def)
qed (simp add: retC_def)

text \<open>
  C36. The Redis-backed caches behave like the in-memory ones: against a server that executes SET, GET,
  HSET and HMGET as documented and holds no key of the caches yet, any interleaving of status and snapshot
  operations succeeds and returns exactly what the in-memory caches return, for strings without NUL
  characters and quotes that are decimals of at most six places.
\<close>

theorem redis_caches_refine:
  assumes "redis_server api database" "\<And>k. database ctx (''wall:'' @ k) = None" "list_all cache_op_safe ops"
  shows "\<exists>ctx'. server_cache_run api ops ctx = (Inr (memory_cache_run ops (Map.empty, Map.empty)), ctx')"
proof -
  have "holds_caches (database ctx) Map.empty Map.empty"
    using assms(2) [of "''transaction_status:'' @ _"] assms(2) [of "''market_snapshot:'' @ _"]
    by (simp add: holds_caches_def transaction_status_key_def market_snapshot_key_def)
  then show ?thesis using server_run_simulates [OF assms(1)] assms(3) by blast
qed

text \<open>A server that is its database, as the hypothesis describes it.\<close>

definition map_redis :: "(string \<rightharpoonup> redis_value) hiredis" where
  "map_redis = \<lparr>hr_connect = (\<lambda>_ _. Some Map.empty), hr_err = (\<lambda>_. 0), hr_errstr = (\<lambda>_. []),
     hr_command = (\<lambda>format args db. case redis_semantics format args db of None \<Rightarrow> (None, db) | Some (reply, db') \<Rightarrow> (Some reply, db'))\<rparr>"

definition sample_snapshot :: market_snapshot where
  "sample_snapshot = \<lparr>ms_instrument_id = ''BTC'', ms_best_bid = Some 0, ms_best_ask = None, ms_last_trade_price = None,
     ms_last_trade_quantity = None, ms_last_process_timestamp = 17\<rparr>"

lemma six_decimals_zero: "six_decimals 0"
  by (auto simp: six_decimals_def zero_double_def rnd64_def intro!: exI [of _ 0])

theorem redis_caches_refine_witness:
  "\<exists>ctx'. server_cache_run map_redis [Set_status ''t1'' ''received'', Upsert_snapshot sample_snapshot, Set_status ''t1'' ''accepted'',
       Get_snapshot ''BTC'', Get_status ''t1'', Get_status ''t2''] Map.empty =
     (Inr [Stored, Stored, Stored, Snapshot (Some sample_snapshot), Status ''accepted'', Status ''''], ctx')"
proof -
  have "redis_server map_redis id" by (simp add: redis_server_def map_redis_def)
  from redis_caches_refine [OF this, of Map.empty "[Set_status ''t1'' ''received'', Upsert_snapshot sample_snapshot,
      Set_status ''t1'' ''accepted'', Get_snapshot ''BTC'', Get_status ''t1'', Get_status ''t2'']"]
  show ?thesis
    by (simp add: sample_snapshot_def snapshot_safe_def quote_safe_def six_decimals_zero redis_set_status_def redis_get_status_def
        redis_upsert_snapshot_def redis_get_snapshot_def)
qed

end
