(* ===== verification/Sql_Store.thy ===== *)
theory Sql_Store
  imports Drivers Postgres_Files App_Config "HOL-Library.Multiset"
begin

section \<open>The SQL the repositories use\<close>

text \<open>
  The statements of the \<open>Libpq*\<close> repositories as syntax trees, the text each stands for, and the session of
  \<open>src/infrastructure/postgres_repositories.cpp\<close> that runs them. libpq and the server are a parameter, the
  record \<open>libpq\<close>. \<open>sql_run\<close> states what PostgreSQL documents for these statements; it is the hypothesis of
  the theorems about the repositories and no part of the program.
\<close>

subsection \<open>Statements\<close>

datatype sql_type = TEXT | INTEGER | BIGINT | DOUBLE_PRECISION

datatype sql_expr = Param nat | Nullif_param nat | Sql_literal string | Sql_null

datatype sql_conflict = Do_nothing | Do_update "string list"

datatype sql_where = Everything | Param_equals string nat | Int_in string "int list"

record sql_column =
  sc_name :: string
  sc_type :: sql_type
  sc_nullable :: bool

text \<open>
  \<open>Create_table\<close>: name, whether there is a leading \<open>sequence_id BIGSERIAL UNIQUE\<close>, columns, primary key;
  \<open>Insert\<close>: table, columns with their expressions, the conflict target and action; \<open>Select\<close>: columns, table,
  condition, whether the rows are ordered by the sequence.
\<close>

datatype sql_statement =
    Create_table string bool "sql_column list" "string list"
  | Insert string "(string \<times> sql_expr) list" "string list" sql_conflict
  | Select "string list" string sql_where bool

fun commas :: "string list \<Rightarrow> string" where
  "commas [] = []"
| "commas [x] = x"
| "commas (x # y # zs) = x @ '', '' @ commas (y # zs)"

fun type_text :: "sql_type \<Rightarrow> string" where
  "type_text TEXT = ''TEXT''"
| "type_text INTEGER = ''INTEGER''"
| "type_text BIGINT = ''BIGINT''"
| "type_text DOUBLE_PRECISION = ''DOUBLE PRECISION''"

fun expr_text :: "sql_expr \<Rightarrow> string" where
  "expr_text (Param n) = CHR ''$'' # show_nat n"
| "expr_text (Nullif_param n) = ''NULLIF($'' @ show_nat n @ '', '' @ [CHR 0x27, CHR 0x27] @ '')::DOUBLE PRECISION''"
| "expr_text (Sql_literal s) = (if s = [] then [CHR 0x27, CHR 0x27] else s)"
| "expr_text Sql_null = ''NULL''"

definition column_text :: "string list \<Rightarrow> sql_column \<Rightarrow> string" where
  "column_text key c = sc_name c @ '' '' @ type_text (sc_type c) @
     (if key = [sc_name c] then '' PRIMARY KEY'' else if sc_nullable c then '' NULL'' else '' NOT NULL'')"

fun conflict_text :: "sql_conflict \<Rightarrow> string" where
  "conflict_text Do_nothing = ''DO NOTHING''"
| "conflict_text (Do_update cs) = ''DO UPDATE SET '' @ commas (map (\<lambda>c. c @ '' = EXCLUDED.'' @ c) cs)"

fun where_text :: "sql_where \<Rightarrow> string" where
  "where_text Everything = []"
| "where_text (Param_equals c n) = '' WHERE '' @ c @ '' = $'' @ show_nat n"
| "where_text (Int_in c is) = '' WHERE '' @ c @ '' IN ('' @ commas (map show_int is) @ '')''"

fun sql_text :: "sql_statement \<Rightarrow> string" where
  "sql_text (Create_table t sequence cs key) = ''CREATE TABLE IF NOT EXISTS '' @ t @ '' ('' @
     (if sequence then ''sequence_id BIGSERIAL UNIQUE,'' else []) @ join_with CHR '','' (map (column_text key) cs) @
     (if length key = 1 then [] else '',PRIMARY KEY ('' @ commas key @ '')'') @ '')''"
| "sql_text (Insert t items key action) = ''INSERT INTO '' @ t @ '' ('' @ commas (map fst items) @ '') VALUES ('' @
     commas (map (expr_text \<circ> snd) items) @ '') ON CONFLICT ('' @ commas key @ '') '' @ conflict_text action"
| "sql_text (Select cs t cond ordered) = ''SELECT '' @ commas cs @ '' FROM '' @ t @ where_text cond @
     (if ordered then '' ORDER BY sequence_id ASC'' else [])"

subsection \<open>The session\<close>

datatype pg_status = PGRES_COMMAND_OK | PGRES_TUPLES_OK | PGRES_OTHER

record pg_result =
  pq_status :: pg_status
  pq_message :: string
  pq_rows :: "string option list list"

record 'p libpq =
  pq_connectdb :: "(string \<times> string) list \<Rightarrow> 'p option"
  pq_connected :: "'p \<Rightarrow> bool"
  pq_error :: "'p \<Rightarrow> string"
  pq_exec :: "sql_statement \<Rightarrow> (pg_result, 'p) action"
  pq_exec_params :: "sql_statement \<Rightarrow> string list \<Rightarrow> (pg_result, 'p) action"

definition ensure_result_ok :: "pg_result option \<Rightarrow> string \<Rightarrow> load_failure + pg_result" where
  "ensure_result_ok result context =
     (case result of None \<Rightarrow> Inl (runtime_error (''PostgreSQL operation failed during '' @ context))
      | Some r \<Rightarrow>
        if pq_status r \<noteq> PGRES_COMMAND_OK \<and> pq_status r \<noteq> PGRES_TUPLES_OK
        then Inl (runtime_error (''PostgreSQL operation failed during '' @ context @ '': '' @ pq_message r))
        else Inr r)"

definition session_exec :: "'p libpq \<Rightarrow> sql_statement \<Rightarrow> (pg_result, 'p) call" where
  "session_exec api sql p = (case pq_exec api sql p of (result, p') \<Rightarrow> (ensure_result_ok result (sql_text sql), p'))"

definition exec_command :: "'p libpq \<Rightarrow> sql_statement \<Rightarrow> (unit, 'p) call" where
  "exec_command api sql = bindC (session_exec api sql) (\<lambda>_. retC ())"

definition exec_params :: "'p libpq \<Rightarrow> sql_statement \<Rightarrow> string list \<Rightarrow> (pg_result, 'p) call" where
  "exec_params api sql params p =
     (case pq_exec_params api sql (map c_str params) p of (result, p') \<Rightarrow> (ensure_result_ok result (sql_text sql), p'))"

text \<open>\<open>PQgetvalue\<close> gives the empty string for a null.\<close>

fun pq_getvalue :: "string option \<Rightarrow> string" where
  "pq_getvalue None = []"
| "pq_getvalue (Some s) = s"

definition not_null :: "string \<Rightarrow> sql_type \<Rightarrow> sql_column" where
  "not_null name ty = \<lparr>sc_name = name, sc_type = ty, sc_nullable = False\<rparr>"

definition nullable :: "string \<Rightarrow> sql_type \<Rightarrow> sql_column" where
  "nullable name ty = \<lparr>sc_name = name, sc_type = ty, sc_nullable = True\<rparr>"

definition create_transactions :: sql_statement where
  "create_transactions = Create_table ''transaction_records'' False
     [not_null ''transaction_id'' TEXT, not_null ''status'' TEXT, not_null ''kafka_topic'' TEXT, not_null ''kafka_partition'' INTEGER,
      not_null ''kafka_offset'' BIGINT] [''transaction_id'']"

definition create_checkpoints :: sql_statement where
  "create_checkpoints = Create_table ''kafka_checkpoints'' False
     [not_null ''topic'' TEXT, not_null ''partition_id'' INTEGER, not_null ''offset_value'' BIGINT] [''topic'', ''partition_id'']"

definition create_orders :: sql_statement where
  "create_orders = Create_table ''order_records'' False
     [not_null ''order_id'' TEXT, not_null ''client_order_id'' TEXT, not_null ''strategy_id'' TEXT, not_null ''instrument_id'' TEXT,
      not_null ''side'' INTEGER, not_null ''order_type'' INTEGER, not_null ''status'' INTEGER, not_null ''quantity'' DOUBLE_PRECISION,
      nullable ''price'' DOUBLE_PRECISION, not_null ''filled_quantity'' DOUBLE_PRECISION] [''order_id'']"

definition create_fills :: sql_statement where
  "create_fills = Create_table ''fill_records'' True
     [not_null ''fill_id'' TEXT, not_null ''order_id'' TEXT, not_null ''instrument_id'' TEXT, not_null ''exchange'' TEXT,
      not_null ''symbol'' TEXT, not_null ''base_asset'' TEXT, not_null ''quote_asset'' TEXT, not_null ''tick_size'' DOUBLE_PRECISION,
      not_null ''lot_size'' DOUBLE_PRECISION, not_null ''side'' INTEGER, not_null ''price'' DOUBLE_PRECISION,
      not_null ''quantity'' DOUBLE_PRECISION, not_null ''fee'' DOUBLE_PRECISION] [''fill_id'']"

definition create_positions :: sql_statement where
  "create_positions = Create_table ''position_records'' False
     [not_null ''instrument_id'' TEXT, not_null ''position_id'' TEXT, not_null ''exchange'' TEXT, not_null ''symbol'' TEXT,
      not_null ''base_asset'' TEXT, not_null ''quote_asset'' TEXT, not_null ''tick_size'' DOUBLE_PRECISION,
      not_null ''lot_size'' DOUBLE_PRECISION, not_null ''net_quantity'' DOUBLE_PRECISION, not_null ''average_entry_price'' DOUBLE_PRECISION,
      not_null ''realized_pnl'' DOUBLE_PRECISION, not_null ''unrealized_pnl'' DOUBLE_PRECISION] [''instrument_id'']"

definition create_intents :: sql_statement where
  "create_intents = Create_table ''order_intent_records'' True
     [not_null ''request_id'' TEXT, not_null ''strategy_id'' TEXT, not_null ''instrument_id'' TEXT, not_null ''side'' INTEGER,
      not_null ''order_type'' INTEGER, not_null ''quantity'' DOUBLE_PRECISION, nullable ''price'' DOUBLE_PRECISION] [''request_id'']"

definition create_reports :: sql_statement where
  "create_reports = Create_table ''execution_report_records'' True
     [not_null ''report_id'' TEXT, not_null ''order_id'' TEXT, not_null ''client_order_id'' TEXT, not_null ''instrument_id'' TEXT,
      not_null ''side'' INTEGER, not_null ''status'' INTEGER, not_null ''cumulative_filled_quantity'' DOUBLE_PRECISION,
      nullable ''last_fill_price'' DOUBLE_PRECISION, not_null ''last_fill_fee'' DOUBLE_PRECISION, nullable ''reason'' TEXT,
      not_null ''exchange_timestamp'' BIGINT] [''report_id'']"

definition create_balances :: sql_statement where
  "create_balances = Create_table ''balance_records'' False
     [not_null ''asset'' TEXT, not_null ''total_balance'' DOUBLE_PRECISION, not_null ''available_balance'' DOUBLE_PRECISION] [''asset'']"

fun exec_commands :: "'p libpq \<Rightarrow> sql_statement list \<Rightarrow> (unit, 'p) call" where
  "exec_commands api [] = retC ()"
| "exec_commands api (sql # sqls) = bindC (exec_command api sql) (\<lambda>_. exec_commands api sqls)"

definition session_tables :: "sql_statement list" where
  "session_tables = [create_transactions, create_checkpoints, create_orders, create_fills, create_positions, create_intents, create_reports]"

definition libpq_session :: "'p libpq \<Rightarrow> postgres_config \<Rightarrow> load_failure + 'p" where
  "libpq_session api config =
     (case pq_connectdb api [(''host'', c_str (pg_host config)), (''port'', show_int (pg_port config)), (''dbname'', c_str (pg_database config)),
             (''user'', c_str (pg_user config)), (''password'', c_str (pg_password config))] of
        None \<Rightarrow> Inl (runtime_error ''failed to connect to PostgreSQL: null connection'')
      | Some p \<Rightarrow>
        if \<not> pq_connected api p then Inl (runtime_error (''failed to connect to PostgreSQL: '' @ pq_error api p))
        else (case exec_commands api session_tables p of (Inl e, _) \<Rightarrow> Inl e | (Inr _, p') \<Rightarrow> Inr p'))"

definition libpq_balances_new :: "'p libpq \<Rightarrow> postgres_config \<Rightarrow> load_failure + 'p" where
  "libpq_balances_new api config =
     bindE (libpq_session api config) (\<lambda>p. case exec_command api create_balances p of (Inl e, _) \<Rightarrow> Inl e | (Inr _, p') \<Rightarrow> Inr p')"

subsection \<open>What PostgreSQL documents\<close>

text \<open>
  Tables with typed columns and a primary key; the rows are in the order of the sequence column, which is
  the order of insertion. Text is ASCII without NUL, numbers are decimal numerals. \<open>None\<close> is a statement
  nothing is stated about (an unknown table, a value that does not fit its column).
\<close>

datatype sql_value = Null_value | Text_value string | Int_value int | Double_value double

type_synonym sql_row = "string \<rightharpoonup> sql_value"

record sql_table =
  tb_columns :: "sql_column list"
  tb_key :: "string list"
  tb_rows :: "sql_row list"

type_synonym sql_tables = "string \<rightharpoonup> sql_table"

definition pg_text :: "string \<Rightarrow> bool" where
  "pg_text s \<longleftrightarrow> (\<forall>c \<in> set s. 0 < (of_char c :: nat) \<and> (of_char c :: nat) < 128)"

definition whole :: "('v \<Rightarrow> sql_value) \<Rightarrow> string \<Rightarrow> std_exception + 'v \<times> nat \<Rightarrow> sql_value option" where
  "whole f s r = (case r of Inr (x, n) \<Rightarrow> if n = length s \<and> (\<forall>c \<in> set s. num_char c) then Some (f x) else None | Inl _ \<Rightarrow> None)"

fun parse_value :: "sql_type \<Rightarrow> string \<Rightarrow> sql_value option" where
  "parse_value TEXT s = (if pg_text s then Some (Text_value s) else None)"
| "parse_value INTEGER s = whole Int_value s (stoi_pos s)"
| "parse_value BIGINT s = whole Int_value s (stoll_pos s)"
| "parse_value DOUBLE_PRECISION s = whole Double_value s (stod_pos s)"

fun expr_value :: "sql_column \<Rightarrow> string list \<Rightarrow> sql_expr \<Rightarrow> sql_value option" where
  "expr_value c ps (Param n) = (if 0 < n \<and> n \<le> length ps then parse_value (sc_type c) (ps ! (n - 1)) else None)"
| "expr_value c ps (Nullif_param n) =
     (if 0 < n \<and> n \<le> length ps \<and> sc_nullable c \<and> sc_type c = DOUBLE_PRECISION
      then if ps ! (n - 1) = [] then Some Null_value else parse_value DOUBLE_PRECISION (ps ! (n - 1))
      else None)"
| "expr_value c ps (Sql_literal s) = parse_value (sc_type c) s"
| "expr_value c ps Sql_null = (if sc_nullable c then Some Null_value else None)"

fun insert_row :: "sql_column list \<Rightarrow> string list \<Rightarrow> (string \<times> sql_expr) list \<Rightarrow> sql_row option" where
  "insert_row cs ps [] = Some Map.empty"
| "insert_row cs ps ((name, e) # items) =
     (case find (\<lambda>c. sc_name c = name) cs of None \<Rightarrow> None
      | Some c \<Rightarrow> (case expr_value c ps e of None \<Rightarrow> None
        | Some v \<Rightarrow> map_option (\<lambda>r. r(name \<mapsto> v)) (insert_row cs ps items)))"

definition conflicts :: "string list \<Rightarrow> sql_row \<Rightarrow> sql_row \<Rightarrow> bool" where
  "conflicts key r r' \<longleftrightarrow> list_all (\<lambda>c. r c = r' c) key"

fun resolve :: "sql_conflict \<Rightarrow> sql_row \<Rightarrow> sql_row \<Rightarrow> sql_row" where
  "resolve Do_nothing excluded r = r"
| "resolve (Do_update cs) excluded r = (\<lambda>c. if c \<in> set cs then excluded c else r c)"

definition upsert_rows :: "string list \<Rightarrow> sql_conflict \<Rightarrow> sql_row \<Rightarrow> sql_row list \<Rightarrow> sql_row list" where
  "upsert_rows key action r rows =
     (case update_first (conflicts key r) (resolve action r) rows of Some rows' \<Rightarrow> rows' | None \<Rightarrow> rows @ [r])"

fun selected :: "sql_where \<Rightarrow> string list \<Rightarrow> sql_row \<Rightarrow> bool" where
  "selected Everything ps r = True"
| "selected (Param_equals c n) ps r \<longleftrightarrow> r c = Some (Text_value (ps ! (n - 1)))"
| "selected (Int_in c is) ps r \<longleftrightarrow> (\<exists>i \<in> set is. r c = Some (Int_value i))"

definition project :: "string list \<Rightarrow> sql_row \<Rightarrow> sql_value list" where
  "project cs r = map (\<lambda>c. case r c of Some v \<Rightarrow> v | None \<Rightarrow> Null_value) cs"

fun sql_run :: "sql_statement \<Rightarrow> string list \<Rightarrow> sql_tables \<Rightarrow> (sql_value list list \<times> sql_tables) option" where
  "sql_run (Create_table t sequence cs key) ps db =
     Some ([], if db t = None then db(t \<mapsto> \<lparr>tb_columns = cs, tb_key = key, tb_rows = []\<rparr>) else db)"
| "sql_run (Insert t items key action) ps db =
     (case db t of None \<Rightarrow> None
      | Some tb \<Rightarrow>
        if set (map fst items) = set (map sc_name (tb_columns tb)) \<and> key = tb_key tb
        then map_option (\<lambda>r. ([], db(t \<mapsto> tb\<lparr>tb_rows := upsert_rows key action r (tb_rows tb)\<rparr>))) (insert_row (tb_columns tb) ps items)
        else None)"
| "sql_run (Select cs t cond ordered) ps db =
     (case db t of None \<Rightarrow> None
      | Some tb \<Rightarrow>
        if set cs \<subseteq> set (map sc_name (tb_columns tb)) \<and> (\<forall>c n. cond = Param_equals c n \<longrightarrow> n = 1 \<and> ps \<noteq> [] \<and> pg_text (ps ! 0))
        then Some (map (project cs) (filter (selected cond ps) (tb_rows tb)), db) else None)"

fun ordered_rows :: "sql_statement \<Rightarrow> bool" where
  "ordered_rows (Select cs t cond ordered) = ordered"
| "ordered_rows _ = True"

fun cell_text :: "(double \<Rightarrow> string) \<Rightarrow> sql_value \<Rightarrow> string option" where
  "cell_text float8out Null_value = None"
| "cell_text float8out (Text_value s) = Some s"
| "cell_text float8out (Int_value i) = Some (show_int i)"
| "cell_text float8out (Double_value x) = Some (float8out x)"

definition answers :: "(double \<Rightarrow> string) \<Rightarrow> sql_statement \<Rightarrow> sql_value list list \<Rightarrow> pg_result \<Rightarrow> bool" where
  "answers float8out sql rows result \<longleftrightarrow>
     (pq_status result = PGRES_COMMAND_OK \<or> pq_status result = PGRES_TUPLES_OK) \<and>
     mset (pq_rows result) = mset (map (map (cell_text float8out)) rows) \<and>
     (ordered_rows sql \<longrightarrow> pq_rows result = map (map (cell_text float8out)) rows)"

text \<open>
  A connected server: statements take effect and answer as documented, rows without an \<open>ORDER BY\<close> in any
  order, and a double is printed so that it reads back exactly (the shortest-precise output of \<open>float8out\<close>).
\<close>

definition postgres_server :: "'p libpq \<Rightarrow> (double \<Rightarrow> string) \<Rightarrow> ('p \<Rightarrow> sql_tables) \<Rightarrow> bool" where
  "postgres_server api float8out tables \<longleftrightarrow>
     (\<forall>sql ps p rows db. sql_run sql ps (tables p) = Some (rows, db) \<longrightarrow>
        (\<exists>result p'. pq_exec_params api sql ps p = (Some result, p') \<and> tables p' = db \<and> answers float8out sql rows result)) \<and>
     (\<forall>sql p rows db. sql_run sql [] (tables p) = Some (rows, db) \<longrightarrow>
        (\<exists>result p'. pq_exec api sql p = (Some result, p') \<and> tables p' = db \<and> answers float8out sql rows result)) \<and>
     (\<forall>x. normal_double x \<longrightarrow> stod (float8out x) = Inr x)"

lemma exec_params_run:
  assumes "postgres_server api float8out tables" "sql_run sql (map c_str ps) (tables p) = Some (rows, db)"
  obtains result p' where "exec_params api sql ps p = (Inr result, p')" "tables p' = db" "answers float8out sql rows result"
proof -
  obtain result p' where "pq_exec_params api sql (map c_str ps) p = (Some result, p')" "tables p' = db" "answers float8out sql rows result"
    using assms unfolding postgres_server_def by blast
  then show thesis by (intro that [of result p']) (auto simp: exec_params_def ensure_result_ok_def answers_def)
qed

lemma session_exec_run:
  assumes "postgres_server api float8out tables" "sql_run sql [] (tables p) = Some (rows, db)"
  obtains result p' where "session_exec api sql p = (Inr result, p')" "tables p' = db" "answers float8out sql rows result"
proof -
  obtain result p' where "pq_exec api sql p = (Some result, p')" "tables p' = db" "answers float8out sql rows result"
    using assms unfolding postgres_server_def by blast
  then show thesis by (intro that [of result p']) (auto simp: session_exec_def ensure_result_ok_def answers_def)
qed

subsection \<open>Values in columns\<close>

lemma pg_text_nul_free: "pg_text s \<Longrightarrow> nul_free s"
  by (auto simp: pg_text_def nul_free_def)

lemma num_char_show_int: "c \<in> set (show_int i) \<Longrightarrow> num_char c"
  by (auto simp: show_int_def num_char_def split: if_splits dest: show_nat_digits)

lemma parse_int [simp]: "int32_ok i \<Longrightarrow> parse_value INTEGER (show_int i) = Some (Int_value i)"
  by (simp add: whole_def stoi_pos_def stoi_range_show_int num_char_show_int)

lemma parse_bigint [simp]: "int64_ok i \<Longrightarrow> parse_value BIGINT (show_int i) = Some (Int_value i)"
  by (simp add: whole_def stoll_pos_def stoi_range_show_int num_char_show_int)

text \<open>The doubles \<open>std::to_string\<close> prints within the range considered here, up to a thousand million.\<close>

definition micro_range :: "double \<Rightarrow> bool" where
  "micro_range x \<longleftrightarrow> (\<exists>r. x = Fin r \<and> round_even (\<bar>r\<bar> * 10 ^ 6) \<le> 10 ^ 15)"

fun micro_rounded :: "double \<Rightarrow> double" where
  "micro_rounded (Fin r) = Fin (six_places r)"
| "micro_rounded x = x"

lemma num_char_fixed6: "c \<in> set (show_fixed6 x) \<Longrightarrow> num_char c"
  by (auto simp: show_fixed6_def Let_def num_char_def is_digit_def dest: show_nat_digits)

lemma parse_double: "micro_range x \<Longrightarrow> parse_value DOUBLE_PRECISION (to_string_double x) = Some (Double_value (micro_rounded x))"
  using stod_pos_to_string_double num_char_fixed6 by (auto simp: micro_range_def whole_def num_char_def)

lemma micro_rounded_normal: "micro_range x \<Longrightarrow> normal_double (micro_rounded x)"
  using six_places_normal by (auto simp: micro_range_def)

lemma six_decimals_micro: "six_decimals x \<Longrightarrow> micro_range x \<and> micro_rounded x = x"
  by (elim six_decimals_places) (simp add: micro_range_def)

subsection \<open>Tables that mirror a keyed map\<close>

text \<open>
  What a repository relies on of the layout of its table: two rows conflict exactly when their records
  have the same key. Then an upsert by the primary key updates the map.
\<close>

definition upserted :: "string \<Rightarrow> ('v \<Rightarrow> 'v) \<Rightarrow> 'v \<Rightarrow> (string, 'v) umap \<Rightarrow> (string, 'v) umap" where
  "upserted i g v0 m = AList.update i (case map_of m i of Some v \<Rightarrow> g v | None \<Rightarrow> v0) m"

locale keyed_table =
  fixes kcols :: "string list" and key :: "'v \<Rightarrow> string" and row_of :: "'v \<Rightarrow> sql_row"
  assumes row_conflict: "conflicts kcols (row_of v) (row_of w) \<longleftrightarrow> key v = key w"
begin

lemma update_first_mirrors:
  assumes "keyed_inv key m" "key v0 = i" "\<And>v. key v = i \<Longrightarrow> resolve action (row_of v0) (row_of v) = row_of (g v)"
  shows "update_first (conflicts kcols (row_of v0)) (resolve action (row_of v0)) (map (row_of \<circ> snd) m) =
    (case map_of m i of Some v \<Rightarrow> Some (map (row_of \<circ> snd) (AList.update i (g v) m)) | None \<Rightarrow> None)"
  using assms(1)
proof (induction m)
  case (Cons e m)
  obtain k v where e: "e = (k, v)" by force
  have k: "key v = k" and inv: "keyed_inv key m" using Cons.prems by (auto simp: keyed_inv_def e)
  have conf: "conflicts kcols (row_of v0) (row_of v) \<longleftrightarrow> i = k" using assms(2) k by (auto simp: row_conflict)
  show ?case
  proof (cases "i = k")
    case True
    then show ?thesis using conf k assms(3) by (simp add: e)
  next
    case False
    then show ?thesis using conf Cons.IH [OF inv] by (simp add: e split: option.split)
  qed
qed simp

lemma upsert_mirrors:
  assumes "keyed_inv key m" "key v0 = i" "\<And>v. key v = i \<Longrightarrow> resolve action (row_of v0) (row_of v) = row_of (g v)"
  shows "upsert_rows kcols action (row_of v0) (map (row_of \<circ> snd) m) = map (row_of \<circ> snd) (upserted i g v0 m)"
proof (cases "map_of m i")
  case None
  then have "i \<notin> fst ` set m" by (simp add: map_of_eq_None_iff)
  then have "AList.update i v0 m = m @ [(i, v0)]" by (induction m) auto
  then show ?thesis using None by (simp add: upsert_rows_def upserted_def update_first_mirrors [OF assms])
qed (simp add: upsert_rows_def upserted_def update_first_mirrors [OF assms])

lemma keyed_inv_upserted:
  assumes "keyed_inv key m" "key v0 = i" "\<And>v. key v = i \<Longrightarrow> key (g v) = i"
  shows "keyed_inv key (upserted i g v0 m)"
  using assms keyed_inv_lookup [OF assms(1)] by (auto simp: upserted_def intro!: keyed_inv_update split: option.split)

end

text \<open>A primary key of one text column, by which rows are also selected.\<close>

locale text_keyed_table =
  fixes kcol :: string and key :: "'v \<Rightarrow> string" and row_of :: "'v \<Rightarrow> sql_row"
  assumes row_key: "row_of v kcol = Some (Text_value (key v))"
begin

lemma select_mirrors:
  "keyed_inv key m \<Longrightarrow> filter (selected (Param_equals kcol 1) [i]) (map (row_of \<circ> snd) m) =
     (case map_of m i of None \<Rightarrow> [] | Some v \<Rightarrow> [row_of v])"
proof (induction m)
  case (Cons e m)
  obtain k v where e: "e = (k, v)" by force
  have k: "key v = k" and inv: "keyed_inv key m" and new: "k \<notin> fst ` set m" using Cons.prems by (auto simp: keyed_inv_def e)
  then have "map_of m k = None" by (simp add: map_of_eq_None_iff)
  then show ?case using Cons.IH [OF inv] k by (auto simp: e row_key split: option.split)
qed simp

end

sublocale text_keyed_table \<subseteq> keyed_table "[kcol]" key row_of
  by unfold_locales (simp add: conflicts_def row_key)

subsection \<open>Reading what was written\<close>

lemma mset_map_permuted:
  "mset rows = mset (map enc vs) \<Longrightarrow> \<exists>vs'. rows = map enc vs' \<and> mset vs' = mset vs"
proof (induction rows arbitrary: vs)
  case (Cons r rows)
  have "r \<in> set (map enc vs)" using Cons.prems by (metis list.set_intros(1) set_mset_mset)
  then obtain us v ws where vs: "vs = us @ v # ws" "r = enc v" by (auto dest!: split_list)
  then have "mset rows = mset (map enc (us @ ws))" using Cons.prems by simp
  then obtain vs' where "rows = map enc vs'" "mset vs' = mset (us @ ws)" using Cons.IH by blast
  then show ?case using vs by (intro exI [of _ "v # vs'"]) simp
qed simp

lemma cell_texts:
  "normal_double x \<Longrightarrow> postgres_server api float8out tables \<Longrightarrow> stod (float8out x) = Inr x"
  by (simp add: postgres_server_def)

end
