(* ===== verification/Libpq_Repositories.thy ===== *)
theory Libpq_Repositories
  imports Sql_Store
begin

section \<open>The repositories over libpq\<close>

text \<open>
  The \<open>Libpq*Repository\<close> classes of \<open>src/infrastructure/postgres_repositories.cpp\<close>: each operation is one
  statement of \<open>Sql_Store\<close> with its parameters as text, and the rows of a \<open>SELECT\<close> are decoded column by
  column, in the order of the columns, with the decoders of the file formats, whose fields have the same
  order. Doubles are sent with \<open>std::to_string\<close>.
\<close>

subsection \<open>Reading rows\<close>

fun read_rows :: "('a \<Rightarrow> load_failure + 'b) \<Rightarrow> 'a list \<Rightarrow> load_failure + 'b list" where
  "read_rows decode [] = Inr []"
| "read_rows decode (row # rows) = bindE (decode row) (\<lambda>v. bindE (read_rows decode rows) (\<lambda>vs. Inr (v # vs)))"

text \<open>The code of every \<open>all_...\<close> and \<open>get_...\<close>: all rows are read, or the first one if there is any.\<close>

definition all_rows :: "'p libpq \<Rightarrow> sql_statement \<Rightarrow> (string option list \<Rightarrow> load_failure + 'v) \<Rightarrow> ('v list, 'p) call" where
  "all_rows api sql decode = bindC (session_exec api sql) (\<lambda>result. reading (read_rows decode (pq_rows result)))"

definition first_row :: "'p libpq \<Rightarrow> sql_statement \<Rightarrow> string list \<Rightarrow> (string option list \<Rightarrow> load_failure + 'v) \<Rightarrow> ('v option, 'p) call" where
  "first_row api sql params decode = bindC (exec_params api sql params) (\<lambda>result.
     reading (case pq_rows result of [] \<Rightarrow> Inr None | row # _ \<Rightarrow> map_sum id Some (decode row)))"

definition run_params :: "'p libpq \<Rightarrow> sql_statement \<Rightarrow> string list \<Rightarrow> (unit, 'p) call" where
  "run_params api sql params = bindC (exec_params api sql params) (\<lambda>_. retC ())"

definition cells :: "(string list \<Rightarrow> load_failure + 'v) \<Rightarrow> string option list \<Rightarrow> load_failure + 'v" where
  "cells decode row = decode (map pq_getvalue row)"

subsection \<open>Transactions\<close>

definition upsert_received :: sql_statement where
  "upsert_received = Insert ''transaction_records''
     [(''transaction_id'', Param 1), (''status'', Param 2), (''kafka_topic'', Param 3), (''kafka_partition'', Param 4), (''kafka_offset'', Param 5)]
     [''transaction_id''] (Do_update [''status'', ''kafka_topic'', ''kafka_partition'', ''kafka_offset''])"

definition libpq_save_received :: "'p libpq \<Rightarrow> transaction_command \<Rightarrow> (unit, 'p) call" where
  "libpq_save_received api command = run_params api upsert_received
     [tx_transaction_id command, ''received'', tx_kafka_topic command, show_int (tx_kafka_partition command), show_int (tx_kafka_offset command)]"

definition upsert_processed :: sql_statement where
  "upsert_processed = Insert ''transaction_records''
     [(''transaction_id'', Param 1), (''status'', Param 2), (''kafka_topic'', Sql_literal []), (''kafka_partition'', Sql_literal ''0''),
      (''kafka_offset'', Sql_literal ''0'')] [''transaction_id''] (Do_update [''status''])"

definition libpq_save_processed :: "'p libpq \<Rightarrow> string \<Rightarrow> string \<Rightarrow> (unit, 'p) call" where
  "libpq_save_processed api transaction_id status = run_params api upsert_processed [transaction_id, status]"

definition upsert_checkpoint :: sql_statement where
  "upsert_checkpoint = Insert ''kafka_checkpoints'' [(''topic'', Param 1), (''partition_id'', Param 2), (''offset_value'', Param 3)]
     [''topic'', ''partition_id''] (Do_update [''offset_value''])"

definition libpq_save_checkpoint :: "'p libpq \<Rightarrow> kafka_checkpoint \<Rightarrow> (unit, 'p) call" where
  "libpq_save_checkpoint api c = run_params api upsert_checkpoint [kc_topic c, show_int (kc_partition c), show_int (kc_offset c)]"

definition select_checkpoints :: sql_statement where
  "select_checkpoints = Select [''topic'', ''partition_id'', ''offset_value''] ''kafka_checkpoints'' Everything False"

definition libpq_all_checkpoints :: "'p libpq \<Rightarrow> (kafka_checkpoint list, 'p) call" where
  "libpq_all_checkpoints api = all_rows api select_checkpoints (cells checkpoint_of_fields)"

definition transaction_columns :: "string list" where
  "transaction_columns = [''transaction_id'', ''status'', ''kafka_topic'', ''kafka_partition'', ''kafka_offset'']"

definition select_transactions :: sql_statement where
  "select_transactions = Select transaction_columns ''transaction_records'' Everything False"

definition libpq_all_records :: "'p libpq \<Rightarrow> (transaction_record list, 'p) call" where
  "libpq_all_records api = all_rows api select_transactions (cells transaction_of_fields)"

definition select_transaction :: sql_statement where
  "select_transaction = Select transaction_columns ''transaction_records'' (Param_equals ''transaction_id'' 1) False"

definition libpq_get_record :: "'p libpq \<Rightarrow> string \<Rightarrow> (transaction_record option, 'p) call" where
  "libpq_get_record api transaction_id = first_row api select_transaction [transaction_id] (cells transaction_of_fields)"

subsection \<open>Orders\<close>

definition order_columns :: "string list" where
  "order_columns = [''order_id'', ''client_order_id'', ''strategy_id'', ''instrument_id'', ''side'', ''order_type'', ''status'', ''quantity'',
     ''price'', ''filled_quantity'']"

definition upsert_order :: sql_statement where
  "upsert_order = Insert ''order_records''
     [(''order_id'', Param 1), (''client_order_id'', Param 2), (''strategy_id'', Param 3), (''instrument_id'', Param 4), (''side'', Param 5),
      (''order_type'', Param 6), (''status'', Param 7), (''quantity'', Param 8), (''price'', Nullif_param 9), (''filled_quantity'', Param 10)]
     [''order_id'']
     (Do_update [''client_order_id'', ''strategy_id'', ''instrument_id'', ''side'', ''order_type'', ''status'', ''quantity'', ''price'', ''filled_quantity''])"

definition order_params :: "order_request \<Rightarrow> string \<Rightarrow> string \<Rightarrow> string list" where
  "order_params rq order_id client_order_id =
     [order_id, client_order_id, rq_strategy_id rq, instrument_id (rq_instrument rq), show_int (side_code (rq_side rq)),
      show_int (type_code (rq_type rq)), show_int (status_code Created), to_string_double (rq_quantity rq),
      encode_optional_double (rq_price rq), ''0'']"

definition libpq_save_order :: "'p libpq \<Rightarrow> order_request \<Rightarrow> string \<Rightarrow> string \<Rightarrow> (unit, 'p) call" where
  "libpq_save_order api rq order_id client_order_id = run_params api upsert_order (order_params rq order_id client_order_id)"

definition upsert_order_update :: sql_statement where
  "upsert_order_update = Insert ''order_records''
     [(''order_id'', Param 1), (''client_order_id'', Param 2), (''strategy_id'', Sql_literal []), (''instrument_id'', Sql_literal []),
      (''side'', Sql_literal ''0''), (''order_type'', Sql_literal ''1''), (''status'', Param 3), (''quantity'', Sql_literal ''0''),
      (''price'', Sql_null), (''filled_quantity'', Param 4)]
     [''order_id''] (Do_update [''client_order_id'', ''status'', ''filled_quantity''])"

definition update_params :: "order_update \<Rightarrow> string list" where
  "update_params u = [ou_order_id u, ou_client_order_id u, show_int (status_code (ou_status u)), to_string_double (ou_filled_quantity u)]"

definition libpq_save_order_update :: "'p libpq \<Rightarrow> order_update \<Rightarrow> (unit, 'p) call" where
  "libpq_save_order_update api u = run_params api upsert_order_update (update_params u)"

definition select_order :: sql_statement where
  "select_order = Select order_columns ''order_records'' (Param_equals ''order_id'' 1) False"

definition libpq_get_order :: "'p libpq \<Rightarrow> string \<Rightarrow> (order_record option, 'p) call" where
  "libpq_get_order api order_id = first_row api select_order [order_id] (cells order_of_fields)"

definition select_open_orders :: sql_statement where
  "select_open_orders = Select order_columns ''order_records'' (Int_in ''status'' [0, 1, 2, 3, 5]) False"

definition libpq_all_open_orders :: "'p libpq \<Rightarrow> (order_record list, 'p) call" where
  "libpq_all_open_orders api = all_rows api select_open_orders (cells order_of_fields)"

subsection \<open>Fills, intents and reports\<close>

definition fill_columns :: "string list" where
  "fill_columns = [''fill_id'', ''order_id'', ''instrument_id'', ''exchange'', ''symbol'', ''base_asset'', ''quote_asset'', ''tick_size'',
     ''lot_size'', ''side'', ''price'', ''quantity'', ''fee'']"

definition numbered :: "string list \<Rightarrow> (string \<times> sql_expr) list" where
  "numbered cs = map (\<lambda>(i, c). (c, Param (i + 1))) (enumerate 0 cs)"

definition insert_fill :: sql_statement where
  "insert_fill = Insert ''fill_records'' (numbered fill_columns) [''fill_id''] Do_nothing"

definition instrument_params :: "instrument \<Rightarrow> string list" where
  "instrument_params i = [instrument_id i, exchange i, symbol i, base_asset i, quote_asset i, to_string_double (tick_size i), to_string_double (lot_size i)]"

definition libpq_append_fill :: "'p libpq \<Rightarrow> fill_event \<Rightarrow> (unit, 'p) call" where
  "libpq_append_fill api fill = run_params api insert_fill
     ([fl_fill_id fill, fl_order_id fill] @ instrument_params (fl_instrument fill) @
      [show_int (side_code (fl_side fill)), to_string_double (fl_price fill), to_string_double (fl_quantity fill), to_string_double (fl_fee fill)])"

definition select_fills :: sql_statement where
  "select_fills = Select fill_columns ''fill_records'' Everything True"

definition libpq_all_fills :: "'p libpq \<Rightarrow> (fill_event list, 'p) call" where
  "libpq_all_fills api = all_rows api select_fills (cells fill_of_fields)"

definition intent_columns :: "string list" where
  "intent_columns = [''request_id'', ''strategy_id'', ''instrument_id'', ''side'', ''order_type'', ''quantity'', ''price'']"

definition upsert_intent :: sql_statement where
  "upsert_intent = Insert ''order_intent_records''
     [(''request_id'', Param 1), (''strategy_id'', Param 2), (''instrument_id'', Param 3), (''side'', Param 4), (''order_type'', Param 5),
      (''quantity'', Param 6), (''price'', Nullif_param 7)]
     [''request_id''] (Do_update [''strategy_id'', ''instrument_id'', ''side'', ''order_type'', ''quantity'', ''price''])"

definition libpq_append_intent :: "'p libpq \<Rightarrow> order_intent_record \<Rightarrow> (unit, 'p) call" where
  "libpq_append_intent api x = run_params api upsert_intent
     [oi_request_id x, oi_strategy_id x, oi_instrument_id x, show_int (side_code (oi_side x)), show_int (type_code (oi_order_type x)),
      to_string_double (oi_quantity x), encode_optional_double (oi_price x)]"

definition select_intents :: sql_statement where
  "select_intents = Select intent_columns ''order_intent_records'' Everything True"

definition libpq_all_intents :: "'p libpq \<Rightarrow> (order_intent_record list, 'p) call" where
  "libpq_all_intents api = all_rows api select_intents (cells intent_of_fields)"

definition report_columns :: "string list" where
  "report_columns = [''report_id'', ''order_id'', ''client_order_id'', ''instrument_id'', ''side'', ''status'', ''cumulative_filled_quantity'',
     ''last_fill_price'', ''last_fill_fee'', ''reason'', ''exchange_timestamp'']"

definition upsert_report :: sql_statement where
  "upsert_report = Insert ''execution_report_records''
     [(''report_id'', Param 1), (''order_id'', Param 2), (''client_order_id'', Param 3), (''instrument_id'', Param 4), (''side'', Param 5),
      (''status'', Param 6), (''cumulative_filled_quantity'', Param 7), (''last_fill_price'', Nullif_param 8), (''last_fill_fee'', Param 9),
      (''reason'', Param 10), (''exchange_timestamp'', Param 11)]
     [''report_id'']
     (Do_update [''order_id'', ''client_order_id'', ''instrument_id'', ''side'', ''status'', ''cumulative_filled_quantity'', ''last_fill_price'',
        ''last_fill_fee'', ''reason'', ''exchange_timestamp''])"

definition libpq_append_report :: "'p libpq \<Rightarrow> execution_report_record \<Rightarrow> (unit, 'p) call" where
  "libpq_append_report api x = run_params api upsert_report
     [er_report_id x, er_order_id x, er_client_order_id x, er_instrument_id x, show_int (side_code (er_side x)),
      show_int (status_code (er_status x)), to_string_double (er_cumulative_filled_quantity x),
      encode_optional_double (er_last_fill_price x), to_string_double (er_last_fill_fee x),
      (case er_reason x of Some reason \<Rightarrow> reason | None \<Rightarrow> []), show_int (er_exchange_timestamp x)]"

definition select_reports :: sql_statement where
  "select_reports = Select report_columns ''execution_report_records'' Everything True"

text \<open>The reason is read with \<open>PQgetisnull\<close>, unlike the empty field of the file format.\<close>

definition report_of_row :: "string option list \<Rightarrow> load_failure + execution_report_record" where
  "report_of_row row = map_sum id (\<lambda>x. x\<lparr>er_reason := row ! 9\<rparr>) (report_of_fields (map pq_getvalue row))"

definition libpq_all_reports :: "'p libpq \<Rightarrow> (execution_report_record list, 'p) call" where
  "libpq_all_reports api = all_rows api select_reports report_of_row"

subsection \<open>Positions and balances\<close>

definition upsert_position :: sql_statement where
  "upsert_position = Insert ''position_records''
     (numbered [''instrument_id'', ''position_id'', ''exchange'', ''symbol'', ''base_asset'', ''quote_asset'', ''tick_size'', ''lot_size'',
        ''net_quantity'', ''average_entry_price'', ''realized_pnl'', ''unrealized_pnl''])
     [''instrument_id'']
     (Do_update [''position_id'', ''exchange'', ''symbol'', ''base_asset'', ''quote_asset'', ''tick_size'', ''lot_size'', ''net_quantity'',
        ''average_entry_price'', ''realized_pnl'', ''unrealized_pnl''])"

definition libpq_save_position :: "'p libpq \<Rightarrow> position \<Rightarrow> (unit, 'p) call" where
  "libpq_save_position api p = run_params api upsert_position
     ([instrument_id (po_instrument p), po_position_id p] @ tl (instrument_params (po_instrument p)) @
      [to_string_double (po_net_quantity p), to_string_double (po_average_entry_price p), to_string_double (po_realized_pnl p),
       to_string_double (po_unrealized_pnl p)])"

definition position_columns :: "string list" where
  "position_columns = [''position_id'', ''instrument_id'', ''exchange'', ''symbol'', ''base_asset'', ''quote_asset'', ''tick_size'', ''lot_size'',
     ''net_quantity'', ''average_entry_price'', ''realized_pnl'', ''unrealized_pnl'']"

definition select_position :: sql_statement where
  "select_position = Select position_columns ''position_records'' (Param_equals ''instrument_id'' 1) False"

definition libpq_get_position :: "'p libpq \<Rightarrow> string \<Rightarrow> (position option, 'p) call" where
  "libpq_get_position api iid = first_row api select_position [iid] (cells position_of_fields)"

definition select_positions :: sql_statement where
  "select_positions = Select position_columns ''position_records'' Everything False"

definition libpq_all_positions :: "'p libpq \<Rightarrow> (position list, 'p) call" where
  "libpq_all_positions api = all_rows api select_positions (cells position_of_fields)"

definition upsert_balance :: sql_statement where
  "upsert_balance = Insert ''balance_records'' (numbered [''asset'', ''total_balance'', ''available_balance'']) [''asset'']
     (Do_update [''total_balance'', ''available_balance''])"

definition libpq_save_balance :: "'p libpq \<Rightarrow> balance_snapshot \<Rightarrow> (unit, 'p) call" where
  "libpq_save_balance api x = run_params api upsert_balance
     [ba_asset x, to_string_double (ba_total_balance x), to_string_double (ba_available_balance x)]"

definition balance_columns :: "string list" where
  "balance_columns = [''asset'', ''total_balance'', ''available_balance'']"

definition select_balance :: sql_statement where
  "select_balance = Select balance_columns ''balance_records'' (Param_equals ''asset'' 1) False"

definition libpq_get_balance :: "'p libpq \<Rightarrow> string \<Rightarrow> (balance_snapshot option, 'p) call" where
  "libpq_get_balance api asset = first_row api select_balance [asset] (cells balance_of_fields)"

definition select_balances :: sql_statement where
  "select_balances = Select balance_columns ''balance_records'' Everything False"

definition libpq_all_balances :: "'p libpq \<Rightarrow> (balance_snapshot list, 'p) call" where
  "libpq_all_balances api = all_rows api select_balances (cells balance_of_fields)"

end
