(* ===== verification/Libpq_Tables.thy ===== *)
theory Libpq_Tables
  imports Libpq_Repositories
begin

section \<open>Repositories as tables\<close>

text \<open>
  What the proofs about the libpq repositories share: a locale for a table that stores a keyed map of
  records, with the lemmas that an upsert updates the map and that the selections read it. Each repository
  interprets it with its columns, its rows and its decoder.
\<close>

subsection \<open>Values\<close>

declare parse_value.simps(2-4) [simp del]

lemma parse_codes [simp]:
  "parse_value INTEGER (show_int (side_code sd)) = Some (Int_value (side_code sd))"
  by (rule parse_int, cases sd) simp_all

lemma parse_type_code [simp]: "parse_value INTEGER (show_int (type_code ty)) = Some (Int_value (type_code ty))"
  by (rule parse_int, cases ty) simp_all

lemma parse_status_code [simp]: "parse_value INTEGER (show_int (status_code st)) = Some (Int_value (status_code st))"
  by (rule parse_int, cases st) simp_all

lemma parse_literals [simp]:
  "parse_value INTEGER ''0'' = Some (Int_value 0)" "parse_value INTEGER ''1'' = Some (Int_value 1)"
  "parse_value BIGINT ''0'' = Some (Int_value 0)" "parse_value DOUBLE_PRECISION ''0'' = Some (Double_value 0)"
  by (code_simp, code_simp, code_simp) (simp add: parse_value.simps(4) whole_def stod_pos_zero num_char_def is_digit_def)

lemma pg_text_Nil [simp]: "pg_text []"
  by (simp add: pg_text_def)

lemma parse_six_decimals: "six_decimals x \<Longrightarrow> parse_value DOUBLE_PRECISION (to_string_double x) = Some (Double_value x)"
  using six_decimals_micro [of x] parse_double [of x] by simp

lemma six_decimals_normal: "six_decimals x \<Longrightarrow> normal_double x"
  using six_decimals_micro [of x] micro_rounded_normal [of x] by simp

lemma six_decimals_0 [simp]: "six_decimals 0"
  by (auto simp: six_decimals_def zero_double_def rnd64_def intro!: exI [of _ 0])

lemma sent_texts:
  "pg_text s \<Longrightarrow> c_str s = s" "c_str (show_int i) = show_int i" "c_str (to_string_double x) = to_string_double x"
  "c_str (encode_optional_double v) = encode_optional_double v" "c_str ''0'' = ''0''" "c_str ''received'' = ''received''"
  by (simp_all add: pg_text_nul_free)

text \<open>An optional price is stored as a null or a double, and sent as the empty string or a decimal.\<close>

fun price_value :: "double option \<Rightarrow> sql_value" where
  "price_value None = Null_value"
| "price_value (Some x) = Double_value x"

lemma nullif_price:
  assumes "quote_safe v" "0 < n" "n \<le> length ps" "ps ! (n - 1) = encode_optional_double v"
  shows "expr_value (nullable c DOUBLE_PRECISION) ps (Nullif_param n) = Some (price_value v)"
  using assms six_decimals_micro parse_six_decimals to_string_double_not_Nil
  by (cases v) (auto simp: nullable_def encode_optional_double_def quote_safe_def)

definition exact_output :: "(double \<Rightarrow> string) \<Rightarrow> bool" where
  "exact_output float8out \<longleftrightarrow> (\<forall>x. normal_double x \<longrightarrow> stod (float8out x) = Inr x)"

lemma server_output: "postgres_server api float8out tables \<Longrightarrow> exact_output float8out"
  by (simp add: postgres_server_def exact_output_def)

lemma read_exact: "exact_output float8out \<Longrightarrow> six_decimals x \<Longrightarrow> stod (float8out x) = Inr x"
  by (simp add: exact_output_def six_decimals_normal)

lemma read_price:
  "exact_output float8out \<Longrightarrow> quote_safe v \<Longrightarrow> decode_optional_double (pq_getvalue (cell_text float8out (price_value v))) = Inr v"
  using stod_not_Nil read_exact by (cases v) (auto simp: decode_optional_double_def quote_safe_def)

subsection \<open>Selections\<close>

lemma read_rows_map:
  "(\<And>v. v \<in> set vs \<Longrightarrow> decode (enc v) = Inr (out v)) \<Longrightarrow> read_rows decode (map enc vs) = Inr (map out vs)"
  by (induction vs) simp_all

lemma all_rows_answer:
  assumes server: "postgres_server api float8out tables"
    and run: "sql_run sql [] (tables p) = Some (map (project cs \<circ> row_of) vs, tables p)"
    and decode: "\<And>v. v \<in> set vs \<Longrightarrow> decode (map (cell_text float8out) (project cs (row_of v))) = Inr (out v)"
  shows "\<exists>p' ws. all_rows api sql decode p = (Inr ws, p') \<and> mset ws = mset (map out vs) \<and> (ordered_rows sql \<longrightarrow> ws = map out vs) \<and> tables p' = tables p"
proof -
  obtain result p' where res: "session_exec api sql p = (Inr result, p')" "tables p' = tables p"
      "answers float8out sql (map (project cs \<circ> row_of) vs) result"
    using session_exec_run [OF server run] .
  define enc where "enc = (\<lambda>v. map (cell_text float8out) (project cs (row_of v)))"
  have rows: "mset (pq_rows result) = mset (map enc vs)" "ordered_rows sql \<longrightarrow> pq_rows result = map enc vs"
    using res(3) by (simp_all add: answers_def enc_def comp_def)
  obtain vs' where vs': "pq_rows result = map enc vs'" "mset vs' = mset vs" "ordered_rows sql \<longrightarrow> vs' = vs"
  proof (cases "ordered_rows sql")
    case True
    then show thesis using rows(2) by (intro that [of vs]) simp_all
  next
    case False
    then show thesis using mset_map_permuted [OF rows(1)] that by blast
  qed
  have "\<And>v. v \<in> set vs' \<Longrightarrow> decode (enc v) = Inr (out v)"
    using decode mset_eq_setD [OF vs'(2)] by (simp add: enc_def)
  then have "read_rows decode (pq_rows result) = Inr (map out vs')" unfolding vs'(1) by (rule read_rows_map)
  moreover have "mset (map out vs') = mset (map out vs)" using vs'(2) by simp
  ultimately show ?thesis using res(1,2) vs'(3) by (auto simp: all_rows_def call_defs)
qed

lemma first_row_answer:
  assumes server: "postgres_server api float8out tables"
    and run: "sql_run sql (map c_str ps) (tables p) = Some (map (project cs \<circ> row_of) (case found of None \<Rightarrow> [] | Some v \<Rightarrow> [v]), tables p)"
    and decode: "\<And>v. found = Some v \<Longrightarrow> decode (map (cell_text float8out) (project cs (row_of v))) = Inr (out v)"
  shows "\<exists>p'. first_row api sql ps decode p = (Inr (map_option out found), p') \<and> tables p' = tables p"
proof -
  obtain result p' where res: "exec_params api sql ps p = (Inr result, p')" "tables p' = tables p"
      "answers float8out sql (map (project cs \<circ> row_of) (case found of None \<Rightarrow> [] | Some v \<Rightarrow> [v])) result"
    using exec_params_run [OF server run] .
  have "mset (pq_rows result) = mset (case found of None \<Rightarrow> [] | Some v \<Rightarrow> [map (cell_text float8out) (project cs (row_of v))])"
    using res(3) by (simp add: answers_def split: option.split)
  then have "pq_rows result = (case found of None \<Rightarrow> [] | Some v \<Rightarrow> [map (cell_text float8out) (project cs (row_of v))])"
    by (auto split: option.splits)
  then show ?thesis using res(1,2) decode by (auto simp: first_row_def call_defs split: option.splits)
qed

lemma run_params_answer:
  assumes "postgres_server api float8out tables" "sql_run sql (map c_str ps) (tables p) = Some (rows, db)"
  shows "\<exists>p'. run_params api sql ps p = (Inr (), p') \<and> tables p' = db"
proof -
  obtain result p' where "exec_params api sql ps p = (Inr result, p')" "tables p' = db"
    using exec_params_run [OF assms] .
  then show ?thesis by (simp add: run_params_def call_defs)
qed

subsection \<open>Stored records\<close>

fun create_columns :: "sql_statement \<Rightarrow> sql_column list" where
  "create_columns (Create_table t sequence cs key) = cs"
| "create_columns _ = []"

definition holds_rows ::
  "string \<Rightarrow> sql_column list \<Rightarrow> string list \<Rightarrow> ('v \<Rightarrow> sql_row) \<Rightarrow> ('v \<Rightarrow> string) \<Rightarrow> ('v \<Rightarrow> bool) \<Rightarrow> sql_tables \<Rightarrow> (string, 'v) umap \<Rightarrow> bool" where
  "holds_rows name cs kcols row_of key storable db m \<longleftrightarrow>
     db name = Some \<lparr>tb_columns = cs, tb_key = kcols, tb_rows = map (row_of \<circ> snd) m\<rparr> \<and> keyed_inv key m \<and> (\<forall>v \<in> snd ` set m. storable v)"

lemma upserted_values:
  "v \<in> snd ` set (upserted i g v0 m) \<Longrightarrow> v \<in> snd ` set m \<or> v = v0 \<or> (\<exists>w \<in> snd ` set m. v = g w)"
proof -
  have "set (AList.update i w m) \<subseteq> insert (i, w) (set m)" for w by (induction m) auto
  then show "v \<in> snd ` set (upserted i g v0 m) \<Longrightarrow> ?thesis"
    by (fastforce simp: upserted_def image_iff split: option.splits dest!: map_of_SomeD)
qed

lemma upserted_const: "upserted i (\<lambda>_. v) v m = AList.update i v m"
  by (simp add: upserted_def split: option.split)

locale stored_records = keyed_table kcols key row_of
  for kcols :: "string list" and key :: "'v \<Rightarrow> string" and row_of :: "'v \<Rightarrow> sql_row" +
  fixes name :: string and cs :: "sql_column list" and columns :: "string list"
    and decode :: "string option list \<Rightarrow> load_failure + 'v" and out :: "'v \<Rightarrow> 'v" and storable :: "'v \<Rightarrow> bool"
  assumes columns_known: "set columns \<subseteq> set (map sc_name cs)"
    and decode_row: "storable v \<Longrightarrow> exact_output float8out \<Longrightarrow> decode (map (cell_text float8out) (project columns (row_of v))) = Inr (out v)"
begin

abbreviation mirrored :: "sql_tables \<Rightarrow> (string, 'v) umap \<Rightarrow> bool" where
  "mirrored \<equiv> holds_rows name cs kcols row_of key storable"

lemma upsert_framed:
  assumes server: "postgres_server api float8out tables" and m: "mirrored (tables p) m"
    and items: "set (map fst items) = set (map sc_name cs)" "insert_row cs (map c_str ps) items = Some (row_of v0)"
    and g: "\<And>v. key v = key v0 \<Longrightarrow> resolve action (row_of v0) (row_of v) = row_of (g v)" "\<And>v. key v = key v0 \<Longrightarrow> key (g v) = key v0"
    and safe: "storable v0" "\<And>v. storable v \<Longrightarrow> storable (g v)"
  shows "\<exists>p'. run_params api (Insert name items kcols action) ps p = (Inr (), p') \<and> mirrored (tables p') (upserted (key v0) g v0 m) \<and>
    (\<forall>t. t \<noteq> name \<longrightarrow> tables p' t = tables p t)"
proof -
  have inv: "keyed_inv key m" using m by (simp add: holds_rows_def)
  have "sql_run (Insert name items kcols action) (map c_str ps) (tables p) =
      Some ([], (tables p)(name \<mapsto> \<lparr>tb_columns = cs, tb_key = kcols, tb_rows = map (row_of \<circ> snd) (upserted (key v0) g v0 m)\<rparr>))"
    using m items upsert_mirrors [OF inv refl g(1)] by (simp add: holds_rows_def)
  from run_params_answer [OF server this] show ?thesis
    using keyed_inv_upserted [OF inv refl g(2)] upserted_values [of _ "key v0" g v0 m] m safe by (fastforce simp: holds_rows_def)
qed

lemma upsert_step:
  assumes server: "postgres_server api float8out tables" and m: "mirrored (tables p) m"
    and items: "set (map fst items) = set (map sc_name cs)" "insert_row cs (map c_str ps) items = Some (row_of v0)"
    and g: "\<And>v. key v = key v0 \<Longrightarrow> resolve action (row_of v0) (row_of v) = row_of (g v)" "\<And>v. key v = key v0 \<Longrightarrow> key (g v) = key v0"
    and safe: "storable v0" "\<And>v. storable v \<Longrightarrow> storable (g v)"
  shows "\<exists>p'. run_params api (Insert name items kcols action) ps p = (Inr (), p') \<and> mirrored (tables p') (upserted (key v0) g v0 m)"
  using upsert_framed [OF assms] by blast

lemma select_all:
  assumes server: "postgres_server api float8out tables" and m: "mirrored (tables p) m"
  shows "\<exists>p' ws. all_rows api (Select columns name Everything ordd) decode p = (Inr ws, p') \<and>
    mset ws = mset (map out (map snd m)) \<and> (ordd \<longrightarrow> ws = map out (map snd m)) \<and> tables p' = tables p"
proof -
  have "\<exists>p' ws. all_rows api (Select columns name Everything ordd) decode p = (Inr ws, p') \<and>
    mset ws = mset (map out (map snd m)) \<and> (ordered_rows (Select columns name Everything ordd) \<longrightarrow> ws = map out (map snd m)) \<and> tables p' = tables p"
    using m columns_known decode_row [OF _ server_output [OF server]]
    by (intro all_rows_answer [OF server]) (auto simp: holds_rows_def)
  then show ?thesis by simp
qed

end

locale text_stored_records = stored_records "[kcol]" key row_of name cs columns decode out storable + text_keyed_table kcol key row_of
  for kcol :: string and key :: "'v \<Rightarrow> string" and row_of :: "'v \<Rightarrow> sql_row" and name cs columns decode out storable
begin

lemma select_one:
  assumes server: "postgres_server api float8out tables" and m: "mirrored (tables p) m" and i: "pg_text i"
  shows "\<exists>p'. first_row api (Select columns name (Param_equals kcol 1) False) [i] decode p = (Inr (map_option out (map_of m i)), p') \<and> tables p' = tables p"
proof (rule first_row_answer [OF server])
  have inv: "keyed_inv key m" using m by (simp add: holds_rows_def)
  show "sql_run (Select columns name (Param_equals kcol 1) False) (map c_str [i]) (tables p) =
      Some (map (project columns \<circ> row_of) (case map_of m i of None \<Rightarrow> [] | Some v \<Rightarrow> [v]), tables p)"
    using select_mirrors [OF inv, of i] columns_known i m
    by (simp add: holds_rows_def sent_texts del: selected.simps split: option.split)
  fix v assume "map_of m i = Some v"
  then have "v \<in> snd ` set m" by (force dest: map_of_SomeD)
  then show "decode (map (cell_text float8out) (project columns (row_of v))) = Inr (out v)"
    using m by (intro decode_row server_output [OF server]) (auto simp: holds_rows_def)
qed

end

end
