(* ===== verification/Libpq_Correctness.thy ===== *)
theory Libpq_Correctness
  imports Libpq_Tables Recovery Ingestion
begin

section \<open>What the PostgreSQL repositories keep\<close>

text \<open>
  Against a server that executes their statements as documented (\<open>postgres_server\<close>), the repositories over
  libpq behave like in-memory ones: each interprets \<open>stored_records\<close>, and the properties compare any
  sequence of writes with the in-memory map. Where they differ, the theorem says how: doubles are rounded to
  six places, a fill is kept once per id, a report without a reason gets an empty one.
\<close>

lemmas column_defs = not_null_def nullable_def

text \<open>A server that is its tables, as the hypothesis describes it.\<close>

definition table_server :: "sql_tables libpq" where
  "table_server =
     (let run = (\<lambda>sql ps db. case sql_run sql ps db of
            None \<Rightarrow> (Some \<lparr>pq_status = PGRES_OTHER, pq_message = ''ERROR'', pq_rows = []\<rparr>, db)
          | Some (rows, db') \<Rightarrow> (Some \<lparr>pq_status = PGRES_TUPLES_OK, pq_message = [],
              pq_rows = map (map (cell_text (show_double_prec 17))) rows\<rparr>, db'))
      in \<lparr>pq_connectdb = (\<lambda>_. Some Map.empty), pq_connected = (\<lambda>_. True), pq_error = (\<lambda>_. []), pq_exec = (\<lambda>sql. run sql []), pq_exec_params = run\<rparr>)"

lemma table_server_ok: "postgres_server table_server (show_double_prec 17) id"
  by (simp add: postgres_server_def table_server_def answers_def stod_show_exact)

subsection \<open>Orders\<close>

definition order_row :: "order_record \<Rightarrow> sql_row" where
  "order_row r = [''order_id'' \<mapsto> Text_value (or_order_id r), ''client_order_id'' \<mapsto> Text_value (or_client_order_id r),
     ''strategy_id'' \<mapsto> Text_value (or_strategy_id r), ''instrument_id'' \<mapsto> Text_value (or_instrument_id r),
     ''side'' \<mapsto> Int_value (side_code (or_side r)), ''order_type'' \<mapsto> Int_value (type_code (or_order_type r)),
     ''status'' \<mapsto> Int_value (status_code (or_status r)), ''quantity'' \<mapsto> Double_value (or_quantity r),
     ''price'' \<mapsto> price_value (or_price r), ''filled_quantity'' \<mapsto> Double_value (or_filled_quantity r)]"

definition order_storable :: "order_record \<Rightarrow> bool" where
  "order_storable r \<longleftrightarrow> pg_text (or_order_id r) \<and> pg_text (or_client_order_id r) \<and> pg_text (or_strategy_id r) \<and> pg_text (or_instrument_id r) \<and>
     six_decimals (or_quantity r) \<and> quote_safe (or_price r) \<and> six_decimals (or_filled_quantity r)"

interpretation order_table: text_stored_records "''order_id''" or_order_id order_row "''order_records''" "create_columns create_orders" order_columns
    "cells order_of_fields" id order_storable
proof
  fix r :: order_record and float8out
  assume "order_storable r" "exact_output float8out"
  then show "cells order_of_fields (map (cell_text float8out) (project order_columns (order_row r))) = Inr (id r)"
    by (simp add: cells_def project_def order_columns_def order_row_def order_of_fields_def order_storable_def read_exact read_price)
qed (simp_all add: order_row_def order_columns_def create_orders_def column_defs conflicts_def)

definition update_record :: "order_update \<Rightarrow> order_record" where
  "update_record u = apply_order_update u (blank_order (ou_order_id u))"

lemma save_order_upserted:
  "save_order rq i c m = upserted (or_order_id (order_record_of rq i c)) (\<lambda>_. order_record_of rq i c) (order_record_of rq i c) m"
  "save_order_update u m = upserted (or_order_id (update_record u)) (apply_order_update u) (update_record u) m"
  by (simp_all add: save_order_def save_order_update_def upserted_def update_record_def apply_order_update_def blank_order_def order_record_of_def
      split: option.split)

fun libpq_order_step :: "'p libpq \<Rightarrow> order_op \<Rightarrow> (unit, 'p) call" where
  "libpq_order_step api (Save_order rq i c) = libpq_save_order api rq i c"
| "libpq_order_step api (Update_order u) = libpq_save_order_update api u"

fun order_op_storable :: "order_op \<Rightarrow> bool" where
  "order_op_storable (Save_order rq i c) \<longleftrightarrow> order_storable (order_record_of rq i c)"
| "order_op_storable (Update_order u) \<longleftrightarrow> pg_text (ou_order_id u) \<and> pg_text (ou_client_order_id u) \<and> six_decimals (ou_filled_quantity u)"

lemma insert_order_row:
  assumes "order_storable (order_record_of rq i c)"
  shows "insert_row (create_columns create_orders) (map c_str (order_params rq i c))
      [(''order_id'', Param 1), (''client_order_id'', Param 2), (''strategy_id'', Param 3), (''instrument_id'', Param 4), (''side'', Param 5),
       (''order_type'', Param 6), (''status'', Param 7), (''quantity'', Param 8), (''price'', Nullif_param 9), (''filled_quantity'', Param 10)] =
     Some (order_row (order_record_of rq i c))"
proof -
  let ?ps = "order_params rq i c"
  have sent: "map c_str ?ps = ?ps"
    using assms by (simp add: order_params_def order_storable_def order_record_of_def sent_texts)
  have "quote_safe (rq_price rq)" using assms by (simp add: order_storable_def order_record_of_def)
  then have price: "expr_value (nullable ''price'' DOUBLE_PRECISION) ?ps (Nullif_param 9) = Some (price_value (rq_price rq))"
    by (rule nullif_price) (simp_all add: order_params_def)
  show ?thesis unfolding sent
    using assms price
    by (auto simp: create_orders_def not_null_def nullable_def order_storable_def order_record_of_def parse_six_decimals order_row_def order_params_def fun_eq_iff
        simp del: status_code.simps expr_value.simps(2))
qed

lemma insert_update_row:
  assumes "order_op_storable (Update_order u)"
  shows "insert_row (create_columns create_orders) (map c_str (update_params u))
      [(''order_id'', Param 1), (''client_order_id'', Param 2), (''strategy_id'', Sql_literal []), (''instrument_id'', Sql_literal []),
       (''side'', Sql_literal ''0''), (''order_type'', Sql_literal ''1''), (''status'', Param 3), (''quantity'', Sql_literal ''0''),
       (''price'', Sql_null), (''filled_quantity'', Param 4)] =
     Some (order_row (update_record u))"
proof -
  have sent: "map c_str (update_params u) = update_params u"
    using assms by (simp add: update_params_def sent_texts)
  show ?thesis unfolding sent
    using assms
    by (auto simp: create_orders_def column_defs update_record_def apply_order_update_def blank_order_def
        parse_six_decimals order_row_def update_params_def fun_eq_iff simp del: status_code.simps)
qed

lemma libpq_order_step_mirrors:
  assumes "postgres_server api float8out tables" "order_table.mirrored (tables p) m" "order_op_storable oper"
  shows "\<exists>p'. libpq_order_step api oper p = (Inr (), p') \<and> order_table.mirrored (tables p') (memory_step oper m)"
proof (cases oper)
  case (Save_order rq i c)
  let ?r = "order_record_of rq i c"
  have safe: "order_storable ?r" using assms(3) Save_order by simp
  have g: "resolve (Do_update [''client_order_id'', ''strategy_id'', ''instrument_id'', ''side'', ''order_type'', ''status'', ''quantity'', ''price'',
      ''filled_quantity'']) (order_row ?r) (order_row v) = order_row ?r" if "or_order_id v = or_order_id ?r" for v
    using that by (auto simp: order_row_def fun_eq_iff)
  show ?thesis
    unfolding Save_order libpq_order_step.simps memory_step.simps libpq_save_order_def upsert_order_def save_order_upserted
    by (rule order_table.upsert_step [OF assms(1,2) _ insert_order_row [OF safe] g _ safe safe])
      (simp_all add: create_orders_def column_defs)
next
  case (Update_order u)
  have g: "resolve (Do_update [''client_order_id'', ''status'', ''filled_quantity'']) (order_row (update_record u)) (order_row v) =
      order_row (apply_order_update u v)" for v
    by (auto simp: order_row_def fun_eq_iff update_record_def apply_order_update_def blank_order_def)
  show ?thesis
    unfolding Update_order libpq_order_step.simps memory_step.simps libpq_save_order_update_def upsert_order_update_def save_order_upserted
    using assms(3) Update_order
    by (intro order_table.upsert_step [OF assms(1,2) _ insert_update_row g])
      (simp_all add: create_orders_def column_defs order_storable_def update_record_def apply_order_update_def blank_order_def quote_safe_def)
qed

lemma select_open_orders_mirrors:
  assumes server: "postgres_server api float8out tables" and m: "order_table.mirrored (tables p) m"
  shows "\<exists>p' os. libpq_all_open_orders api p = (Inr os, p') \<and> mset os = mset (all_open_orders m)"
proof -
  have "selected (Int_in ''status'' [0, 1, 2, 3, 5]) [] (order_row r) \<longleftrightarrow> is_open_status (or_status r)" for r
    by (cases "or_status r") (simp_all add: order_row_def)
  then have rows: "filter (selected (Int_in ''status'' [0, 1, 2, 3, 5]) []) (map (order_row \<circ> snd) m) = map order_row (all_open_orders m)"
    by (simp add: all_open_orders_def filter_map comp_def)
  have "\<exists>p' os. all_rows api select_open_orders (cells order_of_fields) p = (Inr os, p') \<and> mset os = mset (map id (all_open_orders m)) \<and>
      (ordered_rows select_open_orders \<longrightarrow> os = map id (all_open_orders m)) \<and> tables p' = tables p"
  proof (rule all_rows_answer [OF server])
    show "sql_run select_open_orders [] (tables p) = Some (map (project order_columns \<circ> order_row) (all_open_orders m), tables p)"
      using rows order_table.columns_known m by (simp add: select_open_orders_def holds_rows_def del: selected.simps)
    fix r assume "r \<in> set (all_open_orders m)"
    then show "cells order_of_fields (map (cell_text float8out) (project order_columns (order_row r))) = Inr (id r)"
      using m by (intro order_table.decode_row server_output [OF server]) (auto simp: holds_rows_def all_open_orders_def)
  qed
  then show ?thesis unfolding libpq_all_open_orders_def by auto
qed

text \<open>
  C15. The PostgreSQL order repository behaves like the in-memory one: against a server that executes its
  statements as documented, any sequence of new orders and updates succeeds, and afterwards a lookup
  returns the order of the in-memory repository, and the open orders are those of the in-memory repository
  in some order; for ASCII texts and numbers that are decimals of at most six places.
\<close>

theorem libpq_orders_refine:
  assumes "postgres_server api float8out tables"
    and "holds_rows ''order_records'' (create_columns create_orders) [''order_id''] order_row or_order_id order_storable (tables p) m"
    and "list_all order_op_storable ops" "pg_text i"
  shows "\<exists>p'. run_all (libpq_order_step api) ops p = (Inr (), p') \<and>
    (\<exists>p1. libpq_get_order api i p' = (Inr (get_order i (fold memory_step ops m)), p1)) \<and>
    (\<exists>p2 os. libpq_all_open_orders api p' = (Inr os, p2) \<and> mset os = mset (all_open_orders (fold memory_step ops m)))"
proof -
  obtain p' where p': "run_all (libpq_order_step api) ops p = (Inr (), p')" "order_table.mirrored (tables p') (fold memory_step ops m)"
    using run_all_simulates [of "\<lambda>p m. order_table.mirrored (tables p) m" order_op_storable "libpq_order_step api" memory_step]
      libpq_order_step_mirrors [OF assms(1)] assms(2,3) by blast
  have "\<exists>p1. libpq_get_order api i p' = (Inr (get_order i (fold memory_step ops m)), p1)"
    using order_table.select_one [OF assms(1) p'(2) assms(4)] by (auto simp: libpq_get_order_def select_order_def get_order_def option.map_id)
  then show ?thesis using p' select_open_orders_mirrors [OF assms(1) p'(2)] by blast
qed

definition sample_order_run :: "order_op list" where
  "sample_order_run = [Save_order \<lparr>rq_request_id = ''r1'', rq_strategy_id = ''s'', rq_instrument = \<lparr>instrument_id = ''BTC'', exchange = ''x'',
       symbol = ''BTCUSDT'', base_asset = ''BTC'', quote_asset = ''USDT'', tick_size = 0, lot_size = 0\<rparr>, rq_side = Sell, rq_type = Limit,
       rq_quantity = 0, rq_price = None\<rparr> ''o1'' ''c1'',
     Update_order \<lparr>ou_order_id = ''o2'', ou_client_order_id = ''c2'', ou_status = Filled, ou_filled_quantity = 0, ou_reason = None\<rparr>]"

definition empty_orders :: sql_tables where
  "empty_orders = [''order_records'' \<mapsto> \<lparr>tb_columns = create_columns create_orders, tb_key = [''order_id''], tb_rows = []\<rparr>]"

theorem libpq_orders_refine_witness:
  "\<exists>p' p1 r p2 o1. run_all (libpq_order_step table_server) sample_order_run empty_orders = (Inr (), p') \<and>
     libpq_get_order table_server ''o2'' p' = (Inr (Some r), p1) \<and> or_status r = Filled \<and>
     libpq_all_open_orders table_server p' = (Inr [o1], p2) \<and> or_order_id o1 = ''o1''"
proof -
  have "order_table.mirrored (id empty_orders) []" by (simp add: holds_rows_def empty_orders_def)
  moreover have "list_all order_op_storable sample_order_run" "pg_text ''o2''"
    by (simp_all add: sample_order_run_def order_storable_def order_record_of_def quote_safe_def pg_text_def)
  moreover have "\<exists>r o1. get_order ''o2'' (fold memory_step sample_order_run []) = Some r \<and> or_status r = Filled \<and>
      all_open_orders (fold memory_step sample_order_run []) = [o1] \<and> or_order_id o1 = ''o1''"
    by (simp add: sample_order_run_def save_order_def save_order_update_def order_record_of_def get_order_def all_open_orders_def)
  ultimately show ?thesis
    using libpq_orders_refine [OF table_server_ok, of empty_orders "[]" sample_order_run "''o2''"] by fastforce
qed

subsection \<open>Balances\<close>

definition balance_row :: "balance_snapshot \<Rightarrow> sql_row" where
  "balance_row x = [''asset'' \<mapsto> Text_value (ba_asset x), ''total_balance'' \<mapsto> Double_value (micro_rounded (ba_total_balance x)),
     ''available_balance'' \<mapsto> Double_value (micro_rounded (ba_available_balance x))]"

definition balance_storable :: "balance_snapshot \<Rightarrow> bool" where
  "balance_storable x \<longleftrightarrow> pg_text (ba_asset x) \<and> micro_range (ba_total_balance x) \<and> micro_range (ba_available_balance x)"

definition rounded_balance :: "balance_snapshot \<Rightarrow> balance_snapshot" where
  "rounded_balance x = x\<lparr>ba_total_balance := micro_rounded (ba_total_balance x), ba_available_balance := micro_rounded (ba_available_balance x)\<rparr>"

interpretation balance_table: text_stored_records "''asset''" ba_asset balance_row "''balance_records''" "create_columns create_balances" balance_columns
    "cells balance_of_fields" rounded_balance balance_storable
proof
  fix x :: balance_snapshot and float8out
  assume "balance_storable x" "exact_output float8out"
  then show "cells balance_of_fields (map (cell_text float8out) (project balance_columns (balance_row x))) = Inr (rounded_balance x)"
    by (simp add: cells_def project_def balance_columns_def balance_row_def balance_of_fields_def balance_storable_def exact_output_def
        micro_rounded_normal rounded_balance_def)
qed (simp_all add: balance_row_def balance_columns_def create_balances_def column_defs conflicts_def)

lemma libpq_save_balance_mirrors:
  assumes "postgres_server api float8out tables" "balance_table.mirrored (tables p) m" "balance_storable x"
  shows "\<exists>p'. libpq_save_balance api x p = (Inr (), p') \<and> balance_table.mirrored (tables p') (save_balance x m)"
proof -
  have row: "insert_row (create_columns create_balances)
      (map c_str [ba_asset x, to_string_double (ba_total_balance x), to_string_double (ba_available_balance x)])
      (numbered [''asset'', ''total_balance'', ''available_balance'']) = Some (balance_row x)"
    using assms(3)
    by (auto simp: create_balances_def column_defs numbered_def balance_storable_def sent_texts parse_double balance_row_def fun_eq_iff)
  have "\<exists>p'. libpq_save_balance api x p = (Inr (), p') \<and> balance_table.mirrored (tables p') (upserted (ba_asset x) (\<lambda>_. x) x m)"
    unfolding libpq_save_balance_def upsert_balance_def
    by (rule balance_table.upsert_step [OF assms(1,2) _ row _ _ assms(3)])
      (use assms(3) in \<open>auto simp: create_balances_def column_defs numbered_def balance_row_def fun_eq_iff\<close>)
  then show ?thesis by (simp only: upserted_const save_balance_def)
qed

text \<open>
  C18. Balances over PostgreSQL are rounded: after any sequence of saves every balance reads back as the
  one saved last, with both amounts replaced by the double nearest to the nearest millionth, which is what
  \<open>std::to_string\<close> sends; amounts are below a thousand million.
\<close>

theorem libpq_balances_rounded:
  assumes "postgres_server api float8out tables"
    and "holds_rows ''balance_records'' (create_columns create_balances) [''asset''] balance_row ba_asset balance_storable (tables p) m"
    and "list_all balance_storable xs" "pg_text a"
  shows "\<exists>p'. run_all (libpq_save_balance api) xs p = (Inr (), p') \<and>
    (\<exists>p1. libpq_get_balance api a p' = (Inr (map_option rounded_balance (get_balance a (fold save_balance xs m))), p1)) \<and>
    (\<exists>p2 bs. libpq_all_balances api p' = (Inr bs, p2) \<and> mset bs = mset (map rounded_balance (all_balances (fold save_balance xs m))))"
proof -
  obtain p' where p': "run_all (libpq_save_balance api) xs p = (Inr (), p')" "balance_table.mirrored (tables p') (fold save_balance xs m)"
    using run_all_simulates [of "\<lambda>p m. balance_table.mirrored (tables p) m" balance_storable "libpq_save_balance api" save_balance]
      libpq_save_balance_mirrors [OF assms(1)] assms(2,3) by blast
  then show ?thesis
    using balance_table.select_one [OF assms(1) p'(2) assms(4)] balance_table.select_all [OF assms(1) p'(2), of False]
    by (auto simp: libpq_get_balance_def select_balance_def get_balance_def libpq_all_balances_def select_balances_def all_balances_def)
qed

definition empty_balances :: sql_tables where
  "empty_balances = [''balance_records'' \<mapsto> \<lparr>tb_columns = create_columns create_balances, tb_key = [''asset''], tb_rows = []\<rparr>]"

text \<open>A balance of 2 to the power of -24 is read back as zero.\<close>

theorem libpq_balances_rounded_witness:
  "\<exists>p' p1. run_all (libpq_save_balance table_server)
      [\<lparr>ba_asset = ''BTC'', ba_total_balance = Fin (1 / 2 ^ 24), ba_available_balance = Fin (1 / 2 ^ 24)\<rparr>] empty_balances = (Inr (), p') \<and>
    libpq_get_balance table_server ''BTC'' p' = (Inr (Some \<lparr>ba_asset = ''BTC'', ba_total_balance = 0, ba_available_balance = 0\<rparr>), p1)"
proof -
  have zero: "round_even (1 / 2 ^ 24 * 10 ^ 6) = 0" by (rule round_even_near) simp
  then have "six_places (1 / 2 ^ 24) = 0" by (simp add: six_places_def rnd64_def)
  moreover have "micro_range (Fin (1 / 2 ^ 24))"
    unfolding micro_range_def using zero by (intro exI [of _ "1 / 2 ^ 24"]) simp
  moreover have "balance_table.mirrored (id empty_balances) []" by (simp add: holds_rows_def empty_balances_def)
  ultimately show ?thesis
    using libpq_balances_rounded [OF table_server_ok, of empty_balances "[]"
        "[\<lparr>ba_asset = ''BTC'', ba_total_balance = Fin (1 / 2 ^ 24), ba_available_balance = Fin (1 / 2 ^ 24)\<rparr>]" "''BTC''"]
    by (auto simp: balance_storable_def pg_text_def get_balance_def save_balance_def rounded_balance_def zero_double_def)
qed

subsection \<open>Fills\<close>

definition fill_row :: "fill_event \<Rightarrow> sql_row" where
  "fill_row x = [''fill_id'' \<mapsto> Text_value (fl_fill_id x), ''order_id'' \<mapsto> Text_value (fl_order_id x),
     ''instrument_id'' \<mapsto> Text_value (instrument_id (fl_instrument x)), ''exchange'' \<mapsto> Text_value (exchange (fl_instrument x)),
     ''symbol'' \<mapsto> Text_value (symbol (fl_instrument x)), ''base_asset'' \<mapsto> Text_value (base_asset (fl_instrument x)),
     ''quote_asset'' \<mapsto> Text_value (quote_asset (fl_instrument x)), ''tick_size'' \<mapsto> Double_value (tick_size (fl_instrument x)),
     ''lot_size'' \<mapsto> Double_value (lot_size (fl_instrument x)), ''side'' \<mapsto> Int_value (side_code (fl_side x)),
     ''price'' \<mapsto> Double_value (fl_price x), ''quantity'' \<mapsto> Double_value (fl_quantity x), ''fee'' \<mapsto> Double_value (fl_fee x)]"

definition instrument_storable :: "instrument \<Rightarrow> bool" where
  "instrument_storable i \<longleftrightarrow> list_all pg_text [instrument_id i, exchange i, symbol i, base_asset i, quote_asset i] \<and>
     six_decimals (tick_size i) \<and> six_decimals (lot_size i)"

definition fill_storable :: "fill_event \<Rightarrow> bool" where
  "fill_storable x \<longleftrightarrow> pg_text (fl_fill_id x) \<and> pg_text (fl_order_id x) \<and> instrument_storable (fl_instrument x) \<and>
     six_decimals (fl_price x) \<and> six_decimals (fl_quantity x) \<and> six_decimals (fl_fee x)"

interpretation fill_table: text_stored_records "''fill_id''" fl_fill_id fill_row "''fill_records''" "create_columns create_fills" fill_columns
    "cells fill_of_fields" id fill_storable
proof
  fix x :: fill_event and float8out
  assume "fill_storable x" "exact_output float8out"
  then show "cells fill_of_fields (map (cell_text float8out) (project fill_columns (fill_row x))) = Inr (id x)"
    by (simp add: cells_def project_def fill_columns_def fill_row_def fill_of_fields_def instrument_of_fields_def fill_storable_def
        instrument_storable_def read_exact)
qed (simp_all add: fill_row_def fill_columns_def create_fills_def column_defs conflicts_def)

text \<open>The fills kept: the first one of every id, in the order of their appends.\<close>

definition keep_first :: "fill_event \<Rightarrow> fill_event list \<Rightarrow> fill_event list" where
  "keep_first x fs = (if fl_fill_id x \<in> fl_fill_id ` set fs then fs else append_fill x fs)"

lemma upserted_first:
  assumes "keyed_inv fl_fill_id m"
  shows "map snd (upserted (fl_fill_id x) id x m) = keep_first x (map snd m)"
proof (cases "map_of m (fl_fill_id x)")
  case None
  then have new: "fl_fill_id x \<notin> fst ` set m" by (simp add: map_of_eq_None_iff)
  then have "AList.update (fl_fill_id x) x m = m @ [(fl_fill_id x, x)]" by (induction m) auto
  moreover have "fl_fill_id ` snd ` set m = fst ` set m" using assms by (force simp: keyed_inv_def image_iff)
  ultimately show ?thesis using None new by (simp add: upserted_def keep_first_def append_fill_def)
next
  case (Some v)
  then have "AList.update (fl_fill_id x) v m = m" by (induction m) (auto split: if_splits)
  moreover have "fl_fill_id x \<in> fl_fill_id ` set (map snd m)"
    using keyed_inv_lookup [OF assms Some] map_of_SomeD [OF Some] by (metis image_eqI set_map snd_conv)
  ultimately show ?thesis using Some by (simp add: upserted_def keep_first_def)
qed

definition fills_stored :: "sql_tables \<Rightarrow> fill_event list \<Rightarrow> bool" where
  "fills_stored db fs \<longleftrightarrow> (\<exists>m. fill_table.mirrored db m \<and> map snd m = fs)"

lemma libpq_append_fill_keeps:
  assumes "postgres_server api float8out tables" "fills_stored (tables p) fs" "fill_storable x"
  shows "\<exists>p'. libpq_append_fill api x p = (Inr (), p') \<and> fills_stored (tables p') (keep_first x fs)"
proof -
  obtain m where m: "fill_table.mirrored (tables p) m" "map snd m = fs" using assms(2) by (auto simp: fills_stored_def)
  let ?ps = "[fl_fill_id x, fl_order_id x] @ instrument_params (fl_instrument x) @
      [show_int (side_code (fl_side x)), to_string_double (fl_price x), to_string_double (fl_quantity x), to_string_double (fl_fee x)]"
  have sent: "map c_str ?ps = ?ps"
    using assms(3) by (simp add: instrument_params_def fill_storable_def instrument_storable_def sent_texts)
  have row: "insert_row (create_columns create_fills) (map c_str ?ps) (numbered fill_columns) = Some (fill_row x)"
    unfolding sent using assms(3)
    by (auto simp: create_fills_def column_defs numbered_def fill_columns_def fill_storable_def instrument_storable_def instrument_params_def
        parse_six_decimals fill_row_def fun_eq_iff)
  have "\<exists>p'. libpq_append_fill api x p = (Inr (), p') \<and> fill_table.mirrored (tables p') (upserted (fl_fill_id x) id x m)"
    unfolding libpq_append_fill_def insert_fill_def
    by (rule fill_table.upsert_step [OF assms(1) m(1) _ row _ _ assms(3)]) (auto simp: create_fills_def column_defs numbered_def fill_columns_def)
  then show ?thesis using upserted_first [of m x] m unfolding fills_stored_def holds_rows_def by blast
qed

text \<open>
  C17. Fills over PostgreSQL are kept once: after any sequence of appends, redelivered fills included, all
  fills are read back in the order of their first append, one per fill id, unlike the in-memory repository,
  which keeps duplicates.
\<close>

theorem libpq_fills_once:
  assumes "postgres_server api float8out tables" "list_all fill_storable xs"
    and "tables p ''fill_records'' = Some \<lparr>tb_columns = create_columns create_fills, tb_key = [''fill_id''], tb_rows = []\<rparr>"
  shows "\<exists>p' p1. run_all (libpq_append_fill api) xs p = (Inr (), p') \<and> libpq_all_fills api p' = (Inr (fold keep_first xs []), p1)"
proof -
  have "fills_stored (tables p) []" using assms(3) by (simp add: fills_stored_def holds_rows_def)
  then obtain p' where p': "run_all (libpq_append_fill api) xs p = (Inr (), p')" "fills_stored (tables p') (fold keep_first xs [])"
    using run_all_simulates [of "\<lambda>p fs. fills_stored (tables p) fs" fill_storable "libpq_append_fill api" keep_first]
      libpq_append_fill_keeps [OF assms(1)] assms(2) by blast
  then obtain m where m: "fill_table.mirrored (tables p') m" "map snd m = fold keep_first xs []" by (auto simp: fills_stored_def)
  show ?thesis
    using fill_table.select_all [OF assms(1) m(1), of True] p'(1) m(2) by (auto simp: libpq_all_fills_def select_fills_def)
qed

definition sample_stored_fill :: "string \<Rightarrow> fill_event" where
  "sample_stored_fill i = \<lparr>fl_fill_id = i, fl_order_id = ''o1'', fl_instrument = \<lparr>instrument_id = ''BTC'', exchange = ''x'', symbol = ''BTCUSDT'',
     base_asset = ''BTC'', quote_asset = ''USDT'', tick_size = 0, lot_size = 0\<rparr>, fl_side = Buy, fl_price = 0, fl_quantity = 0, fl_fee = 0\<rparr>"

theorem libpq_fills_once_witness:
  "\<exists>p' p1. run_all (libpq_append_fill table_server) (map sample_stored_fill [''f2'', ''f1'', ''f2''])
      [''fill_records'' \<mapsto> \<lparr>tb_columns = create_columns create_fills, tb_key = [''fill_id''], tb_rows = []\<rparr>] = (Inr (), p') \<and>
    libpq_all_fills table_server p' = (Inr (map sample_stored_fill [''f2'', ''f1'']), p1)"
  using libpq_fills_once [OF table_server_ok, of "map sample_stored_fill [''f2'', ''f1'', ''f2'']"
      "[''fill_records'' \<mapsto> \<lparr>tb_columns = create_columns create_fills, tb_key = [''fill_id''], tb_rows = []\<rparr>]"]
  by (simp add: sample_stored_fill_def fill_storable_def instrument_storable_def pg_text_def keep_first_def append_fill_def)

subsection \<open>Reports\<close>

definition report_reason :: "execution_report_record \<Rightarrow> string" where
  "report_reason x = (case er_reason x of Some reason \<Rightarrow> reason | None \<Rightarrow> [])"

definition report_row :: "execution_report_record \<Rightarrow> sql_row" where
  "report_row x = [''report_id'' \<mapsto> Text_value (er_report_id x), ''order_id'' \<mapsto> Text_value (er_order_id x),
     ''client_order_id'' \<mapsto> Text_value (er_client_order_id x), ''instrument_id'' \<mapsto> Text_value (er_instrument_id x),
     ''side'' \<mapsto> Int_value (side_code (er_side x)), ''status'' \<mapsto> Int_value (status_code (er_status x)),
     ''cumulative_filled_quantity'' \<mapsto> Double_value (er_cumulative_filled_quantity x),
     ''last_fill_price'' \<mapsto> price_value (er_last_fill_price x), ''last_fill_fee'' \<mapsto> Double_value (er_last_fill_fee x),
     ''reason'' \<mapsto> Text_value (report_reason x), ''exchange_timestamp'' \<mapsto> Int_value (er_exchange_timestamp x)]"

definition report_storable :: "execution_report_record \<Rightarrow> bool" where
  "report_storable x \<longleftrightarrow> list_all pg_text [er_report_id x, er_order_id x, er_client_order_id x, er_instrument_id x, report_reason x] \<and>
     six_decimals (er_cumulative_filled_quantity x) \<and> quote_safe (er_last_fill_price x) \<and> six_decimals (er_last_fill_fee x) \<and>
     int64_ok (er_exchange_timestamp x)"

definition reasoned :: "execution_report_record \<Rightarrow> execution_report_record" where
  "reasoned x = x\<lparr>er_reason := Some (report_reason x)\<rparr>"

interpretation report_table: text_stored_records "''report_id''" er_report_id report_row "''execution_report_records''" "create_columns create_reports"
    report_columns report_of_row reasoned report_storable
proof
  fix x :: execution_report_record and float8out
  assume "report_storable x" "exact_output float8out"
  then show "report_of_row (map (cell_text float8out) (project report_columns (report_row x))) = Inr (reasoned x)"
    by (simp add: report_of_row_def project_def report_columns_def report_row_def report_of_fields_def report_storable_def read_exact
        read_price stoll_show_int reasoned_def)
qed (simp_all add: report_row_def report_columns_def create_reports_def column_defs conflicts_def)

definition report_params :: "execution_report_record \<Rightarrow> string list" where
  "report_params x =
     [er_report_id x, er_order_id x, er_client_order_id x, er_instrument_id x, show_int (side_code (er_side x)),
      show_int (status_code (er_status x)), to_string_double (er_cumulative_filled_quantity x),
      encode_optional_double (er_last_fill_price x), to_string_double (er_last_fill_fee x), report_reason x,
      show_int (er_exchange_timestamp x)]"

lemma libpq_append_report_mirrors:
  assumes "postgres_server api float8out tables" "report_table.mirrored (tables p) m" "report_storable x"
  shows "\<exists>p'. libpq_append_report api x p = (Inr (), p') \<and> report_table.mirrored (tables p') (AList.update (er_report_id x) x m)"
proof -
  have sent: "map c_str (report_params x) = report_params x"
    using assms(3) by (simp add: report_params_def report_storable_def sent_texts)
  have "quote_safe (er_last_fill_price x)" using assms(3) by (simp add: report_storable_def)
  then have price: "expr_value (nullable ''last_fill_price'' DOUBLE_PRECISION) (report_params x) (Nullif_param 8) =
      Some (price_value (er_last_fill_price x))"
    by (rule nullif_price) (simp_all add: report_params_def)
  let ?items = "[(''report_id'', Param 1), (''order_id'', Param 2), (''client_order_id'', Param 3), (''instrument_id'', Param 4), (''side'', Param 5),
      (''status'', Param 6), (''cumulative_filled_quantity'', Param 7), (''last_fill_price'', Nullif_param 8), (''last_fill_fee'', Param 9),
      (''reason'', Param 10), (''exchange_timestamp'', Param 11)]"
  have row: "insert_row (create_columns create_reports) (map c_str (report_params x)) ?items = Some (report_row x)"
    unfolding sent using assms(3) price
    by (auto simp: create_reports_def not_null_def nullable_def report_storable_def parse_six_decimals report_row_def report_params_def fun_eq_iff
        simp del: expr_value.simps(2))
  have "\<exists>p'. run_params api upsert_report (report_params x) p = (Inr (), p') \<and>
      report_table.mirrored (tables p') (upserted (er_report_id x) (\<lambda>_. x) x m)"
    unfolding upsert_report_def
    by (rule report_table.upsert_step [OF assms(1,2) _ row _ _ assms(3)])
      (use assms(3) in \<open>auto simp: create_reports_def column_defs report_row_def fun_eq_iff\<close>)
  then show ?thesis by (simp only: upserted_const libpq_append_report_def report_params_def report_reason_def)
qed

text \<open>
  C19. Reports over PostgreSQL: after any sequence of appends the last report of every id is read back, in
  the order of the first appends, but never without a reason: a missing reason comes back as the empty one.
\<close>

theorem libpq_reports_gain_reason:
  assumes "postgres_server api float8out tables" "list_all report_storable xs"
    and "tables p ''execution_report_records'' = Some \<lparr>tb_columns = create_columns create_reports, tb_key = [''report_id''], tb_rows = []\<rparr>"
  shows "\<exists>p' p1. run_all (libpq_append_report api) xs p = (Inr (), p') \<and>
    libpq_all_reports api p' = (Inr (map reasoned (map snd (fold (\<lambda>x. AList.update (er_report_id x) x) xs []))), p1)"
proof -
  have "report_table.mirrored (tables p) []" using assms(3) by (simp add: holds_rows_def)
  then obtain p' where p': "run_all (libpq_append_report api) xs p = (Inr (), p')"
      "report_table.mirrored (tables p') (fold (\<lambda>x. AList.update (er_report_id x) x) xs [])"
    using run_all_simulates [of "\<lambda>p m. report_table.mirrored (tables p) m" report_storable "libpq_append_report api"
        "\<lambda>x. AList.update (er_report_id x) x"] libpq_append_report_mirrors [OF assms(1)] assms(2) by blast
  then show ?thesis
    using report_table.select_all [OF assms(1) p'(2), of True] by (auto simp: libpq_all_reports_def select_reports_def)
qed

definition sample_stored_report :: execution_report_record where
  "sample_stored_report = \<lparr>er_report_id = ''x1'', er_order_id = ''o1'', er_client_order_id = ''c1'', er_instrument_id = ''BTC'', er_side = Buy,
     er_status = Acknowledged, er_cumulative_filled_quantity = 0, er_last_fill_price = None, er_last_fill_fee = 0, er_reason = None,
     er_exchange_timestamp = 5\<rparr>"

theorem libpq_reports_gain_reason_witness:
  "\<exists>p' p1. run_all (libpq_append_report table_server) [sample_stored_report]
      [''execution_report_records'' \<mapsto> \<lparr>tb_columns = create_columns create_reports, tb_key = [''report_id''], tb_rows = []\<rparr>] = (Inr (), p') \<and>
    libpq_all_reports table_server p' = (Inr [sample_stored_report\<lparr>er_reason := Some []\<rparr>], p1)"
  using libpq_reports_gain_reason [OF table_server_ok, of "[sample_stored_report]"
      "[''execution_report_records'' \<mapsto> \<lparr>tb_columns = create_columns create_reports, tb_key = [''report_id''], tb_rows = []\<rparr>]"]
  by (simp add: sample_stored_report_def report_storable_def report_reason_def pg_text_def quote_safe_def reasoned_def)

subsection \<open>Positions\<close>

definition position_row :: "position \<Rightarrow> sql_row" where
  "position_row x = [''instrument_id'' \<mapsto> Text_value (instrument_id (po_instrument x)), ''position_id'' \<mapsto> Text_value (po_position_id x),
     ''exchange'' \<mapsto> Text_value (exchange (po_instrument x)), ''symbol'' \<mapsto> Text_value (symbol (po_instrument x)),
     ''base_asset'' \<mapsto> Text_value (base_asset (po_instrument x)), ''quote_asset'' \<mapsto> Text_value (quote_asset (po_instrument x)),
     ''tick_size'' \<mapsto> Double_value (tick_size (po_instrument x)), ''lot_size'' \<mapsto> Double_value (lot_size (po_instrument x)),
     ''net_quantity'' \<mapsto> Double_value (po_net_quantity x), ''average_entry_price'' \<mapsto> Double_value (po_average_entry_price x),
     ''realized_pnl'' \<mapsto> Double_value (po_realized_pnl x), ''unrealized_pnl'' \<mapsto> Double_value (po_unrealized_pnl x)]"

definition position_storable :: "position \<Rightarrow> bool" where
  "position_storable x \<longleftrightarrow> pg_text (po_position_id x) \<and> instrument_storable (po_instrument x) \<and> six_decimals (po_net_quantity x) \<and>
     six_decimals (po_average_entry_price x) \<and> six_decimals (po_realized_pnl x) \<and> six_decimals (po_unrealized_pnl x)"

interpretation position_table: text_stored_records "''instrument_id''" "\<lambda>x. instrument_id (po_instrument x)" position_row "''position_records''"
    "create_columns create_positions" position_columns "cells position_of_fields" id position_storable
proof
  fix x :: position and float8out
  assume "position_storable x" "exact_output float8out"
  then show "cells position_of_fields (map (cell_text float8out) (project position_columns (position_row x))) = Inr (id x)"
    by (simp add: cells_def project_def position_columns_def position_row_def position_of_fields_def instrument_of_fields_def
        position_storable_def instrument_storable_def read_exact)
qed (simp_all add: position_row_def position_columns_def create_positions_def column_defs conflicts_def)

lemma libpq_save_position_mirrors:
  assumes "postgres_server api float8out tables" "position_table.mirrored (tables p) m" "position_storable x"
  shows "\<exists>p'. libpq_save_position api x p = (Inr (), p') \<and> position_table.mirrored (tables p') (save_position x m)"
proof -
  let ?ps = "[instrument_id (po_instrument x), po_position_id x] @ tl (instrument_params (po_instrument x)) @
      [to_string_double (po_net_quantity x), to_string_double (po_average_entry_price x), to_string_double (po_realized_pnl x),
       to_string_double (po_unrealized_pnl x)]"
  have sent: "map c_str ?ps = ?ps"
    using assms(3) by (simp add: instrument_params_def position_storable_def instrument_storable_def sent_texts)
  have row: "insert_row (create_columns create_positions) (map c_str ?ps)
      (numbered [''instrument_id'', ''position_id'', ''exchange'', ''symbol'', ''base_asset'', ''quote_asset'', ''tick_size'', ''lot_size'',
        ''net_quantity'', ''average_entry_price'', ''realized_pnl'', ''unrealized_pnl'']) = Some (position_row x)"
    unfolding sent using assms(3)
    by (auto simp: create_positions_def column_defs numbered_def position_storable_def instrument_storable_def instrument_params_def
        parse_six_decimals position_row_def fun_eq_iff)
  have "\<exists>p'. libpq_save_position api x p = (Inr (), p') \<and>
      position_table.mirrored (tables p') (upserted (instrument_id (po_instrument x)) (\<lambda>_. x) x m)"
    unfolding libpq_save_position_def upsert_position_def
    by (rule position_table.upsert_step [OF assms(1,2) _ row _ _ assms(3)])
      (use assms(3) in \<open>auto simp: create_positions_def column_defs numbered_def position_row_def fun_eq_iff\<close>)
  then show ?thesis by (simp only: upserted_const save_position_def)
qed

subsection \<open>Transactions\<close>

definition transaction_row :: "transaction_record \<Rightarrow> sql_row" where
  "transaction_row r = [''transaction_id'' \<mapsto> Text_value (tr_transaction_id r), ''status'' \<mapsto> Text_value (tr_status r),
     ''kafka_topic'' \<mapsto> Text_value (tr_kafka_topic r), ''kafka_partition'' \<mapsto> Int_value (tr_kafka_partition r),
     ''kafka_offset'' \<mapsto> Int_value (tr_kafka_offset r)]"

definition transaction_storable :: "transaction_record \<Rightarrow> bool" where
  "transaction_storable r \<longleftrightarrow> list_all pg_text [tr_transaction_id r, tr_status r, tr_kafka_topic r] \<and>
     int32_ok (tr_kafka_partition r) \<and> int64_ok (tr_kafka_offset r)"

interpretation transaction_table: text_stored_records "''transaction_id''" tr_transaction_id transaction_row "''transaction_records''"
    "create_columns create_transactions" transaction_columns "cells transaction_of_fields" id transaction_storable
proof
  fix r :: transaction_record and float8out
  assume "transaction_storable r" "exact_output float8out"
  then show "cells transaction_of_fields (map (cell_text float8out) (project transaction_columns (transaction_row r))) = Inr (id r)"
    by (simp add: cells_def project_def transaction_columns_def transaction_row_def transaction_of_fields_def transaction_storable_def
        stoi_show_int stoll_show_int)
qed (simp_all add: transaction_row_def transaction_columns_def create_transactions_def column_defs conflicts_def)

definition checkpoint_row :: "kafka_checkpoint \<Rightarrow> sql_row" where
  "checkpoint_row c = [''topic'' \<mapsto> Text_value (kc_topic c), ''partition_id'' \<mapsto> Int_value (kc_partition c), ''offset_value'' \<mapsto> Int_value (kc_offset c)]"

definition checkpoint_storable :: "kafka_checkpoint \<Rightarrow> bool" where
  "checkpoint_storable c \<longleftrightarrow> pg_text (kc_topic c) \<and> int32_ok (kc_partition c) \<and> int64_ok (kc_offset c)"

text \<open>The primary key of the checkpoints is the pair that the file-backed repository joins to one key.\<close>

interpretation checkpoint_table: stored_records "[''topic'', ''partition_id'']" own_checkpoint_key checkpoint_row "''kafka_checkpoints''"
    "create_columns create_checkpoints" "[''topic'', ''partition_id'', ''offset_value'']" "cells checkpoint_of_fields" id checkpoint_storable
proof
  fix v w
  show "conflicts [''topic'', ''partition_id''] (checkpoint_row v) (checkpoint_row w) \<longleftrightarrow> own_checkpoint_key v = own_checkpoint_key w"
    using checkpoint_key_inj [of "kc_topic v" "kc_partition v" "kc_topic w" "kc_partition w"]
    by (simp add: conflicts_def checkpoint_row_def own_checkpoint_key_def checkpoint_key_def)
  fix c :: kafka_checkpoint and float8out
  assume "checkpoint_storable c" "exact_output float8out"
  then show "cells checkpoint_of_fields (map (cell_text float8out) (project [''topic'', ''partition_id'', ''offset_value''] (checkpoint_row c))) = Inr (id c)"
    by (simp add: cells_def project_def checkpoint_row_def checkpoint_of_fields_def checkpoint_storable_def stoi_show_int stoll_show_int)
qed (simp_all add: create_checkpoints_def column_defs)

definition received_record :: "transaction_command \<Rightarrow> transaction_record" where
  "received_record c = \<lparr>tr_transaction_id = tx_transaction_id c, tr_status = ''received'', tr_kafka_topic = tx_kafka_topic c,
     tr_kafka_partition = tx_kafka_partition c, tr_kafka_offset = tx_kafka_offset c\<rparr>"

definition processed_record :: "string \<Rightarrow> string \<Rightarrow> transaction_record" where
  "processed_record i status = \<lparr>tr_transaction_id = i, tr_status = status, tr_kafka_topic = [], tr_kafka_partition = 0, tr_kafka_offset = 0\<rparr>"

fun libpq_transaction_step :: "'p libpq \<Rightarrow> transaction_op \<Rightarrow> (unit, 'p) call" where
  "libpq_transaction_step api (Received c) = libpq_save_received api c"
| "libpq_transaction_step api (Processed i status) = libpq_save_processed api i status"
| "libpq_transaction_step api (Checkpoint c) = libpq_save_checkpoint api c"

fun transaction_op_storable :: "transaction_op \<Rightarrow> bool" where
  "transaction_op_storable (Received c) \<longleftrightarrow> transaction_storable (received_record c)"
| "transaction_op_storable (Processed i status) \<longleftrightarrow> transaction_storable (processed_record i status)"
| "transaction_op_storable (Checkpoint c) \<longleftrightarrow> checkpoint_storable c"

text \<open>Tables that hold what the file-backed repository holds in memory.\<close>

definition transactions_stored :: "sql_tables \<Rightarrow> postgres_transactions \<Rightarrow> bool" where
  "transactions_stored db s \<longleftrightarrow> transaction_table.mirrored db (fb_memory (pt_records s)) \<and> checkpoint_table.mirrored db (fb_memory (pt_checkpoints s))"

lemma pg_saved_records:
  "fb_memory (pt_records (pg_save_received c s)) = upserted (tr_transaction_id (received_record c)) (\<lambda>_. received_record c) (received_record c) (fb_memory (pt_records s))"
  "fb_memory (pt_records (pg_save_processed i status s)) =
     upserted (tr_transaction_id (processed_record i status)) (\<lambda>r. r\<lparr>tr_status := status\<rparr>) (processed_record i status) (fb_memory (pt_records s))"
  "fb_memory (pt_checkpoints (pg_save_checkpoint c' s)) = upserted (own_checkpoint_key c') (\<lambda>_. c') c' (fb_memory (pt_checkpoints s))"
  "pt_checkpoints (pg_save_received c s) = pt_checkpoints s" "pt_checkpoints (pg_save_processed i status s) = pt_checkpoints s"
  "pt_records (pg_save_checkpoint c' s) = pt_records s"
  by (simp_all add: pg_save_received_def pg_save_processed_def pg_save_checkpoint_def flush_transactions_def flush_checkpoints_def flush_keyed_def
      upserted_const upserted_def received_record_def processed_record_def Let_def split: option.split)

lemma holds_rows_other:
  "holds_rows name cs kcols row_of key storable db m \<Longrightarrow> db' name = db name \<Longrightarrow> holds_rows name cs kcols row_of key storable db' m"
  by (simp add: holds_rows_def)

lemma libpq_transaction_step_mirrors:
  assumes server: "postgres_server api float8out tables" and s: "transactions_stored (tables p) s" and safe: "transaction_op_storable oper"
  shows "\<exists>p'. libpq_transaction_step api oper p = (Inr (), p') \<and> transactions_stored (tables p') (transaction_step oper s)"
proof -
  have tx: "transaction_table.mirrored (tables p) (fb_memory (pt_records s))" and cp: "checkpoint_table.mirrored (tables p) (fb_memory (pt_checkpoints s))"
    using s by (simp_all add: transactions_stored_def)
  show ?thesis
  proof (cases oper)
    case (Received c)
    let ?ps = "[tx_transaction_id c, ''received'', tx_kafka_topic c, show_int (tx_kafka_partition c), show_int (tx_kafka_offset c)]"
    have "insert_row (create_columns create_transactions) (map c_str ?ps)
        [(''transaction_id'', Param 1), (''status'', Param 2), (''kafka_topic'', Param 3), (''kafka_partition'', Param 4), (''kafka_offset'', Param 5)] =
      Some (transaction_row (received_record c))"
      using safe Received
      by (auto simp: create_transactions_def column_defs transaction_storable_def received_record_def transaction_row_def sent_texts fun_eq_iff)
    from transaction_table.upsert_framed [OF server tx _ this, of "Do_update [''status'', ''kafka_topic'', ''kafka_partition'', ''kafka_offset'']"
        "\<lambda>_. received_record c"]
    have "\<exists>p'. libpq_save_received api c p = (Inr (), p') \<and>
        transaction_table.mirrored (tables p') (fb_memory (pt_records (pg_save_received c s))) \<and>
        (\<forall>t. t \<noteq> ''transaction_records'' \<longrightarrow> tables p' t = tables p t)"
      unfolding pg_saved_records libpq_save_received_def upsert_received_def using safe Received
      by (auto simp: create_transactions_def column_defs transaction_row_def received_record_def fun_eq_iff)
    then show ?thesis by (auto simp: Received transactions_stored_def pg_saved_records holds_rows_other [OF cp])
  next
    case (Processed i status)
    have "insert_row (create_columns create_transactions) (map c_str [i, status])
        [(''transaction_id'', Param 1), (''status'', Param 2), (''kafka_topic'', Sql_literal []), (''kafka_partition'', Sql_literal ''0''),
         (''kafka_offset'', Sql_literal ''0'')] = Some (transaction_row (processed_record i status))"
      using safe Processed
      by (auto simp: create_transactions_def column_defs transaction_storable_def processed_record_def transaction_row_def sent_texts fun_eq_iff)
    from transaction_table.upsert_framed [OF server tx _ this, of "Do_update [''status'']" "\<lambda>r. r\<lparr>tr_status := status\<rparr>"]
    have "\<exists>p'. libpq_save_processed api i status p = (Inr (), p') \<and>
        transaction_table.mirrored (tables p') (fb_memory (pt_records (pg_save_processed i status s))) \<and>
        (\<forall>t. t \<noteq> ''transaction_records'' \<longrightarrow> tables p' t = tables p t)"
      unfolding pg_saved_records libpq_save_processed_def upsert_processed_def using safe Processed
      by (auto simp: create_transactions_def column_defs transaction_row_def processed_record_def transaction_storable_def fun_eq_iff)
    then show ?thesis by (auto simp: Processed transactions_stored_def pg_saved_records holds_rows_other [OF cp])
  next
    case (Checkpoint c)
    have "insert_row (create_columns create_checkpoints) (map c_str [kc_topic c, show_int (kc_partition c), show_int (kc_offset c)])
        [(''topic'', Param 1), (''partition_id'', Param 2), (''offset_value'', Param 3)] = Some (checkpoint_row c)"
      using safe Checkpoint
      by (auto simp: create_checkpoints_def column_defs checkpoint_storable_def checkpoint_row_def sent_texts fun_eq_iff)
    moreover have "resolve (Do_update [''offset_value'']) (checkpoint_row c) (checkpoint_row v) = checkpoint_row c"
      if "own_checkpoint_key v = own_checkpoint_key c" for v
      using that checkpoint_key_inj [of "kc_topic v" "kc_partition v" "kc_topic c" "kc_partition c"]
      by (auto simp: checkpoint_row_def own_checkpoint_key_def checkpoint_key_def fun_eq_iff)
    ultimately have "\<exists>p'. libpq_save_checkpoint api c p = (Inr (), p') \<and>
        checkpoint_table.mirrored (tables p') (fb_memory (pt_checkpoints (pg_save_checkpoint c s))) \<and>
        (\<forall>t. t \<noteq> ''kafka_checkpoints'' \<longrightarrow> tables p' t = tables p t)"
      unfolding pg_saved_records libpq_save_checkpoint_def upsert_checkpoint_def using safe Checkpoint
      by (intro checkpoint_table.upsert_framed [OF server cp]) (auto simp: create_checkpoints_def column_defs)
    then show ?thesis by (auto simp: Checkpoint transactions_stored_def pg_saved_records holds_rows_other [OF tx])
  qed
qed

text \<open>
  C16. The PostgreSQL transaction repository agrees with the file-backed one: against a server that executes
  its statements as documented, any sequence of received and processed transactions and checkpoints
  succeeds, a lookup returns the same record, and all records and all checkpoints are the same up to order,
  although the primary key of a checkpoint is a pair of columns there and a joined string here.
\<close>

theorem libpq_transactions_refine:
  assumes "postgres_server api float8out tables" "transactions_stored (tables p) s" "list_all transaction_op_storable ops" "pg_text i"
  shows "\<exists>p'. run_all (libpq_transaction_step api) ops p = (Inr (), p') \<and>
    (\<exists>p1. libpq_get_record api i p' = (Inr (pg_get_record i (fold transaction_step ops s)), p1)) \<and>
    (\<exists>p2 rs. libpq_all_records api p' = (Inr rs, p2) \<and> mset rs = mset (pg_all_records (fold transaction_step ops s))) \<and>
    (\<exists>p3 cs. libpq_all_checkpoints api p' = (Inr cs, p3) \<and> mset cs = mset (pg_all_checkpoints (fold transaction_step ops s)))"
proof -
  obtain p' where p': "run_all (libpq_transaction_step api) ops p = (Inr (), p')" "transactions_stored (tables p') (fold transaction_step ops s)"
    using run_all_simulates [of "\<lambda>p s. transactions_stored (tables p) s" transaction_op_storable "libpq_transaction_step api" transaction_step]
      libpq_transaction_step_mirrors [OF assms(1)] assms(2,3) by blast
  then have tx: "transaction_table.mirrored (tables p') (fb_memory (pt_records (fold transaction_step ops s)))"
    and cp: "checkpoint_table.mirrored (tables p') (fb_memory (pt_checkpoints (fold transaction_step ops s)))"
    by (simp_all add: transactions_stored_def)
  show ?thesis
    using p'(1) transaction_table.select_one [OF assms(1) tx assms(4)] transaction_table.select_all [OF assms(1) tx, of False]
      checkpoint_table.select_all [OF assms(1) cp, of False]
    by (auto simp: libpq_get_record_def select_transaction_def pg_get_record_def libpq_all_records_def select_transactions_def pg_all_records_def
        libpq_all_checkpoints_def select_checkpoints_def pg_all_checkpoints_def option.map_id)
qed

definition empty_transactions :: sql_tables where
  "empty_transactions =
     [''transaction_records'' \<mapsto> \<lparr>tb_columns = create_columns create_transactions, tb_key = [''transaction_id''], tb_rows = []\<rparr>,
      ''kafka_checkpoints'' \<mapsto> \<lparr>tb_columns = create_columns create_checkpoints, tb_key = [''topic'', ''partition_id''], tb_rows = []\<rparr>]"

theorem libpq_transactions_refine_witness:
  "\<exists>p' p1 r p3 c. run_all (libpq_transaction_step table_server)
      [Received (sample_command ''t1'' (Fin 1)), Processed ''t1'' ''processed'', Checkpoint \<lparr>kc_topic = ''a'', kc_partition = 0, kc_offset = 3\<rparr>,
       Checkpoint \<lparr>kc_topic = ''a'', kc_partition = 0, kc_offset = 4\<rparr>] empty_transactions = (Inr (), p') \<and>
    libpq_get_record table_server ''t1'' p' = (Inr (Some r), p1) \<and> tr_status r = ''processed'' \<and>
    libpq_all_checkpoints table_server p' = (Inr [c], p3) \<and> kc_offset c = 4"
proof -
  let ?s = "\<lparr>pt_records = \<lparr>fb_memory = [], fb_file = None\<rparr>, pt_checkpoints = \<lparr>fb_memory = [], fb_file = None\<rparr>\<rparr>"
  let ?ops = "[Received (sample_command ''t1'' (Fin 1)), Processed ''t1'' ''processed'', Checkpoint \<lparr>kc_topic = ''a'', kc_partition = 0, kc_offset = 3\<rparr>,
       Checkpoint \<lparr>kc_topic = ''a'', kc_partition = 0, kc_offset = 4\<rparr>]"
  have "transactions_stored (id empty_transactions) ?s" by (simp add: transactions_stored_def holds_rows_def empty_transactions_def)
  moreover have "list_all transaction_op_storable ?ops" "pg_text ''t1''"
    by (simp_all add: transaction_storable_def received_record_def processed_record_def checkpoint_storable_def sample_command_def pg_text_def)
  moreover have "\<exists>r. pg_get_record ''t1'' (fold transaction_step ?ops ?s) = Some r \<and> tr_status r = ''processed''"
    by (simp add: pg_get_record_def pg_saved_records upserted_def received_record_def processed_record_def sample_command_def)
  moreover have "pg_all_checkpoints (fold transaction_step ?ops ?s) = [\<lparr>kc_topic = ''a'', kc_partition = 0, kc_offset = 4\<rparr>]"
    by (simp add: pg_all_checkpoints_def pg_saved_records upserted_def own_checkpoint_key_def)
  ultimately show ?thesis
    using libpq_transactions_refine [OF table_server_ok, of empty_transactions ?s ?ops "''t1''"] by fastforce
qed

end
