(* ===== verification/Bootstrap.thy ===== *)
theory Bootstrap
  imports Runtime Config_Loader
begin

section \<open>Wiring shared by the programs\<close>

text \<open>
  The functions that \<open>src/app/application.cpp\<close>, \<open>src/tools/backtest_main.cpp\<close> and
  \<open>src/tools/replay_main.cpp\<close> each define in the same words: the instrument and the two strategies built
  from the configuration, and the runtime configuration they are put into.
\<close>

definition parse_order_side :: "string \<Rightarrow> order_side" where
  "parse_order_side side = (if side = ''sell'' then Sell else Buy)"

definition build_instrument :: "string \<Rightarrow> string \<Rightarrow> instrument" where
  "build_instrument venue symb = \<lparr>instrument_id = venue @ '':'' @ symb, exchange = venue, symbol = symb,
     base_asset = (if 3 \<le> length symb then take 3 symb else symb),
     quote_asset = (if 3 < length symb then drop 3 symb else ''USD''),
     tick_size = to_double (1 / 10), lot_size = to_double (1 / 10000)\<rparr>"

definition primary_instrument :: "app_config \<Rightarrow> instrument" where
  "primary_instrument config =
     build_instrument (ac_exchange_name config) (case ac_instruments config of [] \<Rightarrow> ''BTCUSDT'' | s # _ \<Rightarrow> s)"

definition threshold_config :: "app_config \<Rightarrow> string \<Rightarrow> instrument \<Rightarrow> sample_threshold_config" where
  "threshold_config config iid instr = \<lparr>st_strategy_id = sg_strategy_id (ac_strategy config), st_instrument_id = iid,
     st_instrument = instr, st_trigger_price = sg_trigger_price (ac_strategy config),
     st_order_quantity = sg_order_quantity (ac_strategy config), st_side = parse_order_side (sg_side (ac_strategy config))\<rparr>"

definition build_strategy_coordinator :: "app_config \<Rightarrow> strategy strategy_coordinator" where
  "build_strategy_coordinator config =
     (let instr = primary_instrument config
      in add_strategy strategy_id (Some (Spread_capture (spread_capture_new
             \<lparr>sc_strategy_id = sg_strategy_id (ac_strategy config) @ ''-spread'', sc_instrument = instr,
              sc_min_spread = tick_size instr * Fin 5, sc_order_quantity = sg_order_quantity (ac_strategy config) * to_double (1 / 2),
              sc_side = parse_order_side (sg_side (ac_strategy config))\<rparr>)))
          (add_strategy strategy_id (Some (Sample_threshold (sample_threshold_new (threshold_config config (instrument_id instr) instr)))) []))"

text \<open>The configuration of the runtime: no repository and no cache is attached.\<close>

definition runtime_config :: "app_config \<Rightarrow> instrument \<Rightarrow> strategy simulation_runtime_config" where
  "runtime_config config instr = \<lparr>rc_strategy = threshold_config config (sg_trigger_instrument_id (ac_strategy config)) instr,
     rc_strategy_coordinator = Some (build_strategy_coordinator config),
     rc_execution = \<lparr>sc_partial_fill_threshold = sm_partial_fill_threshold (ac_simulation config),
       sc_partial_fill_ratio = sm_partial_fill_ratio (ac_simulation config)\<rparr>,
     rc_auto_complete_partial_fills = sm_auto_complete_partial_fills (ac_simulation config),
     rc_order_repository = None, rc_fill_repository = None, rc_position_repository = None, rc_balance_repository = None,
     rc_market_state_cache = None\<rparr>"

text \<open>Both strategies watch the same instrument, that of the first configured symbol.\<close>

fun watched :: "strategy \<Rightarrow> string" where
  "watched (Sample_threshold s) = st_instrument_id (st_config s)"
| "watched (Spread_capture s) = instrument_id (sc_instrument (sc_config s))"

lemma coordinator_watches:
  "\<forall>slot \<in> set (build_strategy_coordinator config). watched (sl_strategy slot) = instrument_id (primary_instrument config)"
  by (simp add: build_strategy_coordinator_def add_strategy_def Let_def spread_capture_new_def sample_threshold_new_def threshold_config_def)

subsection \<open>Events that no strategy acts on\<close>

fun passed_over :: "string \<Rightarrow> engine_event \<Rightarrow> bool" where
  "passed_over iid (MarketEvent e) \<longleftrightarrow> instrument_id (me_instrument e) \<noteq> iid"
| "passed_over iid (TransactionCommand c) \<longleftrightarrow> True"
| "passed_over iid (TimerEvent t) \<longleftrightarrow> True"

lemma strategy_passes:
  assumes "passed_over (watched s) event"
  shows "fst (strategy_on_event event ctx s) = Some [] \<and> watched (snd (strategy_on_event event ctx s)) = watched s"
  using assms by (cases s; cases event) auto

lemma coordinator_passes:
  assumes "\<forall>slot \<in> set slots. watched (sl_strategy slot) = iid" "passed_over iid event"
  shows "\<exists>slots'. coordinator_on_event strategy_on_event event ctx slots = ([], slots') \<and>
    (\<forall>slot \<in> set slots'. watched (sl_strategy slot) = iid)"
  using assms
proof (induction slots)
  case (Cons slot slots)
  have "\<exists>slot'. slot_on_event strategy_on_event event ctx slot = ([], slot') \<and> watched (sl_strategy slot') = iid"
    using strategy_passes [of "sl_strategy slot" event ctx] Cons.prems
    by (auto simp: slot_on_event_def Let_def split: prod.splits option.splits)
  then show ?case using Cons by auto
qed simp

end
