(* ===== verification/Kafka_Client.thy ===== *)
theory Kafka_Client
  imports Drivers Kafka_Wire Recovery App_Config
begin

section \<open>The Kafka clients\<close>

text \<open>
  \<open>RdKafkaConsumerHandle\<close> and \<open>RdKafkaConsumerClient\<close> of \<open>src/infrastructure/kafka_transaction_consumer.cpp\<close> and
  the producer of \<open>src/infrastructure/kafka_transaction_producer.cpp\<close>. librdkafka is a parameter, the record
  \<open>rdkafka\<close> of the functions the code calls; an error code is the text \<open>rd_kafka_err2str\<close> gives for it, and
  \<open>None\<close> is success. A configuration object is the list of settings made on it.
\<close>

datatype rd_kafka_type = RD_KAFKA_PRODUCER | RD_KAFKA_CONSUMER

type_synonym rd_kafka_conf = "(string \<times> string) list"

type_synonym topic_partition = "string \<times> int \<times> int64"

datatype rd_kafka_err = RD_KAFKA_RESP_ERR_NO_ERROR | RD_KAFKA_RESP_ERR_PARTITION_EOF | RD_KAFKA_RESP_ERR_OTHER

record rd_kafka_message =
  rm_err :: rd_kafka_err
  rm_errstr :: string
  rm_topic_name :: "string option"
  rm_partition :: int
  rm_offset :: int64
  rm_payload :: string

record 'k rdkafka =
  rdk_conf_set :: "rd_kafka_conf \<Rightarrow> string \<Rightarrow> string \<Rightarrow> string option"
  rdk_new :: "rd_kafka_type \<Rightarrow> rd_kafka_conf \<Rightarrow> string + 'k"
  rdk_subscribe :: "string \<Rightarrow> 'k \<Rightarrow> string option \<times> 'k"
  rdk_consumer_poll :: "int \<Rightarrow> (rd_kafka_message, 'k) action"
  rdk_commit :: "topic_partition list \<Rightarrow> 'k \<Rightarrow> string option \<times> 'k"
  rdk_assign :: "topic_partition list \<Rightarrow> 'k \<Rightarrow> string option \<times> 'k"
  rdk_seek_partitions :: "topic_partition list \<Rightarrow> int \<Rightarrow> 'k \<Rightarrow> string option \<times> 'k"
  rdk_producev :: "string \<Rightarrow> string \<Rightarrow> string \<Rightarrow> 'k \<Rightarrow> string option \<times> 'k"
  rdk_poll :: "int \<Rightarrow> 'k \<Rightarrow> 'k"
  rdk_flush :: "int \<Rightarrow> 'k \<Rightarrow> string option \<times> 'k"

text \<open>A library call whose error becomes an exception with the given prefix.\<close>

definition rd_checked :: "string \<Rightarrow> ('k \<Rightarrow> string option \<times> 'k) \<Rightarrow> (unit, 'k) call" where
  "rd_checked context f k = (case f k of (None, k') \<Rightarrow> (Inr (), k') | (Some e, k') \<Rightarrow> (Inl (runtime_error (context @ e)), k'))"

subsection \<open>Construction\<close>

definition join_brokers :: "string list \<Rightarrow> string" where
  "join_brokers brokers = join_with CHR '','' brokers"

definition set_conf :: "'k rdkafka \<Rightarrow> string \<Rightarrow> string \<Rightarrow> string \<Rightarrow> rd_kafka_conf \<Rightarrow> load_failure + rd_kafka_conf" where
  "set_conf api role key value conf =
     (case rdk_conf_set api conf key (c_str value) of
        None \<Rightarrow> Inr (conf @ [(key, c_str value)])
      | Some e \<Rightarrow> Inl (runtime_error (''failed to configure Kafka '' @ role @ '' setting '' @ key @ '': '' @ e)))"

definition rdkafka_consumer_handle :: "'k rdkafka \<Rightarrow> kafka_config \<Rightarrow> load_failure + 'k" where
  "rdkafka_consumer_handle api config =
     bindE (set_conf api ''consumer'' ''bootstrap.servers'' (join_brokers (kf_brokers config)) []) (\<lambda>conf.
     bindE (set_conf api ''consumer'' ''group.id'' (kf_consumer_group config) conf) (\<lambda>conf.
     bindE (set_conf api ''consumer'' ''enable.auto.commit'' ''false'' conf) (\<lambda>conf.
     bindE (set_conf api ''consumer'' ''enable.auto.offset.store'' ''false'' conf) (\<lambda>conf.
     bindE (set_conf api ''consumer'' ''auto.offset.reset'' ''earliest'' conf) (\<lambda>conf.
     case rdk_new api RD_KAFKA_CONSUMER conf of
       Inl e \<Rightarrow> Inl (runtime_error (''failed to create Kafka consumer: '' @ e))
     | Inr k \<Rightarrow>
       (case rdk_subscribe api (c_str (kf_transaction_topic config)) k of
          (None, k') \<Rightarrow> Inr k'
        | (Some e, k') \<Rightarrow> Inl (runtime_error (''failed to subscribe Kafka consumer: '' @ e))))))))"

subsection \<open>The consumer client\<close>

text \<open>The loop skips end-of-partition notices and messages without a topic; the outer \<open>None\<close> is that it does not return.\<close>

partial_function (option) rdkafka_poll :: "'k rdkafka \<Rightarrow> int \<Rightarrow> 'k \<Rightarrow> ((load_failure + raw_kafka_message option) \<times> 'k) option" where
  "rdkafka_poll api poll_timeout_ms k =
     (case rdk_consumer_poll api poll_timeout_ms k of
        (None, k') \<Rightarrow> Some (Inr None, k')
      | (Some m, k') \<Rightarrow>
        if rm_err m \<noteq> RD_KAFKA_RESP_ERR_NO_ERROR then
          if rm_err m = RD_KAFKA_RESP_ERR_PARTITION_EOF then rdkafka_poll api poll_timeout_ms k'
          else Some (Inl (runtime_error (''Kafka consumer poll failed: '' @ rm_errstr m)), k')
        else case rm_topic_name m of None \<Rightarrow> rdkafka_poll api poll_timeout_ms k'
        | Some topic \<Rightarrow> Some (Inr (Some \<lparr>rk_topic = topic, rk_partition = rm_partition m, rk_offset = rm_offset m, rk_payload = rm_payload m\<rparr>), k'))"

definition rdkafka_commit :: "'k rdkafka \<Rightarrow> string \<Rightarrow> int \<Rightarrow> int64 \<Rightarrow> (unit, 'k) call" where
  "rdkafka_commit api topic part off = rd_checked ''Kafka commit failed: '' (rdk_commit api [(c_str topic, part, off + 1)])"

definition rdkafka_seek :: "'k rdkafka \<Rightarrow> string \<Rightarrow> int \<Rightarrow> int64 \<Rightarrow> (unit, 'k) call" where
  "rdkafka_seek api topic part next_offset =
     bindC (rd_checked ''Kafka assign failed during recovery: '' (rdk_assign api [(c_str topic, part, next_offset)])) (\<lambda>_.
     rd_checked ''Kafka seek failed during recovery: '' (rdk_seek_partitions api [(c_str topic, part, next_offset)] 5000))"

text \<open>The recovery service calls the client through its interface, where only the exception is visible.\<close>

definition as_action :: "('a, 's) call \<Rightarrow> ('a, 's) action" where
  "as_action m s = (case m s of (Inl _, s') \<Rightarrow> (None, s') | (Inr a, s') \<Rightarrow> (Some a, s'))"

subsection \<open>The producer\<close>

text \<open>
  The broken-down UTC time of \<open>std::gmtime\<close>: the Gregorian calendar, found by counting off whole years and
  then whole months. The reading of the system clock that the key is made from is not before 1970.
\<close>

definition leap_year :: "nat \<Rightarrow> bool" where
  "leap_year y \<longleftrightarrow> 4 dvd y \<and> (\<not> 100 dvd y \<or> 400 dvd y)"

definition days_in_year :: "nat \<Rightarrow> nat" where
  "days_in_year y = (if leap_year y then 366 else 365)"

definition month_lengths :: "nat \<Rightarrow> nat list" where
  "month_lengths y = [31, if leap_year y then 29 else 28, 31, 30, 31, 30, 31, 31, 30, 31, 30, 31]"

function year_and_day :: "nat \<Rightarrow> nat \<Rightarrow> nat \<times> nat" where
  "year_and_day y d = (if d < days_in_year y then (y, d) else year_and_day (y + 1) (d - days_in_year y))"
  by pat_completeness auto
termination by (relation "measure snd") (auto simp: days_in_year_def split: if_splits)

declare year_and_day.simps [simp del]

fun month_and_day :: "nat list \<Rightarrow> nat \<Rightarrow> nat \<Rightarrow> nat \<times> nat" where
  "month_and_day [] m d = (m, d)"
| "month_and_day (l # ls) m d = (if d < l then (m, d) else month_and_day ls (m + 1) (d - l))"

record std_tm =
  tm_year :: nat
  tm_mon :: nat
  tm_mday :: nat
  tm_hour :: nat
  tm_min :: nat
  tm_sec :: nat

definition gmtime :: "nat \<Rightarrow> std_tm" where
  "gmtime seconds =
     (let (y, yd) = year_and_day 1970 (seconds div 86400); (m, d) = month_and_day (month_lengths y) 1 yd; s = seconds mod 86400
      in \<lparr>tm_year = y, tm_mon = m, tm_mday = d + 1, tm_hour = s div 3600, tm_min = s mod 3600 div 60, tm_sec = s mod 60\<rparr>)"

definition pad_number :: "nat \<Rightarrow> nat \<Rightarrow> string" where
  "pad_number w n = replicate (w - length (show_nat n)) CHR ''0'' @ show_nat n"

definition put_time :: "std_tm \<Rightarrow> string" where
  "put_time t = pad_number 4 (tm_year t) @ pad_number 2 (tm_mon t) @ pad_number 2 (tm_mday t) @ pad_number 2 (tm_hour t) @
     pad_number 2 (tm_min t) @ pad_number 2 (tm_sec t)"

definition serialize_transaction_command_key :: "transaction_command \<Rightarrow> nat \<Rightarrow> string" where
  "serialize_transaction_command_key command timestamp_ms =
     tx_transaction_id command @ CHR ''|'' # put_time (gmtime (timestamp_ms div 1000))"

definition rdkafka_producer_new :: "'k rdkafka \<Rightarrow> kafka_config \<Rightarrow> load_failure + string \<times> 'k" where
  "rdkafka_producer_new api config =
     bindE (set_conf api ''producer'' ''bootstrap.servers'' (join_brokers (kf_brokers config)) []) (\<lambda>conf.
     case rdk_new api RD_KAFKA_PRODUCER conf of
       Inl e \<Rightarrow> Inl (runtime_error (''failed to create Kafka producer: '' @ e))
     | Inr k \<Rightarrow> Inr (kf_transaction_topic config, k))"

definition rdkafka_publish :: "'k rdkafka \<Rightarrow> string \<Rightarrow> nat \<Rightarrow> transaction_command \<Rightarrow> (unit, 'k) call" where
  "rdkafka_publish api topic now command =
     bindC (rd_checked ''failed to publish Kafka transaction: ''
       (rdk_producev api (c_str topic) (serialize_transaction_command_key command now) (serialize_transaction_command_payload command)))
     (\<lambda>_ k. (Inr (), rdk_poll api 0 k))"

definition rdkafka_flush :: "'k rdkafka \<Rightarrow> int \<Rightarrow> (unit, 'k) call" where
  "rdkafka_flush api timeout_ms = rd_checked ''failed to flush Kafka producer: '' (rdk_flush api timeout_ms)"

subsection \<open>The calendar\<close>

definition timegm :: "std_tm \<Rightarrow> nat" where
  "timegm t = ((\<Sum>y \<in> {1970..<tm_year t}. days_in_year y) + sum_list (take (tm_mon t - 1) (month_lengths (tm_year t))) + (tm_mday t - 1)) * 86400 +
     tm_hour t * 3600 + tm_min t * 60 + tm_sec t"

lemma year_and_day_sum:
  "year_and_day y d = (y', d') \<Longrightarrow> y \<le> y' \<and> d' < days_in_year y' \<and> (\<Sum>i \<in> {y..<y'}. days_in_year i) + d' = d"
proof (induction y d rule: year_and_day.induct)
  case (1 y d)
  show ?case
  proof (cases "d < days_in_year y")
    case True
    then show ?thesis using 1(2) by (subst (asm) year_and_day.simps) auto
  next
    case False
    then have "year_and_day (y + 1) (d - days_in_year y) = (y', d')" using 1(2) by (subst (asm) year_and_day.simps) auto
    from 1(1) [OF False this] have ih: "y + 1 \<le> y'" "d' < days_in_year y'" "(\<Sum>i \<in> {y + 1..<y'}. days_in_year i) + d' = d - days_in_year y"
      by auto
    have "(\<Sum>i \<in> {y..<y'}. days_in_year i) = days_in_year y + (\<Sum>i \<in> {y + 1..<y'}. days_in_year i)"
      using ih(1) by (simp add: sum.atLeast_Suc_lessThan)
    then show ?thesis using ih False by simp
  qed
qed

lemma month_and_day_sum:
  "month_and_day ls m d = (m', d') \<Longrightarrow> d < sum_list ls \<Longrightarrow>
   m \<le> m' \<and> m' - m < length ls \<and> d' < ls ! (m' - m) \<and> sum_list (take (m' - m) ls) + d' = d"
proof (induction ls m d rule: month_and_day.induct)
  case (2 l ls m d)
  show ?case
  proof (cases "d < l")
    case False
    then have "m + 1 \<le> m' \<and> m' - (m + 1) < length ls \<and> d' < ls ! (m' - (m + 1)) \<and> sum_list (take (m' - (m + 1)) ls) + d' = d - l"
      using 2 by simp
    moreover have "m + 1 \<le> m' \<Longrightarrow> m' - m = Suc (m' - (m + 1))" by simp
    ultimately show ?thesis using False by auto
  qed (use 2 in simp)
qed simp

lemma month_lengths_sum: "sum_list (month_lengths y) = days_in_year y"
  by (simp add: month_lengths_def days_in_year_def)

lemma month_lengths_bound: "i < 12 \<Longrightarrow> month_lengths y ! i \<le> 31"
  by (auto simp: month_lengths_def less_Suc_eq numeral_eq_Suc)

lemma gmtime_calendar:
  obtains y yd m d where "year_and_day 1970 (s div 86400) = (y, yd)" "month_and_day (month_lengths y) 1 yd = (m, d)"
    "1970 \<le> y" "(\<Sum>i \<in> {1970..<y}. days_in_year i) + yd = s div 86400" "1 \<le> m" "m \<le> 12" "d < 31"
    "sum_list (take (m - 1) (month_lengths y)) + d = yd"
proof -
  obtain y yd where y: "year_and_day 1970 (s div 86400) = (y, yd)" by force
  obtain m d where m: "month_and_day (month_lengths y) 1 yd = (m, d)" by force
  note ys = year_and_day_sum [OF y]
  then have "yd < sum_list (month_lengths y)" by (simp add: month_lengths_sum)
  note ms = month_and_day_sum [OF m this]
  then have "m - 1 < 12" by (simp add: month_lengths_def)
  then have "d < 31" using ms month_lengths_bound [of "m - 1" y] by simp
  then show thesis using that [OF y m] ys ms \<open>m - 1 < 12\<close> by simp
qed

lemma timegm_gmtime: "timegm (gmtime s) = s"
proof (rule gmtime_calendar [of s])
  fix y yd m d
  assume *: "year_and_day 1970 (s div 86400) = (y, yd)" "month_and_day (month_lengths y) 1 yd = (m, d)"
    "(\<Sum>i \<in> {1970..<y}. days_in_year i) + yd = s div 86400" "sum_list (take (m - 1) (month_lengths y)) + d = yd"
  have "r div 3600 * 3600 + r mod 3600 div 60 * 60 + r mod 60 = r" for r :: nat
  proof -
    have "r mod 60 = r mod 3600 mod 60" by (simp add: mod_mod_cancel)
    then show ?thesis using div_mult_mod_eq [of r 3600] div_mult_mod_eq [of "r mod 3600" 60] by linarith
  qed
  note time = this [of "s mod 86400"]
  moreover have "timegm (gmtime s) = s div 86400 * 86400 + (s mod 86400 div 3600 * 3600 + s mod 86400 mod 3600 div 60 * 60 + s mod 86400 mod 60)"
    using *(3,4) by (simp add: timegm_def gmtime_def *(1,2) Let_def add.assoc del: One_nat_def)
  ultimately show ?thesis by (simp only: time div_mult_mod_eq)
qed

lemma pad_number_digits:
  assumes "n < 10 ^ w" "0 < w"
  shows "length (pad_number w n) = w \<and> read_digits (pad_number w n) = n"
proof -
  have "length (show_nat n) \<le> w"
  proof (cases "n = 0")
    case True
    then show ?thesis using assms(2) by (simp only: True show_nat_zero) simp
  next
    case False
    then have "10 ^ (length (show_nat n) - 1) \<le> n" using show_nat_length [of n] by simp
    then have "10 ^ (length (show_nat n) - 1) < (10 ^ w :: nat)" using assms(1) by (rule le_less_trans)
    then have "length (show_nat n) - 1 < w" by (rule power_less_imp_less_exp [rotated]) simp
    then show ?thesis by simp
  qed
  then show ?thesis by (simp add: pad_number_def read_digits_append read_digits_zeros read_show_nat)
qed

lemma gmtime_ranges:
  assumes "s < 253 * 10 ^ 9"
  shows "tm_year (gmtime s) < 10 ^ 4 \<and> tm_mon (gmtime s) < 10 ^ 2 \<and> tm_mday (gmtime s) < 10 ^ 2 \<and> tm_hour (gmtime s) < 10 ^ 2 \<and>
    tm_min (gmtime s) < 10 ^ 2 \<and> tm_sec (gmtime s) < 10 ^ 2"
proof (rule gmtime_calendar [of s])
  fix y yd m d
  assume *: "year_and_day 1970 (s div 86400) = (y, yd)" "month_and_day (month_lengths y) 1 yd = (m, d)"
    "(\<Sum>i \<in> {1970..<y}. days_in_year i) + yd = s div 86400" "1970 \<le> y" "m \<le> 12" "d < 31"
  have "card {1970..<y} * 365 \<le> (\<Sum>i \<in> {1970..<y}. days_in_year i)"
    using sum_bounded_below [of "{1970..<y}" 365 days_in_year] by (simp add: days_in_year_def)
  then have "(y - 1970) * 365 \<le> s div 86400" using *(3) by simp
  moreover have "s div 86400 < 2930950" using assms by simp
  ultimately have "y < 10000" by simp
  moreover have "s mod 86400 div 3600 < 100" "s mod 86400 mod 3600 div 60 < 100" "s mod 86400 mod 60 < 100"
    by (simp_all add: less_mult_imp_div_less trans_less_add1 mod_less_divisor [THEN less_le_trans])
  ultimately show ?thesis using *(5,6) by (simp add: gmtime_def *(1,2) Let_def del: One_nat_def)
qed

lemma put_time_inj:
  assumes "s < 253 * 10 ^ 9" "s' < 253 * 10 ^ 9" "put_time (gmtime s) = put_time (gmtime s')"
  shows "s = s'"
proof -
  note len = gmtime_ranges [OF assms(1)] gmtime_ranges [OF assms(2)]
  have eq: "pad_number w n = pad_number w n' \<longleftrightarrow> n = n'" if "n < 10 ^ w" "n' < 10 ^ w" "0 < w" for w n n'
    using pad_number_digits that by metis
  have "gmtime s = gmtime s'"
    using assms(3) len pad_number_digits [of _ 4] pad_number_digits [of _ 2] eq [of _ 4] eq [of _ 2]
    by (simp add: put_time_def append_eq_append_conv)
  then show ?thesis using timegm_gmtime by metis
qed

lemma put_time_length: "s < 253 * 10 ^ 9 \<Longrightarrow> length (put_time (gmtime s)) = 14"
  using gmtime_ranges [of s] pad_number_digits [of _ 4] pad_number_digits [of _ 2] by (simp add: put_time_def)

text \<open>
  The message key determines the command's transaction id and the second of its publication, although
  it is a concatenation with a separator the id may contain: two keys are equal exactly when the ids are and
  both timestamps fall into the same second, for times from 1970 to the year 9987.
\<close>

theorem transaction_key_unique:
  assumes "t < 253 * 10 ^ 12" "t' < 253 * 10 ^ 12"
  shows "serialize_transaction_command_key c t = serialize_transaction_command_key c' t' \<longleftrightarrow>
    tx_transaction_id c = tx_transaction_id c' \<and> t div 1000 = t' div 1000"
proof -
  have s: "t div 1000 < 253 * 10 ^ 9" "t' div 1000 < 253 * 10 ^ 9" using assms by simp_all
  have "length (CHR ''|'' # put_time (gmtime (t div 1000))) = length (CHR ''|'' # put_time (gmtime (t' div 1000)))"
    using s by (simp add: put_time_length)
  from append_eq_append_conv [OF disjI2 [OF this]] show ?thesis
    using put_time_inj [OF s] by (auto simp: serialize_transaction_command_key_def)
qed

theorem transaction_key_unique_witness:
  "serialize_transaction_command_key (sample_command ''t1'' (Fin 1)) 1700000000123 \<noteq> serialize_transaction_command_key (sample_command ''t1'' (Fin 1)) 1700000001123 \<and>
   serialize_transaction_command_key (sample_command ''t1'' (Fin 1)) 1700000000123 = serialize_transaction_command_key (sample_command ''t1'' (Fin 2)) 1700000000999"
  using transaction_key_unique [of 1700000000123 1700000001123 "sample_command ''t1'' (Fin 1)" "sample_command ''t1'' (Fin 1)"]
    transaction_key_unique [of 1700000000123 1700000000999 "sample_command ''t1'' (Fin 1)" "sample_command ''t1'' (Fin 2)"]
  by (simp add: sample_command_def)

subsection \<open>Polling through the library\<close>

text \<open>
  What the consumer client relies on: the library hands out the messages and notices it holds one by one
  and answers with a null message when there is none.
\<close>

definition delivers :: "'k rdkafka \<Rightarrow> ('k \<Rightarrow> rd_kafka_message list) \<Rightarrow> bool" where
  "delivers api held \<longleftrightarrow>
     (\<forall>k timeout. held k = [] \<longrightarrow> rdk_consumer_poll api timeout k = (None, k)) \<and>
     (\<forall>k timeout m ms. held k = m # ms \<longrightarrow> (\<exists>k'. rdk_consumer_poll api timeout k = (Some m, k') \<and> held k' = ms))"

definition rd_skipped :: "rd_kafka_message \<Rightarrow> bool" where
  "rd_skipped m \<longleftrightarrow> rm_err m = RD_KAFKA_RESP_ERR_PARTITION_EOF \<or> rm_err m = RD_KAFKA_RESP_ERR_NO_ERROR \<and> rm_topic_name m = None"

definition rd_outcome :: "rd_kafka_message \<Rightarrow> load_failure + raw_kafka_message option" where
  "rd_outcome m =
     (if rm_err m = RD_KAFKA_RESP_ERR_NO_ERROR
      then Inr (map_option (\<lambda>t. \<lparr>rk_topic = t, rk_partition = rm_partition m, rk_offset = rm_offset m, rk_payload = rm_payload m\<rparr>) (rm_topic_name m))
      else Inl (runtime_error (''Kafka consumer poll failed: '' @ rm_errstr m)))"

lemma rdkafka_poll_returns:
  assumes "delivers api held"
  shows "\<exists>k'. rdkafka_poll api timeout k =
      Some (case dropWhile rd_skipped (held k) of [] \<Rightarrow> Inr None | m # _ \<Rightarrow> rd_outcome m, k') \<and>
    held k' = tl (dropWhile rd_skipped (held k))"
proof (induction "held k" arbitrary: k)
  case Nil
  then have "rdk_consumer_poll api timeout k = (None, k)" using assms by (simp add: delivers_def)
  then show ?case using Nil [symmetric] by (subst rdkafka_poll.simps) simp
next
  case (Cons m ms)
  obtain k1 where k1: "rdk_consumer_poll api timeout k = (Some m, k1)" "held k1 = ms"
    using assms Cons.hyps(2) unfolding delivers_def by metis
  show ?case
  proof (cases "rd_skipped m")
    case True
    then have "rdkafka_poll api timeout k = rdkafka_poll api timeout k1"
      using k1(1) by (subst rdkafka_poll.simps) (auto simp: rd_skipped_def)
    then show ?thesis using Cons.hyps(1) [of k1] k1(2) True Cons.hyps(2) [symmetric] by simp
  next
    case False
    then show ?thesis
      using k1 Cons.hyps(2) [symmetric] by (subst rdkafka_poll.simps) (auto simp: rd_skipped_def rd_outcome_def split: option.split)
  qed
qed

subsection \<open>Resuming after a restart\<close>

text \<open>
  Assignment and seeking as librdkafka documents them: \<open>rd_kafka_assign\<close> replaces the whole assignment by the
  given partitions, starting at the given offsets, and \<open>rd_kafka_seek_partitions\<close> moves assigned partitions.
  \<open>position\<close> is the next offset of every assigned partition.
\<close>

definition offsets_map :: "topic_partition list \<Rightarrow> (string \<times> int \<rightharpoonup> int64)" where
  "offsets_map ps = map_of (map (\<lambda>(t, p, off). ((t, p), off)) ps)"

definition assigns :: "'k rdkafka \<Rightarrow> ('k \<Rightarrow> (string \<times> int \<rightharpoonup> int64)) \<Rightarrow> bool" where
  "assigns api position \<longleftrightarrow>
     (\<forall>ps k. \<exists>k'. rdk_assign api ps k = (None, k') \<and> position k' = offsets_map ps) \<and>
     (\<forall>ps timeout k. dom (offsets_map ps) \<subseteq> dom (position k) \<longrightarrow>
        (\<exists>k'. rdk_seek_partitions api ps timeout k = (None, k') \<and> position k' = position k ++ offsets_map ps))"

lemma rdkafka_seek_position:
  assumes "assigns api position"
  shows "\<exists>k'. as_action (rdkafka_seek api topic part off) k = (Some (), k') \<and> position k' = [(c_str topic, part) \<mapsto> off]"
proof -
  obtain k1 where k1: "rdk_assign api [(c_str topic, part, off)] k = (None, k1)" "position k1 = offsets_map [(c_str topic, part, off)]"
    using assms unfolding assigns_def by blast
  then have "dom (offsets_map [(c_str topic, part, off)]) \<subseteq> dom (position k1)" by simp
  then obtain k2 where k2: "rdk_seek_partitions api [(c_str topic, part, off)] 5000 k1 = (None, k2)"
      "position k2 = position k1 ++ offsets_map [(c_str topic, part, off)]"
    using assms unfolding assigns_def by blast
  then show ?thesis
    using k1 by (simp add: as_action_def rdkafka_seek_def rd_checked_def bindC_def offsets_map_def)
qed

text \<open>
  C34. Resuming keeps one partition only: since every seek assigns its partition alone, a consumer resumed
  from several checkpoints without an error is assigned the partition of the last checkpoint, positioned
  after it, and nothing else: the other partitions are no longer consumed.
\<close>

theorem resume_keeps_last:
  assumes "assigns api position" "rs_kafka_checkpoints snapshot = cs @ [c]"
  shows "\<exists>k'. resume_kafka (\<lambda>t p off. as_action (rdkafka_seek api t p off)) snapshot k = (Some (), k') \<and>
    position k' = [(c_str (kc_topic c), kc_partition c) \<mapsto> kc_offset c + 1]"
proof -
  have "\<exists>k'. seek_all (\<lambda>t p off. as_action (rdkafka_seek api t p off)) (cs @ [c]) k = (Some (), k') \<and>
      position k' = [(c_str (kc_topic c), kc_partition c) \<mapsto> kc_offset c + 1]" for k
  proof (induction cs arbitrary: k)
    case Nil
    then show ?case using rdkafka_seek_position [OF assms(1), of "kc_topic c" "kc_partition c" "kc_offset c + 1" k]
      by (auto simp: bindA_def ret_def)
  next
    case (Cons d cs)
    obtain k1 where "as_action (rdkafka_seek api (kc_topic d) (kc_partition d) (kc_offset d + 1)) k = (Some (), k1)"
      using rdkafka_seek_position [OF assms(1)] by blast
    then show ?case using Cons.IH [of k1] by (simp add: bindA_def)
  qed
  then show ?thesis by (simp add: resume_kafka_def assms(2))
qed

text \<open>A library that only keeps its assignment, as the hypothesis describes it.\<close>

definition assigning_client :: "(string \<times> int \<rightharpoonup> int64) rdkafka" where
  "assigning_client = \<lparr>rdk_conf_set = (\<lambda>_ _ _. None), rdk_new = (\<lambda>_ _. Inr Map.empty), rdk_subscribe = (\<lambda>_ k. (None, k)),
     rdk_consumer_poll = (\<lambda>_ k. (None, k)), rdk_commit = (\<lambda>_ k. (None, k)), rdk_assign = (\<lambda>ps k. (None, offsets_map ps)),
     rdk_seek_partitions = (\<lambda>ps _ k. (None, k ++ offsets_map ps)), rdk_producev = (\<lambda>_ _ _ k. (None, k)), rdk_poll = (\<lambda>_ k. k),
     rdk_flush = (\<lambda>_ k. (None, k))\<rparr>"

theorem resume_keeps_last_witness:
  "\<exists>k'. resume_kafka (\<lambda>t p off. as_action (rdkafka_seek assigning_client t p off))
      \<lparr>rs_open_orders = [], rs_positions = [], rs_balances = [],
        rs_kafka_checkpoints = [\<lparr>kc_topic = ''orders'', kc_partition = 0, kc_offset = 7\<rparr>, \<lparr>kc_topic = ''orders'', kc_partition = 1, kc_offset = 4\<rparr>]\<rparr>
      Map.empty = (Some (), k') \<and> k' (''orders'', 0) = None \<and> k' (''orders'', 1) = Some 5"
proof -
  have "assigns assigning_client id" by (simp add: assigns_def assigning_client_def)
  from resume_keeps_last [OF this, of "\<lparr>rs_open_orders = [], rs_positions = [], rs_balances = [],
      rs_kafka_checkpoints = [\<lparr>kc_topic = ''orders'', kc_partition = 0, kc_offset = 7\<rparr>, \<lparr>kc_topic = ''orders'', kc_partition = 1, kc_offset = 4\<rparr>]\<rparr>"
      "[\<lparr>kc_topic = ''orders'', kc_partition = 0, kc_offset = 7\<rparr>]" "\<lparr>kc_topic = ''orders'', kc_partition = 1, kc_offset = 4\<rparr>" Map.empty]
  show ?thesis by (auto simp: c_str_def)
qed

end
