(* ===== verification/Publisher.thy ===== *)
theory Publisher
  imports Kafka_Client Config_Loader
begin

section \<open>The transaction publisher\<close>

text \<open>
  \<open>src/app/transaction_publisher_application.cpp\<close>: the application that reads JSON lines from a file or
  standard input and publishes each command it finds. \<open>files\<close> gives the contents of a file that can be
  opened, \<open>clock\<close> the reading of the system clock at each publication.
\<close>

definition load_config :: "environment \<Rightarrow> string \<Rightarrow> (string \<Rightarrow> string option) \<Rightarrow> load_failure + app_config" where
  "load_config env source_dir files =
     (let path = source_dir @ ''/configs/development.cfg''
      in bindE (throwing (load_from_file env path (files path))) (\<lambda>config.
         if cv_valid (validate config) then Inr config else Inl (runtime_error (the (cv_error (validate config))))))"

fun publish_lines :: "'k rdkafka \<Rightarrow> string \<Rightarrow> (nat \<Rightarrow> nat) \<Rightarrow> string list \<Rightarrow> nat \<Rightarrow> nat \<Rightarrow> (nat \<times> nat, 'k) call" where
  "publish_lines api topic clock [] published skipped = retC (published, skipped)"
| "publish_lines api topic clock (line # lines) published skipped =
     (let trimmed = trim line
      in if trimmed = [] then publish_lines api topic clock lines published skipped
         else case parse_json_transaction_command_line trimmed of
           None \<Rightarrow> publish_lines api topic clock lines published (skipped + 1)
         | Some command \<Rightarrow>
             bindC (rdkafka_publish api topic (clock published) command) (\<lambda>_.
             publish_lines api topic clock lines (published + 1) skipped))"

record publish_summary =
  pb_input :: string
  pb_topic :: string
  pb_published :: nat
  pb_skipped :: nat

definition publish_input :: "'k rdkafka \<Rightarrow> app_config \<Rightarrow> (nat \<Rightarrow> nat) \<Rightarrow> string \<Rightarrow> string \<Rightarrow> string \<Rightarrow> (publish_summary, 'k) call" where
  "publish_input api config clock topic input_name input =
     bindC (publish_lines api topic clock (getline_split newline input) 0 0) (\<lambda>(published, skipped).
     bindC (rdkafka_flush api 5000) (\<lambda>_.
     retC \<lparr>pb_input = input_name, pb_topic = kf_transaction_topic (ac_kafka config), pb_published = published, pb_skipped = skipped\<rparr>))"

definition publisher_run ::
  "'k rdkafka \<Rightarrow> environment \<Rightarrow> string \<Rightarrow> (string \<Rightarrow> string option) \<Rightarrow> (nat \<Rightarrow> nat) \<Rightarrow> string \<Rightarrow> string option \<Rightarrow>
   load_failure + publish_summary \<times> 'k" where
  "publisher_run api env source_dir files clock stdin arg =
     bindE (load_config env source_dir files) (\<lambda>config.
     bindE (rdkafka_producer_new api (ac_kafka config)) (\<lambda>(topic, k).
     bindE (case arg of None \<Rightarrow> Inr (''stdin'', stdin)
            | Some name \<Rightarrow> (case files name of None \<Rightarrow> Inl (runtime_error (''Unable to open transaction input file: '' @ name))
                | Some input \<Rightarrow> Inr (name, input))) (\<lambda>(input_name, input).
     (case publish_input api config clock topic input_name input k of (Inl e, _) \<Rightarrow> Inl e | (Inr summary, k') \<Rightarrow> Inr (summary, k')))))"

lemma validate_error: "cv_valid (validate c) \<longleftrightarrow> cv_error (validate c) = None"
  by (simp add: validate_def Let_def)

subsection \<open>From the input to the consumer\<close>

text \<open>A producer connected to a log: what is published is appended, in order, and neither polling nor flushing changes it.\<close>

definition appends :: "'k rdkafka \<Rightarrow> ('k \<Rightarrow> (string \<times> string \<times> string) list) \<Rightarrow> bool" where
  "appends api topic_log \<longleftrightarrow>
     (\<forall>topic key payload k. \<exists>k'. rdk_producev api topic key payload k = (None, k') \<and> topic_log k' = topic_log k @ [(topic, key, payload)]) \<and>
     (\<forall>timeout k. topic_log (rdk_poll api timeout k) = topic_log k) \<and>
     (\<forall>timeout k. \<exists>k'. rdk_flush api timeout k = (None, k') \<and> topic_log k' = topic_log k)"

definition input_commands :: "string list \<Rightarrow> transaction_command list" where
  "input_commands lines = List.map_filter parse_json_transaction_command_line (filter (\<lambda>line. line \<noteq> []) (map trim lines))"

definition rejected_lines :: "string list \<Rightarrow> string list" where
  "rejected_lines lines = filter (\<lambda>line. line \<noteq> [] \<and> parse_json_transaction_command_line line = None) (map trim lines)"

text \<open>What a consumer makes of a log entry it reads at a partition and an offset.\<close>

definition consumed :: "int \<Rightarrow> int64 \<Rightarrow> string \<times> string \<times> string \<Rightarrow> transaction_command option" where
  "consumed part off entry =
     parse_raw_message \<lparr>rk_topic = fst entry, rk_partition = part, rk_offset = off, rk_payload = snd (snd entry)\<rparr>"

lemma input_lines_simps:
  "input_commands [] = []" "rejected_lines [] = []"
  "trim line = [] \<Longrightarrow> input_commands (line # lines) = input_commands lines \<and> rejected_lines (line # lines) = rejected_lines lines"
  "trim line \<noteq> [] \<Longrightarrow> parse_json_transaction_command_line (trim line) = None \<Longrightarrow>
     input_commands (line # lines) = input_commands lines \<and> rejected_lines (line # lines) = trim line # rejected_lines lines"
  "trim line \<noteq> [] \<Longrightarrow> parse_json_transaction_command_line (trim line) = Some c \<Longrightarrow>
     input_commands (line # lines) = c # input_commands lines \<and> rejected_lines (line # lines) = rejected_lines lines"
  by (simp_all add: input_commands_def rejected_lines_def List.map_filter_def)

lemma publish_lines_log:
  assumes "appends api topic_log" "\<forall>c \<in> set (input_commands lines). wire_safe c"
  shows "\<exists>k' es. publish_lines api topic clock lines published skipped k =
      (Inr (published + length (input_commands lines), skipped + length (rejected_lines lines)), k') \<and> topic_log k' = topic_log k @ es \<and>
    map (consumed part off) es =
      map (\<lambda>c. Some (c\<lparr>tx_kafka_topic := c_str topic, tx_kafka_partition := part, tx_kafka_offset := off\<rparr>)) (input_commands lines)"
  using assms(2)
proof (induction lines arbitrary: published skipped k)
  case Nil
  then show ?case by (auto simp: retC_def input_lines_simps)
next
  case (Cons line lines)
  consider "trim line = []" | "trim line \<noteq> []" "parse_json_transaction_command_line (trim line) = None"
    | c where "trim line \<noteq> []" "parse_json_transaction_command_line (trim line) = Some c" by fastforce
  then show ?case
  proof cases
    case 3
    obtain k1 where k1: "rdk_producev api (c_str topic) (serialize_transaction_command_key c (clock published))
        (serialize_transaction_command_payload c) k = (None, k1)"
        "topic_log k1 = topic_log k @ [(c_str topic, serialize_transaction_command_key c (clock published), serialize_transaction_command_payload c)]"
      using assms(1) unfolding appends_def by blast
    then have pub: "rdkafka_publish api topic (clock published) c k = (Inr (), rdk_poll api 0 k1)" "topic_log (rdk_poll api 0 k1) = topic_log k1"
      using assms(1) by (simp_all add: rdkafka_publish_def rd_checked_def bindC_def appends_def)
    have safe: "wire_safe c" "\<forall>c \<in> set (input_commands lines). wire_safe c"
      using Cons.prems input_lines_simps(5) [OF 3, of lines] by auto
    obtain k2 es where k2: "publish_lines api topic clock lines (published + 1) skipped (rdk_poll api 0 k1) =
        (Inr (published + 1 + length (input_commands lines), skipped + length (rejected_lines lines)), k2)"
        "topic_log k2 = topic_log (rdk_poll api 0 k1) @ es"
        "map (consumed part off) es = map (\<lambda>c. Some (c\<lparr>tx_kafka_topic := c_str topic, tx_kafka_partition := part, tx_kafka_offset := off\<rparr>)) (input_commands lines)"
      using Cons.IH [OF safe(2), of "published + 1" skipped "rdk_poll api 0 k1"] by auto
    let ?e = "(c_str topic, serialize_transaction_command_key c (clock published), serialize_transaction_command_payload c)"
    have "consumed part off ?e = Some (c\<lparr>tx_kafka_topic := c_str topic, tx_kafka_partition := part, tx_kafka_offset := off\<rparr>)"
      by (simp add: consumed_def parse_serialized [OF safe(1)])
    then show ?thesis
      using k1(2) pub k2 3(1) by (intro exI [of _ k2] exI [of _ "?e # es"]) (simp add: 3(2) input_lines_simps(5) [OF 3] bindC_def)
  next
    case 1
    then show ?thesis using Cons.IH [of published skipped k] Cons.prems by (simp add: input_lines_simps(3) [OF 1])
  next
    case 2
    then show ?thesis using Cons.IH [of published "skipped + 1" k] Cons.prems by (simp add: input_lines_simps(4) [OF 2])
  qed
qed

text \<open>
  C35. From the input to the consumer: with a connected producer the application publishes exactly the
  commands of the input, in order, counts the lines that are no commands, and succeeds; when the strings
  have no semicolon and the numbers at most six significant digits, a consumer that reads the new entries
  of the topic, wherever they are stored, parses exactly these commands.
\<close>

theorem publisher_end_to_end:
  assumes "appends api topic_log" "\<forall>c \<in> set (input_commands (getline_split newline input)). wire_safe c"
  shows "\<exists>k' es. publish_input api config clock topic input_name input k =
      (Inr \<lparr>pb_input = input_name, pb_topic = kf_transaction_topic (ac_kafka config),
         pb_published = length (input_commands (getline_split newline input)),
         pb_skipped = length (rejected_lines (getline_split newline input))\<rparr>, k') \<and>
    topic_log k' = topic_log k @ es \<and>
    map (consumed part off) es = map (\<lambda>c. Some (c\<lparr>tx_kafka_topic := c_str topic, tx_kafka_partition := part, tx_kafka_offset := off\<rparr>))
      (input_commands (getline_split newline input))"
proof -
  obtain k1 es where k1: "publish_lines api topic clock (getline_split newline input) 0 0 k =
      (Inr (length (input_commands (getline_split newline input)), length (rejected_lines (getline_split newline input))), k1)"
      "topic_log k1 = topic_log k @ es"
      "map (consumed part off) es = map (\<lambda>c. Some (c\<lparr>tx_kafka_topic := c_str topic, tx_kafka_partition := part, tx_kafka_offset := off\<rparr>))
        (input_commands (getline_split newline input))"
    using publish_lines_log [OF assms(1) assms(2), of topic clock 0 0 k part off] by auto
  moreover obtain k2 where "rdk_flush api 5000 k1 = (None, k2)" "topic_log k2 = topic_log k1"
    using assms(1) unfolding appends_def by blast
  ultimately show ?thesis by (simp add: publish_input_def bindC_def rdkafka_flush_def rd_checked_def retC_def)
qed

text \<open>A producer that is its log, as the hypothesis describes it, and an input with a command and a comment.\<close>

definition log_producer :: "(string \<times> string \<times> string) list rdkafka" where
  "log_producer = \<lparr>rdk_conf_set = (\<lambda>_ _ _. None), rdk_new = (\<lambda>_ _. Inr []), rdk_subscribe = (\<lambda>_ k. (None, k)),
     rdk_consumer_poll = (\<lambda>_ k. (None, k)), rdk_commit = (\<lambda>_ k. (None, k)), rdk_assign = (\<lambda>ps k. (None, k)),
     rdk_seek_partitions = (\<lambda>ps _ k. (None, k)), rdk_producev = (\<lambda>topic key payload k. (None, k @ [(topic, key, payload)])),
     rdk_poll = (\<lambda>_ k. k), rdk_flush = (\<lambda>_ k. (None, k))\<rparr>"

definition sample_json :: string where
  "sample_json = ''{'' @ join_with CHR '','' (map (\<lambda>(k, v). [CHR 0x22] @ k @ [CHR 0x22] @ '':'' @ v)
     [(''transaction_id'', [CHR 0x22] @ ''t1'' @ [CHR 0x22]), (''user_id'', [CHR 0x22] @ ''u'' @ [CHR 0x22]),
      (''account_id'', [CHR 0x22] @ ''a'' @ [CHR 0x22]), (''command_type'', [CHR 0x22] @ ''place'' @ [CHR 0x22]),
      (''instrument_symbol'', [CHR 0x22] @ ''BTC'' @ [CHR 0x22]), (''quantity'', ''0''), (''price'', ''null'')]) @ ''}''"

definition sample_input :: string where
  "sample_input = ''# header'' @ [newline, newline] @ sample_json @ [newline]"

lemma sample_input_lines: "map trim (getline_split newline sample_input) = [''# header'', [], sample_json]"
  by code_simp

lemma sample_json_fields:
  "case parse_flat_json_object sample_json of None \<Rightarrow> False
   | Some fs \<Rightarrow> fs ''transaction_id'' = Some ''t1'' \<and> fs ''user_id'' = Some ''u'' \<and> fs ''account_id'' = Some ''a'' \<and>
       fs ''command_type'' = Some ''place'' \<and> fs ''instrument_symbol'' = Some ''BTC'' \<and> fs ''quantity'' = Some ''0'' \<and> fs ''price'' = Some ''null''"
  by code_simp

lemma sample_json_command:
  "parse_json_transaction_command_line sample_json =
     Some \<lparr>tx_transaction_id = ''t1'', tx_user_id = ''u'', tx_account_id = ''a'', tx_command_type = ''place'', tx_instrument_symbol = ''BTC'',
       tx_quantity = 0, tx_price = None, tx_kafka_topic = [], tx_kafka_partition = 0, tx_kafka_offset = 0\<rparr>"
proof (cases "parse_flat_json_object sample_json")
  case None
  then show ?thesis using sample_json_fields by simp
next
  case (Some fs)
  then show ?thesis
    using sample_json_fields by (simp add: parse_json_transaction_command_line_def stod_of_pos [OF stod_pos_zero] Let_def)
qed

lemma sample_header: "parse_json_transaction_command_line ''# header'' = None"
  by code_simp

theorem publisher_end_to_end_witness:
  "\<exists>k' es. publish_input log_producer sample_config (\<lambda>_. 0) ''orders'' ''stdin'' sample_input [] =
      (Inr \<lparr>pb_input = ''stdin'', pb_topic = kf_transaction_topic (ac_kafka sample_config), pb_published = 1, pb_skipped = 1\<rparr>, k') \<and>
    k' = es \<and> length es = 1 \<and> map (map_option tx_transaction_id \<circ> consumed 3 9) es = [Some ''t1'']"
proof -
  have "appends log_producer id" by (simp add: appends_def log_producer_def)
  moreover have commands: "input_commands (getline_split newline sample_input) =
      [\<lparr>tx_transaction_id = ''t1'', tx_user_id = ''u'', tx_account_id = ''a'', tx_command_type = ''place'', tx_instrument_symbol = ''BTC'',
       tx_quantity = 0, tx_price = None, tx_kafka_topic = [], tx_kafka_partition = 0, tx_kafka_offset = 0\<rparr>]"
      "rejected_lines (getline_split newline sample_input) = [''# header'']"
    by (simp_all add: input_commands_def rejected_lines_def sample_input_lines List.map_filter_def sample_json_command sample_header)
      (simp_all add: sample_json_def)
  moreover have "\<forall>c \<in> set (input_commands (getline_split newline sample_input)). wire_safe c"
    unfolding commands by (simp add: wire_safe_def)
  ultimately obtain k' es where "publish_input log_producer sample_config (\<lambda>_. 0) ''orders'' ''stdin'' sample_input [] =
      (Inr \<lparr>pb_input = ''stdin'', pb_topic = kf_transaction_topic (ac_kafka sample_config), pb_published = 1, pb_skipped = 1\<rparr>, k')"
      "k' = es" "map (consumed 3 9) es = map (\<lambda>c. Some (c\<lparr>tx_kafka_topic := c_str ''orders'', tx_kafka_partition := 3, tx_kafka_offset := 9\<rparr>))
      (input_commands (getline_split newline sample_input))"
    using publisher_end_to_end [of log_producer id sample_input sample_config "\<lambda>_. 0" "''orders''" "''stdin''" "[]" 3 9] by auto
  then show ?thesis unfolding commands by (cases es) (auto simp: comp_def)
qed

text \<open>The sample configuration file is loaded from where every program looks for it.\<close>

definition sample_files :: "string \<Rightarrow> string option" where
  "sample_files path = (if path = ''/wall/configs/development.cfg'' then Some (config_text sample_lines) else None)"

lemma sample_config_loads: "load_config sample_environment ''/wall'' sample_files = Inr sample_config"
  using load_printed [OF sample_printed] sample_config_valid
  by (simp add: load_config_def sample_files_def bindE_def throwing_def)

end
