(* ===== verification/Backtest.thy ===== *)
theory Backtest
  imports Bootstrap Replay Publisher
begin

section \<open>Backtests and replays of a recorded log\<close>

text \<open>
  \<open>src/app/backtest_runner.cpp\<close> and the programs \<open>src/tools/backtest_main.cpp\<close> and
  \<open>src/tools/replay_main.cpp\<close>, which run a recorded event log through a fresh runtime whose clock stands
  still at zero. The runtime may fail to return from an event in principle, so the state of a replay is an
  optional runtime; \<open>None\<close> is a replay that does not end.
\<close>

definition replay_handler :: "engine_event \<Rightarrow> strategy simulation_runtime option \<Rightarrow> strategy simulation_runtime option" where
  "replay_handler event rt = (case rt of None \<Rightarrow> None | Some r \<Rightarrow> on_event strategy_on_event event r)"

record backtest_summary =
  bs_replay_stats :: replay_stats
  bs_risk_approved :: nat
  bs_risk_rejected :: nat
  bs_fills_applied :: nat
  bs_resulting_positions :: nat
  bs_configured_strategies :: nat
  bs_active_strategies :: nat
  bs_paused_strategies :: nat
  bs_strategy_failures :: nat
  bs_total_realized_pnl :: double
  bs_total_unrealized_pnl :: double
  bs_strategy_stats :: "strategy_runtime_stats list"

definition summarize :: "replay_stats \<Rightarrow> strategy simulation_runtime \<Rightarrow> backtest_summary" where
  "summarize stats rt =
     (let positions = portfolio_all_positions (rt_portfolio_service rt);
          strategies = all_stats (rt_strategy_coordinator rt)
      in \<lparr>bs_replay_stats = stats, bs_risk_approved = rt_risk_approved_count rt, bs_risk_rejected = rt_risk_rejected_count rt,
          bs_fills_applied = rt_applied_fill_count rt, bs_resulting_positions = length positions,
          bs_configured_strategies = strategy_count (rt_strategy_coordinator rt),
          bs_active_strategies = active_strategy_count (rt_strategy_coordinator rt),
          bs_paused_strategies = length (filter ss_paused strategies),
          bs_strategy_failures = sum_list (map ss_failures strategies),
          bs_total_realized_pnl = foldl (\<lambda>total p. total + po_realized_pnl p) 0 positions,
          bs_total_unrealized_pnl = foldl (\<lambda>total p. total + po_unrealized_pnl p) 0 positions,
          bs_strategy_stats = strategies\<rparr>)"

definition backtest_run :: "event_log \<Rightarrow> strategy simulation_runtime \<Rightarrow> (backtest_summary \<times> strategy simulation_runtime) option" where
  "backtest_run historical_log rt =
     (case replay replay_handler historical_log (Some rt) of
        (stats, None) \<Rightarrow> None
      | (stats, Some rt') \<Rightarrow> Some (summarize stats rt', rt'))"

subsection \<open>The programs\<close>

definition replay_runtime :: "app_config \<Rightarrow> strategy simulation_runtime" where
  "replay_runtime config = simulation_runtime_new (\<lambda>_. 0) (ac_risk config) (runtime_config config default_instrument) None None"

text \<open>The log is the first argument of the program, or the file the application records to.\<close>

definition log_path_of :: "string \<Rightarrow> string list \<Rightarrow> string" where
  "log_path_of temp_dir args = (case args of [] \<Rightarrow> temp_dir @ ''/wall-runtime-events.tsv'' | path # _ \<Rightarrow> path)"

definition replay_text :: "string \<Rightarrow> replay_stats \<Rightarrow> strategy simulation_runtime \<Rightarrow> string" where
  "replay_text path stats rt =
     ''Replay complete'' @ '' log_path='' @ path @ '' total_records='' @ show_nat (rp_total_records stats) @
     '' replayed_records='' @ show_nat (rp_replayed_records stats) @ '' skipped_records='' @ show_nat (rp_skipped_records stats) @
     '' risk_approved='' @ show_nat (rt_risk_approved_count rt) @ '' risk_rejected='' @ show_nat (rt_risk_rejected_count rt) @
     '' fills_applied='' @ show_nat (rt_applied_fill_count rt) @ [newline]"

definition backtest_text :: "string \<Rightarrow> backtest_summary \<Rightarrow> string" where
  "backtest_text path s =
     ''Backtest complete'' @ '' log_path='' @ path @ '' total_records='' @ show_nat (rp_total_records (bs_replay_stats s)) @
     '' replayed_records='' @ show_nat (rp_replayed_records (bs_replay_stats s)) @
     '' skipped_records='' @ show_nat (rp_skipped_records (bs_replay_stats s)) @
     '' configured_strategies='' @ show_nat (bs_configured_strategies s) @ '' active_strategies='' @ show_nat (bs_active_strategies s) @
     '' paused_strategies='' @ show_nat (bs_paused_strategies s) @ '' strategy_failures='' @ show_nat (bs_strategy_failures s) @
     '' risk_approved='' @ show_nat (bs_risk_approved s) @ '' risk_rejected='' @ show_nat (bs_risk_rejected s) @
     '' fills_applied='' @ show_nat (bs_fills_applied s) @ '' resulting_positions='' @ show_nat (bs_resulting_positions s) @
     '' total_realized_pnl='' @ show_double (bs_total_realized_pnl s) @
     '' total_unrealized_pnl='' @ show_double (bs_total_unrealized_pnl s) @ [newline]"

text \<open>A program: what it writes and its exit status; an exception is reported on the error stream with status one.\<close>

datatype program_result = Exits (exit_status: int) (exit_output: string) | Fails load_failure

fun program_status :: "program_result \<Rightarrow> int" where
  "program_status (Exits n _) = n"
| "program_status (Fails _) = 1"

definition replay_main :: "environment \<Rightarrow> string \<Rightarrow> string \<Rightarrow> (string \<Rightarrow> string option) \<Rightarrow> string list \<Rightarrow> program_result option" where
  "replay_main env source_dir temp_dir files args =
     (case load_config env source_dir files of
        Inl e \<Rightarrow> Some (Fails e)
      | Inr config \<Rightarrow>
        let path = log_path_of temp_dir args
        in case replay replay_handler (files path) (Some (replay_runtime config)) of
             (stats, None) \<Rightarrow> None
           | (stats, Some rt) \<Rightarrow> Some (Exits 0 (replay_text path stats rt)))"

definition backtest_main :: "environment \<Rightarrow> string \<Rightarrow> string \<Rightarrow> (string \<Rightarrow> string option) \<Rightarrow> string list \<Rightarrow> program_result option" where
  "backtest_main env source_dir temp_dir files args =
     (case load_config env source_dir files of
        Inl e \<Rightarrow> Some (Fails e)
      | Inr config \<Rightarrow>
        let path = log_path_of temp_dir args
        in case backtest_run (files path) (replay_runtime config) of
             None \<Rightarrow> None
           | Some (summary, rt) \<Rightarrow> Some (Exits 0 (backtest_text path summary)))"

text \<open>The transaction publisher's program, with its exit status.\<close>

definition publisher_main :: "'k rdkafka \<Rightarrow> environment \<Rightarrow> string \<Rightarrow> (string \<Rightarrow> string option) \<Rightarrow> (nat \<Rightarrow> nat) \<Rightarrow> string \<Rightarrow>
    string list \<Rightarrow> int" where
  "publisher_main api env source_dir files clock stdin args =
     (case publisher_run api env source_dir files clock stdin (case args of [] \<Rightarrow> None | arg # _ \<Rightarrow> Some arg) of
        Inl e \<Rightarrow> 1 | Inr r \<Rightarrow> 0)"

subsection \<open>A replay is the recorded run\<close>

lemma replay_handler_simps:
  "replay_handler event None = None" "replay_handler event (Some rt) = on_event strategy_on_event event rt"
  by (simp_all add: replay_handler_def)

lemma fold_replay_handler:
  "fold replay_handler events rt = (case rt of None \<Rightarrow> None | Some r \<Rightarrow> runtime_run strategy_on_event events r)"
proof (induction events arbitrary: rt)
  case Nil
  show ?case by (cases rt) simp_all
next
  case (Cons event events)
  show ?case by (cases rt) (simp_all add: Cons replay_handler_simps)
qed

lemma six_digits_not_NaN: "six_digit_decimal x \<Longrightarrow> x \<noteq> NaN"
  by (auto simp: six_digit_decimal_def zero_double_def)

lemma quote_not_NaN: "quote_safe v \<Longrightarrow> v \<noteq> Some NaN"
  by (auto simp: quote_safe_def six_decimals_def)

lemma log_safe_finite: "log_safe event \<Longrightarrow> quotes_finite event"
proof (cases event)
  case (MarketEvent e)
  assume "log_safe event"
  then have "quote_safe (me_bid_price e)" "quote_safe (me_ask_price e)" "\<forall>l \<in> set (me_bid_levels e) \<union> set (me_ask_levels e). level_safe l"
    by (simp_all add: MarketEvent)
  then show ?thesis
    using quote_not_NaN six_digits_not_NaN by (auto simp: MarketEvent quotes_finite_def level_safe_def)
qed (simp_all add: quotes_finite_def)

lemma to_double_half: "to_double (1 / 2) = Fin (1 / 2)"
  using rnd64_grid [of 1 "- 1"] by (intro to_double_valid) simp_all

lemma half_not_NaN: "x \<noteq> NaN \<Longrightarrow> x * to_double (1 / 2) \<noteq> NaN"
  by (cases x) (simp_all add: to_double_half inf_of_sign_def)

lemma built_runtime_first_start:
  assumes "sg_order_quantity (ac_strategy config) \<noteq> NaN"
  shows "first_start (runtime_config config instr)"
  using assms half_not_NaN
  by (simp add: first_start_def runtime_config_def build_strategy_coordinator_def add_strategy_def Let_def
      spread_capture_new_def sample_threshold_new_def threshold_config_def)

text \<open>
  C13. A backtest is the recorded run: over a log to which any events were appended, the program reads every
  record, none is skipped, and it ends with the runtime that the events themselves, in the same order, drive
  a fresh runtime to; it writes the summary of that runtime and exits with status zero.
\<close>

theorem backtest_equals_run:
  assumes "load_config env source_dir files = Inr config" "sg_order_quantity (ac_strategy config) \<noteq> NaN"
    and "\<forall>event \<in> set events. log_safe event" "files path = fold append_event events None"
  shows "\<exists>rt. runtime_run strategy_on_event events (replay_runtime config) = Some rt \<and>
    backtest_main env source_dir temp_dir files (path # args) =
      Some (Exits 0 (backtest_text path (summarize
        \<lparr>rp_total_records = length events, rp_replayed_records = length events, rp_skipped_records = 0\<rparr> rt)))"
proof -
  have "runtime_ready (replay_runtime config)"
    unfolding replay_runtime_def by (intro runtime_ready_new built_runtime_first_start assms(2))
  then obtain rt where rt: "runtime_run strategy_on_event events (replay_runtime config) = Some rt"
    using runtime_run_ready assms(3) log_safe_finite by metis
  have "replay replay_handler (files path) (Some (replay_runtime config)) =
    (\<lparr>rp_total_records = length events, rp_replayed_records = length events, rp_skipped_records = 0\<rparr>, Some rt)"
    using replay_appended [OF assms(3), of replay_handler None] assms(4) rt
    by (simp add: fold_replay_handler reset_log_def)
  then show ?thesis using assms(1) rt by (simp add: backtest_main_def backtest_run_def log_path_of_def)
qed

theorem backtest_equals_run_witness:
  "\<exists>rt. runtime_run strategy_on_event sample_log (replay_runtime sample_config) = Some rt \<and>
    backtest_main sample_environment ''/wall'' ''/tmp'' (sample_files(''day.tsv'' := fold append_event sample_log None)) [''day.tsv''] =
      Some (Exits 0 (backtest_text ''day.tsv'' (summarize \<lparr>rp_total_records = 2, rp_replayed_records = 2, rp_skipped_records = 0\<rparr> rt)))"
proof -
  have "load_config sample_environment ''/wall'' (sample_files(''day.tsv'' := fold append_event sample_log None)) = Inr sample_config"
    using sample_config_loads by (simp add: load_config_def)
  moreover have "sg_order_quantity (ac_strategy sample_config) \<noteq> NaN" by (simp add: sample_config_def)
  moreover have "length sample_log = 2" by (simp add: sample_log_def)
  ultimately show ?thesis
    using backtest_equals_run [of sample_environment "''/wall''" "sample_files(''day.tsv'' := fold append_event sample_log None)"
        sample_config sample_log "''day.tsv''" "''/tmp''" "[]"] sample_log_safe by auto
qed

end
