(* ===== verification/Stores.thy ===== *)
theory Stores
  imports Durable_Recovery Libpq_Repositories Redis_Cache Kafka_Client
begin

section \<open>The stores an application runs on\<close>

text \<open>
  The interfaces of \<open>include/storage/storage_interfaces.hpp\<close> and of the Kafka client as the application uses
  them: a record of calls over the state \<open>'w\<close> behind them, each of which may throw. The recovery service is
  written over these calls, as \<open>src/app/recovery_service.cpp\<close> is over its references. The application has two
  sets of implementations: the native ones over libpq, hiredis and librdkafka, and the fallback ones over local
  files and memory. The four PostgreSQL repositories each open a connection of their own and use tables of
  their own, so each has its own state.
\<close>

record 'w app_stores =
  sv_all_records :: "(transaction_record list, 'w) call"
  sv_all_checkpoints :: "(kafka_checkpoint list, 'w) call"
  sv_set_status :: "string \<Rightarrow> string \<Rightarrow> (unit, 'w) call"
  sv_all_open_orders :: "(order_record list, 'w) call"
  sv_all_positions :: "(position list, 'w) call"
  sv_save_position :: "position \<Rightarrow> (unit, 'w) call"
  sv_all_balances :: "(balance_snapshot list, 'w) call"
  sv_save_balance :: "balance_snapshot \<Rightarrow> (unit, 'w) call"
  sv_upsert_snapshot :: "market_snapshot \<Rightarrow> (unit, 'w) call"
  sv_get_snapshot :: "string \<Rightarrow> (market_snapshot option, 'w) call"
  sv_seek :: "(string \<Rightarrow> int \<Rightarrow> int64 \<Rightarrow> (unit, 'w) call) option"

subsection \<open>Recovery over the interfaces\<close>

fun scan_over :: "'w app_stores \<Rightarrow> bool \<Rightarrow> transaction_record list \<Rightarrow> (string, kafka_checkpoint) umap \<Rightarrow>
    ((string, kafka_checkpoint) umap, 'w) call" where
  "scan_over st has_explicit [] m = retC m"
| "scan_over st has_explicit (r # rs) m =
     bindC (sv_set_status st (tr_transaction_id r) (tr_status r)) (\<lambda>_.
     scan_over st has_explicit rs (if has_explicit \<or> tr_status r \<noteq> ''processed'' then m else note_checkpoint r m))"

definition recover_over :: "'w app_stores \<Rightarrow> market_snapshot list \<Rightarrow> (recovery_snapshot, 'w) call" where
  "recover_over st exchange_snapshots =
     bindC (sv_all_open_orders st) (\<lambda>orders.
     bindC (sv_all_positions st) (\<lambda>positions.
     bindC (sv_all_balances st) (\<lambda>balances.
     bindC (sv_all_checkpoints st) (\<lambda>explicit.
     bindC (sv_all_records st) (\<lambda>records.
     bindC (scan_over st (explicit \<noteq> []) records []) (\<lambda>m.
     bindC (run_all (sv_upsert_snapshot st)
       (if exchange_snapshots \<noteq> [] then exchange_snapshots else map entry_snapshot positions)) (\<lambda>_.
     retC \<lparr>rs_open_orders = orders, rs_positions = positions, rs_balances = balances,
       rs_kafka_checkpoints = (if explicit \<noteq> [] then explicit else map snd m)\<rparr>)))))))"

fun restore_markets_over :: "'w app_stores \<Rightarrow> position list \<Rightarrow> 's simulation_runtime \<Rightarrow> ('s simulation_runtime, 'w) call" where
  "restore_markets_over st [] rt = retC rt"
| "restore_markets_over st (p # ps) rt =
     bindC (sv_get_snapshot st (instrument_id (po_instrument p))) (\<lambda>r.
     restore_markets_over st ps (case r of None \<Rightarrow> rt | Some s \<Rightarrow> runtime_restore_market_snapshot s rt))"

definition restore_runtime_over :: "'w app_stores \<Rightarrow> recovery_snapshot \<Rightarrow> 's simulation_runtime \<Rightarrow> ('s simulation_runtime, 'w) call" where
  "restore_runtime_over st snapshot rt =
     restore_markets_over st (rs_positions snapshot)
       (fold runtime_restore_open_order (rs_open_orders snapshot)
         (fold runtime_restore_balance (rs_balances snapshot)
           (fold runtime_restore_position (rs_positions snapshot) rt)))"

definition resume_over :: "'w app_stores \<Rightarrow> recovery_snapshot \<Rightarrow> (unit, 'w) call" where
  "resume_over st snapshot =
     (case sv_seek st of None \<Rightarrow> retC ()
      | Some seek \<Rightarrow> run_all (\<lambda>c. seek (kc_topic c) (kc_partition c) (kc_offset c + 1)) (rs_kafka_checkpoints snapshot))"

subsection \<open>The native stores\<close>

record ('p, 'r, 'k) drivers =
  dr_libpq :: "'p libpq"
  dr_hiredis :: "'r hiredis"
  dr_rdkafka :: "'k rdkafka"

record ('p, 'r, 'k) native_stores =
  ns_transactions :: 'p
  ns_orders :: 'p
  ns_positions :: 'p
  ns_balances :: 'p
  ns_transaction_cache :: 'r
  ns_market_cache :: 'r
  ns_kafka :: 'k

definition native_stores_new :: "('p, 'r, 'k) drivers \<Rightarrow> app_config \<Rightarrow> load_failure + ('p, 'r, 'k) native_stores" where
  "native_stores_new d config =
     bindE (libpq_session (dr_libpq d) (ac_postgres config)) (\<lambda>transactions.
     bindE (libpq_session (dr_libpq d) (ac_postgres config)) (\<lambda>orders.
     bindE (libpq_session (dr_libpq d) (ac_postgres config)) (\<lambda>positions.
     bindE (libpq_balances_new (dr_libpq d) (ac_postgres config)) (\<lambda>balances.
     bindE (redis_connection (dr_hiredis d) (ac_redis config)) (\<lambda>transaction_cache.
     bindE (redis_connection (dr_hiredis d) (ac_redis config)) (\<lambda>market_cache.
     bindE (rdkafka_consumer_handle (dr_rdkafka d) (ac_kafka config)) (\<lambda>kafka.
     Inr \<lparr>ns_transactions = transactions, ns_orders = orders, ns_positions = positions, ns_balances = balances,
       ns_transaction_cache = transaction_cache, ns_market_cache = market_cache, ns_kafka = kafka\<rparr>)))))))"

abbreviation on_transactions :: "('a, 'p) call \<Rightarrow> ('a, ('p, 'r, 'k) native_stores) call" where
  "on_transactions \<equiv> at_field ns_transactions (\<lambda>x. ns_transactions_update (\<lambda>_. x))"

abbreviation on_orders :: "('a, 'p) call \<Rightarrow> ('a, ('p, 'r, 'k) native_stores) call" where
  "on_orders \<equiv> at_field ns_orders (\<lambda>x. ns_orders_update (\<lambda>_. x))"

abbreviation on_positions :: "('a, 'p) call \<Rightarrow> ('a, ('p, 'r, 'k) native_stores) call" where
  "on_positions \<equiv> at_field ns_positions (\<lambda>x. ns_positions_update (\<lambda>_. x))"

abbreviation on_balances :: "('a, 'p) call \<Rightarrow> ('a, ('p, 'r, 'k) native_stores) call" where
  "on_balances \<equiv> at_field ns_balances (\<lambda>x. ns_balances_update (\<lambda>_. x))"

abbreviation on_status_cache :: "('a, 'r) call \<Rightarrow> ('a, ('p, 'r, 'k) native_stores) call" where
  "on_status_cache \<equiv> at_field ns_transaction_cache (\<lambda>x. ns_transaction_cache_update (\<lambda>_. x))"

abbreviation on_market_cache :: "('a, 'r) call \<Rightarrow> ('a, ('p, 'r, 'k) native_stores) call" where
  "on_market_cache \<equiv> at_field ns_market_cache (\<lambda>x. ns_market_cache_update (\<lambda>_. x))"

abbreviation on_kafka :: "('a, 'k) call \<Rightarrow> ('a, ('p, 'r, 'k) native_stores) call" where
  "on_kafka \<equiv> at_field ns_kafka (\<lambda>x. ns_kafka_update (\<lambda>_. x))"

definition native_ports :: "('p, 'r, 'k) drivers \<Rightarrow> ('p, 'r, 'k) native_stores app_stores" where
  "native_ports d = \<lparr>
     sv_all_records = on_transactions (libpq_all_records (dr_libpq d)),
     sv_all_checkpoints = on_transactions (libpq_all_checkpoints (dr_libpq d)),
     sv_set_status = (\<lambda>i status. on_status_cache (hiredis_set_status (dr_hiredis d) i status)),
     sv_all_open_orders = on_orders (libpq_all_open_orders (dr_libpq d)),
     sv_all_positions = on_positions (libpq_all_positions (dr_libpq d)),
     sv_save_position = (\<lambda>p. on_positions (libpq_save_position (dr_libpq d) p)),
     sv_all_balances = on_balances (libpq_all_balances (dr_libpq d)),
     sv_save_balance = (\<lambda>b. on_balances (libpq_save_balance (dr_libpq d) b)),
     sv_upsert_snapshot = (\<lambda>s. on_market_cache (hiredis_upsert_snapshot (dr_hiredis d) s)),
     sv_get_snapshot = (\<lambda>i. on_market_cache (hiredis_get_snapshot (dr_hiredis d) i)),
     sv_seek = Some (\<lambda>topic part next. on_kafka (rdkafka_seek (dr_rdkafka d) topic part next))\<rparr>"

subsection \<open>The fallback stores\<close>

text \<open>The files below the local state directory, by their contents; \<open>None\<close> is a file that does not exist.\<close>

record local_files =
  lf_transactions :: "string option"
  lf_checkpoints :: "string option"
  lf_orders :: "string option"
  lf_positions :: "string option"
  lf_balances :: "string option"

record fallback_stores =
  fs_transactions :: postgres_transactions
  fs_orders :: "order_repository file_backed"
  fs_positions :: "(string, position) umap file_backed"
  fs_balances :: "(string, balance_snapshot) umap file_backed"
  fs_transaction_cache :: redis_transaction_cache
  fs_market_cache :: redis_market_state_cache

definition fallback_stores_new :: "local_files \<Rightarrow> load_failure + fallback_stores" where
  "fallback_stores_new files =
     bindE (postgres_transactions_new (lf_transactions files) (lf_checkpoints files)) (\<lambda>transactions.
     bindE (postgres_orders_new (lf_orders files)) (\<lambda>orders.
     bindE (postgres_positions_new (lf_positions files)) (\<lambda>positions.
     bindE (postgres_balances_new (lf_balances files)) (\<lambda>balances.
     Inr \<lparr>fs_transactions = transactions, fs_orders = orders, fs_positions = positions, fs_balances = balances,
       fs_transaction_cache = Map.empty, fs_market_cache = Map.empty\<rparr>))))"

abbreviation asks :: "('s \<Rightarrow> 'a) \<Rightarrow> ('a, 's) call" where
  "asks f \<equiv> (\<lambda>s. (Inr (f s), s))"

abbreviation tells :: "('s \<Rightarrow> 's) \<Rightarrow> (unit, 's) call" where
  "tells f \<equiv> (\<lambda>s. (Inr (), f s))"

definition fallback_ports :: "fallback_stores app_stores" where
  "fallback_ports = \<lparr>
     sv_all_records = asks (\<lambda>s. pg_all_records (fs_transactions s)),
     sv_all_checkpoints = asks (\<lambda>s. pg_all_checkpoints (fs_transactions s)),
     sv_set_status = (\<lambda>i status. tells (\<lambda>s. s\<lparr>fs_transaction_cache := redis_set_status i status (fs_transaction_cache s)\<rparr>)),
     sv_all_open_orders = asks (\<lambda>s. pg_all_open_orders (fs_orders s)),
     sv_all_positions = asks (\<lambda>s. pg_all_positions (fs_positions s)),
     sv_save_position = (\<lambda>p. tells (\<lambda>s. s\<lparr>fs_positions := pg_save_position p (fs_positions s)\<rparr>)),
     sv_all_balances = asks (\<lambda>s. pg_all_balances (fs_balances s)),
     sv_save_balance = (\<lambda>b. tells (\<lambda>s. s\<lparr>fs_balances := pg_save_balance b (fs_balances s)\<rparr>)),
     sv_upsert_snapshot = (\<lambda>x. tells (\<lambda>s. s\<lparr>fs_market_cache := redis_upsert_snapshot x (fs_market_cache s)\<rparr>)),
     sv_get_snapshot = (\<lambda>i. asks (\<lambda>s. redis_get_snapshot i (fs_market_cache s))),
     sv_seek = None\<rparr>"

subsection \<open>Recovery over the fallback stores is recovery\<close>

text \<open>What the recovery service sees of the fallback stores, with any transaction cache.\<close>

definition fallback_view :: "transaction_cache \<Rightarrow> fallback_stores \<Rightarrow> recovery_stores" where
  "fallback_view cache s = \<lparr>rv_transaction_repository =
       \<lparr>tx_records = pg_all_records (fs_transactions s), tx_checkpoints = pg_all_checkpoints (fs_transactions s)\<rparr>,
     rv_order_repository = fb_memory (fs_orders s), rv_position_repository = fb_memory (fs_positions s),
     rv_balance_repository = fb_memory (fs_balances s), rv_market_cache = fs_market_cache s, rv_transaction_cache = cache\<rparr>"

lemma fallback_stores_view:
  "open_stores (lf_transactions files) (lf_checkpoints files) (lf_orders files) (lf_positions files) (lf_balances files) Map.empty cache =
     map_sum id (fallback_view cache) (fallback_stores_new files)"
  by (auto simp: open_stores_def fallback_stores_new_def fallback_view_def bindE_def split: sum.split)

lemma scan_over_fallback:
  "\<exists>c'. scan_over fallback_ports has_explicit rs m s =
     (Inr (fst (scan_records has_explicit rs m cache)), s\<lparr>fs_transaction_cache := c'\<rparr>)"
proof (induction rs arbitrary: m s cache)
  case Nil
  show ?case by (rule exI [of _ "fs_transaction_cache s"]) (simp add: retC_def)
next
  case (Cons r rs)
  let ?m = "if has_explicit \<or> tr_status r \<noteq> ''processed'' then m else note_checkpoint r m"
  let ?s = "s\<lparr>fs_transaction_cache := redis_set_status (tr_transaction_id r) (tr_status r) (fs_transaction_cache s)\<rparr>"
  obtain c' where "scan_over fallback_ports has_explicit rs ?m ?s =
      (Inr (fst (scan_records has_explicit rs ?m (set_status (tr_transaction_id r) (tr_status r) cache))), ?s\<lparr>fs_transaction_cache := c'\<rparr>)"
    using Cons.IH [of ?m ?s "set_status (tr_transaction_id r) (tr_status r) cache"] by blast
  then show ?case by (intro exI [of _ c']) (simp add: bindC_def fallback_ports_def Let_def)
qed

lemma upsert_all_fallback:
  "run_all (sv_upsert_snapshot fallback_ports) xs s = (Inr (), s\<lparr>fs_market_cache := fold redis_upsert_snapshot xs (fs_market_cache s)\<rparr>)"
  by (induction xs arbitrary: s) (simp_all add: call_defs fallback_ports_def)

lemma restore_markets_fallback:
  "restore_markets_over fallback_ports ps rt s = (Inr (fold (restore_market_of (fs_market_cache s)) ps rt), s)"
  by (induction ps arbitrary: rt)
    (simp_all add: call_defs fallback_ports_def restore_market_of_def redis_get_snapshot_def get_snapshot_def split: option.splits)

lemma recover_over_fallback:
  assumes "recover xs (fallback_view cache s) = (snapshot, v)"
  shows "\<exists>c'. recover_over fallback_ports xs s = (Inr snapshot, s\<lparr>fs_transaction_cache := c', fs_market_cache := rv_market_cache v\<rparr>)"
proof -
  let ?explicit = "pg_all_checkpoints (fs_transactions s) \<noteq> []"
  obtain c' where "scan_over fallback_ports ?explicit (pg_all_records (fs_transactions s)) [] s =
      (Inr (fst (scan_records ?explicit (pg_all_records (fs_transactions s)) [] cache)), s\<lparr>fs_transaction_cache := c'\<rparr>)"
    using scan_over_fallback by blast
  moreover have "upsert_snapshot = redis_upsert_snapshot" by (simp add: fun_eq_iff upsert_snapshot_def redis_upsert_snapshot_def)
  moreover have "sv_all_open_orders fallback_ports s = (Inr (all_open_orders (fb_memory (fs_orders s))), s)"
    "sv_all_positions fallback_ports s = (Inr (all_positions (fb_memory (fs_positions s))), s)"
    "sv_all_balances fallback_ports s = (Inr (all_balances (fb_memory (fs_balances s))), s)"
    "sv_all_checkpoints fallback_ports s = (Inr (pg_all_checkpoints (fs_transactions s)), s)"
    "sv_all_records fallback_ports s = (Inr (pg_all_records (fs_transactions s)), s)"
    by (simp_all add: fallback_ports_def pg_all_open_orders_def pg_reads)
  ultimately show ?thesis
    using assms
    by (intro exI [of _ c'])
      (auto simp: recover_over_def recover_def Let_def bindC_def retC_def upsert_all_fallback fallback_view_def
        all_records_def all_checkpoints_def case_prod_beta)
qed

lemma recovered_runtime_fallback:
  assumes "recover xs (fallback_view cache s) = (snapshot, v)"
  shows "\<exists>s'. bindC (recover_over fallback_ports xs) (\<lambda>snapshot. bindC (restore_runtime_over fallback_ports snapshot rt) (\<lambda>rt.
      bindC (resume_over fallback_ports snapshot) (\<lambda>_. retC (snapshot, rt)))) s =
    (Inr (snapshot, restore_runtime (rv_market_cache v) snapshot rt), s') \<and>
    s' = s\<lparr>fs_transaction_cache := fs_transaction_cache s', fs_market_cache := rv_market_cache v\<rparr>"
proof -
  obtain c' where "recover_over fallback_ports xs s = (Inr snapshot, s\<lparr>fs_transaction_cache := c', fs_market_cache := rv_market_cache v\<rparr>)"
    using recover_over_fallback [OF assms] by blast
  moreover have "sv_seek fallback_ports = None" by (simp add: fallback_ports_def)
  ultimately show ?thesis
    by (simp add: bindC_def retC_def restore_runtime_over_def restore_markets_fallback resume_over_def restore_runtime_def)
qed

end
