(* ===== verification/Logger.thy ===== *)
theory Logger
  imports Prelude
begin

section \<open>Structured logging\<close>

text \<open>
  \<open>include/monitoring/logger.hpp\<close> and \<open>src/monitoring/logger.cpp\<close>. The fields of a record are an unordered
  map with distinct keys: a record holds them as an association list, and the console writes them in the
  order the map is iterated in, which the standard leaves open and a caller passes as the list.
\<close>

datatype log_level = Info | Warn | Error

fun level_to_string :: "log_level \<Rightarrow> string" where
  "level_to_string Info = ''info''"
| "level_to_string Warn = ''warn''"
| "level_to_string Error = ''error''"

record log_record =
  lg_level :: log_level
  lg_message :: string
  lg_fields :: "(string \<times> string) list"

definition console_line :: "log_level \<Rightarrow> string \<Rightarrow> (string \<times> string) list \<Rightarrow> string" where
  "console_line level message entries =
     ''level='' @ level_to_string level @ '' message='' @ message @
     concat (map (\<lambda>(key, v). '' '' @ key @ ''='' @ v) entries) @ [CHR 0x0A]"

definition console_log :: "log_level \<Rightarrow> string \<Rightarrow> (string \<times> string) list \<Rightarrow> string \<Rightarrow> string" where
  "console_log level message entries output = output @ console_line level message entries"

definition memory_log :: "log_level \<Rightarrow> string \<Rightarrow> (string \<times> string) list \<Rightarrow> log_record list \<Rightarrow> log_record list" where
  "memory_log level message entries records = records @ [\<lparr>lg_level = level, lg_message = message, lg_fields = entries\<rparr>]"

text \<open>What the console shows is the record of the same call, rendered.\<close>

definition console_text :: "log_record list \<Rightarrow> string" where
  "console_text records = concat (map (\<lambda>r. console_line (lg_level r) (lg_message r) (lg_fields r)) records)"

lemma console_log_text:
  "console_log level message entries (console_text records) = console_text (memory_log level message entries records)"
  by (simp add: console_log_def console_text_def memory_log_def)

end
