(* ===== verification/Application.thy ===== *)
theory Application
  imports Stores Backtest Controller Monitoring Logger Exchange_Feed Exchange_Execution
begin

section \<open>The application\<close>

text \<open>
  \<open>src/app/application.cpp\<close> and \<open>src/main.cpp\<close>: one start of the engine. It loads and validates the
  configuration, opens the native stores or falls back to local files, builds the instrument and a first market
  event, recovers the runtime, runs one cycle of the controller over the mock sources, and saves the portfolio.
  The readings of the system clock are a sequence: the application takes the first five, the runtime the rest.
  C++ leaves open in which order the two readings passed to \<open>normalize\<close> are taken; the sequence is arbitrary, so
  the other order is the same model over the sequence with its readings 1 and 2 exchanged.
  A run is an optional outcome: \<open>None\<close> is a run with no defined result, because \<open>front()\<close> is called on an
  empty list of instruments or because an event is never finished with.
\<close>

record app_environment =
  av_environment :: environment
  av_source_dir :: string
  av_temp_dir :: string
  av_files :: "string \<Rightarrow> string option"
  av_clock :: "nat \<Rightarrow> int64"

definition event_log_path :: "app_environment \<Rightarrow> string" where
  "event_log_path env = av_temp_dir env @ ''/wall-runtime-events.tsv''"

definition local_state_root :: "app_environment \<Rightarrow> string" where
  "local_state_root env = av_temp_dir env @ ''/wall-local-state''"

definition application_config :: "app_environment \<Rightarrow> string \<Rightarrow> load_failure + app_config" where
  "application_config env config_path =
     (let path = (if config_path = [] then av_source_dir env @ ''/configs/development.cfg'' else config_path)
      in bindE (throwing (load_from_file (av_environment env) path (av_files env path))) (\<lambda>config.
         if cv_valid (validate config) then Inr config else Inl (runtime_error (the (cv_error (validate config))))))"

subsection \<open>The mock events\<close>

definition mock_instrument :: "app_config \<Rightarrow> string \<Rightarrow> instrument" where
  "mock_instrument config front = \<lparr>instrument_id = ''mock:'' @ ac_exchange_name config @ '':'' @ front,
     exchange = ac_exchange_name config, symbol = front, base_asset = ''BTC'', quote_asset = ''USDT'',
     tick_size = to_double (1 / 10), lot_size = to_double (1 / 10000)\<rparr>"

definition startup_payload :: "instrument \<Rightarrow> int64 \<Rightarrow> string" where
  "startup_payload instr now =
     ''type=trade;'' @ ''event_id=market-1;'' @ ''symbol='' @ symbol instr @ '';'' @ ''price=42010.0;'' @ ''quantity=0.25;'' @
     ''bid=42000.0;'' @ ''ask=42020.0;'' @ ''exchange_ts='' @ show_int now"

definition startup_market_event :: "(nat \<Rightarrow> int64) \<Rightarrow> instrument \<Rightarrow> load_failure + market_event" where
  "startup_market_event clock instr =
     (case normalize instr (startup_payload instr (clock 0)) (clock 1) (clock 2) of
        Inl e \<Rightarrow> Inl (runtime_error (''failed to normalize startup market event: '' @ ae_message e))
      | Inr event \<Rightarrow> Inr event)"

definition startup_snapshot :: "market_event \<Rightarrow> market_snapshot" where
  "startup_snapshot e = \<lparr>ms_instrument_id = instrument_id (me_instrument e), ms_best_bid = me_bid_price e, ms_best_ask = me_ask_price e,
     ms_last_trade_price = (if 0 < me_price e then Some (me_price e) else None),
     ms_last_trade_quantity = (if 0 < me_quantity e then Some (me_quantity e) else None),
     ms_last_process_timestamp = me_process_timestamp e\<rparr>"

definition startup_command :: "app_config \<Rightarrow> instrument \<Rightarrow> transaction_command" where
  "startup_command config instr = \<lparr>tx_transaction_id = ''mock-tx-1'', tx_user_id = ''dev-user'', tx_account_id = ''paper-account'',
     tx_command_type = ''place_order'', tx_instrument_symbol = symbol instr, tx_quantity = to_double (1 / 10),
     tx_price = Some (Fin 42000), tx_kafka_topic = kf_transaction_topic (ac_kafka config), tx_kafka_partition = 0, tx_kafka_offset = 0\<rparr>"

subsection \<open>The subscribers\<close>

text \<open>What the subscribers capture by reference; an event the runtime never finishes with leaves no runtime.\<close>

record app_context =
  ax_runtime :: "strategy simulation_runtime option"
  ax_health :: runtime_health_status
  ax_event_log :: event_log
  ax_records :: "log_record list"

type_synonym app_controller = "(mock_source, app_context) engine_controller"

definition updated_health :: "engine_event \<Rightarrow> strategy simulation_runtime \<Rightarrow> strategy simulation_runtime \<Rightarrow>
    runtime_health_status \<Rightarrow> runtime_health_status" where
  "updated_health event before after h =
     (let h1 = (case event of MarketEvent _ \<Rightarrow> health_set_status Market_data Healthy h | _ \<Rightarrow> h);
          h2 = (case event of TransactionCommand _ \<Rightarrow> health_set_status Ingestion Healthy h1 | _ \<Rightarrow> h1);
          h3 = (if rt_risk_rejected_count before < rt_risk_rejected_count after then health_set_status Risk Degraded h2
                else if rt_risk_approved_count before < rt_risk_approved_count after then health_set_status Risk Healthy h2 else h2)
      in if rt_applied_fill_count before < rt_applied_fill_count after then health_set_status Execution Healthy h3 else h3)"

definition runtime_subscriber :: "app_context handler" where
  "runtime_subscriber event a =
     (case ax_runtime a of None \<Rightarrow> a
      | Some rt \<Rightarrow>
        (case on_event strategy_on_event event rt of None \<Rightarrow> a\<lparr>ax_runtime := None\<rparr>
         | Some rt' \<Rightarrow> a\<lparr>ax_runtime := Some rt', ax_health := updated_health event rt rt' (ax_health a)\<rparr>))"

definition replay_subscriber :: "app_context handler" where
  "replay_subscriber event a = a\<lparr>ax_event_log := append_event event (ax_event_log a)\<rparr>"

fun processed_record :: "engine_event \<Rightarrow> string \<times> (string \<times> string) list" where
  "processed_record (MarketEvent e) =
     (''processed_market_event'', [(''event_id'', me_event_id e), (''instrument_id'', instrument_id (me_instrument e))])"
| "processed_record (TransactionCommand c) =
     (''processed_transaction_command'', [(''transaction_id'', tx_transaction_id c), (''command_type'', tx_command_type c)])"
| "processed_record (TimerEvent t) = (''processed_timer'', [(''timer_id'', tm_timer_id t)])"

definition logger_subscriber :: "app_context handler" where
  "logger_subscriber event a = a\<lparr>ax_records :=
     memory_log Info (fst (processed_record event)) (snd (processed_record event)) (ax_records a)\<rparr>"

definition app_subscribers :: "app_controller event_dispatcher" where
  "app_subscribers = dispatcher_subscribe (on_app logger_subscriber) (dispatcher_subscribe (on_app replay_subscriber)
     (dispatcher_subscribe (on_app runtime_subscriber) []))"

definition app_controller_new :: "market_event \<Rightarrow> transaction_command \<Rightarrow> int64 \<Rightarrow> app_context \<Rightarrow> app_controller" where
  "app_controller_new event command due a =
     schedule_timer ''startup-health-check'' due (add_source (Mock_transactions [command] 0)
       (add_source (Mock_market_data [event] 0) (engine_controller_new a)))"

subsection \<open>One run over open stores\<close>

record 'w app_state =
  as_stores :: 'w
  as_event_log :: event_log
  as_records :: "log_record list"

abbreviation on_stores :: "('a, 'w) call \<Rightarrow> ('a, 'w app_state) call" where
  "on_stores \<equiv> at_field as_stores (\<lambda>x. as_stores_update (\<lambda>_. x))"

definition app_runtime_new :: "app_environment \<Rightarrow> app_config \<Rightarrow> instrument \<Rightarrow> strategy simulation_runtime" where
  "app_runtime_new env config instr = simulation_runtime_new (\<lambda>n. av_clock env (n + 5)) (ac_risk config) (runtime_config config instr)
     (Some False) (Some metrics_new)"

definition recovered_runtime :: "'w app_stores \<Rightarrow> market_snapshot \<Rightarrow> strategy simulation_runtime \<Rightarrow>
    (recovery_snapshot \<times> strategy simulation_runtime, 'w) call" where
  "recovered_runtime st exchange_snapshot rt =
     bindC (recover_over st [exchange_snapshot]) (\<lambda>snapshot.
     bindC (restore_runtime_over st snapshot rt) (\<lambda>rt.
     bindC (resume_over st snapshot) (\<lambda>_. retC (snapshot, rt))))"

definition save_portfolio :: "'w app_stores \<Rightarrow> portfolio_service \<Rightarrow> market_snapshot \<Rightarrow> (unit, 'w) call" where
  "save_portfolio st portfolio snapshot =
     bindC (run_all (sv_save_position st) (portfolio_all_positions portfolio)) (\<lambda>_.
     bindC (run_all (sv_save_balance st) (portfolio_all_balances portfolio)) (\<lambda>_.
     sv_upsert_snapshot st snapshot))"

definition summary_fields :: "app_environment \<Rightarrow> app_config \<Rightarrow> string \<Rightarrow> string \<Rightarrow> nat \<Rightarrow> recovery_snapshot \<Rightarrow>
    strategy simulation_runtime \<Rightarrow> runtime_health_status \<Rightarrow> (string \<times> string) list" where
  "summary_fields env config mode reason processed snapshot rt health =
     (let m = (case rt_metrics rt of None \<Rightarrow> metrics_new | Some m \<Rightarrow> m); flag = (\<lambda>b. if b then ''true'' else ''false'')
      in [(''mode'', ac_mode config), (''exchange'', ac_exchange_name config), (''kafka_topic'', kf_transaction_topic (ac_kafka config)),
          (''processed_events'', show_nat processed), (''risk_approved'', show_nat (rt_risk_approved_count rt)),
          (''risk_rejected'', show_nat (rt_risk_rejected_count rt)), (''fills_applied'', show_nat (rt_applied_fill_count rt)),
          (''recovered_open_orders'', show_nat (length (rs_open_orders snapshot))),
          (''recovered_positions'', show_nat (length (rs_positions snapshot))),
          (''recovered_balances'', show_nat (length (rs_balances snapshot))),
          (''recovered_kafka_checkpoints'', show_nat (length (rs_kafka_checkpoints snapshot))),
          (''infrastructure_mode'', mode), (''infrastructure_fallback_reason'', if reason = [] then ''none'' else reason),
          (''health_overall'', health_to_string (overall_status health)),
          (''metric_transaction_events'', show_int (counter ''transaction_events'' m)),
          (''metric_risk_rejects'', show_int (counter ''risk_rejects'' m)),
          (''metric_fills_applied'', show_int (counter ''fills_applied'' m)),
          (''metric_runtime_event_latency_max_ms'', show_int (lm_max_ms (latency ''runtime_event_latency_ms'' m))),
          (''event_log_path'', event_log_path env),
          (''exchange_adapter_supports_cancel'', flag (cap_supports_cancel simulated_capabilities)),
          (''exchange_adapter_supports_replace'', flag (cap_supports_replace simulated_capabilities)),
          (''exchange_adapter_supports_market_orders'', flag (cap_supports_market_orders simulated_capabilities))])"

definition app_log :: "log_level \<Rightarrow> string \<Rightarrow> (string \<times> string) list \<Rightarrow> (unit, 'w app_state) call" where
  "app_log level message entries = (\<lambda>s. (Inr (), s\<lparr>as_records := memory_log level message entries (as_records s)\<rparr>))"

text \<open>The run once the first event is known: recover, run one cycle, save, report.\<close>

definition run_cycle :: "'w app_stores \<Rightarrow> app_environment \<Rightarrow> app_config \<Rightarrow> string \<Rightarrow> string \<Rightarrow> instrument \<Rightarrow> market_event \<Rightarrow>
    'w app_state \<Rightarrow> ((load_failure + unit) \<times> 'w app_state) option" where
  "run_cycle st env config mode reason instr event s =
     (case on_stores (recovered_runtime st (startup_snapshot event) (app_runtime_new env config instr)) s of
        (Inl e, s1) \<Rightarrow> Some (Inl e, s1)
      | (Inr (snapshot, rt), s1) \<Rightarrow>
        (case run_once mock_source_poll app_subscribers (av_clock env 4)
            (app_controller_new event (startup_command config instr) (av_clock env 3)
              \<lparr>ax_runtime = Some rt, ax_health = runtime_health_status_new, ax_event_log = as_event_log s1, ax_records = as_records s1\<rparr>) of
           None \<Rightarrow> None
         | Some (processed, c) \<Rightarrow>
           (case ax_runtime (ec_app c) of None \<Rightarrow> None
            | Some rt' \<Rightarrow> Some
              (bindC (on_stores (save_portfolio st (rt_portfolio_service rt') (startup_snapshot event))) (\<lambda>_.
               app_log Info ''application_startup_complete''
                 (summary_fields env config mode reason processed snapshot rt' (ax_health (ec_app c))))
               (s1\<lparr>as_event_log := ax_event_log (ec_app c), as_records := ax_records (ec_app c)\<rparr>)))))"

definition run_session :: "'w app_stores \<Rightarrow> app_environment \<Rightarrow> app_config \<Rightarrow> string \<Rightarrow> string \<Rightarrow>
    'w app_state \<Rightarrow> ((load_failure + unit) \<times> 'w app_state) option" where
  "run_session st env config mode reason s =
     (case ac_instruments config of [] \<Rightarrow> None
      | front # _ \<Rightarrow>
        let instr = mock_instrument config front
        in case startup_market_event (av_clock env) instr of
             Inl e \<Rightarrow> Some (Inl e, s)
           | Inr event \<Rightarrow> run_cycle st env config mode reason instr event s)"

subsection \<open>The run\<close>

text \<open>
  \<open>exception.what()\<close>: every exception of the native constructors is a runtime error with a message, so the
  text of the other exceptions is never shown.
\<close>

fun what :: "load_failure \<Rightarrow> string" where
  "what (Throws (Runtime_error message)) = message"
| "what (Throws Invalid_argument) = ''invalid argument''"
| "what (Throws Out_of_range) = ''out of range''"
| "what (Outside_enum n) = ''outside enum''"

datatype ('p, 'r, 'k) app_stores_state = Unopened | Native_stores "('p, 'r, 'k) native_stores" | Fallback_stores fallback_stores

record ('p, 'r, 'k) app_outcome =
  ao_result :: "load_failure + unit"
  ao_state :: "('p, 'r, 'k) app_stores_state app_state"

definition outcome_of :: "('w \<Rightarrow> ('p, 'r, 'k) app_stores_state) \<Rightarrow> (load_failure + unit) \<times> 'w app_state \<Rightarrow> ('p, 'r, 'k) app_outcome" where
  "outcome_of wrap r = \<lparr>ao_result = fst r,
     ao_state = \<lparr>as_stores = wrap (as_stores (snd r)), as_event_log = as_event_log (snd r), as_records = as_records (snd r)\<rparr>\<rparr>"

definition app_start :: "'w \<Rightarrow> event_log \<Rightarrow> 'w app_state" where
  "app_start stores log_file = \<lparr>as_stores = stores, as_event_log = reset_log log_file,
     as_records = memory_log Info ''application_startup'' [] []\<rparr>"

definition application_run :: "('p, 'r, 'k) drivers \<Rightarrow> app_environment \<Rightarrow> local_files \<Rightarrow> event_log \<Rightarrow> string \<Rightarrow>
    ('p, 'r, 'k) app_outcome option" where
  "application_run d env files log_file config_path =
     (case application_config env config_path of
        Inl e \<Rightarrow> Some \<lparr>ao_result = Inl e, ao_state = \<lparr>as_stores = Unopened, as_event_log = log_file, as_records = []\<rparr>\<rparr>
      | Inr config \<Rightarrow>
        (case native_stores_new d config of
           Inr native \<Rightarrow> map_option (outcome_of Native_stores) (run_session (native_ports d) env config ''native'' [] (app_start native log_file))
         | Inl e \<Rightarrow>
           if \<not> ac_allow_fallback config
           then Some (outcome_of id (bindC (app_log Error ''infrastructure_unavailable'' [(''reason'', what e)]) (\<lambda>_.
             reading (Inl (runtime_error (''Native infrastructure unavailable and infrastructure.allow_fallback is false: '' @ what e))))
               (app_start Unopened log_file)))
           else (case fallback_stores_new files of
               Inl e' \<Rightarrow> Some (outcome_of id (Inl e', app_start Unopened log_file))
             | Inr stores \<Rightarrow> map_option (outcome_of Fallback_stores)
                 (run_session fallback_ports env config ''fallback'' (what e) (snd (app_log Warn ''infrastructure_fallback_enabled''
                   [(''reason'', what e), (''local_state_root'', local_state_root env)] (app_start stores log_file)))))))"

subsection \<open>The program\<close>

text \<open>The arguments after the program name; \<open>None\<close> is the usage message, with status two.\<close>

fun parse_arguments :: "string list \<Rightarrow> string \<Rightarrow> string option" where
  "parse_arguments [] config_path = Some config_path"
| "parse_arguments [argument] config_path = None"
| "parse_arguments (argument # v # rest) config_path = (if argument = ''--config'' then parse_arguments rest v else None)"

definition app_main :: "('p, 'r, 'k) drivers \<Rightarrow> app_environment \<Rightarrow> local_files \<Rightarrow> event_log \<Rightarrow> string list \<Rightarrow> int option" where
  "app_main d env files log_file args =
     (case parse_arguments args [] of None \<Rightarrow> Some 2
      | Some config_path \<Rightarrow>
        map_option (\<lambda>r. case ao_result r of Inl e \<Rightarrow> 1 | Inr () \<Rightarrow> 0) (application_run d env files log_file config_path))"

end
