(* ===== verification/Application_Correctness.thy ===== *)
theory Application_Correctness
  imports Application Libpq_Correctness
begin

section \<open>What a run of the application does\<close>

text \<open>
  The events of a run pass the strategies by, whatever the stores and the configuration are: the mock feed
  trades an instrument no strategy watches. From that follow that a run ends, that it never trades, and that
  it leaves the stores as it found them.
\<close>

subsection \<open>The cycle of the application\<close>

text \<open>The events of the run: the timer if it is due, then the market event and the transaction command.\<close>

definition startup_events :: "app_environment \<Rightarrow> app_config \<Rightarrow> instrument \<Rightarrow> market_event \<Rightarrow> engine_event list" where
  "startup_events env config instr event =
     (if av_clock env 3 \<le> av_clock env 4
      then [TimerEvent \<lparr>tm_timer_id = ''startup-health-check'', tm_timestamp = av_clock env 3\<rparr>] else []) @
     [MarketEvent event, TransactionCommand (startup_command config instr)]"

lemma app_run_once:
  "\<exists>c. run_once mock_source_poll app_subscribers (av_clock env 4)
      (app_controller_new event (startup_command config instr) (av_clock env 3) a) =
    Some (length (startup_events env config instr event), c) \<and>
    ec_app c = fold (dispatcher_publish [runtime_subscriber, replay_subscriber, logger_subscriber]) (startup_events env config instr event) a"
proof -
  have subs: "app_subscribers = map on_app [runtime_subscriber, replay_subscriber, logger_subscriber]"
    by (simp add: app_subscribers_def dispatcher_subscribe_def)
  let ?c = "app_controller_new event (startup_command config instr) (av_clock env 3) a"
  have "ec_queue ?c @ cycle_schedule [av_clock env 4] (ec_timers ?c) (map mock_source_remaining (ec_sources ?c)) =
      startup_events env config instr event" "ec_app ?c = a"
    by (simp_all add: app_controller_new_def add_source_def schedule_timer_def engine_controller_new_def startup_events_def
        timer_due_def timer_event_of_def)
  then show ?thesis
    unfolding subs using run_once_events [OF mock_sources.event_source_axioms, of "[runtime_subscriber, replay_subscriber, logger_subscriber]"
        "av_clock env 4" ?c] by auto
qed

lemma publish_app:
  "dispatcher_publish [runtime_subscriber, replay_subscriber, logger_subscriber] event a =
     logger_subscriber event (replay_subscriber event (runtime_subscriber event a))"
  by simp

lemma publish_runtime:
  "ax_runtime (dispatcher_publish [runtime_subscriber, replay_subscriber, logger_subscriber] event a) =
     replay_handler event (ax_runtime a)"
  by (simp add: logger_subscriber_def replay_subscriber_def runtime_subscriber_def replay_handler_def split: option.split)

lemma fold_publish:
  "ax_runtime (fold (dispatcher_publish [runtime_subscriber, replay_subscriber, logger_subscriber]) events a) = fold replay_handler events (ax_runtime a)"
  "ax_event_log (fold (dispatcher_publish [runtime_subscriber, replay_subscriber, logger_subscriber]) events a) = fold append_event events (ax_event_log a)"
proof -
  have "ax_event_log (dispatcher_publish [runtime_subscriber, replay_subscriber, logger_subscriber] event a) = append_event event (ax_event_log a)"
    for event a
    by (simp add: logger_subscriber_def replay_subscriber_def runtime_subscriber_def split: option.split)
  then show "ax_event_log (fold (dispatcher_publish [runtime_subscriber, replay_subscriber, logger_subscriber]) events a) = fold append_event events (ax_event_log a)"
    by (induction events arbitrary: a) (simp_all del: dispatcher_publish.simps)
  show "ax_runtime (fold (dispatcher_publish [runtime_subscriber, replay_subscriber, logger_subscriber]) events a) =
      fold replay_handler events (ax_runtime a)"
    by (induction events arbitrary: a) (simp_all add: publish_runtime del: dispatcher_publish.simps)
qed

subsection \<open>Events that leave the books alone\<close>

text \<open>What an order, a fill or a settlement would change in a runtime.\<close>

definition untouched :: "strategy simulation_runtime \<Rightarrow> strategy simulation_runtime \<Rightarrow> bool" where
  "untouched rt rt' \<longleftrightarrow> rt_risk_approved_count rt' = rt_risk_approved_count rt \<and> rt_risk_rejected_count rt' = rt_risk_rejected_count rt \<and>
     rt_applied_fill_count rt' = rt_applied_fill_count rt \<and> mx_orders (rt_execution_engine rt') = mx_orders (rt_execution_engine rt) \<and>
     pf_balances (rt_portfolio_service rt') = pf_balances (rt_portfolio_service rt) \<and>
     (\<forall>iid. map_option unmarked (portfolio_get_position iid (rt_portfolio_service rt')) =
        map_option unmarked (portfolio_get_position iid (rt_portfolio_service rt))) \<and>
     (portfolio_inv (rt_portfolio_service rt) \<longrightarrow> portfolio_inv (rt_portfolio_service rt'))"

definition watches :: "string \<Rightarrow> strategy simulation_runtime \<Rightarrow> bool" where
  "watches iid rt \<longleftrightarrow> (\<forall>slot \<in> set (rt_strategy_coordinator rt). watched (sl_strategy slot) = iid)"

lemma untouched_observed: "observed rt = observed rt' \<Longrightarrow> untouched rt rt'"
  by (cases rt; cases rt') (simp add: observed_def untouched_def)

lemma untouched_refl: "untouched rt rt"
  by (simp add: untouched_def)

lemma untouched_trans: "untouched rt rt' \<Longrightarrow> untouched rt' rt'' \<Longrightarrow> untouched rt rt''"
  by (simp add: untouched_def)

text \<open>What an event without levels does to the portfolio: it marks the position of its instrument.\<close>

definition event_marks :: "engine_event \<Rightarrow> portfolio_service \<Rightarrow> portfolio_service" where
  "event_marks event p = (case event of MarketEvent e \<Rightarrow>
       if 0 < me_price e then set_mark_price (instrument_id (me_instrument e)) (me_price e) p else p
     | _ \<Rightarrow> p)"

lemma quote_event_no_match:
  assumes "me_bid_levels e = []" "me_ask_levels e = []"
  obtains engine where "process_market_event e m = Some (\<lparr>xr_order_id = [], xr_client_order_id = [], xr_updates = [], xr_fills = []\<rparr>, engine)"
    "mx_orders engine = mx_orders m"
  using assms that by (cases "mx_books m (instrument_id (me_instrument e))") (auto simp: process_market_event_def sort_unique_def)

lemma handle_quote:
  assumes "me_bid_levels e = []" "me_ask_levels e = []"
  shows "\<exists>rt'. handle_market_event e rt = Some rt' \<and> untouched rt rt' \<and> rt_strategy_coordinator rt' = rt_strategy_coordinator rt \<and>
    rt_portfolio_service rt' = event_marks (MarketEvent e) (rt_portfolio_service rt)"
proof -
  let ?rt1 = "persist_market_snapshot e (rt\<lparr>rt_market_state_store := market_apply e (rt_market_state_store rt)\<rparr>)"
  let ?res = "\<lparr>xr_order_id = [], xr_client_order_id = [], xr_updates = [], xr_fills = []\<rparr>"
  obtain engine where engine: "process_market_event e (rt_execution_engine ?rt1) = Some (?res, engine)"
    "mx_orders engine = mx_orders (rt_execution_engine ?rt1)" using quote_event_no_match [OF assms] .
  let ?rt2 = "handle_execution_result ?res (?rt1\<lparr>rt_execution_engine := engine\<rparr>)"
  have "untouched rt ?rt2" "rt_strategy_coordinator ?rt2 = rt_strategy_coordinator rt"
    "rt_portfolio_service ?rt2 = rt_portfolio_service rt"
    using engine(2) by (simp_all add: untouched_def handle_execution_result_def persist_market_snapshot_def Let_def)
  then show ?thesis
    using engine(1)
    by (auto simp: handle_market_event_def Let_def untouched_def set_mark_price_effect portfolio_inv_set_mark event_marks_def)
qed

lemma handle_if_market:
  assumes "\<And>e. event = MarketEvent e \<Longrightarrow> me_bid_levels e = [] \<and> me_ask_levels e = []"
  shows "\<exists>rt'. (case event of MarketEvent e \<Rightarrow> handle_market_event e rt | _ \<Rightarrow> Some rt) = Some rt' \<and> untouched rt rt' \<and>
    rt_strategy_coordinator rt' = rt_strategy_coordinator rt \<and> rt_portfolio_service rt' = event_marks event (rt_portfolio_service rt)"
proof (cases event)
  case (MarketEvent e)
  show ?thesis unfolding MarketEvent using handle_quote assms [OF MarketEvent] by simp
next
  case (TimerEvent x)
  show ?thesis unfolding TimerEvent by (simp add: untouched_refl event_marks_def)
next
  case (TransactionCommand x)
  show ?thesis unfolding TransactionCommand by (simp add: untouched_refl event_marks_def)
qed

lemma on_event_quiet:
  assumes "watches iid rt" "passed_over iid event"
    and "\<And>e. event = MarketEvent e \<Longrightarrow> me_bid_levels e = [] \<and> me_ask_levels e = []"
  shows "\<exists>rt'. on_event strategy_on_event event rt = Some rt' \<and> untouched rt rt' \<and> watches iid rt' \<and>
    rt_portfolio_service rt' = event_marks event (rt_portfolio_service rt)"
proof -
  define rt0 where "rt0 = snd (now_ms rt)"
  have rt0: "untouched rt rt0" "rt_strategy_coordinator rt0 = rt_strategy_coordinator rt" "rt_portfolio_service rt0 = rt_portfolio_service rt"
    by (simp_all add: rt0_def now_ms_def untouched_def)
  obtain rt1 where rt1: "(case event of MarketEvent e \<Rightarrow> handle_market_event e rt0 | _ \<Rightarrow> Some rt0) = Some rt1" "untouched rt0 rt1"
    "rt_strategy_coordinator rt1 = rt_strategy_coordinator rt0"
    "rt_portfolio_service rt1 = event_marks event (rt_portfolio_service rt0)"
    using handle_if_market [of event rt0] assms(3) by blast
  obtain slots where slots: "coordinator_on_event strategy_on_event event \<lparr>sx_market_state_store = rt_market_state_store rt1,
      sx_now_ms = rt_clock rt1 (rt_clock_reads rt1)\<rparr> (rt_strategy_coordinator rt1) = ([], slots)"
    "\<forall>slot \<in> set slots. watched (sl_strategy slot) = iid"
  proof -
    have "\<forall>slot \<in> set (rt_strategy_coordinator rt1). watched (sl_strategy slot) = iid"
      using assms(1) rt0(2) rt1(3) by (simp add: watches_def)
    then show ?thesis using coordinator_passes [OF _ assms(2)] that by blast
  qed
  let ?rt2 = "finish_event event (fst (now_ms rt)) (rt1\<lparr>rt_strategy_coordinator := slots\<rparr>)"
  have o: "observed ?rt2 = observed (rt1\<lparr>rt_strategy_coordinator := slots\<rparr>)" by simp
  have "untouched rt1 (rt1\<lparr>rt_strategy_coordinator := slots\<rparr>)" by (simp add: untouched_def)
  then have "untouched rt1 ?rt2" using untouched_observed [OF o [symmetric]] untouched_trans by blast
  then have "untouched rt ?rt2" using untouched_trans rt0(1) rt1(2) by blast
  moreover have "watches iid ?rt2" using observed_eqD [OF o] slots(2) by (simp add: watches_def)
  moreover have "rt_portfolio_service ?rt2 = event_marks event (rt_portfolio_service rt)"
    using observed_eqD [OF o] rt0(3) rt1(4) by simp
  moreover have "on_event strategy_on_event event rt = Some ?rt2"
    unfolding on_event_def case_prod_beta using rt1(1) [unfolded rt0_def] slots(1) by simp
  ultimately show ?thesis by blast
qed

lemma quiet_replay:
  assumes "watches iid rt" "\<forall>event \<in> set events. passed_over iid event"
    and "\<forall>e. MarketEvent e \<in> set events \<longrightarrow> me_bid_levels e = [] \<and> me_ask_levels e = []"
  shows "\<exists>rt'. fold replay_handler events (Some rt) = Some rt' \<and> untouched rt rt' \<and> watches iid rt' \<and>
    rt_portfolio_service rt' = fold event_marks events (rt_portfolio_service rt)"
  using assms
proof (induction events arbitrary: rt)
  case (Cons event events)
  obtain rt1 where rt1: "on_event strategy_on_event event rt = Some rt1" "untouched rt rt1" "watches iid rt1"
    "rt_portfolio_service rt1 = event_marks event (rt_portfolio_service rt)"
    using on_event_quiet [OF Cons.prems(1), of event] Cons.prems(2,3) by auto
  then show ?case using Cons.IH [OF rt1(3)] Cons.prems(2,3) untouched_trans by (fastforce simp: replay_handler_simps)
qed (simp add: untouched_def)

subsection \<open>The run is over a restored runtime\<close>

text \<open>Restoring changes neither the strategies nor the counters, over any stores.\<close>

definition same_counts :: "'s simulation_runtime \<Rightarrow> 's simulation_runtime \<Rightarrow> bool" where
  "same_counts rt rt' \<longleftrightarrow> rt_strategy_coordinator rt' = rt_strategy_coordinator rt \<and>
     rt_risk_approved_count rt' = rt_risk_approved_count rt \<and> rt_risk_rejected_count rt' = rt_risk_rejected_count rt \<and>
     rt_applied_fill_count rt' = rt_applied_fill_count rt"

lemma same_counts_trans: "same_counts rt rt' \<Longrightarrow> same_counts rt' rt'' \<Longrightarrow> same_counts rt rt''"
  by (simp add: same_counts_def)

lemma same_counts_fold:
  assumes "\<And>x rt. same_counts rt (f x rt)"
  shows "same_counts rt (fold f xs rt)"
proof (induction xs arbitrary: rt)
  case (Cons x xs)
  show ?case using same_counts_trans [OF assms Cons.IH] by simp
qed (simp add: same_counts_def)

lemma same_counts_restore:
  "same_counts rt (runtime_restore_position p rt)" "same_counts rt (runtime_restore_balance b rt)"
  "same_counts rt (runtime_restore_open_order r rt)" "same_counts rt (runtime_restore_market_snapshot x rt)"
  by (simp_all add: same_counts_def runtime_restore_position_def runtime_restore_balance_def runtime_restore_open_order_def
      runtime_restore_market_snapshot_def Let_def split: option.split)

lemma restore_markets_counts:
  "restore_markets_over st ps rt s = (Inr rt', s') \<Longrightarrow> same_counts rt rt'"
proof (induction ps arbitrary: rt s)
  case (Cons p ps)
  obtain r s1 where r: "sv_get_snapshot st (instrument_id (po_instrument p)) s = (Inr r, s1)"
    "restore_markets_over st ps (case r of None \<Rightarrow> rt | Some x \<Rightarrow> runtime_restore_market_snapshot x rt) s1 = (Inr rt', s')"
    using Cons.prems by (auto simp: bindC_def split: prod.splits sum.splits)
  have "same_counts rt (case r of None \<Rightarrow> rt | Some x \<Rightarrow> runtime_restore_market_snapshot x rt)"
    using same_counts_restore(4) by (auto simp: same_counts_def [of rt rt] split: option.split)
  then show ?case using Cons.IH [OF r(2)] same_counts_trans by blast
qed (simp add: retC_def same_counts_def)

lemma restore_runtime_counts:
  assumes "restore_runtime_over st snapshot rt s = (Inr rt', s')"
  shows "same_counts rt rt'"
proof -
  let ?rt1 = "fold runtime_restore_position (rs_positions snapshot) rt"
  let ?rt2 = "fold runtime_restore_balance (rs_balances snapshot) ?rt1"
  let ?rt3 = "fold runtime_restore_open_order (rs_open_orders snapshot) ?rt2"
  have "same_counts rt ?rt1" "same_counts ?rt1 ?rt2" "same_counts ?rt2 ?rt3"
    by (intro same_counts_fold same_counts_restore)+
  moreover have "same_counts ?rt3 rt'" using assms restore_markets_counts by (simp add: restore_runtime_over_def)
  ultimately show ?thesis using same_counts_trans by blast
qed

lemma bindC_Inr: "bindC m f s = (Inr b, s') \<longleftrightarrow> (\<exists>a s1. m s = (Inr a, s1) \<and> f a s1 = (Inr b, s'))"
  by (auto simp: bindC_def split: prod.splits sum.splits)

lemma recovered_runtime_counts:
  assumes "recovered_runtime st x rt s = (Inr (snapshot, rt'), s')"
  shows "same_counts rt rt'"
  using assms restore_runtime_counts by (auto simp: recovered_runtime_def bindC_Inr retC_def)

lemma app_runtime_new_watches:
  "watches (instrument_id (primary_instrument config)) (app_runtime_new env config instr)"
  "rt_risk_approved_count (app_runtime_new env config instr) = 0" "rt_risk_rejected_count (app_runtime_new env config instr) = 0"
  "rt_applied_fill_count (app_runtime_new env config instr) = 0"
  using coordinator_watches [of config]
  by (simp_all add: watches_def app_runtime_new_def simulation_runtime_new_def runtime_config_def)

subsection \<open>The startup events\<close>

lemma normalize_shape:
  "normalize instr raw r p = Inr e \<Longrightarrow> me_instrument e = instr \<and> me_bid_levels e = [] \<and> me_ask_levels e = []"
  by (auto simp: normalize_def adapter_error_def Let_def case_prod_beta split: option.splits if_splits)

text \<open>The instrument of the mock feed is never the one the strategies watch: its id has a prefix.\<close>

lemma mock_not_watched:
  assumes "ac_instruments config = front # rest"
  shows "instrument_id (mock_instrument config front) \<noteq> instrument_id (primary_instrument config)"
proof
  assume "instrument_id (mock_instrument config front) = instrument_id (primary_instrument config)"
  then have "length (instrument_id (mock_instrument config front)) = length (instrument_id (primary_instrument config))" by simp
  then show False using assms by (simp add: mock_instrument_def primary_instrument_def build_instrument_def)
qed

lemma payload_numbers:
  "stod ''42010.0'' = Inr (Fin 42010)" "stod ''0.25'' = Inr (Fin (1 / 4))" "stod ''42000.0'' = Inr (Fin 42000)" "stod ''42020.0'' = Inr (Fin 42020)"
proof -
  have quarter: "to_double (1 / 4) = Fin (1 / 4)"
    using rnd64_grid [of 1 "- 2"] by (intro to_double_valid) (simp_all add: power_int_def power2_eq_square)
  then have "rnd64 (1 / 4) = 1 / 4" by (simp add: to_double_def Let_def split: if_splits)
  then have range: "\<not> out_of_double_range 42010" "\<not> out_of_double_range 42000" "\<not> out_of_double_range 42020" "\<not> out_of_double_range (1 / 4)"
    using quarter rnd64_grid [of 42010 0] rnd64_grid [of 42000 0] rnd64_grid [of 42020 0] by (simp_all add: out_of_double_range_def)
  have "read_decimal ''42010.0'' = Some (42010, [])" "read_decimal ''42000.0'' = Some (42000, [])" "read_decimal ''42020.0'' = Some (42020, [])"
    "read_decimal ''0.25'' = Some (1 / 4, [])"
    by (simp_all add: read_decimal_def read_mantissa_def read_exponent_def is_digit_def read_digits_def Let_def power_int_def power2_eq_square)
  then show "stod ''42010.0'' = Inr (Fin 42010)" "stod ''0.25'' = Inr (Fin (1 / 4))" "stod ''42000.0'' = Inr (Fin 42000)"
    "stod ''42020.0'' = Inr (Fin 42020)"
    using range quarter stod_pos_digits(1) [of "CHR ''0''" "''.25''" "1 / 4" "[]"]
    by (auto intro!: stod_of_pos simp: stod_pos_digits(1) num_char_def is_digit_def)
qed

definition startup_segments :: "string \<Rightarrow> int64 \<Rightarrow> string list" where
  "startup_segments symb now = [''type='' @ ''trade'', ''event_id='' @ ''market-1'', ''symbol='' @ symb, ''price='' @ ''42010.0'',
     ''quantity='' @ ''0.25'', ''bid='' @ ''42000.0'', ''ask='' @ ''42020.0'', ''exchange_ts='' @ show_int now]"

lemma startup_payload_segments: "startup_payload instr now = join_with CHR '';'' (startup_segments (symbol instr) now)"
  by (simp add: startup_payload_def startup_segments_def)

definition startup_trade :: "instrument \<Rightarrow> (nat \<Rightarrow> int64) \<Rightarrow> market_event" where
  "startup_trade instr clock = \<lparr>me_event_id = ''market-1'', me_type = Trade, me_instrument = instr, me_price = Fin 42010,
     me_quantity = Fin (1 / 4), me_bid_price = Some (Fin 42000), me_ask_price = Some (Fin 42020), me_bid_levels = [], me_ask_levels = [],
     me_exchange_timestamp = clock 0, me_receive_timestamp = clock 1, me_process_timestamp = clock 2\<rparr>"

lemma startup_market_event_trade:
  assumes "symbol instr \<noteq> []" "CHR '';'' \<notin> set (symbol instr)" "int64_ok (clock 0)"
  shows "startup_market_event clock instr = Inr (startup_trade instr clock)"
proof -
  have "\<forall>s \<in> set (startup_segments (symbol instr) (clock 0)). CHR '';'' \<notin> set s"
    using assms(2) by (simp add: startup_segments_def no_semicolon)
  moreover have "startup_segments (symbol instr) (clock 0) \<noteq> []" "last (startup_segments (symbol instr) (clock 0)) \<noteq> []"
    by (simp_all add: startup_segments_def)
  ultimately have parse: "parse_fields (startup_payload instr (clock 0)) = parse_segments (startup_segments (symbol instr) (clock 0)) Map.empty"
    by (simp add: startup_payload_segments parse_fields_def getline_split_join)
  have "parse_segments (startup_segments (symbol instr) (clock 0)) Map.empty =
      Some [''type'' \<mapsto> ''trade'', ''event_id'' \<mapsto> ''market-1'', ''symbol'' \<mapsto> symbol instr, ''price'' \<mapsto> ''42010.0'',
        ''quantity'' \<mapsto> ''0.25'', ''bid'' \<mapsto> ''42000.0'', ''ask'' \<mapsto> ''42020.0'', ''exchange_ts'' \<mapsto> show_int (clock 0)]"
    unfolding startup_segments_def
    using assms(1) by (simp add: parse_segment_keys del: append_Cons parse_segments.simps(2))
  then show ?thesis
    using assms(3)
    by (simp add: startup_market_event_def normalize_def parse parse_int64_def parse_optional_double_def payload_numbers stoll_show_int
        market_type_of_def value_or_def startup_trade_def)
qed

subsection \<open>One cycle\<close>

lemma startup_market_event_shape:
  "startup_market_event clock instr = Inr e \<Longrightarrow> me_instrument e = instr \<and> me_bid_levels e = [] \<and> me_ask_levels e = []"
  by (auto simp: startup_market_event_def normalize_shape split: sum.splits)

lemma run_cycle_result:
  assumes "ac_instruments config = front # rest" "startup_market_event clock (mock_instrument config front) = Inr event"
    and "on_stores (recovered_runtime st (startup_snapshot event) (app_runtime_new env config instr)) s = (Inr (snapshot, rt), s1)"
  shows "\<exists>rt' health records. untouched rt rt' \<and> same_counts (app_runtime_new env config instr) rt \<and>
    rt_portfolio_service rt' = event_marks (MarketEvent event) (rt_portfolio_service rt) \<and>
    run_cycle st env config mode reason instr event s = Some
      (bindC (on_stores (save_portfolio st (rt_portfolio_service rt') (startup_snapshot event))) (\<lambda>_.
       app_log Info ''application_startup_complete''
         (summary_fields env config mode reason (length (startup_events env config instr event)) snapshot rt' health))
       (s1\<lparr>as_event_log := fold append_event (startup_events env config instr event) (as_event_log s1), as_records := records\<rparr>))"
proof -
  have counts: "same_counts (app_runtime_new env config instr) rt"
    using assms(3) recovered_runtime_counts by (auto simp: at_field_def split: prod.splits)
  then have "watches (instrument_id (primary_instrument config)) rt"
    using app_runtime_new_watches(1) by (simp add: watches_def same_counts_def)
  moreover have "\<forall>ev \<in> set (startup_events env config instr event). passed_over (instrument_id (primary_instrument config)) ev"
    using mock_not_watched [OF assms(1)] startup_market_event_shape [OF assms(2)] by (simp add: startup_events_def)
  moreover have "\<forall>e. MarketEvent e \<in> set (startup_events env config instr event) \<longrightarrow> me_bid_levels e = [] \<and> me_ask_levels e = []"
    using startup_market_event_shape [OF assms(2)] by (auto simp: startup_events_def)
  ultimately obtain rt' where rt': "fold replay_handler (startup_events env config instr event) (Some rt) = Some rt'" "untouched rt rt'"
    "rt_portfolio_service rt' = fold event_marks (startup_events env config instr event) (rt_portfolio_service rt)"
    using quiet_replay by blast
  then have marks: "rt_portfolio_service rt' = event_marks (MarketEvent event) (rt_portfolio_service rt)"
    by (simp add: startup_events_def event_marks_def)
  let ?a = "\<lparr>ax_runtime = Some rt, ax_health = runtime_health_status_new, ax_event_log = as_event_log s1, ax_records = as_records s1\<rparr>"
  obtain c where c: "run_once mock_source_poll app_subscribers (av_clock env 4)
      (app_controller_new event (startup_command config instr) (av_clock env 3) ?a) = Some (length (startup_events env config instr event), c)"
    "ec_app c = fold (dispatcher_publish [runtime_subscriber, replay_subscriber, logger_subscriber]) (startup_events env config instr event) ?a"
    using app_run_once by blast
  have "ax_runtime (ec_app c) = Some rt'" "ax_event_log (ec_app c) = fold append_event (startup_events env config instr event) (as_event_log s1)"
    unfolding c(2) fold_publish using rt'(1) by simp_all
  then show ?thesis
    using rt'(2) marks counts by (intro exI [of _ rt'] exI [of _ "ax_health (ec_app c)"] exI [of _ "ax_records (ec_app c)"])
      (simp add: run_cycle_def assms(3) c(1))
qed

lemma run_cycle_returns:
  assumes "ac_instruments config = front # rest" "startup_market_event clock (mock_instrument config front) = Inr event"
  shows "run_cycle st env config mode reason instr event s \<noteq> None"
proof (cases "on_stores (recovered_runtime st (startup_snapshot event) (app_runtime_new env config instr)) s")
  case (Pair r s1)
  show ?thesis
  proof (cases r)
    case (Inr found)
    obtain snapshot rt where "found = (snapshot, rt)" by (cases found)
    from run_cycle_result [OF assms Pair [unfolded Inr this], of mode reason] show ?thesis by (elim exE conjE) simp
  qed (simp add: run_cycle_def Pair)
qed

subsection \<open>Why the native stores may fail to open\<close>

lemma exec_commands_error: "exec_commands api sqls p = (Inl e, p') \<Longrightarrow> \<exists>m. e = runtime_error m"
  by (induction sqls arbitrary: p)
    (auto simp: call_defs exec_command_def session_exec_def ensure_result_ok_def split: prod.splits sum.splits option.splits if_splits)

lemma libpq_session_error: "libpq_session api config = Inl e \<Longrightarrow> \<exists>m. e = runtime_error m"
  using exec_commands_error by (fastforce simp: libpq_session_def split: option.splits if_splits prod.splits sum.splits)

lemma libpq_balances_error: "libpq_balances_new api config = Inl e \<Longrightarrow> \<exists>m. e = runtime_error m"
  using libpq_session_error exec_commands_error [of api "[create_balances]"]
  by (fastforce simp: libpq_balances_new_def bindE_def call_defs split: prod.splits sum.splits)

lemma redis_connection_error: "redis_connection api config = Inl e \<Longrightarrow> \<exists>m. e = runtime_error m"
  by (auto simp: redis_connection_def split: option.splits if_splits)

lemma set_conf_error: "set_conf api role key v conf = Inl e \<Longrightarrow> \<exists>m. e = runtime_error m"
  by (auto simp: set_conf_def split: option.splits)

lemma rdkafka_consumer_error: "rdkafka_consumer_handle api config = Inl e \<Longrightarrow> \<exists>m. e = runtime_error m"
  using set_conf_error by (fastforce simp: rdkafka_consumer_handle_def bindE_def split: option.splits prod.splits sum.splits)

lemma native_stores_error: "native_stores_new d config = Inl e \<Longrightarrow> \<exists>m. e = runtime_error m"
  unfolding native_stores_new_def bindE_def
  by (auto split: sum.splits dest: libpq_session_error libpq_balances_error redis_connection_error rdkafka_consumer_error)

subsection \<open>A run ends, and never trades\<close>

lemma run_session_None: "run_session st env config mode reason s = None \<longleftrightarrow> ac_instruments config = []"
proof (cases "ac_instruments config")
  case (Cons front rest)
  then show ?thesis
    using run_cycle_returns [OF Cons]
    by (cases "startup_market_event (av_clock env) (mock_instrument config front)") (simp_all add: run_session_def Let_def)
qed (simp add: run_session_def)

text \<open>
  C12. The application always ends, with status or exception, except in one case: a configuration that passes
  the validation with an empty list of instruments, for which \<open>front()\<close> has no defined result; it is reached
  as soon as the native stores open or the fallback ones do.
\<close>

theorem application_terminates:
  "application_run d env files log_file config_path = None \<longleftrightarrow>
    (\<exists>config. application_config env config_path = Inr config \<and> ac_instruments config = [] \<and>
      ((\<exists>native. native_stores_new d config = Inr native) \<or>
       ac_allow_fallback config \<and> (\<exists>stores. fallback_stores_new files = Inr stores)))"
  by (auto simp: application_run_def run_session_None split: sum.split)

lemma run_session_counts:
  assumes "run_session st env config mode reason s = Some (Inr (), s')"
  shows "\<exists>processed snapshot rt health. as_records s' \<noteq> [] \<and> last (as_records s') =
      \<lparr>lg_level = Info, lg_message = ''application_startup_complete'',
       lg_fields = summary_fields env config mode reason processed snapshot rt health\<rparr> \<and>
    rt_risk_approved_count rt = 0 \<and> rt_risk_rejected_count rt = 0 \<and> rt_applied_fill_count rt = 0"
proof -
  obtain front rest where front: "ac_instruments config = front # rest"
    using assms by (cases "ac_instruments config") (simp_all add: run_session_def)
  let ?instr = "mock_instrument config front"
  obtain event where event: "startup_market_event (av_clock env) ?instr = Inr event"
    and cycle: "run_cycle st env config mode reason ?instr event s = Some (Inr (), s')"
    using assms front by (auto simp: run_session_def Let_def split: sum.splits)
  obtain snapshot rt s1 where rec: "on_stores (recovered_runtime st (startup_snapshot event) (app_runtime_new env config ?instr)) s =
      (Inr (snapshot, rt), s1)"
    using cycle by (auto simp: run_cycle_def split: prod.splits sum.splits)
  obtain rt' health records where "untouched rt rt'" "same_counts (app_runtime_new env config ?instr) rt"
    "bindC (on_stores (save_portfolio st (rt_portfolio_service rt') (startup_snapshot event))) (\<lambda>_.
       app_log Info ''application_startup_complete''
         (summary_fields env config mode reason (length (startup_events env config ?instr event)) snapshot rt' health))
       (s1\<lparr>as_event_log := fold append_event (startup_events env config ?instr event) (as_event_log s1), as_records := records\<rparr>) = (Inr (), s')"
    using run_cycle_result [OF front event rec, of mode reason] unfolding cycle option.inject
    by (elim exE conjE) (rule that, assumption+, rule sym, assumption)
  then show ?thesis
    using app_runtime_new_watches(2-4) [of env config ?instr]
    by (auto simp: bindC_Inr app_log_def memory_log_def untouched_def same_counts_def intro!: exI)
qed

subsection \<open>A run leaves the fallback stores as it found them\<close>

lemma load_lines_keyed: "load_lines n decode (\<lambda>v. AList.update (key v) v) lines m = Inr m' \<Longrightarrow> keyed_inv key m \<Longrightarrow> keyed_inv key m'"
  by (induction lines arbitrary: m) (auto simp: Let_def bindE_def keyed_inv_update split: if_splits sum.splits)

lemma load_file_keyed: "load_file n decode (\<lambda>v. AList.update (key v) v) [] file = Inr m \<Longrightarrow> keyed_inv key m"
  using load_lines_keyed by (fastforce simp: load_file_def split: option.splits)

lemma fallback_stores_keyed:
  assumes "fallback_stores_new files = Inr s"
  shows "keyed_inv position_key (fb_memory (fs_positions s))" "keyed_inv ba_asset (fb_memory (fs_balances s))"
  using assms load_file_keyed [of 12 position_of_fields position_key] load_file_keyed [of 3 balance_of_fields ba_asset]
  by (auto simp: fallback_stores_new_def postgres_positions_new_def postgres_balances_new_def bindE_def split: sum.splits)

lemma restored_portfolio_inv:
  assumes "portfolio_inv (rt_portfolio_service rt)"
  shows "portfolio_inv (rt_portfolio_service (restore_runtime cache snapshot rt))"
proof -
  have "portfolio_inv (rt_portfolio_service rt0) \<Longrightarrow> portfolio_inv (rt_portfolio_service (fold (restore_market_of cache) ps rt0))"
    for ps and rt0 :: "'a simulation_runtime"
    by (induction ps arbitrary: rt0)
      (simp_all add: restore_market_of_def runtime_restore_market_snapshot_def Let_def portfolio_inv_set_mark split: option.split)
  then show ?thesis
    unfolding restore_runtime_def
    by (simp add: restore_orders_fold restore_balances_fold restore_positions_fold portfolio_positions.inv_saves [OF assms]
        portfolio_balances.inv_saves)
qed

lemma save_all_fallback:
  "run_all (sv_save_position fallback_ports) ps s = (Inr (), s\<lparr>fs_positions := fold pg_save_position ps (fs_positions s)\<rparr>)"
  "run_all (sv_save_balance fallback_ports) bs s = (Inr (), s\<lparr>fs_balances := fold pg_save_balance bs (fs_balances s)\<rparr>)"
  by (induction ps arbitrary: s, simp_all add: call_defs fallback_ports_def, induction bs arbitrary: s, simp_all add: call_defs)

lemma saved_memory:
  "fb_memory (fold pg_save_position ps x) = fold save_position ps (fb_memory x)"
  "fb_memory (fold pg_save_balance bs y) = fold save_balance bs (fb_memory y)"
  by (induction ps arbitrary: x, simp_all add: pg_save_position_def) (induction bs arbitrary: y, simp_all add: pg_save_balance_def)

text \<open>A position marked at a price; marking again at the same price changes nothing.\<close>

definition marked_at :: "string \<Rightarrow> double \<Rightarrow> string \<Rightarrow> position option \<Rightarrow> position option" where
  "marked_at i m iid p = (if iid = i then map_option (update_unrealized m) p else p)"

lemma marked_at_None [simp]: "marked_at i m iid p = None \<longleftrightarrow> p = None"
  by (simp add: marked_at_def)

lemma marked_at_twice [simp]: "marked_at i m iid (marked_at i m iid p) = marked_at i m iid p"
  by (cases p) (simp_all add: marked_at_def update_unrealized_def)

lemma set_mark_price_position:
  "portfolio_get_position iid (set_mark_price i m p) = marked_at i m iid (portfolio_get_position iid p)"
  by (auto simp: set_mark_price_def Let_def portfolio_get_position_def marked_at_def update_conv' split: option.splits)

text \<open>Restoring from a cache that knows one instrument may mark its position, and no other.\<close>

lemma restore_marks:
  assumes "cache = [i \<mapsto> x]" "ms_instrument_id x = i" "ms_last_trade_price x = Some m"
  shows "marked_at i m iid (portfolio_get_position iid (rt_portfolio_service (fold (restore_market_of cache) ps rt))) =
    marked_at i m iid (portfolio_get_position iid (rt_portfolio_service rt))"
proof (induction ps arbitrary: rt)
  case (Cons p ps)
  have "marked_at i m iid (portfolio_get_position iid (rt_portfolio_service (restore_market_of cache p rt))) =
      marked_at i m iid (portfolio_get_position iid (rt_portfolio_service rt))"
    using assms by (auto simp: restore_market_of_def get_snapshot_def runtime_restore_market_snapshot_def Let_def
        set_mark_price_position split: option.splits)
  then show ?case using Cons.IH by simp
qed simp

text \<open>Saving a portfolio into the stores it was restored from.\<close>

lemma save_restored:
  assumes "keyed_inv position_key ps" "keyed_inv ba_asset bs" "portfolio_inv p"
    and "\<And>iid. portfolio_get_position iid p = marked_at i m iid (get_position iid ps)"
    and "\<And>a. map_of (pf_balances p) a = get_balance a bs"
  shows "get_position iid (fold save_position (portfolio_all_positions p) ps) = marked_at i m iid (get_position iid ps)"
    "get_balance a (fold save_balance (portfolio_all_balances p) bs) = get_balance a bs"
proof -
  have "portfolio_get_position k p = None \<Longrightarrow> get_position k ps = None" for k using assms(4) [of k] by simp
  from saved_positions [OF assms(3,1) this]
  show "get_position iid (fold save_position (portfolio_all_positions p) ps) = marked_at i m iid (get_position iid ps)"
    using assms(4) by simp
  have "map_of (pf_balances p) k = None \<Longrightarrow> get_balance k bs = None" for k using assms(5) by simp
  from balances_synced_save [OF assms(3,2) this]
  show "get_balance a (fold save_balance (portfolio_all_balances p) bs) = get_balance a bs"
    using assms(5) by (simp add: balances_synced_def)
qed

lemma fallback_cycle:
  assumes "ac_instruments config = front # rest" "startup_market_event clock (mock_instrument config front) = Inr event"
    and keyed: "keyed_inv position_key (fb_memory (fs_positions (as_stores s)))" "keyed_inv ba_asset (fb_memory (fs_balances (as_stores s)))"
    and "fs_market_cache (as_stores s) = Map.empty" "0 < me_price event"
  shows "\<exists>s' ps bs. run_cycle fallback_ports env config mode reason instr event s = Some (Inr (), s') \<and>
    as_event_log s' = fold append_event (startup_events env config instr event) (as_event_log s) \<and>
    fs_transactions (as_stores s') = fs_transactions (as_stores s) \<and> fs_orders (as_stores s') = fs_orders (as_stores s) \<and>
    fs_positions (as_stores s') = fold pg_save_position ps (fs_positions (as_stores s)) \<and>
    fs_balances (as_stores s') = fold pg_save_balance bs (fs_balances (as_stores s)) \<and>
    (\<forall>iid. get_position iid (fb_memory (fs_positions (as_stores s'))) =
       marked_at (instrument_id (me_instrument event)) (me_price event) iid (get_position iid (fb_memory (fs_positions (as_stores s))))) \<and>
    (\<forall>a. get_balance a (fb_memory (fs_balances (as_stores s'))) = get_balance a (fb_memory (fs_balances (as_stores s))))"
proof -
  let ?f = "as_stores s" and ?new = "app_runtime_new env config instr"
  let ?i = "instrument_id (me_instrument event)" and ?m = "me_price event"
  obtain snapshot v where rec: "recover [startup_snapshot event] (fallback_view [] ?f) = (snapshot, v)" by force
  let ?rt = "restore_runtime (rv_market_cache v) snapshot ?new"
  have snap: "rs_positions snapshot = all_positions (fb_memory (fs_positions ?f))" "rs_balances snapshot = all_balances (fb_memory (fs_balances ?f))"
    and cache: "rv_market_cache v = [?i \<mapsto> startup_snapshot event]"
    using rec assms(5) by (auto simp: recover_def Let_def fallback_view_def case_prod_beta upsert_snapshot_def startup_snapshot_def)
  obtain f' where f': "recovered_runtime fallback_ports (startup_snapshot event) ?new ?f = (Inr (snapshot, ?rt), f')"
    "f' = ?f\<lparr>fs_transaction_cache := fs_transaction_cache f', fs_market_cache := rv_market_cache v\<rparr>"
    using recovered_runtime_fallback [OF rec, of ?new] unfolding recovered_runtime_def by blast
  have keep: "fs_transactions f' = fs_transactions ?f" "fs_orders f' = fs_orders ?f" "fs_positions f' = fs_positions ?f" "fs_balances f' = fs_balances ?f"
    by (subst f'(2), simp)+
  have new: "rt_portfolio_service ?new = portfolio_service_new" "portfolio_inv portfolio_service_new"
    by (simp_all add: app_runtime_new_def simulation_runtime_new_def portfolio_inv_def portfolio_service_new_def)
  from run_cycle_result [OF assms(1,2), of fallback_ports env instr s snapshot ?rt "s\<lparr>as_stores := f'\<rparr>" mode reason]
  obtain rt' health records where rt': "untouched ?rt rt'" and marks: "rt_portfolio_service rt' = event_marks (MarketEvent event) (rt_portfolio_service ?rt)"
    and cycle: "run_cycle fallback_ports env config mode reason instr event s = Some
      (bindC (on_stores (save_portfolio fallback_ports (rt_portfolio_service rt') (startup_snapshot event))) (\<lambda>_.
       app_log Info ''application_startup_complete''
         (summary_fields env config mode reason (length (startup_events env config instr event)) snapshot rt' health))
       (s\<lparr>as_stores := f', as_event_log := fold append_event (startup_events env config instr event) (as_event_log s), as_records := records\<rparr>))"
    by (auto simp: at_field_def f'(1))
  obtain rt1 where rt1: "?rt = fold (restore_market_of (rv_market_cache v)) (all_positions (fb_memory (fs_positions ?f))) rt1"
    "\<And>iid. portfolio_get_position iid (rt_portfolio_service rt1) = get_position iid (fb_memory (fs_positions ?f))"
    by (rule restored_before_marks [OF keyed snap new(1), of "rv_market_cache v"]) blast
  have "portfolio_get_position iid (rt_portfolio_service rt') = marked_at ?i ?m iid (get_position iid (fb_memory (fs_positions ?f)))" for iid
    using restore_marks [OF cache, of ?m iid "all_positions (fb_memory (fs_positions ?f))" rt1] rt1 assms(6)
    by (simp add: marks event_marks_def set_mark_price_position startup_snapshot_def)
  moreover have "portfolio_inv (rt_portfolio_service rt')"
    "map_of (pf_balances (rt_portfolio_service rt')) a = get_balance a (fb_memory (fs_balances ?f))" for a
    using rt' restored_portfolio_inv [of ?new "rv_market_cache v" snapshot] new restore_runtime_portfolio [OF keyed snap new(1)]
    by (simp_all add: untouched_def)
  ultimately have p: "portfolio_inv (rt_portfolio_service rt')"
    "portfolio_get_position iid (rt_portfolio_service rt') = marked_at ?i ?m iid (get_position iid (fb_memory (fs_positions ?f)))"
    "map_of (pf_balances (rt_portfolio_service rt')) a = get_balance a (fb_memory (fs_balances ?f))" for iid a by blast+
  let ?saved = "f'\<lparr>fs_positions := fold pg_save_position (portfolio_all_positions (rt_portfolio_service rt')) (fs_positions f'),
    fs_balances := fold pg_save_balance (portfolio_all_balances (rt_portfolio_service rt')) (fs_balances f')\<rparr>"
  have "save_portfolio fallback_ports (rt_portfolio_service rt') (startup_snapshot event) f' =
      (Inr (), ?saved\<lparr>fs_market_cache := redis_upsert_snapshot (startup_snapshot event) (fs_market_cache f')\<rparr>)"
    by (simp add: save_portfolio_def bindC_def save_all_fallback) (simp add: fallback_ports_def pg_reads)
  then show ?thesis
    using save_restored [OF keyed p] keep
    by (intro exI [of _ "snd (the (run_cycle fallback_ports env config mode reason instr event s))"]
        exI [of _ "portfolio_all_positions (rt_portfolio_service rt')"] exI [of _ "portfolio_all_balances (rt_portfolio_service rt')"])
      (simp add: cycle bindC_def at_field_def app_log_def saved_memory)
qed

text \<open>The files below the local state directory when the run has ended.\<close>

definition files_left :: "fallback_stores \<Rightarrow> local_files" where
  "files_left s = \<lparr>lf_transactions = fb_file (pt_records (fs_transactions s)),
     lf_checkpoints = fb_file (pt_checkpoints (fs_transactions s)), lf_orders = fb_file (fs_orders s),
     lf_positions = fb_file (fs_positions s), lf_balances = fb_file (fs_balances s)\<rparr>"

lemma files_opened: "fallback_stores_new files = Inr s \<Longrightarrow> files_left s = files"
  by (cases files) (auto simp: fallback_stores_new_def postgres_transactions_new_def postgres_orders_new_def postgres_positions_new_def
      postgres_balances_new_def bindE_def files_left_def split: sum.splits)

text \<open>Reopening a repository that was opened from a file and then saved into.\<close>

lemma saved_mirrors:
  "ps \<noteq> [] \<Longrightarrow> mirrors position_fields (fold pg_save_position ps x)"
  "bs \<noteq> [] \<Longrightarrow> mirrors balance_fields (fold pg_save_balance bs y)"
  by (cases ps rule: rev_cases; simp add: pg_save_position_def) (cases bs rule: rev_cases; simp add: pg_save_balance_def)

lemma reopen_saved:
  assumes "postgres_positions_new f = Inr x" "\<forall>p \<in> snd ` set (fb_memory (fold pg_save_position ps x)). position_safe p"
    and "postgres_balances_new g = Inr y" "\<forall>b \<in> snd ` set (fb_memory (fold pg_save_balance bs y)). balance_safe b"
    and keyed: "keyed_inv position_key (fb_memory x)" "keyed_inv ba_asset (fb_memory y)"
  shows "\<exists>x'. postgres_positions_new (fb_file (fold pg_save_position ps x)) = Inr x' \<and>
      map_of (fb_memory x') = map_of (fb_memory (fold pg_save_position ps x))"
    and "\<exists>y'. postgres_balances_new (fb_file (fold pg_save_balance bs y)) = Inr y' \<and>
      map_of (fb_memory y') = map_of (fb_memory (fold pg_save_balance bs y))"
proof -
  have kp: "keyed_inv position_key (fb_memory (fold pg_save_position ps x))"
    unfolding saved_memory by (rule in_memory_positions.inv_saves [OF keyed(1)])
  have kb: "keyed_inv ba_asset (fb_memory (fold pg_save_balance bs y))"
    unfolding saved_memory by (rule in_memory_balances.inv_saves [OF keyed(2)])
  show "\<exists>x'. postgres_positions_new (fb_file (fold pg_save_position ps x)) = Inr x' \<and>
      map_of (fb_memory x') = map_of (fb_memory (fold pg_save_position ps x))"
  proof (cases "ps = []")
    case True
    then show ?thesis using assms(1) by (auto simp: postgres_positions_new_def bindE_def split: sum.splits)
  next
    case False
    from position_file.reload_keyed [OF saved_mirrors(1) [OF False] kp assms(2)] show ?thesis
      by (auto simp: postgres_positions_new_def)
  qed
  show "\<exists>y'. postgres_balances_new (fb_file (fold pg_save_balance bs y)) = Inr y' \<and>
      map_of (fb_memory y') = map_of (fb_memory (fold pg_save_balance bs y))"
  proof (cases "bs = []")
    case True
    then show ?thesis using assms(3) by (auto simp: postgres_balances_new_def bindE_def split: sum.splits)
  next
    case False
    from balance_file.reload_keyed [OF saved_mirrors(2) [OF False] kb assms(4)] show ?thesis
      by (auto simp: postgres_balances_new_def)
  qed
qed

lemma reopen_stores:
  assumes "fallback_stores_new files = Inr s" "fs_transactions s' = fs_transactions s" "fs_orders s' = fs_orders s"
    and saved: "fs_positions s' = fold pg_save_position ps (fs_positions s)" "fs_balances s' = fold pg_save_balance bs (fs_balances s)"
    and "\<forall>iid p. get_position iid (fb_memory (fs_positions s')) = Some p \<longrightarrow> position_safe p"
    and "\<forall>a b. get_balance a (fb_memory (fs_balances s')) = Some b \<longrightarrow> balance_safe b"
  shows "\<exists>s''. fallback_stores_new (files_left s') = Inr s'' \<and> fs_transactions s'' = fs_transactions s \<and> fs_orders s'' = fs_orders s \<and>
       (\<forall>iid. get_position iid (fb_memory (fs_positions s'')) = get_position iid (fb_memory (fs_positions s'))) \<and>
       (\<forall>a. get_balance a (fb_memory (fs_balances s'')) = get_balance a (fb_memory (fs_balances s')))"
proof -
  note keyed = fallback_stores_keyed [OF assms(1)]
  have opened: "postgres_positions_new (lf_positions files) = Inr (fs_positions s)" "postgres_balances_new (lf_balances files) = Inr (fs_balances s)"
    "postgres_transactions_new (lf_transactions files) (lf_checkpoints files) = Inr (fs_transactions s)"
    "postgres_orders_new (lf_orders files) = Inr (fs_orders s)"
    using assms(1) by (auto simp: fallback_stores_new_def bindE_def split: sum.splits)
  have kp: "keyed_inv position_key (fb_memory (fs_positions s'))" "keyed_inv ba_asset (fb_memory (fs_balances s'))"
    unfolding saved saved_memory by (rule in_memory_positions.inv_saves [OF keyed(1)], rule in_memory_balances.inv_saves [OF keyed(2)])
  have safe: "\<forall>p \<in> snd ` set (fb_memory (fs_positions s')). position_safe p" "\<forall>b \<in> snd ` set (fb_memory (fs_balances s')). balance_safe b"
    using assms(6,7) keyed_inv_entry [OF kp(1)] keyed_inv_entry [OF kp(2)] by (auto simp: get_position_def get_balance_def)
  from reopen_saved [OF opened(1) safe(1) [unfolded saved] opened(2) safe(2) [unfolded saved] keyed] obtain x y where
    xy: "postgres_positions_new (fb_file (fs_positions s')) = Inr x" "map_of (fb_memory x) = map_of (fb_memory (fs_positions s'))"
    "postgres_balances_new (fb_file (fs_balances s')) = Inr y" "map_of (fb_memory y) = map_of (fb_memory (fs_balances s'))"
    by (auto simp: saved)
  have left: "lf_transactions (files_left s') = lf_transactions files" "lf_checkpoints (files_left s') = lf_checkpoints files"
    "lf_orders (files_left s') = lf_orders files" "lf_positions (files_left s') = fb_file (fs_positions s')"
    "lf_balances (files_left s') = fb_file (fs_balances s')"
    using assms(2,3) by (simp_all add: files_left_def files_opened [OF assms(1), symmetric])
  show ?thesis using opened(3,4) xy by (auto simp: fallback_stores_new_def bindE_def left get_position_def get_balance_def)
qed

lemma fallback_run:
  assumes "application_config env config_path = Inr config" "ac_instruments config = front # rest" "front \<noteq> []" "CHR '';'' \<notin> set front"
    and "int64_ok (av_clock env 0)" "native_stores_new d config = Inl e" "ac_allow_fallback config" and open_s: "fallback_stores_new files = Inr s"
    and i: "i = instrument_id (mock_instrument config front)"
  shows "\<exists>out s' ps bs. application_run d env files log_file config_path = Some out \<and> ao_result out = Inr () \<and>
    as_stores (ao_state out) = Fallback_stores s' \<and>
    as_event_log (ao_state out) = fold append_event (startup_events env config (mock_instrument config front)
      (startup_trade (mock_instrument config front) (av_clock env))) None \<and>
    fs_transactions s' = fs_transactions s \<and> fs_orders s' = fs_orders s \<and>
    fs_positions s' = fold pg_save_position ps (fs_positions s) \<and> fs_balances s' = fold pg_save_balance bs (fs_balances s) \<and>
    (\<forall>iid. get_position iid (fb_memory (fs_positions s')) = marked_at i (Fin 42010) iid (get_position iid (fb_memory (fs_positions s)))) \<and>
    (\<forall>a. get_balance a (fb_memory (fs_balances s')) = get_balance a (fb_memory (fs_balances s)))"
proof -
  let ?instr = "mock_instrument config front"
  have event: "startup_market_event (av_clock env) ?instr = Inr (startup_trade ?instr (av_clock env))"
    using assms(3-5) by (intro startup_market_event_trade) (simp_all add: mock_instrument_def)
  have trade: "me_instrument (startup_trade ?instr (av_clock env)) = ?instr" "me_price (startup_trade ?instr (av_clock env)) = Fin 42010"
    "0 < me_price (startup_trade ?instr (av_clock env))"
    by (simp_all add: startup_trade_def zero_double_def)
  let ?start = "snd (app_log Warn ''infrastructure_fallback_enabled'' [(''reason'', what e), (''local_state_root'', local_state_root env)]
    (app_start s log_file))"
  have s0: "as_stores ?start = s" "as_event_log ?start = None" by (simp_all add: app_log_def app_start_def reset_log_def)
  have cache: "fs_market_cache (as_stores ?start) = Map.empty"
    using open_s unfolding s0 by (auto simp: fallback_stores_new_def bindE_def split: sum.splits)
  from fallback_cycle [OF assms(2) event _ _ cache trade(3), of env "''fallback''" "what e" ?instr] fallback_stores_keyed [OF open_s]
  obtain s' ps bs where "run_session fallback_ports env config ''fallback'' (what e) ?start = Some (Inr (), s')"
    "as_event_log s' = fold append_event (startup_events env config ?instr (startup_trade ?instr (av_clock env))) None"
    "fs_transactions (as_stores s') = fs_transactions s" "fs_orders (as_stores s') = fs_orders s"
    "fs_positions (as_stores s') = fold pg_save_position ps (fs_positions s)" "fs_balances (as_stores s') = fold pg_save_balance bs (fs_balances s)"
    "\<forall>iid. get_position iid (fb_memory (fs_positions (as_stores s'))) = marked_at i (Fin 42010) iid (get_position iid (fb_memory (fs_positions s)))"
    "\<forall>a. get_balance a (fb_memory (fs_balances (as_stores s'))) = get_balance a (fb_memory (fs_balances s))"
    unfolding s0 trade i by (auto simp: run_session_def assms(2) event Let_def)
  then show ?thesis
    by (simp add: application_run_def assms(1,6,7) open_s outcome_of_def) blast
qed

subsection \<open>Properties of a run\<close>

definition refusing_drivers :: "(sql_tables, string \<rightharpoonup> redis_value, string \<times> int \<rightharpoonup> int64) drivers" where
  "refusing_drivers = \<lparr>dr_libpq = table_server\<lparr>pq_connectdb := \<lambda>_. None\<rparr>, dr_hiredis = map_redis, dr_rdkafka = assigning_client\<rparr>"

definition sample_app_environment :: app_environment where
  "sample_app_environment = \<lparr>av_environment = sample_environment, av_source_dir = ''/wall'', av_temp_dir = ''/tmp'',
     av_files = sample_files, av_clock = int\<rparr>"

definition no_files :: local_files where
  "no_files = \<lparr>lf_transactions = None, lf_checkpoints = None, lf_orders = None, lf_positions = None, lf_balances = None\<rparr>"

definition empty_stores :: fallback_stores where
  "empty_stores = \<lparr>fs_transactions = \<lparr>pt_records = \<lparr>fb_memory = [], fb_file = None\<rparr>, pt_checkpoints = \<lparr>fb_memory = [], fb_file = None\<rparr>\<rparr>,
     fs_orders = \<lparr>fb_memory = [], fb_file = None\<rparr>, fs_positions = \<lparr>fb_memory = [], fb_file = None\<rparr>,
     fs_balances = \<lparr>fb_memory = [], fb_file = None\<rparr>, fs_transaction_cache = Map.empty, fs_market_cache = Map.empty\<rparr>"

lemma sample_application:
  "application_config sample_app_environment [] = Inr sample_config"
  "ac_instruments sample_config = ''BTCUSDT'' # [''ETHUSDT'']" "ac_allow_fallback sample_config"
  "native_stores_new refusing_drivers sample_config = Inl (runtime_error ''failed to connect to PostgreSQL: null connection'')"
  "fallback_stores_new no_files = Inr empty_stores" "int64_ok (av_clock sample_app_environment 0)"
  using sample_config_loads
  by (simp_all add: application_config_def sample_app_environment_def load_config_def sample_config_def native_stores_new_def bindE_def
      refusing_drivers_def libpq_session_def no_files_def empty_stores_def fallback_stores_new_def postgres_transactions_new_def
      postgres_orders_new_def postgres_positions_new_def postgres_balances_new_def load_transactions_def load_checkpoints_def load_file_def)

text \<open>A local state with one position, on the mock instrument, and one balance.\<close>

definition held_position :: position where
  "held_position = \<lparr>po_position_id = ''p1'', po_instrument = (mock_instrument sample_config ''BTCUSDT'')\<lparr>tick_size := Fin 1, lot_size := Fin 1\<rparr>,
     po_net_quantity = Fin 2, po_average_entry_price = Fin 42000, po_realized_pnl = Fin 7, po_unrealized_pnl = 0\<rparr>"

definition held_balance :: balance_snapshot where
  "held_balance = \<lparr>ba_asset = ''USDT'', ba_total_balance = Fin 500, ba_available_balance = Fin 400\<rparr>"

definition held_files :: local_files where
  "held_files = no_files\<lparr>lf_positions := Some (file_text position_fields [held_position]), lf_balances := Some (file_text balance_fields [held_balance])\<rparr>"

definition held_stores :: fallback_stores where
  "held_stores = empty_stores\<lparr>
     fs_positions := \<lparr>fb_memory = [(position_key held_position, held_position)], fb_file = lf_positions held_files\<rparr>,
     fs_balances := \<lparr>fb_memory = [(''USDT'', held_balance)], fb_file = lf_balances held_files\<rparr>\<rparr>"

lemma held_safe: "position_safe held_position" "balance_safe held_balance" "position_safe (update_unrealized (Fin 42010) held_position)"
proof -
  have instr: "instrument_safe (po_instrument held_position)"
    using six_digit_numeral [of "num.One"] six_digit_nat [of 1]
    by (simp add: held_position_def instrument_safe_def mock_instrument_def sample_config_def text_safe_def)
  have marked: "po_unrealized_pnl (update_unrealized (Fin 42010) held_position) = Fin 20"
    by (simp add: update_unrealized_def held_position_def double_eval double_eq_def)
  have "valid_double (Fin 500)" "valid_double (Fin 400)"
    using valid_to_double [of 500] valid_to_double [of 400] by (simp_all del: valid_to_double)
  then show "balance_safe held_balance"
    by (simp add: balance_safe_def held_balance_def text_safe_def normal_double_def)
  show "position_safe held_position"
    using instr by (simp add: position_safe_def held_position_def text_safe_def six_digit_numeral)
  show "position_safe (update_unrealized (Fin 42010) held_position)"
    using instr marked by (simp add: position_safe_def update_unrealized_def held_position_def text_safe_def six_digit_numeral)
qed

lemma held_opens: "fallback_stores_new held_files = Inr held_stores"
  using position_file.load_text [of "[held_position]" "\<lambda>p. AList.update (position_key p) p" "[]"]
    balance_file.load_text [of "[held_balance]" "\<lambda>x. AList.update (ba_asset x) x" "[]"] held_safe
  by (simp add: fallback_stores_new_def bindE_def held_files_def held_stores_def no_files_def empty_stores_def postgres_transactions_new_def
      postgres_orders_new_def postgres_positions_new_def postgres_balances_new_def load_transactions_def load_checkpoints_def
      load_file_def [of _ _ _ _ None] held_balance_def)

text \<open>
  C10. The application never trades. Whatever the configuration, the drivers, the files and the clock, a run
  that completes reports no approved order, no rejected order and no fill: the two strategies watch the
  instrument \<open>exchange:symbol\<close>, and the mock feed trades \<open>mock:exchange:symbol\<close>, which the configured
  \<open>strategy.trigger_instrument_id\<close> names but no strategy is given.
\<close>

theorem application_never_trades:
  assumes "application_run d env files log_file config_path = Some out" "ao_result out = Inr ()"
  shows "as_records (ao_state out) \<noteq> [] \<and> lg_message (last (as_records (ao_state out))) = ''application_startup_complete'' \<and>
    (\<forall>field \<in> {''risk_approved'', ''risk_rejected'', ''fills_applied''}.
       map_of (lg_fields (last (as_records (ao_state out)))) field = Some ''0'')"
proof -
  obtain config where config: "application_config env config_path = Inr config"
    using assms by (auto simp: application_run_def split: sum.splits)
  have "\<exists>mode reason processed snapshot rt health. as_records (ao_state out) \<noteq> [] \<and> last (as_records (ao_state out)) =
      \<lparr>lg_level = Info, lg_message = ''application_startup_complete'',
       lg_fields = summary_fields env config mode reason processed snapshot rt health\<rparr> \<and>
    rt_risk_approved_count rt = 0 \<and> rt_risk_rejected_count rt = 0 \<and> rt_applied_fill_count rt = 0"
  proof (cases "native_stores_new d config")
    case (Inr native)
    then obtain s' where "run_session (native_ports d) env config ''native'' [] (app_start native log_file) = Some (Inr (), s')"
      "as_records (ao_state out) = as_records s'"
      using assms config by (auto simp: application_run_def outcome_of_def)
    then show ?thesis using run_session_counts by metis
  next
    case (Inl e)
    then obtain s0 s' where "run_session fallback_ports env config ''fallback'' (what e) s0 = Some (Inr (), s')"
      "as_records (ao_state out) = as_records s'"
      using assms config by (auto simp: application_run_def outcome_of_def bindC_def app_log_def reading_def split: if_splits sum.splits)
    then show ?thesis using run_session_counts by metis
  qed
  then show ?thesis by (auto simp: summary_fields_def Let_def show_nat_zero)
qed

theorem application_never_trades_witness:
  "\<exists>out. application_run refusing_drivers sample_app_environment no_files None [] = Some out \<and>
    map_of (lg_fields (last (as_records (ao_state out)))) ''risk_approved'' = Some ''0''"
proof -
  obtain out where out: "application_run refusing_drivers sample_app_environment no_files None [] = Some out" "ao_result out = Inr ()"
    using fallback_run [OF sample_application(1,2) _ _ sample_application(6,4,3,5) refl, of None] by auto
  then show ?thesis using application_never_trades [OF out] by auto
qed

text \<open>
  C11. A run over the local files. When the native stores cannot be opened, the fallback is allowed and the
  files load, a run for a usable first symbol completes. It records exactly its own events, the timer if it
  was due, the market event as parsed from its payload and the transaction command. The transactions, their
  checkpoints and the orders stay in memory and in their files as they were found. Every balance is as it
  was found, and so is every position except that of the mock instrument, which is marked at the price of
  the startup trade. The position and balance files hold these records: where they fit their formats (six
  significant digits for a position), opening the files again gives exactly these answers.
\<close>

theorem application_preserves_files:
  assumes "application_config env config_path = Inr config" "ac_instruments config = front # rest" "front \<noteq> []" "CHR '';'' \<notin> set front"
    and "int64_ok (av_clock env 0)" "native_stores_new d config = Inl e" "ac_allow_fallback config" "fallback_stores_new files = Inr s"
    and "i = instrument_id (mock_instrument config front)"
  shows "\<exists>out s'. application_run d env files log_file config_path = Some out \<and> ao_result out = Inr () \<and>
    as_stores (ao_state out) = Fallback_stores s' \<and>
    as_event_log (ao_state out) = fold append_event (startup_events env config (mock_instrument config front)
      (startup_trade (mock_instrument config front) (av_clock env))) None \<and>
    fs_transactions s' = fs_transactions s \<and> fs_orders s' = fs_orders s \<and>
    lf_transactions (files_left s') = lf_transactions files \<and> lf_checkpoints (files_left s') = lf_checkpoints files \<and>
    lf_orders (files_left s') = lf_orders files \<and>
    (\<forall>iid. get_position iid (fb_memory (fs_positions s')) = marked_at i (Fin 42010) iid (get_position iid (fb_memory (fs_positions s)))) \<and>
    (\<forall>a. get_balance a (fb_memory (fs_balances s')) = get_balance a (fb_memory (fs_balances s))) \<and>
    ((\<forall>iid p. get_position iid (fb_memory (fs_positions s')) = Some p \<longrightarrow> position_safe p) \<and>
     (\<forall>a b. get_balance a (fb_memory (fs_balances s)) = Some b \<longrightarrow> balance_safe b) \<longrightarrow>
     (\<exists>s''. fallback_stores_new (files_left s') = Inr s'' \<and> fs_transactions s'' = fs_transactions s \<and> fs_orders s'' = fs_orders s \<and>
       (\<forall>iid. get_position iid (fb_memory (fs_positions s'')) = get_position iid (fb_memory (fs_positions s'))) \<and>
       (\<forall>a. get_balance a (fb_memory (fs_balances s'')) = get_balance a (fb_memory (fs_balances s)))))"
proof -
  from fallback_run [OF assms, of log_file] obtain out s' ps bs where out: "application_run d env files log_file config_path = Some out"
    "ao_result out = Inr ()" "as_stores (ao_state out) = Fallback_stores s'"
    "as_event_log (ao_state out) = fold append_event (startup_events env config (mock_instrument config front)
      (startup_trade (mock_instrument config front) (av_clock env))) None"
    and kept: "fs_transactions s' = fs_transactions s" "fs_orders s' = fs_orders s"
    and saved: "fs_positions s' = fold pg_save_position ps (fs_positions s)" "fs_balances s' = fold pg_save_balance bs (fs_balances s)"
    and found: "\<forall>iid. get_position iid (fb_memory (fs_positions s')) = marked_at i (Fin 42010) iid (get_position iid (fb_memory (fs_positions s)))"
      "\<forall>a. get_balance a (fb_memory (fs_balances s')) = get_balance a (fb_memory (fs_balances s))" by blast
  have files: "lf_transactions (files_left s') = lf_transactions files" "lf_checkpoints (files_left s') = lf_checkpoints files"
    "lf_orders (files_left s') = lf_orders files"
    using kept by (simp_all add: files_left_def files_opened [OF assms(8), symmetric])
  show ?thesis
    using out kept files found reopen_stores [OF assms(8) kept saved]
    by (intro exI [of _ out], intro exI [of _ s']) simp
qed

theorem application_preserves_files_witness:
  "\<exists>out s' s''. application_run refusing_drivers sample_app_environment held_files None [] = Some out \<and> ao_result out = Inr () \<and>
    as_stores (ao_state out) = Fallback_stores s' \<and> fallback_stores_new (files_left s') = Inr s'' \<and>
    get_balance ''USDT'' (fb_memory (fs_balances s'')) = Some held_balance \<and>
    get_position (position_key held_position) (fb_memory (fs_positions s'')) = Some (update_unrealized (Fin 42010) held_position)"
proof -
  let ?i = "instrument_id (mock_instrument sample_config ''BTCUSDT'')"
  have first: "''BTCUSDT'' \<noteq> []" "CHR '';'' \<notin> set ''BTCUSDT''" by simp_all
  from application_preserves_files [OF sample_application(1,2) first sample_application(6,4,3) held_opens refl, of None]
  obtain out s' where out: "application_run refusing_drivers sample_app_environment held_files None [] = Some out" "ao_result out = Inr ()"
    "as_stores (ao_state out) = Fallback_stores s'"
    and pos: "\<forall>iid. get_position iid (fb_memory (fs_positions s')) = marked_at ?i (Fin 42010) iid (get_position iid (fb_memory (fs_positions held_stores)))"
    and reopen: "(\<forall>iid p. get_position iid (fb_memory (fs_positions s')) = Some p \<longrightarrow> position_safe p) \<and>
     (\<forall>a b. get_balance a (fb_memory (fs_balances held_stores)) = Some b \<longrightarrow> balance_safe b) \<longrightarrow>
     (\<exists>s''. fallback_stores_new (files_left s') = Inr s'' \<and> fs_transactions s'' = fs_transactions held_stores \<and> fs_orders s'' = fs_orders held_stores \<and>
       (\<forall>iid. get_position iid (fb_memory (fs_positions s'')) = get_position iid (fb_memory (fs_positions s'))) \<and>
       (\<forall>a. get_balance a (fb_memory (fs_balances s'')) = get_balance a (fb_memory (fs_balances held_stores))))" by blast
  have key: "position_key held_position = ?i" by (simp add: held_position_def)
  have held: "get_position iid (fb_memory (fs_positions held_stores)) = (if iid = ?i then Some held_position else None)"
    "get_balance a (fb_memory (fs_balances held_stores)) = (if a = ''USDT'' then Some held_balance else None)" for iid a
    by (auto simp: held_stores_def get_position_def get_balance_def key)
  have marked: "get_position iid (fb_memory (fs_positions s')) = (if iid = ?i then Some (update_unrealized (Fin 42010) held_position) else None)" for iid
    by (simp only: pos [rule_format] held(1)) (simp add: marked_at_def)
  have "\<exists>s''. fallback_stores_new (files_left s') = Inr s'' \<and> fs_transactions s'' = fs_transactions held_stores \<and> fs_orders s'' = fs_orders held_stores \<and>
       (\<forall>iid. get_position iid (fb_memory (fs_positions s'')) = get_position iid (fb_memory (fs_positions s'))) \<and>
       (\<forall>a. get_balance a (fb_memory (fs_balances s'')) = get_balance a (fb_memory (fs_balances held_stores)))"
    using reopen held_safe by (simp add: marked held)
  then show ?thesis using out by (auto simp: marked held key)
qed

end
