(* ===== verification/Spec2Isabelle.thy ===== *)
theory Spec2Isabelle
  imports Benchmark Simulated_Execution Live_Tracker Risk_Engine Portfolio Strategy Kafka_Wire Exchange_Execution Controller Replay Config_Loader Durable_Recovery Redis_Cache Libpq_Correctness Backtest Application_Correctness
begin

text \<open>
  Verification of the trading engine \<open>wall\<close>.

  \<^bold>\<open>The program.\<close> Transaction commands arrive over Kafka or from JSON lines, market data from exchanges. The
  engine controller polls its sources and publishes the events to handlers, the simulation runtime first. The
  runtime keeps the last market state, lets resting orders match against the event, books the fills in the
  portfolio, shows the event to the strategies, and puts each of their order requests through the operational
  controls, the risk engine and the matching engine. What it does it persists through the interfaces of
  \<open>storage_interfaces.hpp\<close>, implemented in memory, over tab-separated files, over PostgreSQL and over Redis.
  At start-up the recovery service reads the stores back into a fresh runtime. Every event is recorded in a
  log, which the backtest and replay programs run through a runtime of their own. Live venues are reached
  through adapters and a router, and their reports are reconciled by a tracker.

  \<^bold>\<open>Theories and sources.\<close> Paths are relative to the repository's source root.

  The C++ language and library. \<open>Cpp_Double\<close>: binary64 with its single rounding. \<open>Cpp_Strings\<close>, \<open>Cpp_Format\<close>:
  string splitting, \<open>stod\<close>, \<open>stoi\<close>, \<open>stoll\<close>, \<open>operator<<\<close>, \<open>to_string\<close>, and when a printed number is read back
  unchanged. \<open>Prelude\<close>: update loops, sorting, unordered maps. \<open>Actions\<close>, \<open>Drivers\<close>: calls that may throw.

  The trading core. \<open>Core_Types\<close>: \<open>core/types.hpp\<close>, \<open>clock.hpp\<close>, \<open>event_dispatcher.hpp\<close>. \<open>Order_Book\<close>,
  \<open>Matching_Engine\<close>, \<open>Simulated_Execution\<close>, \<open>Live_Tracker\<close>: the files of these names in \<open>execution\<close>.
  \<open>Market_Data\<close>: \<open>market_data\<close>. \<open>Monitoring\<close>, \<open>Logger\<close>: \<open>monitoring\<close>. \<open>Risk_Engine\<close>: \<open>risk\<close>. \<open>Portfolio\<close>:
  \<open>portfolio\<close>. \<open>Strategy\<close>: \<open>strategy\<close>. \<open>Runtime\<close>: \<open>app/simulation_runtime.cpp\<close> and
  \<open>app/runtime_operational_controls.hpp\<close>.

  The edges. \<open>Exchange_Feed\<close>, \<open>Exchange_Execution\<close>: \<open>exchange\<close>, its market-data half and its execution half.
  \<open>Ingestion\<close>: \<open>ingestion\<close>. \<open>Kafka_Wire\<close>: the payloads and the poll loop of
  \<open>infrastructure/kafka_transaction_consumer.cpp\<close> and \<open>kafka_transaction_producer.cpp\<close>. \<open>Kafka_Client\<close>: their
  use of librdkafka. \<open>Publisher\<close>: \<open>app/transaction_publisher_application.cpp\<close>. \<open>Benchmark\<close>:
  \<open>tools/benchmark_main.cpp\<close>.

  The stores. \<open>Storage\<close>: \<open>storage/storage_interfaces.cpp\<close>, the in-memory classes and, as locales, what a client
  may rely on. \<open>Tsv\<close>, \<open>Record_Files\<close>, \<open>Postgres_Files\<close>: the file-backed half of
  \<open>infrastructure/postgres_repositories.cpp\<close>. \<open>Sql_Store\<close>, \<open>Libpq_Repositories\<close>, \<open>Libpq_Tables\<close>,
  \<open>Libpq_Correctness\<close>: its libpq half. \<open>Redis_Cache\<close>: \<open>infrastructure/redis_cache.cpp\<close>. \<open>Replay\<close>:
  \<open>storage/replay_service.cpp\<close>. \<open>Recovery\<close>: \<open>app/recovery_service.cpp\<close> over memory; \<open>Durable_Recovery\<close>:
  over files.

  The programs. \<open>App_Config\<close>, \<open>Config_Loader\<close>: \<open>config\<close>. \<open>Controller\<close>: \<open>app/engine_controller.cpp\<close>
  and \<open>app/mock_event_sources.cpp\<close>. \<open>Bootstrap\<close>: the wiring the programs share. \<open>Backtest\<close>:
  \<open>app/backtest_runner.cpp\<close>, \<open>tools/replay_main.cpp\<close>, \<open>tools/backtest_main.cpp\<close>. \<open>Stores\<close>: the sets of stores an application
  chooses from. \<open>Application\<close>, \<open>Application_Correctness\<close>: \<open>app/application.cpp\<close> and \<open>main.cpp\<close>.

  \<^bold>\<open>How code is read.\<close> A class is a record of its members (a short prefix keeps field names apart), a member
  function a function from the object to the result and the object after it, an enum or variant a datatype.
  \<open>std::optional\<close> and nullable pointers are options. An interface is a record or tuple of functions, its
  promises a locale, each implementation of the repository an interpretation.

  \<^item> Numbers. \<open>double\<close> is \<open>Cpp_Double.double\<close>: finite rationals, two infinities and NaN, every operation rounded
    once to nearest even. The sign of zero and the payload of a NaN are left out. \<open>int\<close> and \<open>int64_t\<close> are integers,
    with the range checks of the parsers written out; counters and sizes are naturals.
  \<^item> Containers. A map the code never iterates is a function to options; one it iterates is an association list
    in some iteration order, and what a theorem states of its contents does not depend on that order. A
    vector is a list.
  \<^item> Errors. An exception inside a component is a left value, \<open>None\<close> of an action or \<open>Inl\<close> of a call that keeps
    its message; \<open>catch\<close> blocks are case distinctions on it. \<open>Outside_enum\<close> marks an unchecked cast of an integer
    that names no enumerator, where the datatypes have no value to give.
  \<^item> Effects. A file is its contents, or \<open>None\<close> when it does not exist. The system clock is a sequence of readings,
    of which each call takes the next one. The environment of the process is a partial function.
  \<^item> Loops. A loop that need not end is a \<open>partial_function (option)\<close>: \<open>sweep\<close> of the matching engine, \<open>drain_loop\<close> of
    the controller, \<open>kafka_poll\<close> and \<open>rdkafka_poll\<close>. \<open>None\<close> is a loop that does not return, and theorems show when
    they return: always over a well-formed book (\<open>submit_refines_match_queue\<close>), when a measure bounds the work
    the handlers add (\<open>drain_terminates\<close>), over finitely many messages (\<open>kafka_poll_terminates\<close>). All other
    loops are structural recursion or have a termination proof. No definition takes fuel.

  \<^bold>\<open>What is proved.\<close>

  \<^item> Matching. A submission does what a list recursion over the opposite queue in price-time order does
    (\<open>submit_refines_match_queue\<close>), with the updates and the record that its outcome calls for; the engine invariant
    holds in every reachable state; fills are at the resting prices, within the limit of the incoming order; a
    submission does not cross an uncrossed book; market events run a list matcher over their levels.
  \<^item> Runtime. Over any run from a first start, the repositories account for the engine and the portfolio: positions up to the
    unrealized profit, orders with their status and filled quantity unless a later order was filled against them.
    Every order tracked or persisted is within the risk limits, and a paused runtime adds no order. A strategy fires once between resets and a failing one pauses
    itself alone.
  \<^item> Recovery and storage. A restored runtime holds the balances, the positions up to the unrealized profit and the restorable open orders
    of the repositories, over memory and over files. The file-backed and libpq repositories answer as the in-memory ones,
    libpq transactions as the file-backed ones; where they do not, the theorem says how (six
    decimals, one row per fill id, an empty reason, an intent without a price lost). Caches over Redis return what the
    in-memory caches return. The event log and the configuration survive writing and reading.
  \<^item> Messages. An offset is committed only after its outcome is persisted; the ingestor handles every command once and in order;
    what the publisher sends is what the consumer parses; a consumer resumed over several partitions keeps only the last.
  \<^item> Programs. A run of the application ends, unless the configuration lists no instrument; it never trades, because
    its mock feed and its strategies name different instruments; over files it leaves every record as it found it, in memory and on file, but for the mark of one position. A backtest is the run of the
    events of its log. The benchmark succeeds exactly for at least one iteration.

  \<^bold>\<open>Bounds on the data.\<close> The round trips ask for what the formats can carry, as predicates: \<open>text_safe\<close> (no tab or line
    end), \<open>nul_free\<close> (no NUL in a C string), \<open>pg_text\<close> (ASCII text without NUL), \<open>six_digit_decimal\<close> and \<open>six_decimals\<close> (what
    \<open>operator<<\<close> and \<open>to_string\<close> keep), \<open>normal_double\<close> (what seventeen digits keep: every finite double but the subnormal
    ones), and the \<open>_safe\<close> predicate of each record built from these. Findings of the
    development are theorems about records outside them.

  \<^bold>\<open>Libraries.\<close> hiredis, libpq and librdkafka are parameters: the records \<open>hiredis\<close>, \<open>libpq\<close> and \<open>rdkafka\<close> of
  the functions the code calls, on a state of any type. What a theorem relies on is a named hypothesis that states
  the library's documentation: \<open>redis_server\<close> (SET, GET, HSET and HMGET), \<open>postgres_server\<close> (the statements the
  repositories send, as syntax trees whose text is the source's; a SELECT without ORDER BY answers in any
  order), \<open>delivers\<close>, \<open>assigns\<close> and \<open>appends\<close> (consuming, assigning and producing). Each is shown to be
  possible by an instance (\<open>map_redis\<close>, \<open>table_server\<close>, \<open>assigning_client\<close>, \<open>log_producer\<close>), on which the
  theorems are applied.

  \<^bold>\<open>Not modelled.\<close> Destructors and the release of library objects; creation of directories and errors of the file
  system other than a file that cannot be opened; the order in which unordered maps are iterated when a log line
  prints them; the texts of exceptions other than \<open>runtime_error\<close>; the console text of summaries, which are
  records; the reservation of vector capacity; declarations of headers that only repeat a definition. The functions
  the tools repeat from \<open>application.cpp\<close> are modelled once, in \<open>Bootstrap\<close>. Tests and vendored code are no
  part of the development.
\<close>

end
